(* ===== verification/Prelude.thy ===== *)
theory Prelude
  imports Main "HOL-Library.Word"
begin

text \<open>
  Shared vocabulary of the development.

  \<^item> \<^bold>\<open>Types.\<close>  Names for the machine integers of the C++ sources.  A signed 64 bit
    integer is the same word, read with \<^term>\<open>sint\<close>.
  \<^item> \<^bold>\<open>Results.\<close>  A function that returns \<open>tl::expected<T, E>\<close> is a function into
    \<open>'e + 'a\<close>, with \<^term>\<open>Inl\<close> for \<open>tl::unexpected\<close>.  A function that can end the process
    (\<open>INTRINSIC_CHECK\<close>, \<open>FATAL\<close> log) is a function into \<open>'a option\<close>, with \<^term>\<open>None\<close> for the
    end of the process; such a type is called \<open>'a checked\<close>.
  \<^item> \<^bold>\<open>State machines.\<close>  Interleavings of threads are step relations; \<open>reach\<close> is their
    reachability, and the locale \<open>inductive_invariant\<close> is the proof rule for safety.
\<close>

type_synonym u8 = "8 word"
type_synonym u32 = "32 word"
type_synonym u64 = "64 word"
type_synonym i64 = "64 word"

type_synonym ('e, 'a) expected = "'e + 'a"
type_synonym 'a checked = "'a option"

named_theorems handler_defs \<open>definitions of operations, unfolded in case analyses\<close>
named_theorems machine_defs \<open>definitions of initial states, steps and invariants of the machines\<close>
named_theorems result_simps \<open>inversion rules for results of fallible operations\<close>

subsection \<open>Expected values\<close>

definition expected_bind :: "('e, 'a) expected \<Rightarrow> ('a \<Rightarrow> ('e, 'b) expected) \<Rightarrow> ('e, 'b) expected"
  where "expected_bind r f = (case r of Inl e \<Rightarrow> Inl e | Inr a \<Rightarrow> f a)"

subsection \<open>Arithmetic of \<open>size_t\<close>\<close>

text \<open>A \<open>size_t\<close> is a natural number below $2^{64}$; sums and differences wrap around.\<close>

definition size_t_add :: "nat \<Rightarrow> nat \<Rightarrow> nat"
  where "size_t_add a b = (a + b) mod 2 ^ 64"

definition size_t_sub :: "nat \<Rightarrow> nat \<Rightarrow> nat"
  where "size_t_sub a b = (a + (2 ^ 64 - b)) mod 2 ^ 64"

subsection \<open>Reachability\<close>

inductive reach :: "('s \<Rightarrow> bool) \<Rightarrow> ('s \<Rightarrow> 's \<Rightarrow> bool) \<Rightarrow> 's \<Rightarrow> bool"
  for init :: "'s \<Rightarrow> bool" and step :: "'s \<Rightarrow> 's \<Rightarrow> bool"
  where
    reach_init: "init s \<Longrightarrow> reach init step s"
  | reach_step: "reach init step s \<Longrightarrow> step s t \<Longrightarrow> reach init step t"

lemma expected_bind_Inr_iff [result_simps]:
  "expected_bind r f = Inr b \<longleftrightarrow> (\<exists>a. r = Inr a \<and> f a = Inr b)"
  by (cases r) (simp_all add: expected_bind_def)

lemma expected_bind_Inl_iff [result_simps]:
  "expected_bind r f = Inl e \<longleftrightarrow> r = Inl e \<or> (\<exists>a. r = Inr a \<and> f a = Inl e)"
  by (cases r) (simp_all add: expected_bind_def)

lemma expected_bind_simps [simp]:
  "expected_bind (Inr a) f = f a" "expected_bind (Inl e) f = Inl e"
  by (simp_all add: expected_bind_def)

lemma size_t_add_exact [simp]: "a + b < 2 ^ 64 \<Longrightarrow> size_t_add a b = a + b"
  by (simp add: size_t_add_def)

lemma size_t_ring_succ:
  assumes "0 < n" "n < 2 ^ 64"
  shows "size_t_add (a mod n) (Suc 0) mod n = Suc a mod n"
proof -
  have "a mod n + 1 < 2 ^ 64" using assms by (metis Suc_eq_plus1 Suc_lessI less_trans mod_less_divisor
      not_less_eq)
  then show ?thesis by (simp add: mod_Suc_eq)
qed

lemma size_t_sub_exact [simp]:
  assumes "b \<le> a" "a < 2 ^ 64"
  shows "size_t_sub a b = a - b"
proof -
  have "a + (2 ^ 64 - b) = (a - b) + 2 ^ 64" using assms by linarith
  moreover have "a - b < 2 ^ 64" using assms by linarith
  ultimately show ?thesis by (simp add: size_t_sub_def)
qed

lemma reach_conj_init: "reach init step s \<Longrightarrow> P \<Longrightarrow> reach (\<lambda>s. P \<and> init s) step s"
  by (induction rule: reach.induct) (auto intro: reach.intros)

locale inductive_invariant =
  fixes init :: "'s \<Rightarrow> bool"
    and step :: "'s \<Rightarrow> 's \<Rightarrow> bool"
    and inv :: "'s \<Rightarrow> bool"
  assumes inv_init: "init s \<Longrightarrow> inv s"
    and inv_step: "inv s \<Longrightarrow> step s t \<Longrightarrow> inv t"
begin

lemma reach_inv: "reach init step s \<Longrightarrow> inv s"
  by (induction rule: reach.induct) (auto intro: inv_init inv_step)

lemma reach_inv_rtranclp: "reach init step s \<Longrightarrow> step\<^sup>*\<^sup>* s t \<Longrightarrow> inv t"
proof (rotate_tac, induction rule: rtranclp_induct)
  case base
  then show ?case by (rule reach_inv)
next
  case (step t u)
  then show ?case by (blast intro: inv_step)
qed

end

subsection \<open>Lists and words\<close>

lemma take_replicate_pad [simp]:
  "take n (take n xs @ replicate (n - length xs) c) = take n xs @ replicate (n - length xs) c"
  by simp

lemma takeWhile_take_prefix:
  "takeWhile P (take n xs) = take n (takeWhile P xs)"
  by (induction xs arbitrary: n) (auto simp: take_Cons split: nat.splits)

lemma mod_add_inj:
  fixes a b c n :: nat
  assumes "a < n" "b < n" "(c + a) mod n = (c + b) mod n"
  shows "a = b"
proof -
  have "(a + (c + (n - c mod n))) mod n = (b + (c + (n - c mod n))) mod n"
    using assms(3) by (metis add.assoc add.commute mod_add_left_eq)
  moreover have "(c + (n - c mod n)) mod n = 0"
  proof -
    have "c + (n - c mod n) = n * (c div n) + n"
      using assms(1) by (metis add.assoc le_add_diff_inverse less_imp_le mod_less_divisor
          gr_implies_not0 mult_div_mod_eq not_gr_zero)
    then show ?thesis by simp
  qed
  ultimately show ?thesis
    using assms(1,2) by (metis add.right_neutral mod_add_right_eq mod_less)
qed

end
