(* ===== verification/Status.thy ===== *)
theory Status
  imports Prelude
begin

text \<open>
  Status values: \<open>icon/utils/status.h\<close> and \<open>icon/utils/status_helpers.h\<close>.

  \<open>StatusCode\<close> is the enumeration, \<open>Status\<close> the code with an unbounded message, and
  \<open>RealtimeStatus\<close> the code with a fixed character array of 101 cells.  Functions of the other
  theories that return a \<open>Status\<close> or a \<open>RealtimeStatus\<close> return its \<open>StatusCode\<close> unless the message
  takes part in the behaviour; \<^term>\<open>Inl\<close> of a code is the \<open>tl::unexpected\<close> of such a status.
\<close>

datatype StatusCode =
    kOk | kCancelled | kUnknown | kInvalidArgument | kDeadlineExceeded | kNotFound
  | kAlreadyExists | kPermissionDenied | kResourceExhausted | kFailedPrecondition | kAborted
  | kOutOfRange | kUnimplemented | kInternal | kUnavailable | kDataLoss | kUnauthenticated

fun StatusCodeName :: "StatusCode \<Rightarrow> string"
  where
    "StatusCodeName kOk = ''OK''"
  | "StatusCodeName kCancelled = ''CANCELLED''"
  | "StatusCodeName kUnknown = ''UNKNOWN''"
  | "StatusCodeName kInvalidArgument = ''INVALID_ARGUMENT''"
  | "StatusCodeName kDeadlineExceeded = ''DEADLINE_EXCEEDED''"
  | "StatusCodeName kNotFound = ''NOT_FOUND''"
  | "StatusCodeName kAlreadyExists = ''ALREADY_EXISTS''"
  | "StatusCodeName kPermissionDenied = ''PERMISSION_DENIED''"
  | "StatusCodeName kResourceExhausted = ''RESOURCE_EXHAUSTED''"
  | "StatusCodeName kFailedPrecondition = ''FAILED_PRECONDITION''"
  | "StatusCodeName kAborted = ''ABORTED''"
  | "StatusCodeName kOutOfRange = ''OUT_OF_RANGE''"
  | "StatusCodeName kUnimplemented = ''UNIMPLEMENTED''"
  | "StatusCodeName kInternal = ''INTERNAL''"
  | "StatusCodeName kUnavailable = ''UNAVAILABLE''"
  | "StatusCodeName kDataLoss = ''DATA_LOSS''"
  | "StatusCodeName kUnauthenticated = ''UNAUTHENTICATED''"

record Status =
  code :: StatusCode
  message :: string

definition status_ok :: "Status \<Rightarrow> bool"
  where "status_ok s = (code s = kOk)"

definition Status_ToString :: "Status \<Rightarrow> string"
  where "Status_ToString s =
    (if message s = [] then StatusCodeName (code s)
     else StatusCodeName (code s) @ '': '' @ message s)"

definition OkStatus :: Status
  where "OkStatus = \<lparr>code = kOk, message = []\<rparr>"

definition kMaxMessageLength :: nat
  where "kMaxMessageLength = 100"

record RealtimeStatus =
  rt_code :: StatusCode
  rt_message :: string

definition rt_ok :: "RealtimeStatus \<Rightarrow> bool"
  where "rt_ok s = (rt_code s = kOk)"

definition GetMessage :: "RealtimeStatus \<Rightarrow> string"
  where "GetMessage s = (if rt_ok s then [] else takeWhile (\<lambda>c. c \<noteq> CHR 0x00) (rt_message s))"

definition RtOkStatus :: RealtimeStatus
  where "RtOkStatus =
    \<lparr>rt_code = kOk, rt_message = replicate (kMaxMessageLength + 1) (CHR 0x00)\<rparr>"

definition ToStatus :: "RealtimeStatus \<Rightarrow> Status"
  where "ToStatus s = \<lparr>code = rt_code s, message = GetMessage s\<rparr>"

definition RealtimeStatus_ToString :: "RealtimeStatus \<Rightarrow> string"
  where "RealtimeStatus_ToString s = Status_ToString (ToStatus s)"

text \<open>
  The text that \<open>std::format\<close> produces is the argument \<open>formatted\<close>.  \<open>std::format_to_n\<close> writes its
  first \<open>message.size() - 1\<close> characters and returns the position behind the last one written.
\<close>

definition FormatStatus :: "StatusCode \<Rightarrow> string \<Rightarrow> Status"
  where "FormatStatus c formatted = \<lparr>code = c, message = formatted\<rparr>"

definition FormatRealtimeStatus :: "StatusCode \<Rightarrow> string \<Rightarrow> RealtimeStatus"
  where "FormatRealtimeStatus c formatted =
    (let s = RtOkStatus\<lparr>rt_code := c\<rparr>;
         written = take (length (rt_message s) - 1) formatted
     in s\<lparr>rt_message := (written @ drop (length written) (rt_message s))[length written := CHR 0x00]\<rparr>)"

definition OverwriteIfError :: "Status \<Rightarrow> Status \<Rightarrow> Status"
  where "OverwriteIfError previous_status new_status =
    (if \<not> status_ok new_status then new_status else previous_status)"

definition OverwriteIfNotError :: "Status \<Rightarrow> Status \<Rightarrow> Status"
  where "OverwriteIfNotError previous_status new_status =
    (if status_ok previous_status then new_status else previous_status)"

definition OverwriteIfError_rt :: "RealtimeStatus \<Rightarrow> RealtimeStatus \<Rightarrow> RealtimeStatus"
  where "OverwriteIfError_rt previous_status new_status =
    (if \<not> rt_ok new_status then new_status else previous_status)"

definition OverwriteIfNotError_rt :: "RealtimeStatus \<Rightarrow> RealtimeStatus \<Rightarrow> RealtimeStatus"
  where "OverwriteIfNotError_rt previous_status new_status =
    (if rt_ok previous_status then new_status else previous_status)"

text \<open>The two helpers on bare codes, for operations whose messages are not modelled.\<close>

definition overwrite_if_error :: "StatusCode \<Rightarrow> StatusCode \<Rightarrow> StatusCode"
  where "overwrite_if_error previous_status new_status =
    (if new_status \<noteq> kOk then new_status else previous_status)"

definition overwrite_if_not_error :: "StatusCode \<Rightarrow> StatusCode \<Rightarrow> StatusCode"
  where "overwrite_if_not_error previous_status new_status =
    (if previous_status = kOk then new_status else previous_status)"

subsection \<open>Names and messages\<close>

lemma StatusCodeName_nonempty: "StatusCodeName c \<noteq> []"
  by (cases c) simp_all

lemma StatusCodeName_no_colon: "CHR '':'' \<notin> set (StatusCodeName c)"
  by (cases c) simp_all

lemma StatusCodeName_inj: "StatusCodeName c = StatusCodeName d \<Longrightarrow> c = d"
  by (cases c; cases d) simp_all

lemma format_realtime_message:
  "rt_message (FormatRealtimeStatus c s) =
    take 100 s @ CHR 0x00 # replicate (100 - length (take 100 s)) (CHR 0x00)"
proof -
  let ?w = "take 100 s"
  have "length ?w \<le> 100" by simp
  then have "drop (length ?w) (replicate 101 (CHR 0x00)) =
      CHR 0x00 # replicate (100 - length ?w) (CHR 0x00)"
    by (simp add: Suc_diff_le flip: replicate_Suc)
  moreover have "(?w @ xs)[length ?w := CHR 0x00] = ?w @ xs[0 := CHR 0x00]" for xs
    by (metis diff_self_eq_0 less_irrefl_nat list_update_append)
  ultimately show ?thesis
    by (simp add: FormatRealtimeStatus_def RtOkStatus_def kMaxMessageLength_def Let_def
        del: length_take)
qed

lemma takeWhile_neq_append_stop: "takeWhile (\<lambda>c. c \<noteq> x) (xs @ x # ys) = takeWhile (\<lambda>c. c \<noteq> x) xs"
  by (induction xs) auto

lemma format_realtime_length: "length (rt_message (FormatRealtimeStatus c s)) = 101"
  by (simp add: format_realtime_message)

text \<open>A realtime status built from a formatted text reads back that text up to its first NUL
  character and truncated to 100 characters (and reads back the empty text when the code is OK); the
  stored array keeps its size of 101 cells and is NUL terminated.\<close>
theorem realtime_status_message_roundtrip:
  "GetMessage (FormatRealtimeStatus c s) =
      (if c = kOk then [] else take kMaxMessageLength (takeWhile (\<lambda>x. x \<noteq> CHR 0x00) s))
   \<and> length (rt_message (FormatRealtimeStatus c s)) = kMaxMessageLength + 1
   \<and> last (rt_message (FormatRealtimeStatus c s)) = CHR 0x00"
proof -
  have code: "rt_code (FormatRealtimeStatus c s) = c"
    by (simp add: FormatRealtimeStatus_def Let_def)
  have "last (rt_message (FormatRealtimeStatus c s)) = CHR 0x00"
    by (simp add: format_realtime_message last_replicate)
  then show ?thesis
    by (simp add: GetMessage_def rt_ok_def code format_realtime_length kMaxMessageLength_def
        format_realtime_message takeWhile_neq_append_stop takeWhile_take_prefix)
qed

subsection \<open>Combining statuses\<close>

lemma status_ok_Ok [simp]: "status_ok OkStatus"
  by (simp add: status_ok_def OkStatus_def)

text \<open>Folding \<open>OverwriteIfError\<close> over a sequence of results keeps the last error, folding
  \<open>OverwriteIfNotError\<close> keeps the first one, and both are OK exactly when every result is OK.\<close>
theorem overwrite_chains:
  "foldl OverwriteIfError OkStatus ss =
      (if \<exists>s\<in>set ss. \<not> status_ok s then last (filter (\<lambda>s. \<not> status_ok s) ss) else OkStatus)
   \<and> foldl OverwriteIfNotError OkStatus (s0 # ss) =
      (if \<exists>s\<in>set (s0 # ss). \<not> status_ok s then hd (filter (\<lambda>s. \<not> status_ok s) (s0 # ss))
       else last (s0 # ss))"
proof
  show "foldl OverwriteIfError OkStatus ss =
      (if \<exists>s\<in>set ss. \<not> status_ok s then last (filter (\<lambda>s. \<not> status_ok s) ss) else OkStatus)"
    by (induction ss rule: rev_induct) (auto simp: OverwriteIfError_def)
  have keep: "foldl OverwriteIfNotError p ss = p" if "\<not> status_ok p" for p ss
    using that by (induction ss arbitrary: p) (auto simp: OverwriteIfNotError_def)
  have "foldl OverwriteIfNotError p ss =
      (if \<exists>s\<in>set (p # ss). \<not> status_ok s then hd (filter (\<lambda>s. \<not> status_ok s) (p # ss))
       else last (p # ss))" for p ss
  proof (induction ss arbitrary: p)
    case Nil
    then show ?case by simp
  next
    case (Cons s ss)
    then show ?case
      by (cases "status_ok p") (simp_all add: OverwriteIfNotError_def keep)
  qed
  moreover have "OverwriteIfNotError OkStatus s0 = s0" by (simp add: OverwriteIfNotError_def)
  ultimately show "foldl OverwriteIfNotError OkStatus (s0 # ss) =
      (if \<exists>s\<in>set (s0 # ss). \<not> status_ok s then hd (filter (\<lambda>s. \<not> status_ok s) (s0 # ss))
       else last (s0 # ss))"
    by simp
qed

end
