(* ===== verification/Fixed_String.thy ===== *)
theory Fixed_String
  imports Status
begin

text \<open>
  Strings in flatbuffer arrays: \<open>icon/flatbuffers/fixed_string.h\<close>, \<open>icon/flatbuffers/flatbuffer_utils.h\<close>
  and \<open>icon/hal/interfaces/hardware_module_state_utils.cc\<close>.

  An array of \<open>size\<close> characters is a list of that length; a null pointer is \<^term>\<open>None\<close>.
\<close>

text \<open>\<open>std::memset\<close> and \<open>std::memcpy\<close> on a prefix of an array.\<close>

definition memcpy_prefix :: "'a list \<Rightarrow> 'a list \<Rightarrow> nat \<Rightarrow> 'a list"
  where "memcpy_prefix dst src n = take n src @ drop n dst"

definition StringCopy :: "string option \<Rightarrow> string \<Rightarrow> StatusCode \<times> string option"
  where "StringCopy destination source =
    (case destination of
       None \<Rightarrow> (kInvalidArgument, None)
     | Some d \<Rightarrow>
         let zeroed = replicate (length d) (CHR 0x00);
             copy_count = min (length d - 1) (length source)
         in (kOk, Some (memcpy_prefix zeroed source copy_count)))"

text \<open>The search for the first NUL: the loop over \<open>data[i]\<close> starting at \<open>i\<close>.\<close>

fun find_nul :: "nat \<Rightarrow> string \<Rightarrow> nat option"
  where
    "find_nul i [] = None"
  | "find_nul i (c # cs) = (if c = CHR 0x00 then Some i else find_nul (Suc i) cs)"

definition StringView :: "string option \<Rightarrow> StatusCode + string"
  where "StringView source =
    (case source of
       None \<Rightarrow> Inl kInvalidArgument
     | Some d \<Rightarrow>
         let string_size = (case find_nul 0 d of None \<Rightarrow> length d | Some i \<Rightarrow> i)
         in Inr (take string_size d))"

text \<open>
  A flatbuffer struct with the fields \<open>data\<close> and \<open>size\<close>.  The length of \<open>data\<close> is \<open>MaxSize\<close>; \<open>size\<close> is
  any unsigned integer type, so \<open>mutate_size\<close> truncates to its width.  Reading more than \<open>MaxSize\<close>
  characters is out of bounds (\<^term>\<open>None\<close>).
\<close>

record (overloaded) 'w sized_array =
  sa_data :: string
  sa_size :: "'w::len word"

definition StringCopy_sized :: "'w::len sized_array option \<Rightarrow> string \<Rightarrow> 'w sized_array option"
  where "StringCopy_sized destination source =
    (case destination of
       None \<Rightarrow> None
     | Some d \<Rightarrow>
         let copy_count = min (length (sa_data d)) (length source)
         in Some (d\<lparr>sa_data := memcpy_prefix (sa_data d) source copy_count,
                    sa_size := word_of_nat copy_count\<rparr>))"

definition StringView_sized :: "'w::len sized_array option \<Rightarrow> string checked"
  where "StringView_sized source =
    (case source of
       None \<Rightarrow> Some []
     | Some d \<Rightarrow>
         if length (sa_data d) < unat (sa_size d) then None
         else Some (take (unat (sa_size d)) (sa_data d)))"

definition CopyFbsVector :: "'a list \<Rightarrow> 'a list \<Rightarrow> StatusCode \<times> 'a list"
  where "CopyFbsVector from to =
    (if length from \<noteq> length to then (kOutOfRange, to) else (kOk, from))"

subsection \<open>The state of a hardware module in shared memory\<close>

datatype StateCode =
    kDeactivated | kDeactivating | kActivated | kActivating | kMotionEnabled | kMotionEnabling
  | kMotionDisabling | kFaulted | kClearingFaults | kInitFailed | kFatallyFaulted | kPreparing
  | kPrepared

record HardwareModuleState =
  hms_code :: StateCode
  hms_message :: string

definition kMaxFaultReasonLength :: nat
  where "kMaxFaultReasonLength = 256"

definition HardwareModuleState_default :: HardwareModuleState
  where "HardwareModuleState_default =
    \<lparr>hms_code = kDeactivated, hms_message = replicate kMaxFaultReasonLength (CHR 0x00)\<rparr>"

definition SetState :: "StateCode \<Rightarrow> string \<Rightarrow> HardwareModuleState \<Rightarrow> HardwareModuleState"
  where "SetState c msg hms =
    (let size = length (hms_message hms);
         copy_length = min (size - 1) (length msg)
     in hms\<lparr>hms_code := c,
            hms_message := take copy_length msg @ replicate (size - copy_length) (CHR 0x00)\<rparr>)"

definition HardwareModuleState_GetMessage :: "HardwareModuleState \<Rightarrow> string"
  where "HardwareModuleState_GetMessage hms = takeWhile (\<lambda>c. c \<noteq> CHR 0x00) (hms_message hms)"

text \<open>The same two functions on the pointer they take, with the check for null.\<close>

definition SetState_ptr :: "HardwareModuleState option \<Rightarrow> StateCode \<Rightarrow> string \<Rightarrow> HardwareModuleState option"
  where "SetState_ptr p c msg = (case p of None \<Rightarrow> None | Some hms \<Rightarrow> Some (SetState c msg hms))"

definition GetMessage_ptr :: "HardwareModuleState option \<Rightarrow> string"
  where "GetMessage_ptr p = (case p of None \<Rightarrow> [] | Some hms \<Rightarrow> HardwareModuleState_GetMessage hms)"

subsection \<open>Round trips\<close>

abbreviation no_nul :: "string \<Rightarrow> bool"
  where "no_nul s \<equiv> CHR 0x00 \<notin> set s"

lemma find_nul_ge: "find_nul i d = Some j \<Longrightarrow> i \<le> j"
  by (induction i d rule: find_nul.induct) (auto split: if_splits)

lemma find_nul_takeWhile:
  "take (case find_nul i d of None \<Rightarrow> length d | Some j \<Rightarrow> j - i) d = takeWhile (\<lambda>c. c \<noteq> CHR 0x00) d"
proof (induction i d rule: find_nul.induct)
  case (2 i c cs)
  then show ?case
    using find_nul_ge[of "Suc i" cs]
    by (auto split: option.splits simp: Suc_diff_le[symmetric] take_Cons')
qed simp

lemma StringView_takeWhile: "StringView (Some d) = Inr (takeWhile (\<lambda>c. c \<noteq> CHR 0x00) d)"
  using find_nul_takeWhile[where i = 0 and d = d] by (simp add: StringView_def split: option.splits)

lemma takeWhile_no_nul_zeros:
  "takeWhile (\<lambda>c. c \<noteq> CHR 0x00) (take n s @ replicate m (CHR 0x00)) = take n (takeWhile (\<lambda>c. c \<noteq> CHR 0x00) s)"
  by (cases m) (simp_all add: takeWhile_neq_append_stop takeWhile_take_prefix)

text \<open>A string copied into a fixed array is read back up to its first NUL, cut to the array's
  size minus one for the terminator; the array keeps its size and ends with a NUL.  A string copied
  into an array with a length field is read back cut to the array's size, whatever characters it
  has.\<close>
theorem fixed_string_roundtrip:
  assumes "length d = n" "0 < n"
    and "length (sa_data (sa :: 'w::len sized_array)) = m" "m < 2 ^ LENGTH('w)"
  shows "(\<exists>d'. StringCopy (Some d) s = (kOk, Some d') \<and> length d' = n \<and> last d' = CHR 0x00
      \<and> StringView (Some d') = Inr (take (n - 1) (takeWhile (\<lambda>c. c \<noteq> CHR 0x00) s)))
    \<and> StringView_sized (StringCopy_sized (Some sa) s) = Some (take m s)"
proof (rule conjI)
  let ?k = "min (n - 1) (length s)"
  let ?d = "take (n - 1) s @ replicate (n - ?k) (CHR 0x00)"
  have copy: "StringCopy (Some d) s = (kOk, Some ?d)"
    using assms(1) by (simp add: StringCopy_def memcpy_prefix_def min.commute Let_def min_def)
  have "length ?d = n" using assms(2) by auto
  moreover have "last ?d = CHR 0x00" using assms(2) by (auto simp: last_append last_replicate)
  ultimately show "\<exists>d'. StringCopy (Some d) s = (kOk, Some d') \<and> length d' = n \<and> last d' = CHR 0x00
      \<and> StringView (Some d') = Inr (take (n - 1) (takeWhile (\<lambda>c. c \<noteq> CHR 0x00) s))"
    using copy by (simp add: StringView_takeWhile takeWhile_no_nul_zeros)
  have "unat (word_of_nat (min m (length s)) :: 'w word) = min m (length s)"
    using assms(4) by (simp add: unat_of_nat take_bit_nat_eq_self)
  then show "StringView_sized (StringCopy_sized (Some sa) s) = Some (take m s)"
    using assms(3)
    by (auto simp: StringView_sized_def StringCopy_sized_def memcpy_prefix_def Let_def min_def)
qed

theorem fixed_string_roundtrip_witness:
  "StringView (Some ''abc'') = Inr ''abc''
    \<and> (\<exists>d'. StringCopy (Some ''????'') ''motor'' = (kOk, Some d') \<and> length d' = 4 \<and> last d' = CHR 0x00
      \<and> StringView (Some d') = Inr ''mot'')
    \<and> StringView_sized (StringCopy_sized (Some \<lparr>sa_data = ''????'', sa_size = (0 :: 8 word)\<rparr>) ''motor'')
      = Some ''moto''"
  using fixed_string_roundtrip[of "''????''" 4 "\<lparr>sa_data = ''????'', sa_size = (0 :: 8 word)\<rparr>" 4 "''motor''"]
  by (simp add: StringView_takeWhile)

lemma SetState_code [simp]: "hms_code (SetState c m s) = c"
  by (simp add: SetState_def Let_def)

lemma SetState_length [simp]: "length (hms_message s) = 256 \<Longrightarrow> length (hms_message (SetState c m s)) = 256"
  by (simp add: SetState_def Let_def)

lemma SetState_message:
  "length (hms_message s) = 256 \<Longrightarrow>
    HardwareModuleState_GetMessage (SetState c m s) = take 255 (takeWhile (\<lambda>c. c \<noteq> CHR 0x00) m)"
  by (simp add: HardwareModuleState_GetMessage_def SetState_def Let_def)
    (metis take_take takeWhile_no_nul_zeros take_all_iff linorder_le_cases)

end
