(* ===== verification/Segment_Header.thy ===== *)
theory Segment_Header
  imports Fixed_String
begin

text \<open>
  The header in front of every shared memory segment:
  \<open>icon/interprocess/shared_memory_manager/segment_header.h\<close> and \<open>segment_header.cc\<close>.

  The process-shared semaphore is its value.  A \<open>sem_wait\<close> on zero blocks and the overflow of an \<open>int\<close>
  is undefined; both are \<^term>\<open>None\<close>.  The update counter is a signed 64 bit integer, kept as a word.
\<close>

definition kMaxSize :: nat
  where "kMaxSize = 100"

record TypeInfo =
  ti_size :: nat
  ti_id :: string

definition TypeInfo_new :: "string \<Rightarrow> TypeInfo"
  where "TypeInfo_new type_id =
    (let string_size = (if length type_id < kMaxSize then length type_id else kMaxSize)
     in \<lparr>ti_size = string_size,
         ti_id = memcpy_prefix (replicate kMaxSize (CHR 0x00)) type_id string_size\<rparr>)"

definition TypeID :: "TypeInfo \<Rightarrow> string"
  where "TypeID t = take (ti_size t) (ti_id t)"

text \<open>\<open>std::strncmp\<close>, as far as its result is zero.\<close>

fun strncmp_equal :: "nat \<Rightarrow> string \<Rightarrow> string \<Rightarrow> bool"
  where
    "strncmp_equal 0 xs ys = True"
  | "strncmp_equal (Suc n) (x # xs) (y # ys) =
      (x = y \<and> (x = CHR 0x00 \<or> strncmp_equal n xs ys))"
  | "strncmp_equal (Suc n) xs ys = (xs = ys)"

definition TypeInfo_equal :: "TypeInfo \<Rightarrow> TypeInfo \<Rightarrow> bool"
  where "TypeInfo_equal l r \<longleftrightarrow>
    ti_size l = ti_size r \<and> strncmp_equal (ti_size l) (ti_id l) (ti_id r)"

datatype Flags = kExclusiveOwnership

primrec flag_index :: "Flags \<Rightarrow> nat"
  where "flag_index kExclusiveOwnership = 0"

record SegmentHeader =
  sh_version :: nat
  sh_mutex :: nat
  sh_ref_count_reader :: int
  sh_ref_count_writer :: int
  sh_type_info :: TypeInfo
  sh_flags :: u8
  sh_last_updated_time :: int
  sh_update_counter :: i64
  sh_updated_at_cycle :: u64

definition ExpectedVersion :: nat
  where "ExpectedVersion = 4"

definition SegmentHeader_new :: "string \<Rightarrow> SegmentHeader"
  where "SegmentHeader_new type_id =
    \<lparr>sh_version = ExpectedVersion, sh_mutex = 1, sh_ref_count_reader = 0, sh_ref_count_writer = 0,
     sh_type_info = TypeInfo_new type_id, sh_flags = 0, sh_last_updated_time = 0,
     sh_update_counter = 0, sh_updated_at_cycle = 0\<rparr>"

definition SegmentHeader_default :: SegmentHeader
  where "SegmentHeader_default = SegmentHeader_new ''UNDEFINED''"

definition SegmentHeader_with_flags :: "string \<Rightarrow> Flags list \<Rightarrow> SegmentHeader"
  where "SegmentHeader_with_flags type_id flags =
    fold (\<lambda>flag h. h\<lparr>sh_flags := set_bit (flag_index flag) (sh_flags h)\<rparr>) flags (SegmentHeader_new type_id)"

definition FlagIsSet :: "Flags \<Rightarrow> SegmentHeader \<Rightarrow> bool"
  where "FlagIsSet flag h = bit (sh_flags h) (flag_index flag)"

text \<open>
  \<open>IncrementRefCount\<close>, \<open>DecrementRefCount\<close> and \<open>ReadRefCountSynchronized\<close> take the semaphore, which is
  back to its value when they return.
\<close>

definition IncrementRefCount :: "nat \<Rightarrow> int \<Rightarrow> int checked"
  where "IncrementRefCount mutex counter =
    (if mutex = 0 \<or> counter = 2 ^ 31 - 1 then None else Some (counter + 1))"

definition DecrementRefCount :: "nat \<Rightarrow> int \<Rightarrow> int checked"
  where "DecrementRefCount mutex counter =
    (if mutex = 0 then None else Some (if counter > 0 then counter - 1 else counter))"

definition ReadRefCountSynchronized :: "nat \<Rightarrow> int \<Rightarrow> int checked"
  where "ReadRefCountSynchronized mutex counter = (if mutex = 0 then None else Some counter)"

definition ReaderRefCount :: "SegmentHeader \<Rightarrow> int checked"
  where "ReaderRefCount h = ReadRefCountSynchronized (sh_mutex h) (sh_ref_count_reader h)"

definition IncrementReaderRefCount :: "SegmentHeader \<Rightarrow> SegmentHeader checked"
  where "IncrementReaderRefCount h =
    map_option (\<lambda>c. h\<lparr>sh_ref_count_reader := c\<rparr>) (IncrementRefCount (sh_mutex h) (sh_ref_count_reader h))"

definition DecrementReaderRefCount :: "SegmentHeader \<Rightarrow> SegmentHeader checked"
  where "DecrementReaderRefCount h =
    map_option (\<lambda>c. h\<lparr>sh_ref_count_reader := c\<rparr>) (DecrementRefCount (sh_mutex h) (sh_ref_count_reader h))"

definition WriterRefCount :: "SegmentHeader \<Rightarrow> int checked"
  where "WriterRefCount h = ReadRefCountSynchronized (sh_mutex h) (sh_ref_count_writer h)"

definition IncrementWriterRefCount :: "SegmentHeader \<Rightarrow> SegmentHeader checked"
  where "IncrementWriterRefCount h =
    map_option (\<lambda>c. h\<lparr>sh_ref_count_writer := c\<rparr>) (IncrementRefCount (sh_mutex h) (sh_ref_count_writer h))"

definition DecrementWriterRefCount :: "SegmentHeader \<Rightarrow> SegmentHeader checked"
  where "DecrementWriterRefCount h =
    map_option (\<lambda>c. h\<lparr>sh_ref_count_writer := c\<rparr>) (DecrementRefCount (sh_mutex h) (sh_ref_count_writer h))"

definition INT64_MAX :: i64
  where "INT64_MAX = 0x7FFFFFFFFFFFFFFF"

definition INT64_MIN :: i64
  where "INT64_MIN = 0x8000000000000000"

definition UpdatedAt :: "int \<Rightarrow> u64 \<Rightarrow> SegmentHeader \<Rightarrow> SegmentHeader"
  where "UpdatedAt time current_cycle h =
    h\<lparr>sh_last_updated_time := time,
      sh_updated_at_cycle := current_cycle,
      sh_update_counter := (if sh_update_counter h = INT64_MAX then INT64_MIN
                            else sh_update_counter h + 1)\<rparr>"

definition NumUpdates :: "SegmentHeader \<Rightarrow> int"
  where "NumUpdates h = sint (sh_update_counter h)"

definition LastUpdatedTime :: "SegmentHeader \<Rightarrow> int"
  where "LastUpdatedTime h = sh_last_updated_time h"

definition LastUpdatedCycle :: "SegmentHeader \<Rightarrow> u64"
  where "LastUpdatedCycle h = sh_updated_at_cycle h"

text \<open>The destructor: it complains about live references and resets the flags.\<close>

definition SegmentHeader_destroy :: "SegmentHeader \<Rightarrow> SegmentHeader"
  where "SegmentHeader_destroy h = h\<lparr>sh_flags := 0, sh_mutex := 0\<rparr>"

subsection \<open>Type ids\<close>

lemma strncmp_equal_no_nul:
  "no_nul (take n xs) \<Longrightarrow> n \<le> length xs \<Longrightarrow> n \<le> length ys \<Longrightarrow>
    strncmp_equal n xs ys \<longleftrightarrow> take n xs = take n ys"
proof (induction n arbitrary: xs ys)
  case (Suc n)
  then show ?case by (cases xs; cases ys) auto
qed simp

lemma TypeID_new: "TypeID (TypeInfo_new s) = take kMaxSize s"
  by (simp add: TypeID_def TypeInfo_new_def Let_def memcpy_prefix_def min_def)

lemma TypeInfo_new_wf:
  "ti_size (TypeInfo_new s) = min (length s) kMaxSize" "length (ti_id (TypeInfo_new s)) = kMaxSize"
  by (auto simp: TypeInfo_new_def Let_def memcpy_prefix_def)

lemma TypeInfo_equal_iff:
  assumes "no_nul s"
  shows "TypeInfo_equal (TypeInfo_new s) (TypeInfo_new t) \<longleftrightarrow> take kMaxSize s = take kMaxSize t"
proof -
  let ?l = "TypeInfo_new s" and ?r = "TypeInfo_new t"
  have "no_nul (TypeID ?l)" using assms by (auto simp: TypeID_new dest: in_set_takeD)
  then have "ti_size ?l = ti_size ?r \<Longrightarrow>
      strncmp_equal (ti_size ?l) (ti_id ?l) (ti_id ?r) \<longleftrightarrow> TypeID ?l = TypeID ?r"
    unfolding TypeID_def by (subst strncmp_equal_no_nul) (simp_all add: TypeInfo_new_wf)
  moreover have "TypeID ?l = TypeID ?r \<Longrightarrow> ti_size ?l = ti_size ?r"
    by (metis TypeID_new TypeInfo_new_wf(1) length_take)
  ultimately show ?thesis unfolding TypeInfo_equal_def by (auto simp: TypeID_new)
qed

subsection \<open>The update counter\<close>

lemma UpdatedAt_counter: "sh_update_counter (UpdatedAt t c h) = sh_update_counter h + 1"
  by (simp add: UpdatedAt_def INT64_MAX_def INT64_MIN_def)

lemma update_counter_fold:
  "sh_update_counter (fold (\<lambda>(t, c). UpdatedAt t c) us h) = sh_update_counter h + word_of_nat (length us)"
  by (induction us arbitrary: h) (auto simp: UpdatedAt_counter)

end
