(* ===== verification/Binary_Futex.thy ===== *)
theory Binary_Futex
  imports Status
begin

text \<open>
  The binary futex of \<open>icon/interprocess/binary_futex.{h,cc}\<close> and the mutex built from it,
  \<open>icon/interprocess/lockable_binary_futex.h\<close>.

  Every operation is one atomic access to \<open>val_\<close>, except \<open>Wait\<close>, which alternates an atomic
  \<open>TryWait\<close> with the futex system call.  The system call, the two clocks and what other threads do to
  \<open>val_\<close> while the caller sleeps are the parameter \<open>env\<close>: \<open>we_futex env timeout i v\<close> is the value of
  \<open>val_\<close> and the return value of the \<open>i\<close>-th call of \<open>FUTEX_WAIT_BITSET\<close>, entered with the value \<open>v\<close>.
  Times are nanoseconds, as in \<open>std::chrono\<close>, without a model of signed overflow.
\<close>

record BinaryFutex =
  bf_val :: u32
  bf_private_futex :: bool

definition kReady :: u32 where "kReady = 0"
definition kPosted :: u32 where "kPosted = 1"
definition kClosed :: u32 where "kClosed = 2"

datatype errno = ETIMEDOUT | EAGAIN | EINTR | EOTHER nat
datatype futex_ret = FutexOk | FutexErr errno

record timespec =
  tv_sec :: int
  tv_nsec :: int

record wait_env =
  we_now :: int
  we_clock_gettime :: "timespec option"
  we_futex :: "timespec option \<Rightarrow> nat \<Rightarrow> u32 \<Rightarrow> u32 \<times> futex_ret"

text \<open>An environment whose clock stands still and whose system call reports an expired timeout.\<close>

definition expired_env :: wait_env
  where "expired_env = \<lparr>we_now = 0, we_clock_gettime = Some \<lparr>tv_sec = 0, tv_nsec = 0\<rparr>,
    we_futex = (\<lambda>_ _ v. (v, FutexErr ETIMEDOUT))\<rparr>"

subsection \<open>Atomic operations\<close>

definition TryWait_val :: "u32 \<Rightarrow> u32 \<times> u32"
  where "TryWait_val val = (if val = kPosted then (kPosted, kReady) else (val, val))"

definition BinaryFutex_new :: "bool \<Rightarrow> bool \<Rightarrow> BinaryFutex"
  where "BinaryFutex_new posted private_futex =
    \<lparr>bf_val = (if posted then kPosted else kReady), bf_private_futex = private_futex\<rparr>"

text \<open>The new object of the move constructor, and the target of a move assignment from another
  object; the source keeps its value.\<close>

definition BinaryFutex_move :: "BinaryFutex \<Rightarrow> BinaryFutex"
  where "BinaryFutex_move other =
    \<lparr>bf_val = bf_val other, bf_private_futex = bf_private_futex other\<rparr>"

definition BinaryFutex_move_assign :: "BinaryFutex \<Rightarrow> BinaryFutex \<Rightarrow> BinaryFutex"
  where "BinaryFutex_move_assign f other =
    f\<lparr>bf_val := bf_val other, bf_private_futex := bf_private_futex other\<rparr>"

definition BinaryFutex_Post :: "BinaryFutex \<Rightarrow> StatusCode \<times> BinaryFutex"
  where "BinaryFutex_Post f =
    (if bf_val f = kReady then (kOk, f\<lparr>bf_val := kPosted\<rparr>)
     else if bf_val f = kClosed then (kAborted, f)
     else (kOk, f))"

text \<open>The number of waiters the call asks the kernel to wake (0: no system call).\<close>

definition BinaryFutex_Post_wakes :: "BinaryFutex \<Rightarrow> nat"
  where "BinaryFutex_Post_wakes f = (if bf_val f = kReady then 1 else 0)"

definition BinaryFutex_TryWait :: "BinaryFutex \<Rightarrow> bool option \<times> BinaryFutex"
  where "BinaryFutex_TryWait f =
    (let (value, val) = TryWait_val (bf_val f)
     in (if value = kReady then Some False else if value = kPosted then Some True else None,
         f\<lparr>bf_val := val\<rparr>))"

definition BinaryFutex_Value :: "BinaryFutex \<Rightarrow> u32"
  where "BinaryFutex_Value f = bf_val f"

definition BinaryFutex_Close :: "BinaryFutex \<Rightarrow> BinaryFutex"
  where "BinaryFutex_Close f = f\<lparr>bf_val := kClosed\<rparr>"

definition INT_MAX :: nat
  where "INT_MAX = 2 ^ 31 - 1"

definition BinaryFutex_Close_wakes :: "BinaryFutex \<Rightarrow> nat"
  where "BinaryFutex_Close_wakes f = (if bf_val f \<noteq> kClosed then INT_MAX else 0)"

subsection \<open>Waiting\<close>

text \<open>The loop of \<open>Wait\<close>; it may run forever, which is the value \<^term>\<open>None\<close>.\<close>

partial_function (option) Wait_loop ::
    "(nat \<Rightarrow> u32 \<Rightarrow> u32 \<times> futex_ret) \<Rightarrow> nat \<Rightarrow> u32 \<Rightarrow> (StatusCode \<times> u32) option"
  where "Wait_loop futex i val =
    (let (value, val1) = TryWait_val val
     in if value = kClosed then Some (kAborted, val1)
        else if value = kPosted then Some (kOk, val1)
        else if value \<noteq> kReady then Some (kInternal, val1)
        else (case futex i val1 of (val2, ret) \<Rightarrow>
                if ret = FutexErr ETIMEDOUT then Some (kDeadlineExceeded, val2)
                else if ret \<noteq> FutexOk \<and> ret \<noteq> FutexErr EAGAIN \<and> ret \<noteq> FutexErr EINTR
                then Some (kInternal, val2)
                else Wait_loop futex (Suc i) val2))"

definition Wait :: "wait_env \<Rightarrow> u32 \<Rightarrow> timespec option \<Rightarrow> (StatusCode \<times> u32) option"
  where "Wait env val ts_absolute = Wait_loop (we_futex env ts_absolute) 0 val"

definition Time_max :: int
  where "Time_max = 2 ^ 63 - 1"

text \<open>\<open>std::chrono::duration_cast\<close> divides integers the way C++ does, towards zero.\<close>

definition duration_cast_seconds :: "int \<Rightarrow> int"
  where "duration_cast_seconds ns = (if 0 \<le> ns then ns div 10 ^ 9 else - ((- ns) div 10 ^ 9))"

definition deadline_timespec :: "int \<Rightarrow> int \<Rightarrow> timespec \<Rightarrow> timespec"
  where "deadline_timespec deadline now now_ts =
    (let duration = deadline - now;
         now_duration = tv_sec now_ts * 10 ^ 9 + tv_nsec now_ts;
         deadline_duration = now_duration + duration;
         secs = duration_cast_seconds deadline_duration;
         ns = deadline_duration - secs * 10 ^ 9
     in \<lparr>tv_sec = max 0 secs, tv_nsec = max 0 ns\<rparr>)"

definition BinaryFutex_WaitUntil ::
    "wait_env \<Rightarrow> int \<Rightarrow> BinaryFutex \<Rightarrow> (StatusCode \<times> BinaryFutex) option"
  where "BinaryFutex_WaitUntil env deadline f =
    (if deadline = Time_max
     then map_option (map_prod id (\<lambda>v. f\<lparr>bf_val := v\<rparr>)) (Wait env (bf_val f) None)
     else case we_clock_gettime env of
            None \<Rightarrow> Some (kInternal, f)
          | Some now_ts \<Rightarrow>
              map_option (map_prod id (\<lambda>v. f\<lparr>bf_val := v\<rparr>))
                (Wait env (bf_val f) (Some (deadline_timespec deadline (we_now env) now_ts))))"

text \<open>\<open>now\<close> is the value of the clock when \<open>WaitFor\<close> starts.\<close>

definition BinaryFutex_WaitFor ::
    "wait_env \<Rightarrow> int \<Rightarrow> int \<Rightarrow> BinaryFutex \<Rightarrow> (StatusCode \<times> BinaryFutex) option"
  where "BinaryFutex_WaitFor env now timeout f =
    (if timeout = Time_max
     then map_option (map_prod id (\<lambda>v. f\<lparr>bf_val := v\<rparr>)) (Wait env (bf_val f) None)
     else BinaryFutex_WaitUntil env (now + timeout) f)"

subsection \<open>The lock\<close>

type_synonym LockableBinaryFutex = BinaryFutex

definition LockableBinaryFutex_new :: "bool \<Rightarrow> LockableBinaryFutex"
  where "LockableBinaryFutex_new private_futex = BinaryFutex_new True private_futex"

definition IsHeld :: "LockableBinaryFutex \<Rightarrow> bool"
  where "IsHeld m = (BinaryFutex_Value m = 0)"

definition Lock :: "wait_env \<Rightarrow> LockableBinaryFutex \<Rightarrow> (StatusCode \<times> LockableBinaryFutex) option"
  where "Lock env m = BinaryFutex_WaitUntil env Time_max m"

definition Unlock :: "LockableBinaryFutex \<Rightarrow> StatusCode \<times> LockableBinaryFutex"
  where "Unlock m = (if \<not> IsHeld m then (kFailedPrecondition, m) else BinaryFutex_Post m)"

definition TryLock :: "LockableBinaryFutex \<Rightarrow> bool \<times> LockableBinaryFutex"
  where "TryLock m =
    (case BinaryFutex_TryWait m of (r, m') \<Rightarrow> (case r of None \<Rightarrow> False | Some b \<Rightarrow> b, m'))"

definition AssertHeld :: "LockableBinaryFutex \<Rightarrow> unit checked"
  where "AssertHeld m = (if IsHeld m then Some () else None)"

definition LockableBinaryFutex_destroy :: "LockableBinaryFutex \<Rightarrow> LockableBinaryFutex checked"
  where "LockableBinaryFutex_destroy m =
    (if BinaryFutex_Value m = 1 then Some (BinaryFutex_Close m) else None)"

text \<open>The scoped lock: an outer \<^term>\<open>None\<close> is a failed check, an inner one a wait without end.\<close>

definition BinaryFutexLock_new ::
    "wait_env \<Rightarrow> LockableBinaryFutex \<Rightarrow> LockableBinaryFutex option checked"
  where "BinaryFutexLock_new env m =
    (case Lock env m of
       None \<Rightarrow> Some None
     | Some (st, m') \<Rightarrow> if st = kOk then Some (Some m') else None)"

definition BinaryFutexLock_destroy :: "LockableBinaryFutex \<Rightarrow> LockableBinaryFutex checked"
  where "BinaryFutexLock_destroy m =
    (case Unlock m of (st, m') \<Rightarrow> if st = kOk then Some m' else None)"

subsection \<open>Threads that use the lock\<close>

text \<open>
  Any number of threads on one lock.  \<open>Lock\<close> and \<open>TryLock\<close> acquire it by the same atomic
  \<open>TryWait\<close>; \<open>Unlock\<close> is a load (\<open>IsHeld\<close>) and a compare-and-exchange (\<open>Post\<close>).  Only the thread
  that acquired the lock releases it.
\<close>

datatype lock_pc = LOut | LHeld | LUnlocking

record 't lock_sys =
  ls_mutex :: LockableBinaryFutex
  ls_pc :: "'t \<Rightarrow> lock_pc"

definition lock_init :: "bool \<Rightarrow> 't lock_sys \<Rightarrow> bool"
  where "lock_init private_futex s \<longleftrightarrow>
    s = \<lparr>ls_mutex = LockableBinaryFutex_new private_futex, ls_pc = (\<lambda>_. LOut)\<rparr>"

inductive lock_step :: "'t lock_sys \<Rightarrow> 't lock_sys \<Rightarrow> bool"
  where
    lock_acquire: "ls_pc s t = LOut \<Longrightarrow> TryLock (ls_mutex s) = (True, m) \<Longrightarrow>
      lock_step s (s\<lparr>ls_mutex := m, ls_pc := (ls_pc s)(t := LHeld)\<rparr>)"
  | lock_refused: "ls_pc s t = LOut \<Longrightarrow> TryLock (ls_mutex s) = (False, m) \<Longrightarrow>
      lock_step s (s\<lparr>ls_mutex := m\<rparr>)"
  | unlock_check: "ls_pc s t = LHeld \<Longrightarrow> IsHeld (ls_mutex s) \<Longrightarrow>
      lock_step s (s\<lparr>ls_pc := (ls_pc s)(t := LUnlocking)\<rparr>)"
  | unlock_post: "ls_pc s t = LUnlocking \<Longrightarrow> BinaryFutex_Post (ls_mutex s) = (c, m) \<Longrightarrow>
      lock_step s (s\<lparr>ls_mutex := m, ls_pc := (ls_pc s)(t := LOut)\<rparr>)"

definition lock_inv :: "'t lock_sys \<Rightarrow> bool"
  where "lock_inv s \<longleftrightarrow>
    (bf_val (ls_mutex s) = kPosted \<and> (\<forall>t. ls_pc s t = LOut))
    \<or> (bf_val (ls_mutex s) = kReady \<and> (\<exists>t. ls_pc s t \<noteq> LOut \<and> (\<forall>u. u \<noteq> t \<longrightarrow> ls_pc s u = LOut)))"

subsection \<open>Sequences of atomic operations\<close>

datatype futex_op = FPost | FTryWait

text \<open>The number of posts that changed the value and the number of successful waits.\<close>

fun futex_run :: "futex_op list \<Rightarrow> BinaryFutex \<Rightarrow> nat \<times> nat \<times> BinaryFutex"
  where
    "futex_run [] f = (0, 0, f)"
  | "futex_run (FPost # ops) f =
      (case futex_run ops (snd (BinaryFutex_Post f)) of
         (posts, waits, f') \<Rightarrow> (posts + BinaryFutex_Post_wakes f, waits, f'))"
  | "futex_run (FTryWait # ops) f =
      (case futex_run ops (snd (BinaryFutex_TryWait f)) of
         (posts, waits, f') \<Rightarrow>
           (posts, waits + (if fst (BinaryFutex_TryWait f) = Some True then 1 else 0), f'))"

definition token :: "BinaryFutex \<Rightarrow> nat"
  where "token f = (if bf_val f = kPosted then 1 else 0)"

text \<open>When the system call ends a wait, and with which result.\<close>

definition wait_stops :: "u32 \<times> futex_ret \<Rightarrow> bool"
  where "wait_stops r \<longleftrightarrow> fst r \<noteq> kReady \<or> (snd r \<noteq> FutexOk \<and> snd r \<noteq> FutexErr EAGAIN \<and> snd r \<noteq> FutexErr EINTR)"

definition wait_result :: "u32 \<times> futex_ret \<Rightarrow> StatusCode \<times> u32"
  where "wait_result r =
    (if snd r = FutexErr ETIMEDOUT then (kDeadlineExceeded, fst r)
     else if snd r \<noteq> FutexOk \<and> snd r \<noteq> FutexErr EAGAIN \<and> snd r \<noteq> FutexErr EINTR then (kInternal, fst r)
     else if fst r = kPosted then (kOk, kReady)
     else if fst r = kClosed then (kAborted, kClosed)
     else (kInternal, fst r))"

lemmas futex_values = kReady_def kPosted_def kClosed_def

lemmas futex_op_defs = BinaryFutex_Post_def BinaryFutex_TryWait_def BinaryFutex_Close_def
  BinaryFutex_Value_def TryWait_val_def BinaryFutex_Post_wakes_def

lemma futex_values_distinct [simp]:
  "kReady \<noteq> kPosted" "kPosted \<noteq> kReady" "kReady \<noteq> kClosed" "kClosed \<noteq> kReady"
  "kPosted \<noteq> kClosed" "kClosed \<noteq> kPosted"
  by (simp_all add: futex_values)

subsection \<open>The wait loop\<close>

lemma Wait_loop_immediate:
  "val \<noteq> kReady \<Longrightarrow> Wait_loop futex i val =
    Some (if val = kPosted then (kOk, kReady) else if val = kClosed then (kAborted, kClosed)
          else (kInternal, val))"
  by (subst Wait_loop.simps) (simp add: TryWait_val_def)

lemma Wait_loop_ready:
  "Wait_loop futex i kReady =
    (if wait_stops (futex i kReady) then Some (wait_result (futex i kReady))
     else Wait_loop futex (Suc i) kReady)"
  by (subst Wait_loop.simps)
    (auto simp: TryWait_val_def wait_stops_def wait_result_def Wait_loop_immediate split: prod.splits)

lemma Wait_loop_first:
  assumes "wait_stops (futex n kReady)" "\<And>j. i \<le> j \<Longrightarrow> j < n \<Longrightarrow> \<not> wait_stops (futex j kReady)" "i \<le> n"
  shows "Wait_loop futex i kReady = Some (wait_result (futex n kReady))"
  using assms
proof (induction "n - i" arbitrary: i)
  case 0
  then show ?case by (subst Wait_loop_ready) simp
next
  case (Suc m)
  then have "i < n" by simp
  with Suc.prems(2)[of i] have "Wait_loop futex i kReady = Wait_loop futex (Suc i) kReady"
    by (subst Wait_loop_ready) simp
  also have "\<dots> = Some (wait_result (futex n kReady))"
    using Suc \<open>i < n\<close> by auto
  finally show ?case .
qed

lemma Wait_loop_returns_stops:
  assumes "Wait_loop futex i kReady = Some r"
  shows "\<exists>j. wait_stops (futex j kReady)"
proof -
  have "kReady = kReady \<longrightarrow> (\<exists>j. wait_stops (futex j kReady))"
  proof (rule Wait_loop.raw_induct[of "\<lambda>futex i val r. val = kReady \<longrightarrow> (\<exists>j. wait_stops (futex j kReady))",
        OF _ assms], intro impI)
    fix loop :: "(nat \<Rightarrow> u32 \<Rightarrow> u32 \<times> futex_ret) \<Rightarrow> nat \<Rightarrow> u32 \<Rightarrow> (StatusCode \<times> u32) option"
      and futex i val r
    assume IH: "\<And>futex i val r. loop futex i val = Some r \<Longrightarrow>
        val = kReady \<longrightarrow> (\<exists>j. wait_stops (futex j kReady))"
      and step: "(let (value, val1) = TryWait_val val
       in if value = kClosed then Some (kAborted, val1)
          else if value = kPosted then Some (kOk, val1)
          else if value \<noteq> kReady then Some (kInternal, val1)
          else (case futex i val1 of (val2, ret) \<Rightarrow>
                  if ret = FutexErr ETIMEDOUT then Some (kDeadlineExceeded, val2)
                  else if ret \<noteq> FutexOk \<and> ret \<noteq> FutexErr EAGAIN \<and> ret \<noteq> FutexErr EINTR
                  then Some (kInternal, val2)
                  else loop futex (Suc i) val2)) = Some r"
      and "val = kReady"
    show "\<exists>j. wait_stops (futex j kReady)"
    proof (cases "wait_stops (futex i kReady)")
      case False
      then obtain ret where "futex i kReady = (kReady, ret)" "ret = FutexOk \<or> ret = FutexErr EAGAIN \<or> ret = FutexErr EINTR"
        by (cases "futex i kReady") (auto simp: wait_stops_def)
      with step \<open>val = kReady\<close> have "loop futex (Suc i) kReady = Some r"
        by (auto simp: TryWait_val_def)
      with IH show ?thesis by blast
    qed blast
  qed
  then show ?thesis by simp
qed

lemma futex_wait_unfold:
  "Wait env val ts =
    (if val = kPosted then Some (kOk, kReady)
     else if val = kClosed then Some (kAborted, kClosed)
     else if val \<noteq> kReady then Some (kInternal, val)
     else if \<exists>i. wait_stops (we_futex env ts i kReady)
     then Some (wait_result (we_futex env ts (LEAST i. wait_stops (we_futex env ts i kReady)) kReady))
     else None)"
proof (cases "val = kReady")
  case True
  show ?thesis
  proof (cases "\<exists>i. wait_stops (we_futex env ts i kReady)")
    case stops: True
    then have "wait_stops (we_futex env ts (LEAST i. wait_stops (we_futex env ts i kReady)) kReady)"
      by (metis LeastI_ex)
    then have "Wait env val ts
        = Some (wait_result (we_futex env ts (LEAST i. wait_stops (we_futex env ts i kReady)) kReady))"
      unfolding Wait_def True by (rule Wait_loop_first) (auto dest: not_less_Least)
    with True stops show ?thesis by simp
  next
    case False
    then have "Wait env val ts = None"
      unfolding Wait_def True using Wait_loop_returns_stops by (metis not_Some_eq)
    with True False show ?thesis by simp
  qed
qed (auto simp: Wait_def Wait_loop_immediate)

text \<open>A wait on a futex that is not ready returns at once, without a system call: it takes the
  token of a posted futex and reports success, and reports \<open>kAborted\<close> for a closed one.  A wait on a
  ready futex returns exactly when some system call ends it (another thread changed the value, the
  timeout expired, or the call failed), and then with the result of the first such call: success takes
  the token, and a wait that times out or fails leaves the value as it found it, so that a token
  posted at the same moment is not lost.\<close>
theorem futex_wait_behaviour:
  "Wait env val ts =
    (if val = kPosted then Some (kOk, kReady)
     else if val = kClosed then Some (kAborted, kClosed)
     else if val \<noteq> kReady then Some (kInternal, val)
     else if \<exists>i. wait_stops (we_futex env ts i kReady)
     then Some (wait_result (we_futex env ts (LEAST i. wait_stops (we_futex env ts i kReady)) kReady))
     else None)"
  by (rule futex_wait_unfold)

lemma futex_wait_until_immediate:
  assumes "bf_val f = kPosted \<or> bf_val f = kClosed" "deadline = Time_max \<or> we_clock_gettime env \<noteq> None"
  shows "BinaryFutex_WaitUntil env deadline f =
    Some (if bf_val f = kPosted then (kOk, f\<lparr>bf_val := kReady\<rparr>) else (kAborted, f))"
  using assms by (auto simp: BinaryFutex_WaitUntil_def futex_wait_unfold)

subsection \<open>Absolute deadlines\<close>

lemma duration_cast_seconds_bounds:
  "0 \<le> d \<Longrightarrow> 0 \<le> duration_cast_seconds d \<and> 0 \<le> d - duration_cast_seconds d * 10 ^ 9
    \<and> d - duration_cast_seconds d * 10 ^ 9 < 10 ^ 9"
  "d < 0 \<Longrightarrow> duration_cast_seconds d \<le> 0 \<and> d - duration_cast_seconds d * 10 ^ 9 \<le> 0"
proof -
  have mod: "e - e div 10 ^ 9 * 10 ^ 9 = e mod 10 ^ 9" for e :: int
    by (simp add: minus_div_mult_eq_mod)
  assume "0 \<le> d"
  then show "0 \<le> duration_cast_seconds d \<and> 0 \<le> d - duration_cast_seconds d * 10 ^ 9
      \<and> d - duration_cast_seconds d * 10 ^ 9 < 10 ^ 9"
    by (simp only: duration_cast_seconds_def mod if_True) (simp add: pos_imp_zdiv_nonneg_iff)
next
  assume d: "d < 0"
  have "d - duration_cast_seconds d * 10 ^ 9 = - ((- d) mod 10 ^ 9)"
    using d minus_div_mult_eq_mod[of "- d" "10 ^ 9"] by (simp add: duration_cast_seconds_def)
  moreover have "0 \<le> (- d) mod 10 ^ 9" "0 \<le> (- d) div 10 ^ 9"
    using d by (simp_all add: pos_imp_zdiv_nonneg_iff)
  ultimately show "duration_cast_seconds d \<le> 0 \<and> d - duration_cast_seconds d * 10 ^ 9 \<le> 0"
    using d by (simp add: duration_cast_seconds_def)
qed

text \<open>The deadline handed to the kernel is a valid \<open>timespec\<close> (nanoseconds below one second, no
  negative component) and denotes the deadline moved to the monotonic clock, or the epoch of that
  clock when the deadline lies before it.\<close>
theorem deadline_timespec_exact:
  "0 \<le> tv_nsec (deadline_timespec deadline now now_ts)
   \<and> tv_nsec (deadline_timespec deadline now now_ts) < 10 ^ 9
   \<and> 0 \<le> tv_sec (deadline_timespec deadline now now_ts)
   \<and> tv_sec (deadline_timespec deadline now now_ts) * 10 ^ 9 + tv_nsec (deadline_timespec deadline now now_ts)
     = max 0 (tv_sec now_ts * 10 ^ 9 + tv_nsec now_ts + (deadline - now))"
proof -
  let ?d = "tv_sec now_ts * 10 ^ 9 + tv_nsec now_ts + (deadline - now)"
  show ?thesis
  proof (cases "0 \<le> ?d")
    case True
    from duration_cast_seconds_bounds(1)[OF True] True show ?thesis
      by (simp add: deadline_timespec_def Let_def)
  next
    case False
    then have "?d < 0" by simp
    from duration_cast_seconds_bounds(2)[OF this] False show ?thesis
      by (simp add: deadline_timespec_def Let_def)
  qed
qed

subsection \<open>Tokens\<close>

lemma futex_token_step:
  "bf_val f = kReady \<or> bf_val f = kPosted \<Longrightarrow>
    (bf_val (snd (BinaryFutex_Post f)) = kReady \<or> bf_val (snd (BinaryFutex_Post f)) = kPosted)
    \<and> token (snd (BinaryFutex_Post f)) = token f + BinaryFutex_Post_wakes f"
  "bf_val f = kReady \<or> bf_val f = kPosted \<Longrightarrow>
    (bf_val (snd (BinaryFutex_TryWait f)) = kReady \<or> bf_val (snd (BinaryFutex_TryWait f)) = kPosted)
    \<and> token (snd (BinaryFutex_TryWait f)) + (if fst (BinaryFutex_TryWait f) = Some True then 1 else 0)
      = token f"
  by (auto simp: futex_op_defs token_def)

text \<open>An open futex is a binary semaphore: in every sequence of posts and non-blocking waits, the
  successful waits and the token left at the end are exactly the token at the start and the posts that
  changed the value.\<close>
theorem futex_token_conservation:
  assumes "bf_val f = kReady \<or> bf_val f = kPosted" "futex_run ops f = (posts, waits, f')"
  shows "waits + token f' = token f + posts \<and> token f' \<le> 1 \<and> posts \<le> count_list ops FPost"
  using assms
proof (induction ops arbitrary: f posts waits f')
  case Nil
  then show ?case by (simp add: token_def)
next
  case (Cons op ops)
  show ?case
  proof (cases op)
    case FPost
    obtain p w where r: "futex_run ops (snd (BinaryFutex_Post f)) = (p, w, f')"
      "posts = p + BinaryFutex_Post_wakes f" "waits = w"
      using Cons.prems(2) FPost by (auto split: prod.splits)
    have "BinaryFutex_Post_wakes f \<le> 1" by (simp add: BinaryFutex_Post_wakes_def)
    with futex_token_step(1)[OF Cons.prems(1)] Cons.IH[OF _ r(1)] r FPost show ?thesis by auto
  next
    case FTryWait
    obtain w where r: "futex_run ops (snd (BinaryFutex_TryWait f)) = (posts, w, f')"
      "waits = w + (if fst (BinaryFutex_TryWait f) = Some True then 1 else 0)"
      using Cons.prems(2) FTryWait by (auto split: prod.splits)
    with futex_token_step(2)[OF Cons.prems(1)] Cons.IH[OF _ r(1)] FTryWait show ?thesis by auto
  qed
qed

theorem futex_token_conservation_witness:
  "futex_run [FPost, FPost, FTryWait, FTryWait] (BinaryFutex_new False True) = (1, 1, BinaryFutex_new False True)
   \<and> (1::nat) + token (BinaryFutex_new False True) = token (BinaryFutex_new False True) + 1"
proof -
  have run: "futex_run [FPost, FPost, FTryWait, FTryWait] (BinaryFutex_new False True)
      = (1, 1, BinaryFutex_new False True)"
    by (simp add: futex_op_defs BinaryFutex_new_def)
  moreover have "bf_val (BinaryFutex_new False True) = kReady" by (simp add: BinaryFutex_new_def)
  ultimately show ?thesis
    using futex_token_conservation[OF disjI1 run] by simp
qed

text \<open>Closing is final for every operation but a move assignment: after \<open>Close\<close>, a post and a wait
  with any deadline report \<open>kAborted\<close>, a non-blocking wait reports that the futex is closed, none of
  them changes the value, and closing again wakes nobody.\<close>
theorem futex_closed_final:
  "BinaryFutex_Post (BinaryFutex_Close f) = (kAborted, BinaryFutex_Close f)
   \<and> BinaryFutex_TryWait (BinaryFutex_Close f) = (None, BinaryFutex_Close f)
   \<and> BinaryFutex_WaitUntil env Time_max (BinaryFutex_Close f) = Some (kAborted, BinaryFutex_Close f)
   \<and> BinaryFutex_WaitUntil (env\<lparr>we_clock_gettime := Some ts\<rparr>) deadline (BinaryFutex_Close f)
      = Some (kAborted, BinaryFutex_Close f)
   \<and> BinaryFutex_Close_wakes (BinaryFutex_Close f) = 0"
  by (simp add: futex_op_defs futex_wait_until_immediate BinaryFutex_Close_wakes_def)

subsection \<open>Mutual exclusion\<close>

lemma lock_inv_init: "lock_init p s \<Longrightarrow> lock_inv s"
  by (auto simp: lock_init_def lock_inv_def LockableBinaryFutex_new_def BinaryFutex_new_def)

lemma lock_inv_sole: "lock_inv s \<Longrightarrow> ls_pc s t \<noteq> LOut \<Longrightarrow>
    bf_val (ls_mutex s) = kReady \<and> (\<forall>u. u \<noteq> t \<longrightarrow> ls_pc s u = LOut)"
  unfolding lock_inv_def by metis

lemma lock_inv_step:
  assumes inv: "lock_inv s" and "lock_step s t"
  shows "lock_inv t"
  using assms(2)
proof (cases rule: lock_step.cases)
  case (lock_acquire u m)
  then have "bf_val (ls_mutex s) = kPosted" "bf_val m = kReady"
    by (auto simp: TryLock_def futex_op_defs split: if_splits prod.splits)
  with inv lock_acquire show ?thesis by (auto simp: lock_inv_def)
next
  case (lock_refused u m)
  then have "m = ls_mutex s"
    by (auto simp: TryLock_def futex_op_defs split: if_splits prod.splits)
  with inv lock_refused show ?thesis by simp
next
  case (unlock_check u)
  with lock_inv_sole[OF inv, of u] show ?thesis by (auto simp: lock_inv_def)
next
  case (unlock_post u c m)
  with lock_inv_sole[OF inv, of u] show ?thesis by (auto simp: lock_inv_def BinaryFutex_Post_def)
qed

interpretation lock: inductive_invariant "lock_init p" lock_step lock_inv for p
  by unfold_locales (erule lock_inv_init, rule lock_inv_step)

text \<open>The lock excludes: among any number of threads at most one is between a successful \<open>Lock\<close>
  or \<open>TryLock\<close> and the end of its \<open>Unlock\<close>; while one is there every \<open>TryLock\<close> is refused, and its own
  \<open>Unlock\<close> succeeds.\<close>
theorem lock_mutual_exclusion:
  assumes "reach (lock_init p) lock_step s" "ls_pc s t \<noteq> LOut"
  shows "(ls_pc s u \<noteq> LOut \<longrightarrow> u = t) \<and> fst (TryLock (ls_mutex s)) = False \<and> IsHeld (ls_mutex s)
    \<and> Unlock (ls_mutex s) = (kOk, (ls_mutex s)\<lparr>bf_val := kPosted\<rparr>)"
proof -
  have "lock_inv s" using assms(1) by (rule lock.reach_inv)
  from lock_inv_sole[OF this assms(2)]
  have "bf_val (ls_mutex s) = kReady" "ls_pc s u \<noteq> LOut \<longrightarrow> u = t" by auto
  then show ?thesis
    by (simp add: TryLock_def futex_op_defs IsHeld_def Unlock_def) (simp add: futex_values)
qed

theorem lock_mutual_exclusion_witness:
  "\<exists>s. reach (lock_init True) lock_step s \<and> ls_pc s (0::nat) = LHeld \<and> ls_pc s (1::nat) = LOut
    \<and> fst (TryLock (ls_mutex s)) = False"
proof -
  let ?s0 = "\<lparr>ls_mutex = LockableBinaryFutex_new True, ls_pc = (\<lambda>_::nat. LOut)\<rparr>"
  have "reach (lock_init True) lock_step ?s0" by (rule reach_init) (simp add: lock_init_def)
  from reach_step[OF this lock_acquire[of _ 0 "\<lparr>bf_val = kReady, bf_private_futex = True\<rparr>"]]
  have "reach (lock_init True) lock_step
      \<lparr>ls_mutex = \<lparr>bf_val = kReady, bf_private_futex = True\<rparr>, ls_pc = (\<lambda>_::nat. LOut)(0 := LHeld)\<rparr>"
    by (simp add: TryLock_def futex_op_defs LockableBinaryFutex_new_def BinaryFutex_new_def)
  from this lock_mutual_exclusion[OF this, of 0 0] show ?thesis by (intro exI conjI) auto
qed

end
