(* ===== verification/Posix.thy ===== *)
theory Posix
  imports Segment_Header Binary_Futex
begin

text \<open>
  The operating system as the shared memory library uses it: descriptors, anonymous files, mappings,
  file locks and sockets.

  A call of the system may fail at any time for reasons outside the model, so every call asks the
  environment (\<open>se_fails\<close>, indexed by the number of calls made so far) first.  A call that does not
  fail has the effect its manual page states: \<open>memfd_create\<close> makes an empty file behind the lowest free
  descriptor, \<open>ftruncate\<close> sets its size and fills it with zeros, \<open>mmap\<close> gives an unused address, and
  \<open>close\<close> releases the descriptor even if it reports an error.

  A file is split into the bytes of its segment header and the payload behind it.  The header is
  \<^term>\<open>None\<close> until one is constructed in place.
\<close>

datatype syscall =
  Sys_memfd_create | Sys_ftruncate | Sys_fstat | Sys_mmap | Sys_mlock | Sys_munmap | Sys_close |
  Sys_open | Sys_flock_ex | Sys_flock_un | Sys_unlink | Sys_socket | Sys_bind | Sys_listen |
  Sys_getrlimit | Sys_create_directories | Sys_connect | Sys_setsockopt | Sys_shutdown

record sys_env =
  se_fails :: "nat \<Rightarrow> syscall \<Rightarrow> errno option"
  se_now :: "nat \<Rightarrow> int"

text \<open>What a descriptor refers to: an anonymous file, a lock file or a socket.\<close>

datatype fd_target = Memfd nat | LockFile string | Sock nat

record memfile =
  f_size :: nat
  f_header :: "SegmentHeader option"
  f_payload :: "u8 list"

record os =
  os_files :: "memfile list"
  os_fds :: "(int \<times> fd_target) list"
  os_maps :: "(nat \<times> nat) list"
  os_next_base :: nat
  os_locks :: "(string \<times> int) list"
  os_socket_files :: "string list"
  os_calls :: nat

text \<open>The size of the header: its members and the alignment to 64 bytes, on a 64 bit platform.\<close>

definition sizeof_SegmentHeader :: nat
  where "sizeof_SegmentHeader = 256"

definition empty_file :: memfile
  where "empty_file = \<lparr>f_size = 0, f_header = None, f_payload = []\<rparr>"

definition os_init :: os
  where "os_init = \<lparr>os_files = [], os_fds = [], os_maps = [], os_next_base = 4096, os_locks = [],
    os_socket_files = [], os_calls = 0\<rparr>"

definition sys_call :: "sys_env \<Rightarrow> syscall \<Rightarrow> os \<Rightarrow> errno option \<times> os"
  where "sys_call env c s = (se_fails env (os_calls s) c, s\<lparr>os_calls := Suc (os_calls s)\<rparr>)"

definition os_now :: "sys_env \<Rightarrow> os \<Rightarrow> int \<times> os"
  where "os_now env s = (se_now env (os_calls s), s\<lparr>os_calls := Suc (os_calls s)\<rparr>)"

definition lowest_free :: "(int \<times> 'a) list \<Rightarrow> int"
  where "lowest_free t = hd (filter (\<lambda>i. i \<notin> fst ` set t) (map int [0..<length t + 1]))"

definition open_fd :: "fd_target \<Rightarrow> os \<Rightarrow> int \<times> os"
  where "open_fd target s =
    (let fd = lowest_free (os_fds s) in (fd, s\<lparr>os_fds := (fd, target) # os_fds s\<rparr>))"

definition memfd_create :: "sys_env \<Rightarrow> os \<Rightarrow> int \<times> os"
  where "memfd_create env s =
    (case sys_call env Sys_memfd_create s of
       (Some _, s1) \<Rightarrow> (- 1, s1)
     | (None, s1) \<Rightarrow>
         open_fd (Memfd (length (os_files s1))) (s1\<lparr>os_files := os_files s1 @ [empty_file]\<rparr>))"

definition resize :: "nat \<Rightarrow> memfile \<Rightarrow> memfile"
  where "resize n f =
    (let m = n - sizeof_SegmentHeader
     in f\<lparr>f_size := n, f_payload := take m (f_payload f) @ replicate (m - length (f_payload f)) 0\<rparr>)"

definition ftruncate :: "sys_env \<Rightarrow> int \<Rightarrow> nat \<Rightarrow> os \<Rightarrow> bool \<times> os"
  where "ftruncate env fd n s =
    (case sys_call env Sys_ftruncate s of
       (Some _, s1) \<Rightarrow> (False, s1)
     | (None, s1) \<Rightarrow>
         (case map_of (os_fds s1) fd of
            Some (Memfd i) \<Rightarrow> (True, s1\<lparr>os_files := (os_files s1)[i := resize n (os_files s1 ! i)]\<rparr>)
          | _ \<Rightarrow> (False, s1)))"

definition fstat_size :: "sys_env \<Rightarrow> int \<Rightarrow> os \<Rightarrow> nat option \<times> os"
  where "fstat_size env fd s =
    (case sys_call env Sys_fstat s of
       (Some _, s1) \<Rightarrow> (None, s1)
     | (None, s1) \<Rightarrow>
         (case map_of (os_fds s1) fd of
            Some (Memfd i) \<Rightarrow> (Some (f_size (os_files s1 ! i)), s1)
          | _ \<Rightarrow> (None, s1)))"

text \<open>A mapping of \<open>n\<close> bytes; \<^term>\<open>0\<close> stands for \<open>MAP_FAILED\<close>.\<close>

definition mmap :: "sys_env \<Rightarrow> nat \<Rightarrow> int \<Rightarrow> os \<Rightarrow> nat \<times> os"
  where "mmap env n fd s =
    (case sys_call env Sys_mmap s of
       (Some _, s1) \<Rightarrow> (0, s1)
     | (None, s1) \<Rightarrow>
         (case map_of (os_fds s1) fd of
            Some (Memfd i) \<Rightarrow>
              (os_next_base s1,
               s1\<lparr>os_maps := (os_next_base s1, i) # os_maps s1,
                  os_next_base := os_next_base s1 + n + 4096\<rparr>)
          | _ \<Rightarrow> (0, s1)))"

definition munmap :: "sys_env \<Rightarrow> nat \<Rightarrow> os \<Rightarrow> bool \<times> os"
  where "munmap env base s =
    (case sys_call env Sys_munmap s of
       (Some _, s1) \<Rightarrow> (False, s1)
     | (None, s1) \<Rightarrow> (True, s1\<lparr>os_maps := filter (\<lambda>(b, i). b \<noteq> base) (os_maps s1)\<rparr>))"

definition mlock :: "sys_env \<Rightarrow> os \<Rightarrow> bool \<times> os"
  where "mlock env s = map_prod (\<lambda>r. r = None) id (sys_call env Sys_mlock s)"

definition close :: "sys_env \<Rightarrow> int \<Rightarrow> os \<Rightarrow> bool \<times> os"
  where "close env fd s =
    (case sys_call env Sys_close s of
       (r, s1) \<Rightarrow>
         (r = None \<and> map_of (os_fds s1) fd \<noteq> None,
          s1\<lparr>os_fds := filter (\<lambda>(d, t). d \<noteq> fd) (os_fds s1),
             os_locks := filter (\<lambda>(p, d). d \<noteq> fd) (os_locks s1)\<rparr>))"

text \<open>Access through a mapping.  An address that is not mapped faults.\<close>

definition mapped_file :: "nat \<Rightarrow> os \<Rightarrow> nat option"
  where "mapped_file base s =
    (case map_of (os_maps s) base of
       Some i \<Rightarrow> if i < length (os_files s) then Some i else None
     | None \<Rightarrow> None)"

definition load_header :: "nat \<Rightarrow> os \<Rightarrow> SegmentHeader checked"
  where "load_header base s =
    (case mapped_file base s of Some i \<Rightarrow> f_header (os_files s ! i) | None \<Rightarrow> None)"

definition store_header :: "nat \<Rightarrow> SegmentHeader \<Rightarrow> os \<Rightarrow> os checked"
  where "store_header base h s =
    (case mapped_file base s of
       Some i \<Rightarrow> Some (s\<lparr>os_files := (os_files s)[i := (os_files s ! i)\<lparr>f_header := Some h\<rparr>]\<rparr>)
     | None \<Rightarrow> None)"

definition load_payload :: "nat \<Rightarrow> os \<Rightarrow> u8 list checked"
  where "load_payload addr s =
    (case mapped_file (addr - sizeof_SegmentHeader) s of
       Some i \<Rightarrow> Some (f_payload (os_files s ! i))
     | None \<Rightarrow> None)"

definition store_payload :: "nat \<Rightarrow> u8 list \<Rightarrow> os \<Rightarrow> os checked"
  where "store_payload addr bytes s =
    (case mapped_file (addr - sizeof_SegmentHeader) s of
       Some i \<Rightarrow>
         let f = os_files s ! i
         in if length (f_payload f) < length bytes then None
            else Some (s\<lparr>os_files := (os_files s)[i :=
                   f\<lparr>f_payload := memcpy_prefix (f_payload f) bytes (length bytes)\<rparr>]\<rparr>)
     | None \<Rightarrow> None)"

subsection \<open>Well-formed states\<close>

definition fd_ok :: "nat \<Rightarrow> fd_target \<Rightarrow> bool"
  where "fd_ok n t = (case t of Memfd i \<Rightarrow> i < n | _ \<Rightarrow> True)"

definition os_wf :: "os \<Rightarrow> bool"
  where "os_wf s \<longleftrightarrow>
    distinct (map fst (os_fds s)) \<and> (\<forall>(fd, t) \<in> set (os_fds s). 0 \<le> fd \<and> fd_ok (length (os_files s)) t)
    \<and> distinct (map fst (os_maps s))
    \<and> (\<forall>(b, i) \<in> set (os_maps s). 0 < b \<and> b < os_next_base s \<and> i < length (os_files s))
    \<and> 0 < os_next_base s
    \<and> distinct (map fst (os_locks s)) \<and> snd ` set (os_locks s) \<subseteq> fst ` set (os_fds s)"

text \<open>Everything open and mapped in \<open>s\<close> is open, mapped and unchanged in \<open>s'\<close>.\<close>

definition os_extends :: "os \<Rightarrow> os \<Rightarrow> bool"
  where "os_extends s s' \<longleftrightarrow>
    (\<forall>b i. map_of (os_maps s) b = Some i \<longrightarrow> map_of (os_maps s') b = Some i)
    \<and> (\<forall>fd t. map_of (os_fds s) fd = Some t \<longrightarrow> map_of (os_fds s') fd = Some t)
    \<and> (\<forall>i < length (os_files s). os_files s' ! i = os_files s ! i)
    \<and> length (os_files s) \<le> length (os_files s')"

lemma os_wf_init: "os_wf os_init"
  by (simp add: os_wf_def os_init_def)

lemma lowest_free_fresh: "lowest_free t \<notin> fst ` set t" "0 \<le> lowest_free t"
proof -
  let ?c = "map int [0..<length t + 1]"
  have "card (set ?c) = length t + 1" 
    by (subst distinct_card) (auto simp: distinct_map)
  moreover have "card (fst ` set t) \<le> length t" by (metis card_length list.set_map length_map)
  ultimately have "\<not> set ?c \<subseteq> fst ` set t"
    by (metis List.finite_set card_mono finite_imageI le_trans not_less_eq_eq Suc_eq_plus1)
  then have "filter (\<lambda>i. i \<notin> fst ` set t) ?c \<noteq> []" by (auto simp: filter_empty_conv)
  from hd_in_set[OF this] have "lowest_free t \<in> {i \<in> set ?c. i \<notin> fst ` set t}"
    unfolding lowest_free_def by (simp only: set_filter)
  then show "lowest_free t \<notin> fst ` set t" "0 \<le> lowest_free t" by auto
qed

lemma lowest_free_unmapped [simp]: "map_of t (lowest_free t) = None"
  using lowest_free_fresh(1) by (simp add: map_of_eq_None_iff)

lemma sys_call_os_wf [simp]: "os_wf (s\<lparr>os_calls := n\<rparr>) = os_wf s"
  by (simp add: os_wf_def)

lemma fd_ok_Suc: "fd_ok n t \<Longrightarrow> fd_ok (Suc n) t"
  by (auto simp: fd_ok_def split: fd_target.splits)

lemma os_wf_fd: "os_wf s \<Longrightarrow> map_of (os_fds s) fd = Some (Memfd i) \<Longrightarrow> i < length (os_files s)"
  by (auto simp: os_wf_def fd_ok_def dest!: map_of_SomeD)

lemma os_wf_map: "os_wf s \<Longrightarrow> map_of (os_maps s) b = Some i \<Longrightarrow> 0 < b \<and> b < os_next_base s \<and> i < length (os_files s)"
  by (auto simp: os_wf_def dest!: map_of_SomeD)

lemma mapped_file_wf: "os_wf s \<Longrightarrow> mapped_file b s = map_of (os_maps s) b"
  by (auto simp: mapped_file_def dest: os_wf_map split: option.split)

lemma fresh_base: "os_wf s \<Longrightarrow> map_of (os_maps s) (os_next_base s) = None"
  using os_wf_map[of s "os_next_base s"] by (cases "map_of (os_maps s) (os_next_base s)") auto

lemma os_extends_refl [simp]: "os_extends s (s\<lparr>os_calls := n\<rparr>)" "os_extends s s"
  by (simp_all add: os_extends_def)

lemma os_extends_trans: "os_extends s t \<Longrightarrow> os_extends t u \<Longrightarrow> os_extends s u"
  by (auto simp: os_extends_def)

lemma os_extends_load:
  "os_extends s s' \<Longrightarrow> mapped_file b s = Some i \<Longrightarrow> mapped_file b s' = Some i \<and> os_files s' ! i = os_files s ! i"
  by (auto simp: os_extends_def mapped_file_def split: option.splits if_splits)

lemma os_extends_load_header: "os_extends s s' \<Longrightarrow> load_header b s = Some h \<Longrightarrow> load_header b s' = Some h"
  using os_extends_load by (auto simp: load_header_def split: option.splits)

lemma os_extends_load_payload: "os_extends s s' \<Longrightarrow> load_payload a s = Some p \<Longrightarrow> load_payload a s' = Some p"
  using os_extends_load by (auto simp: load_payload_def split: option.splits)

end
