(* ===== verification/Shared_Memory.thy ===== *)
theory Shared_Memory
  imports Posix "HOL-Library.Monad_Syntax" "HOL-Library.Multiset"
begin

text \<open>
  Shared memory segments: \<open>shared_memory_manager.h\<close> and \<open>.cc\<close> (who creates them), \<open>memory_segment.h\<close> and
  \<open>.cc\<close> (who opens them) and \<open>segment_info_utils.cc\<close> of \<open>icon/interprocess/shared_memory_manager\<close>.

  A value is its bytes, of the length \<open>sizeof(T)\<close>.  An \<open>std::unordered_map\<close> is an association list; the
  order in which it is iterated is not specified, so operations that iterate take it as an argument.
  \<^term>\<open>None\<close> is an access that faults, blocks for ever or is undefined.
\<close>

subsection \<open>Handles on segments\<close>

datatype ReadWriteKind = kUnknownKind | kReadOnly | kReadWrite

record SegmentDescriptor =
  sd_segment_start :: nat
  sd_size :: nat

record MemorySegment =
  ms_name :: string
  ms_header :: nat
  ms_value :: nat
  ms_size :: nat
  ms_kind :: ReadWriteKind

type_synonym fd_map = "(string \<times> int) list"

definition MemorySegment_default :: MemorySegment
  where "MemorySegment_default =
    \<lparr>ms_name = [], ms_header = 0, ms_value = 0, ms_size = 0, ms_kind = kUnknownKind\<rparr>"

definition MemorySegment_Get ::
    "sys_env \<Rightarrow> fd_map \<Rightarrow> string \<Rightarrow> os \<Rightarrow> (StatusCode + SegmentDescriptor) \<times> os"
  where "MemorySegment_Get env m name s =
    (case map_of m name of
       None \<Rightarrow> (Inl kNotFound, s)
     | Some shm_fd \<Rightarrow>
         if shm_fd = - 1 then (Inl kInternal, s)
         else (case fstat_size env shm_fd s of
           (None, s1) \<Rightarrow> (Inl kInternal, s1)
         | (Some st_size, s1) \<Rightarrow>
             if st_size \<le> sizeof_SegmentHeader then (Inl kInternal, s1)
             else let (start, s2) = mmap env st_size shm_fd s1
                  in if start = 0 then (Inl kInternal, s2)
                     else let (locked, s3) = mlock env s2
                          in if \<not> locked then (Inl kInternal, s3)
                             else (Inr \<lparr>sd_segment_start = start, sd_size = st_size\<rparr>, s3)))"

definition SharedMemorySegmentFitsLowerSizeBound :: "nat \<Rightarrow> nat \<Rightarrow> StatusCode"
  where "SharedMemorySegmentFitsLowerSizeBound sizeof_T segment_size =
    (if segment_size < sizeof_T + sizeof_SegmentHeader then kInternal else kOk)"

definition update_ref_count ::
    "(SegmentHeader \<Rightarrow> SegmentHeader checked) \<Rightarrow> nat \<Rightarrow> os \<Rightarrow> os checked"
  where "update_ref_count f header s = do { h \<leftarrow> load_header header s; h1 \<leftarrow> f h; store_header header h1 s }"

definition MemorySegment_new ::
    "string \<Rightarrow> SegmentDescriptor \<Rightarrow> ReadWriteKind \<Rightarrow> os \<Rightarrow> (MemorySegment \<times> os) checked"
  where "MemorySegment_new name segment kind s =
    (let ms = \<lparr>ms_name = name, ms_header = sd_segment_start segment,
               ms_value = sd_segment_start segment + sizeof_SegmentHeader,
               ms_size = sd_size segment, ms_kind = kind\<rparr>
     in if ms_header ms = 0 then Some (ms, s)
        else map_option (\<lambda>s1. (ms, s1))
          (case kind of
             kReadOnly \<Rightarrow> update_ref_count IncrementReaderRefCount (ms_header ms) s
           | kReadWrite \<Rightarrow> update_ref_count IncrementWriterRefCount (ms_header ms) s
           | kUnknownKind \<Rightarrow> Some s))"

definition TypedMemorySegment_Get ::
    "ReadWriteKind \<Rightarrow> sys_env \<Rightarrow> nat \<Rightarrow> fd_map \<Rightarrow> string \<Rightarrow> os \<Rightarrow> ((StatusCode + MemorySegment) \<times> os) checked"
  where "TypedMemorySegment_Get kind env sizeof_T m segment_name s =
    (case MemorySegment_Get env m segment_name s of
       (Inl e, s1) \<Rightarrow> Some (Inl e, s1)
     | (Inr segment_info, s1) \<Rightarrow>
         let status = SharedMemorySegmentFitsLowerSizeBound sizeof_T (sd_size segment_info)
         in if status \<noteq> kOk then Some (Inl status, s1)
            else map_option (\<lambda>(ms, s2). (Inr ms, s2)) (MemorySegment_new segment_name segment_info kind s1))"

definition ReadOnlyMemorySegment_Get ::
    "sys_env \<Rightarrow> nat \<Rightarrow> fd_map \<Rightarrow> string \<Rightarrow> os \<Rightarrow> ((StatusCode + MemorySegment) \<times> os) checked"
  where "ReadOnlyMemorySegment_Get = TypedMemorySegment_Get kReadOnly"

definition ReadWriteMemorySegment_Get ::
    "sys_env \<Rightarrow> nat \<Rightarrow> fd_map \<Rightarrow> string \<Rightarrow> os \<Rightarrow> ((StatusCode + MemorySegment) \<times> os) checked"
  where "ReadWriteMemorySegment_Get = TypedMemorySegment_Get kReadWrite"

definition MemorySegment_IsValid :: "MemorySegment \<Rightarrow> bool"
  where "MemorySegment_IsValid ms \<longleftrightarrow> ms_value ms \<noteq> 0"

definition ValueSize :: "MemorySegment \<Rightarrow> nat"
  where "ValueSize ms =
    (if \<not> MemorySegment_IsValid ms \<or> sizeof_SegmentHeader > ms_size ms then 0
     else ms_size ms - sizeof_SegmentHeader)"

definition GetValue :: "nat \<Rightarrow> MemorySegment \<Rightarrow> os \<Rightarrow> u8 list checked"
  where "GetValue sizeof_T ms s = map_option (take sizeof_T) (load_payload (ms_value ms) s)"

definition MemorySegment_SetValue :: "u8 list \<Rightarrow> MemorySegment \<Rightarrow> os \<Rightarrow> os checked"
  where "MemorySegment_SetValue bytes ms s = store_payload (ms_value ms) bytes s"

definition MemorySegment_UpdatedAt :: "int \<Rightarrow> u64 \<Rightarrow> MemorySegment \<Rightarrow> os \<Rightarrow> os checked"
  where "MemorySegment_UpdatedAt time current_cycle ms s = do {
    h \<leftarrow> load_header (ms_header ms) s;
    store_header (ms_header ms) (UpdatedAt time current_cycle h) s
  }"

definition CleanUpSharedMemory :: "sys_env \<Rightarrow> MemorySegment \<Rightarrow> os \<Rightarrow> os checked"
  where "CleanUpSharedMemory env ms s =
    (if ms_header ms = 0 then Some s
     else do {
       s1 \<leftarrow> (case ms_kind ms of
                kReadWrite \<Rightarrow> update_ref_count DecrementWriterRefCount (ms_header ms) s
              | kReadOnly \<Rightarrow> update_ref_count DecrementReaderRefCount (ms_header ms) s
              | kUnknownKind \<Rightarrow> Some s);
       Some (snd (munmap env (ms_header ms) s1))
     })"

text \<open>A move leaves the source empty; a move assignment cleans up the target first.\<close>

definition MemorySegment_move :: "MemorySegment \<Rightarrow> MemorySegment \<times> MemorySegment"
  where "MemorySegment_move other = (other, MemorySegment_default)"

definition MemorySegment_move_assign ::
    "sys_env \<Rightarrow> MemorySegment \<Rightarrow> MemorySegment \<Rightarrow> os \<Rightarrow> (MemorySegment \<times> MemorySegment \<times> os) checked"
  where "MemorySegment_move_assign env this other s = do {
    s1 \<leftarrow> CleanUpSharedMemory env this s;
    Some (other, MemorySegment_default, s1)
  }"

subsection \<open>The manager\<close>

record MemorySegmentInfo =
  msi_data :: nat
  msi_length :: nat
  msi_must_be_used :: bool
  msi_fd :: int

record SharedMemoryManager =
  smm_fd_map :: fd_map
  smm_segments :: "(string \<times> MemorySegmentInfo) list"
  smm_module_name :: string
  smm_namespace :: string

definition kMaxSegmentStringSize :: nat
  where "kMaxSegmentStringSize = 255"

definition kMaxNumberOfSegments :: nat
  where "kMaxNumberOfSegments = 300"

definition VerifyName :: "string \<Rightarrow> StatusCode"
  where "VerifyName name =
    (if name = [] then kInvalidArgument
     else if length name \<ge> kMaxSegmentStringSize then kInvalidArgument
     else if CHR ''/'' \<in> set name then kInvalidArgument
     else kOk)"

definition SharedMemoryManager_Create :: "string \<Rightarrow> string \<Rightarrow> StatusCode + SharedMemoryManager"
  where "SharedMemoryManager_Create shared_memory_namespace module_name =
    (if module_name = [] then Inl kInvalidArgument
     else Inr \<lparr>smm_fd_map = [], smm_segments = [], smm_module_name = module_name,
               smm_namespace = shared_memory_namespace\<rparr>)"

text \<open>\<open>std::unordered_map::insert\<close>: an existing key keeps its value.\<close>

definition umap_insert :: "'k \<Rightarrow> 'v \<Rightarrow> ('k \<times> 'v) list \<Rightarrow> ('k \<times> 'v) list"
  where "umap_insert k v m = (if k \<in> fst ` set m then m else m @ [(k, v)])"

text \<open>The system calls of \<open>InitSegment\<close> on the new descriptor, up to the locked mapping.\<close>

definition map_new_segment :: "sys_env \<Rightarrow> int \<Rightarrow> nat \<Rightarrow> os \<Rightarrow> (StatusCode + nat) \<times> os"
  where "map_new_segment env shm_fd segment_size s =
    (let (truncated, s1) = ftruncate env shm_fd segment_size s
     in if \<not> truncated then (Inl kInternal, s1)
        else (case fstat_size env shm_fd s1 of
          (None, s2) \<Rightarrow> (Inl kInternal, s2)
        | (Some st_size, s2) \<Rightarrow>
            if st_size \<noteq> segment_size then (Inl kInternal, s2)
            else let (base, s3) = mmap env segment_size shm_fd s2
                 in if base = 0 then (Inl kInternal, s3)
                    else let (locked, s4) = mlock env s3
                         in if \<not> locked then (Inl kInternal, s4) else (Inr base, s4)))"

definition InitSegment ::
    "sys_env \<Rightarrow> string \<Rightarrow> bool \<Rightarrow> nat \<Rightarrow> string \<Rightarrow> SharedMemoryManager \<Rightarrow> os \<Rightarrow>
     (StatusCode \<times> SharedMemoryManager \<times> os) checked"
  where "InitSegment env name must_be_used payload_size type_id m s =
    (if length (smm_segments m) \<ge> kMaxNumberOfSegments then Some (kResourceExhausted, m, s)
     else if length type_id > kMaxSize then Some (kInvalidArgument, m, s)
     else if name \<in> fst ` set (smm_segments m) then Some (kAlreadyExists, m, s)
     else if VerifyName name \<noteq> kOk then Some (VerifyName name, m, s)
     else let (shm_fd, s1) = memfd_create env s
          in if shm_fd = - 1 then Some (kInternal, m, s1)
             else let segment_size = sizeof_SegmentHeader + payload_size
                  in (case map_new_segment env shm_fd segment_size s1 of
                    (Inl e, s2) \<Rightarrow> Some (e, m, snd (close env shm_fd s2))
                  | (Inr base, s2) \<Rightarrow> do {
                      s3 \<leftarrow> store_header base (SegmentHeader_new type_id) s2;
                      Some (kOk,
                        m\<lparr>smm_fd_map := umap_insert name shm_fd (smm_fd_map m),
                          smm_segments := umap_insert name
                            \<lparr>msi_data = base, msi_length = segment_size, msi_must_be_used = must_be_used,
                             msi_fd = shm_fd\<rparr> (smm_segments m)\<rparr>, s3)
                    }))"

definition GetRawSegment :: "string \<Rightarrow> SharedMemoryManager \<Rightarrow> nat"
  where "GetRawSegment name m =
    (case map_of (smm_segments m) name of None \<Rightarrow> 0 | Some info \<Rightarrow> msi_data info)"

definition GetRawValue :: "string \<Rightarrow> SharedMemoryManager \<Rightarrow> nat"
  where "GetRawValue name m =
    (let base = GetRawSegment name m in if base = 0 then base else base + sizeof_SegmentHeader)"

definition GetSegmentHeader :: "string \<Rightarrow> SharedMemoryManager \<Rightarrow> os \<Rightarrow> SegmentHeader option checked"
  where "GetSegmentHeader name m s =
    (if GetRawSegment name m = 0 then Some None else map_option Some (load_header (GetRawSegment name m) s))"

definition SetSegmentValue :: "string \<Rightarrow> u8 list \<Rightarrow> SharedMemoryManager \<Rightarrow> os \<Rightarrow> (StatusCode \<times> os) checked"
  where "SetSegmentValue name new_value m s =
    (let addr = GetRawValue name m
     in if addr = 0 then Some (kNotFound, s)
        else map_option (\<lambda>s1. (kOk, s1)) (store_payload addr new_value s))"

definition GetSegmentValue :: "nat \<Rightarrow> string \<Rightarrow> SharedMemoryManager \<Rightarrow> os \<Rightarrow> u8 list option checked"
  where "GetSegmentValue sizeof_T name m s =
    (let addr = GetRawValue name m
     in if addr = 0 then Some None else map_option (\<lambda>p. Some (take sizeof_T p)) (load_payload addr s))"

definition AddSegment ::
    "sys_env \<Rightarrow> string \<Rightarrow> bool \<Rightarrow> u8 list \<Rightarrow> string \<Rightarrow> SharedMemoryManager \<Rightarrow> os \<Rightarrow>
     (StatusCode \<times> SharedMemoryManager \<times> os) checked"
  where "AddSegment env name must_be_used value type_id m s = do {
    (status, m1, s1) \<leftarrow> InitSegment env name must_be_used (length value) type_id m s;
    if status \<noteq> kOk then Some (status, m1, s1)
    else do { (set, s2) \<leftarrow> SetSegmentValue name value m1 s1; Some (set, m1, s2) }
  }"

definition AddSegment_bytes ::
    "sys_env \<Rightarrow> string \<Rightarrow> bool \<Rightarrow> nat \<Rightarrow> string \<Rightarrow> SharedMemoryManager \<Rightarrow> os \<Rightarrow>
     (StatusCode \<times> SharedMemoryManager \<times> os) checked"
  where "AddSegment_bytes env name must_be_used payload_size type_id m s =
    InitSegment env name must_be_used payload_size type_id m s"

definition GetRegisteredMemoryNames ::
    "((string \<times> MemorySegmentInfo) list \<Rightarrow> (string \<times> MemorySegmentInfo) list) \<Rightarrow> SharedMemoryManager \<Rightarrow> string list"
  where "GetRegisteredMemoryNames order m = map fst (order (smm_segments m))"

text \<open>The destructor visits the segments: it destroys the header, closes the descriptor and unmaps.\<close>

fun destroy_segments ::
    "sys_env \<Rightarrow> (string \<times> MemorySegmentInfo) list \<Rightarrow> os \<Rightarrow> os checked"
  where
    "destroy_segments env [] s = Some s"
  | "destroy_segments env ((name, info) # segments) s = do {
       h \<leftarrow> load_header (msi_data info) s;
       s1 \<leftarrow> store_header (msi_data info) (SegmentHeader_destroy h) s;
       let s2 = snd (close env (msi_fd info) s1);
       destroy_segments env segments
         (if msi_data info \<noteq> 0 then snd (munmap env (msi_data info) s2) else s2)
     }"

definition SharedMemoryManager_destroy ::
    "((string \<times> MemorySegmentInfo) list \<Rightarrow> (string \<times> MemorySegmentInfo) list) \<Rightarrow>
     sys_env \<Rightarrow> SharedMemoryManager \<Rightarrow> os \<Rightarrow> os checked"
  where "SharedMemoryManager_destroy order env m s = destroy_segments env (order (smm_segments m)) s"

text \<open>The move constructor takes the segments only: the names and the descriptor map are not moved.\<close>

definition SharedMemoryManager_move :: "SharedMemoryManager \<Rightarrow> SharedMemoryManager \<times> SharedMemoryManager"
  where "SharedMemoryManager_move other =
    (\<lparr>smm_fd_map = [], smm_segments = smm_segments other, smm_module_name = [], smm_namespace = []\<rparr>,
     other\<lparr>smm_segments := []\<rparr>)"

text \<open>The move assignment does not release the segments of the target.\<close>

definition SharedMemoryManager_move_assign ::
    "SharedMemoryManager \<Rightarrow> SharedMemoryManager \<Rightarrow> SharedMemoryManager \<times> SharedMemoryManager"
  where "SharedMemoryManager_move_assign this other =
    (this\<lparr>smm_segments := smm_segments other\<rparr>, other\<lparr>smm_segments := []\<rparr>)"

subsection \<open>The list of segments\<close>

record SegmentName =
  sn_value :: string
  sn_must_be_used :: bool

record SegmentInfo =
  si_size :: u32
  si_names :: "SegmentName list"

definition SegmentName_default :: SegmentName
  where "SegmentName_default = \<lparr>sn_value = replicate 255 (CHR 0x00), sn_must_be_used = False\<rparr>"

text \<open>\<open>snprintf(data, n, "%s", s)\<close> into a cleared array.\<close>

definition snprintf_s :: "nat \<Rightarrow> string \<Rightarrow> string"
  where "snprintf_s n s =
    (let text = take (n - 1) (takeWhile (\<lambda>c. c \<noteq> CHR 0x00) s)
     in text @ replicate (n - length text) (CHR 0x00))"

text \<open>\<open>Mutate\<close> past the end of the array is out of bounds.\<close>

fun fill_names :: "nat \<Rightarrow> (string \<times> MemorySegmentInfo) list \<Rightarrow> SegmentName list \<Rightarrow> SegmentName list checked"
  where
    "fill_names index [] names = Some names"
  | "fill_names index ((memory_name, buf) # segments) names =
      (if index < length names
       then fill_names (Suc index) segments (names[index :=
              \<lparr>sn_value = snprintf_s kMaxSegmentStringSize memory_name,
               sn_must_be_used = msi_must_be_used buf\<rparr>])
       else None)"

definition SegmentInfoFromHashMap :: "(string \<times> MemorySegmentInfo) list \<Rightarrow> SegmentInfo checked"
  where "SegmentInfoFromHashMap segments =
    map_option (\<lambda>names. \<lparr>si_size = word_of_nat (length segments), si_names = names\<rparr>)
      (fill_names 0 segments (replicate kMaxNumberOfSegments SegmentName_default))"

definition GetSegmentInfo ::
    "((string \<times> MemorySegmentInfo) list \<Rightarrow> (string \<times> MemorySegmentInfo) list) \<Rightarrow> SharedMemoryManager \<Rightarrow>
     SegmentInfo checked"
  where "GetSegmentInfo order m = SegmentInfoFromHashMap (order (smm_segments m))"

definition InterfaceNameFromSegment :: "SegmentName \<Rightarrow> StatusCode + string"
  where "InterfaceNameFromSegment name = StringView (Some (sn_value name))"

text \<open>The loops over the first \<open>size\<close> names; reading past the array is out of bounds.\<close>

fun collect_names :: "SegmentName list \<Rightarrow> StatusCode + string list"
  where
    "collect_names [] = Inr []"
  | "collect_names (n # ns) =
      expected_bind (InterfaceNameFromSegment n) (\<lambda>name. expected_bind (collect_names ns) (\<lambda>names. Inr (name # names)))"

definition GetNamesFromSegmentInfo :: "SegmentInfo \<Rightarrow> (StatusCode + string list) checked"
  where "GetNamesFromSegmentInfo info =
    (if unat (si_size info) \<le> length (si_names info)
     then Some (collect_names (take (unat (si_size info)) (si_names info))) else None)"

definition GetRequiredInterfaceNamesFromSegmentInfo :: "SegmentInfo \<Rightarrow> (StatusCode + string list) checked"
  where "GetRequiredInterfaceNamesFromSegmentInfo info =
    (if unat (si_size info) \<le> length (si_names info)
     then Some (collect_names (filter sn_must_be_used (take (unat (si_size info)) (si_names info)))) else None)"

subsection \<open>Adding segments\<close>

definition seg_ok :: "os \<Rightarrow> MemorySegmentInfo \<Rightarrow> bool"
  where "seg_ok s info \<longleftrightarrow>
    (\<exists>i h. map_of (os_maps s) (msi_data info) = Some i \<and> map_of (os_fds s) (msi_fd info) = Some (Memfd i)
      \<and> i < length (os_files s) \<and> f_size (os_files s ! i) = msi_length info
      \<and> sizeof_SegmentHeader \<le> msi_length info
      \<and> length (f_payload (os_files s ! i)) = msi_length info - sizeof_SegmentHeader
      \<and> f_header (os_files s ! i) = Some h \<and> sh_mutex h = 1)"

definition seg_file :: "os \<Rightarrow> MemorySegmentInfo \<Rightarrow> nat option"
  where "seg_file s info = map_of (os_maps s) (msi_data info)"

definition smm_wf :: "SharedMemoryManager \<Rightarrow> os \<Rightarrow> bool"
  where "smm_wf m s \<longleftrightarrow>
    distinct (map fst (smm_segments m)) \<and> length (smm_segments m) \<le> kMaxNumberOfSegments
    \<and> smm_fd_map m = map (\<lambda>(n, info). (n, msi_fd info)) (smm_segments m)
    \<and> distinct (map (seg_file s \<circ> snd) (smm_segments m))
    \<and> (\<forall>(n, info) \<in> set (smm_segments m). VerifyName n = kOk \<and> seg_ok s info)"

lemma seg_ok_mono: "os_extends s s' \<Longrightarrow> seg_ok s info \<Longrightarrow> seg_ok s' info"
  unfolding seg_ok_def os_extends_def by (metis order_less_le_trans)

lemma seg_file_mono: "os_extends s s' \<Longrightarrow> seg_ok s info \<Longrightarrow> seg_file s' info = seg_file s info"
  by (auto simp: seg_ok_def os_extends_def seg_file_def)

lemma smm_wf_mono: "os_extends s s' \<Longrightarrow> smm_wf m s \<Longrightarrow> smm_wf m s'"
proof -
  assume e: "os_extends s s'" and w: "smm_wf m s"
  then have "map (seg_file s' \<circ> snd) (smm_segments m) = map (seg_file s \<circ> snd) (smm_segments m)"
    by (fastforce simp: smm_wf_def seg_file_mono[OF e])
  moreover have "distinct (map (seg_file s \<circ> snd) (smm_segments m))" using w by (simp add: smm_wf_def)
  ultimately have "distinct (map (seg_file s' \<circ> snd) (smm_segments m))" by (simp only:)
  with e w show "smm_wf m s'" by (auto simp: smm_wf_def intro: seg_ok_mono)
qed

text \<open>
  The states \<open>InitSegment\<close> goes through: a new file \<open>g\<close> behind the new descriptor \<open>fd\<close>, and perhaps a
  mapping of it.
\<close>

definition grown :: "int \<Rightarrow> memfile \<Rightarrow> nat option \<Rightarrow> nat \<Rightarrow> os \<Rightarrow> os"
  where "grown fd g mapping k s =
    s\<lparr>os_calls := k, os_files := os_files s @ [g], os_fds := (fd, Memfd (length (os_files s))) # os_fds s,
      os_maps := (if mapping = None then os_maps s else (os_next_base s, length (os_files s)) # os_maps s),
      os_next_base := (case mapping of None \<Rightarrow> os_next_base s | Some n \<Rightarrow> os_next_base s + n + 4096)\<rparr>"

lemma grown_fields [simp]:
  "os_calls (grown fd g x k s) = k" "os_locks (grown fd g x k s) = os_locks s"
  "map_of (os_fds (grown fd g x k s)) fd = Some (Memfd (length (os_files s)))"
  "(grown fd g x k s)\<lparr>os_calls := k'\<rparr> = grown fd g x k' s"
  "os_files (grown fd g x k s) = os_files s @ [g]"
  by (simp_all add: grown_def)

lemma memfd_create_grown:
  "memfd_create env s =
    (if se_fails env (os_calls s) Sys_memfd_create = None
     then (lowest_free (os_fds s), grown (lowest_free (os_fds s)) empty_file None (Suc (os_calls s)) s)
     else (- 1, s\<lparr>os_calls := Suc (os_calls s)\<rparr>))"
  by (auto simp: memfd_create_def sys_call_def open_fd_def grown_def Let_def)

lemma ftruncate_grown:
  "ftruncate env fd n (grown fd g x k s) =
    (if se_fails env k Sys_ftruncate = None then (True, grown fd (resize n g) x (Suc k) s)
     else (False, grown fd g x (Suc k) s))"
  by (auto simp: ftruncate_def sys_call_def) (simp add: grown_def)

lemma fstat_grown:
  "fstat_size env fd (grown fd g x k s) =
    (if se_fails env k Sys_fstat = None then Some (f_size g) else None, grown fd g x (Suc k) s)"
  by (auto simp: fstat_size_def sys_call_def)

lemma mmap_grown:
  "mmap env n fd (grown fd g None k s) =
    (if se_fails env k Sys_mmap = None then (os_next_base s, grown fd g (Some n) (Suc k) s)
     else (0, grown fd g None (Suc k) s))"
  by (auto simp: mmap_def sys_call_def) (simp_all add: grown_def)

lemma mlock_grown:
  "mlock env (grown fd g x k s) = (se_fails env k Sys_mlock = None, grown fd g x (Suc k) s)"
  by (auto simp: mlock_def sys_call_def)

lemma mapped_grown [simp]:
  "mapped_file (os_next_base s) (grown fd g (Some n) k s) = Some (length (os_files s))"
  by (simp add: mapped_file_def grown_def)

lemma store_header_grown:
  "store_header (os_next_base s) h (grown fd g (Some n) k s) = Some (grown fd (g\<lparr>f_header := Some h\<rparr>) (Some n) k s)"
  by (simp add: store_header_def) (simp add: grown_def)

lemma store_payload_grown:
  "length bytes = length (f_payload g) \<Longrightarrow>
    store_payload (os_next_base s + sizeof_SegmentHeader) bytes (grown fd g (Some n) k s)
      = Some (grown fd (g\<lparr>f_payload := bytes\<rparr>) (Some n) k s)"
  by (simp add: store_payload_def Let_def memcpy_prefix_def) (simp add: grown_def)

lemma grown_wf:
  assumes "os_wf s" "fd = lowest_free (os_fds s)"
  shows "os_wf (grown fd g x k s)" "os_extends s (grown fd g x k s)"
proof -
  have fresh: "fd \<notin> fst ` set (os_fds s)" "0 \<le> fd" using lowest_free_fresh assms(2) by auto
  have base: "os_next_base s \<notin> fst ` set (os_maps s)"
    using fresh_base[OF assms(1)] by (simp add: map_of_eq_None_iff)
  show "os_wf (grown fd g x k s)"
    unfolding os_wf_def
  proof (intro conjI)
    show "\<forall>(d, t) \<in> set (os_fds (grown fd g x k s)). 0 \<le> d \<and> fd_ok (length (os_files (grown fd g x k s))) t"
      using assms(1) fresh by (auto simp: os_wf_def grown_def fd_ok_def split: fd_target.splits)
    show "\<forall>(b, i) \<in> set (os_maps (grown fd g x k s)).
        0 < b \<and> b < os_next_base (grown fd g x k s) \<and> i < length (os_files (grown fd g x k s))"
      using assms(1) by (cases x) (auto simp: os_wf_def grown_def)
  qed (use assms(1) fresh base in \<open>auto simp: os_wf_def grown_def split: option.splits\<close>)
  show "os_extends s (grown fd g x k s)"
    using fresh base
    by (auto simp: os_extends_def grown_def nth_append dest!: map_of_SomeD intro: rev_image_eqI)
qed

lemma close_grown:
  assumes "os_wf s" "fd = lowest_free (os_fds s)" "t = snd (close env fd (grown fd g x k s))"
  shows "os_fds t = os_fds s" "os_locks t = os_locks s" "os_extends s t" "os_wf t"
proof -
  have fresh: "\<And>x. (fd, x) \<notin> set (os_fds s)"
    using lowest_free_fresh(1)[of "os_fds s"] assms(2) by (metis fst_conv imageI)
  have "snd ` set (os_locks s) \<subseteq> fst ` set (os_fds s)" using assms(1) by (simp add: os_wf_def)
  then have "\<And>p. (p, fd) \<notin> set (os_locks s)"
    using lowest_free_fresh(1)[of "os_fds s"] assms(2) by (metis imageI snd_conv subsetD)
  with fresh have *: "filter (\<lambda>(d, t). d \<noteq> fd) (os_fds s) = os_fds s"
      "filter (\<lambda>(p, d). d \<noteq> fd) (os_locks s) = os_locks s" by (auto intro!: filter_True)
  then show f: "os_fds t = os_fds s" "os_locks t = os_locks s"
    by (simp_all add: assms(3) close_def sys_call_def grown_def)
  show "os_extends s t"
    using grown_wf(2)[OF assms(1,2), of g x "Suc k"] f(1)
    by (auto simp: os_extends_def assms(3) close_def sys_call_def)
  show "os_wf t"
    using grown_wf(1)[OF assms(1,2), of g x "Suc k"] assms(1) f
    by (auto simp: os_wf_def assms(3) close_def sys_call_def intro!: fd_ok_Suc)
qed

lemma map_new_segment_grown:
  assumes "os_wf s"
  shows "map_new_segment env fd n (grown fd empty_file None k s) =
      (Inr (os_next_base s), grown fd (resize n empty_file) (Some n) (k + 4) s)
    \<or> (\<exists>g x k'. map_new_segment env fd n (grown fd empty_file None k s) = (Inl kInternal, grown fd g x k' s))"
proof -
  have "os_next_base s \<noteq> 0" using assms by (auto simp: os_wf_def)
  moreover have "f_size (resize n empty_file) = n" by (simp add: resize_def Let_def)
  ultimately show ?thesis
    by (simp add: map_new_segment_def ftruncate_grown fstat_grown mmap_grown mlock_grown Let_def
        eval_nat_numeral) blast
qed

text \<open>What \<open>InitSegment\<close> rejects before it makes a system call.\<close>

definition rejects :: "string \<Rightarrow> string \<Rightarrow> SharedMemoryManager \<Rightarrow> StatusCode"
  where "rejects name type_id m =
    (if length (smm_segments m) \<ge> kMaxNumberOfSegments then kResourceExhausted
     else if length type_id > kMaxSize then kInvalidArgument
     else if name \<in> fst ` set (smm_segments m) then kAlreadyExists
     else VerifyName name)"

definition never_fails :: "sys_env \<Rightarrow> bool"
  where "never_fails env \<longleftrightarrow> (\<forall>n c. se_fails env n c = None)"

definition new_file :: "nat \<Rightarrow> string \<Rightarrow> memfile"
  where "new_file n type_id =
    \<lparr>f_size = sizeof_SegmentHeader + n, f_header = Some (SegmentHeader_new type_id), f_payload = replicate n 0\<rparr>"

definition with_segment :: "string \<Rightarrow> bool \<Rightarrow> nat \<Rightarrow> os \<Rightarrow> SharedMemoryManager \<Rightarrow> SharedMemoryManager"
  where "with_segment name must_be_used n s m =
    m\<lparr>smm_fd_map := smm_fd_map m @ [(name, lowest_free (os_fds s))],
      smm_segments := smm_segments m @ [(name,
        \<lparr>msi_data = os_next_base s, msi_length = sizeof_SegmentHeader + n,
         msi_must_be_used = must_be_used, msi_fd = lowest_free (os_fds s)\<rparr>)]\<rparr>"

lemma resize_new_file:
  "(resize (sizeof_SegmentHeader + n) empty_file)\<lparr>f_header := Some (SegmentHeader_new t)\<rparr> = new_file n t"
  by (simp add: resize_def empty_file_def new_file_def Let_def)

lemma InitSegment_rejects:
  "rejects name type_id m \<noteq> kOk \<Longrightarrow>
    InitSegment env name must_be_used n type_id m s = Some (rejects name type_id m, m, s)"
  by (auto simp: InitSegment_def rejects_def Let_def)

text \<open>An accepted call: the system calls decide.\<close>

lemma InitSegment_accepts:
  fixes n :: nat
  assumes "rejects name type_id m = kOk" "smm_wf m s"
  defines "fd \<equiv> lowest_free (os_fds s)" and "len \<equiv> sizeof_SegmentHeader + n"
  shows "InitSegment env name must_be_used n type_id m s =
    (if se_fails env (os_calls s) Sys_memfd_create \<noteq> None
     then Some (kInternal, m, s\<lparr>os_calls := Suc (os_calls s)\<rparr>)
     else case map_new_segment env fd len (grown fd empty_file None (Suc (os_calls s)) s) of
        (Inl e, s2) \<Rightarrow> Some (e, m, snd (close env fd s2))
      | (Inr base, s2) \<Rightarrow> Option.bind (store_header base (SegmentHeader_new type_id) s2) (\<lambda>s3. Some (kOk,
          m\<lparr>smm_fd_map := smm_fd_map m @ [(name, fd)],
            smm_segments := smm_segments m @ [(name, \<lparr>msi_data = base, msi_length = len,
              msi_must_be_used = must_be_used, msi_fd = fd\<rparr>)]\<rparr>, s3)))"
proof -
  have pre: "\<not> kMaxNumberOfSegments \<le> length (smm_segments m)" "\<not> kMaxSize < length type_id"
    "name \<notin> fst ` set (smm_segments m)" "VerifyName name = kOk"
    using assms(1) by (auto simp: rejects_def split: if_splits)
  moreover have "fst ` set (smm_fd_map m) = fst ` set (smm_segments m)"
    using assms(2) by (force simp: smm_wf_def)
  moreover have "lowest_free (os_fds s) \<noteq> - 1" using lowest_free_fresh(2)[of "os_fds s"] by linarith
  moreover obtain r t where "map_new_segment env fd len (grown fd empty_file None (Suc (os_calls s)) s) = (r, t)"
    by force
  ultimately show ?thesis
    by (cases "se_fails env (os_calls s) Sys_memfd_create"; cases r)
      (simp_all add: InitSegment_def memfd_create_grown Let_def umap_insert_def fd_def len_def)
qed

lemma map_new_segment_never_fails:
  assumes "os_wf s" "never_fails env"
  shows "map_new_segment env fd n (grown fd empty_file None k s) =
    (Inr (os_next_base s), grown fd (resize n empty_file) (Some n) (k + 4) s)"
proof -
  have "os_next_base s \<noteq> 0" using assms(1) by (auto simp: os_wf_def)
  moreover have "f_size (resize n empty_file) = n" by (simp add: resize_def Let_def)
  ultimately show ?thesis
    using assms(2) by (simp add: never_fails_def map_new_segment_def ftruncate_grown fstat_grown
        mmap_grown mlock_grown Let_def eval_nat_numeral)
qed

lemma InitSegment_cases:
  assumes wf: "os_wf s" "smm_wf m s"
  obtains (rejected) "rejects name type_id m \<noteq> kOk"
      "InitSegment env name must_be_used n type_id m s = Some (rejects name type_id m, m, s)"
    | (failed) t where "rejects name type_id m = kOk" "\<not> never_fails env"
      "InitSegment env name must_be_used n type_id m s = Some (kInternal, m, t)"
      "os_fds t = os_fds s" "os_locks t = os_locks s" "os_extends s t" "os_wf t"
    | (added) k where "rejects name type_id m = kOk"
      "InitSegment env name must_be_used n type_id m s = Some (kOk, with_segment name must_be_used n s m,
        grown (lowest_free (os_fds s)) (new_file n type_id) (Some (sizeof_SegmentHeader + n)) k s)"
proof (cases "rejects name type_id m = kOk")
  case False
  then show thesis using rejected InitSegment_rejects by blast
next
  case True
  let ?fd = "lowest_free (os_fds s)" and ?n = "sizeof_SegmentHeader + n" and ?k = "Suc (os_calls s)"
  note init = InitSegment_accepts[OF True wf(2), of env must_be_used n]
  consider (create) "se_fails env (os_calls s) Sys_memfd_create \<noteq> None"
    | (map_failed) g x k where "se_fails env (os_calls s) Sys_memfd_create = None"
      "map_new_segment env ?fd ?n (grown ?fd empty_file None ?k s) = (Inl kInternal, grown ?fd g x k s)"
    | (ok) "se_fails env (os_calls s) Sys_memfd_create = None"
      "map_new_segment env ?fd ?n (grown ?fd empty_file None ?k s) =
        (Inr (os_next_base s), grown ?fd (resize ?n empty_file) (Some ?n) (?k + 4) s)"
    using map_new_segment_grown[OF wf(1)] by metis
  then show thesis
  proof cases
    case create
    then have "\<not> never_fails env" unfolding never_fails_def by metis
    with create True wf(1) init show thesis
      by (intro failed[where t = "s\<lparr>os_calls := ?k\<rparr>"]) simp_all
  next
    case map_failed
    with map_new_segment_never_fails[OF wf(1), of env ?fd ?n ?k] have "\<not> never_fails env" by auto
    with map_failed True init show thesis
      by (intro failed[where t = "snd (close env ?fd (grown ?fd g x k s))"])
        (simp_all add: close_grown[OF wf(1) refl refl])
  next
    case ok
    then show thesis using True init
      by (intro added) (simp_all add: store_header_grown resize_new_file with_segment_def)
  qed
qed

end
