(* ===== verification/Domain_Socket.thy ===== *)
theory Domain_Socket
  imports Shared_Memory "HOL-Library.AList"
begin

text \<open>
  The transfer of descriptors over a domain socket: \<open>domain_socket_utils.h\<close> and \<open>.cc\<close> and the messages of
  \<open>domain_socket_server.cc\<close> in \<open>icon/interprocess/shared_memory_manager\<close>.

  A connected socket is the list of packets that were sent into it.  A packet is the bytes of one
  \<open>sendmsg\<close> with its control message; the descriptors in the control message travel as what they
  refer to.  \<open>recvmsg\<close> takes a positive number of bytes of the first packet, as many as the environment
  says, and never reads across the end of a packet: ancillary data is a barrier in the stream.  With the
  first byte of a packet come its descriptors, which are installed in the table of the receiving
  process as far as its limit allows; a control message without descriptors is not delivered.  After the last packet the stream ends.

  \<open>TransferData\<close> is sent as its object representation: little-endian integers, fixed arrays, and four
  bytes of padding at the end.
\<close>

subsection \<open>The message format\<close>

record FileDescriptorNames =
  fdn_size :: u32
  fdn_names :: "SegmentName list"

record TransferData =
  td_version :: nat
  td_num_messages :: nat
  td_message_index :: nat
  td_names :: FileDescriptorNames

record ShmDescriptors =
  sd_transfer_data :: TransferData
  sd_file_descriptors :: "int list"

definition kMaxFdsPerMessage :: nat
  where "kMaxFdsPerMessage = 200"

definition kDomainSocketProtocolVersion :: nat
  where "kDomainSocketProtocolVersion = 2"

definition FileDescriptorNames_default :: FileDescriptorNames
  where "FileDescriptorNames_default = \<lparr>fdn_size = 0, fdn_names = replicate 200 SegmentName_default\<rparr>"

definition TransferData_default :: TransferData
  where "TransferData_default =
    \<lparr>td_version = kDomainSocketProtocolVersion, td_num_messages = 0, td_message_index = 0,
     td_names = FileDescriptorNames_default\<rparr>"

definition ShmDescriptors_default :: ShmDescriptors
  where "ShmDescriptors_default = \<lparr>sd_transfer_data = TransferData_default, sd_file_descriptors = []\<rparr>"

primrec le_bytes :: "nat \<Rightarrow> nat \<Rightarrow> u8 list"
  where
    "le_bytes 0 n = []"
  | "le_bytes (Suc k) n = word_of_nat (n mod 256) # le_bytes k (n div 256)"

primrec le_value :: "u8 list \<Rightarrow> nat"
  where
    "le_value [] = 0"
  | "le_value (b # bs) = unat b + 256 * le_value bs"

definition encode_name :: "SegmentName \<Rightarrow> u8 list"
  where "encode_name n =
    map (\<lambda>c. word_of_nat (of_char c)) (sn_value n) @ [if sn_must_be_used n then 1 else 0]"

definition decode_name :: "u8 list \<Rightarrow> SegmentName"
  where "decode_name bs =
    \<lparr>sn_value = map (\<lambda>b. char_of (unat b)) (take 255 bs), sn_must_be_used = bs ! 255 \<noteq> 0\<rparr>"

primrec decode_names :: "nat \<Rightarrow> u8 list \<Rightarrow> SegmentName list"
  where
    "decode_names 0 bs = []"
  | "decode_names (Suc k) bs = decode_name (take 256 bs) # decode_names k (drop 256 bs)"

definition encode_TransferData :: "TransferData \<Rightarrow> u8 list"
  where "encode_TransferData d =
    le_bytes 8 (td_version d) @ le_bytes 8 (td_num_messages d) @ le_bytes 8 (td_message_index d)
    @ le_bytes 4 (unat (fdn_size (td_names d))) @ concat (map encode_name (fdn_names (td_names d)))
    @ replicate 4 0"

definition decode_TransferData :: "u8 list \<Rightarrow> TransferData"
  where "decode_TransferData bs =
    \<lparr>td_version = le_value (take 8 bs),
     td_num_messages = le_value (take 8 (drop 8 bs)),
     td_message_index = le_value (take 8 (drop 16 bs)),
     td_names = \<lparr>fdn_size = word_of_nat (le_value (take 4 (drop 24 bs))),
                 fdn_names = decode_names 200 (drop 28 bs)\<rparr>\<rparr>"

text \<open>\<open>sizeof(TransferData)\<close>\<close>

definition kExpectedBytes :: nat
  where "kExpectedBytes = 51232"

text \<open>The control message that carries descriptors.\<close>

record 'f cmsghdr =
  cmsg_len :: nat
  cmsg_level :: nat
  cmsg_type :: nat
  cmsg_data :: "'f list"

definition SOL_SOCKET :: nat where "SOL_SOCKET = 1"
definition SCM_RIGHTS :: nat where "SCM_RIGHTS = 1"
definition sizeof_int :: nat where "sizeof_int = 4"

definition CMSG_LEN :: "nat \<Rightarrow> nat"
  where "CMSG_LEN n = 16 + n"

definition cmsg_zero :: "int cmsghdr"
  where "cmsg_zero = \<lparr>cmsg_len = 0, cmsg_level = 0, cmsg_type = 0, cmsg_data = []\<rparr>"

subsection \<open>Preparing the messages\<close>

record Message =
  msg_descriptors :: ShmDescriptors
  msg_control :: "int cmsghdr"

definition PrepareMessage :: "nat \<Rightarrow> nat \<Rightarrow> nat \<Rightarrow> ShmDescriptors \<Rightarrow> StatusCode + Message"
  where "PrepareMessage protocol_version message_index num_messages descriptors =
    (if message_index = 0 then Inl kOutOfRange
     else if num_messages = 0 then Inl kOutOfRange
     else if message_index > num_messages then Inl kOutOfRange
     else let td = (sd_transfer_data descriptors)\<lparr>td_message_index := message_index, td_num_messages := num_messages\<rparr>;
              td' = (if protocol_version \<noteq> kDomainSocketProtocolVersion
                     then td\<lparr>td_version := protocol_version\<rparr> else td);
              fds = sd_file_descriptors descriptors
          in Inr \<lparr>msg_descriptors = descriptors\<lparr>sd_transfer_data := td'\<rparr>,
                  msg_control = \<lparr>cmsg_len = CMSG_LEN (length fds * sizeof_int), cmsg_level = SOL_SOCKET,
                                 cmsg_type = SCM_RIGHTS, cmsg_data = fds\<rparr>\<rparr>)"

text \<open>
  The loop that fills one message from the rest of the map: it stops when the message or its array of
  names is full or nothing is left.
\<close>

fun fill_message :: "(string \<times> int) list \<Rightarrow> ShmDescriptors \<Rightarrow> StatusCode + ShmDescriptors \<times> (string \<times> int) list"
  where
    "fill_message [] d = Inr (d, [])"
  | "fill_message ((name, fd) # rest) d =
      (let names = td_names (sd_transfer_data d); n = unat (fdn_size names)
       in if n < kMaxFdsPerMessage \<and> n < length (fdn_names names)
          then (case StringCopy (Some (sn_value SegmentName_default)) name of
                  (kOk, Some v) \<Rightarrow>
                    fill_message rest
                      (d\<lparr>sd_transfer_data := (sd_transfer_data d)\<lparr>td_names :=
                           \<lparr>fdn_size = fdn_size names + 1,
                            fdn_names = (fdn_names names)[n := SegmentName_default\<lparr>sn_value := v\<rparr>]\<rparr>\<rparr>,
                         sd_file_descriptors := sd_file_descriptors d @ [fd]\<rparr>)
                | (e, _) \<Rightarrow> Inl e)
          else Inr (d, (name, fd) # rest))"

function prepare_loop ::
    "nat \<Rightarrow> nat \<Rightarrow> nat \<Rightarrow> nat \<Rightarrow> (string \<times> int) list \<Rightarrow> Message list \<Rightarrow> StatusCode + nat \<times> Message list"
  where "prepare_loop protocol_version message_index num_messages descriptor_count rest messages =
    (if message_index \<le> num_messages
     then case fill_message rest ShmDescriptors_default of
            Inl e \<Rightarrow> Inl e
          | Inr (descriptors, rest') \<Rightarrow>
              (case PrepareMessage protocol_version message_index num_messages descriptors of
                 Inl e \<Rightarrow> Inl e
               | Inr prepared \<Rightarrow>
                   prepare_loop protocol_version (Suc message_index) num_messages
                     (descriptor_count + unat (fdn_size (td_names (sd_transfer_data descriptors))))
                     rest' (messages @ [prepared]))
     else Inr (descriptor_count, messages))"
  by pat_completeness auto
termination
  by (relation "measure (\<lambda>(v, i, n, c, r, m). Suc n - i)") auto

declare prepare_loop.simps [simp del]

definition PrepareMessages :: "nat \<Rightarrow> (string \<times> int) list \<Rightarrow> StatusCode + Message list"
  where "PrepareMessages protocol_version m =
    (if m = [] then Inl kInvalidArgument
     else let num_messages = 1 + (length m - 1) div kMaxFdsPerMessage
          in case prepare_loop protocol_version 1 num_messages 0 m [] of
               Inl e \<Rightarrow> Inl e
             | Inr (descriptor_count, messages) \<Rightarrow>
                 if descriptor_count \<noteq> length m then Inl kInternal else Inr messages)"

subsection \<open>The socket\<close>

record packet =
  pk_bytes :: "u8 list"
  pk_control :: "fd_target cmsghdr option"

text \<open>The answer to a \<open>sendmsg\<close>: the number of bytes sent, or an error.\<close>

datatype send_result = SendErr | Sent nat

text \<open>A descriptor in the control message that is not open makes \<open>sendmsg\<close> fail.\<close>

definition sendmsg :: "send_result \<Rightarrow> Message \<Rightarrow> os \<Rightarrow> packet option"
  where "sendmsg r m s =
    (case r of
       SendErr \<Rightarrow> None
     | Sent n \<Rightarrow>
         (case those (map (map_of (os_fds s)) (cmsg_data (msg_control m))) of
            None \<Rightarrow> None
          | Some targets \<Rightarrow>
              Some \<lparr>pk_bytes = take n (encode_TransferData (sd_transfer_data (msg_descriptors m))),
                    pk_control = Some \<lparr>cmsg_len = cmsg_len (msg_control m), cmsg_level = cmsg_level (msg_control m),
                      cmsg_type = cmsg_type (msg_control m), cmsg_data = targets\<rparr>\<rparr>))"

text \<open>One round of the request handler: all messages to one client.  A failed send is skipped.\<close>

fun serve_client :: "(nat \<Rightarrow> send_result) \<Rightarrow> nat \<Rightarrow> Message list \<Rightarrow> os \<Rightarrow> packet list"
  where
    "serve_client sends i [] s = []"
  | "serve_client sends i (m # ms) s =
      (case sendmsg (sends i) m s of None \<Rightarrow> [] | Some p \<Rightarrow> [p]) @ serve_client sends (Suc i) ms s"

record recv_env =
  re_chunk :: "nat \<Rightarrow> nat option"
  re_limit :: nat

text \<open>The receiver: its descriptor table, the packets on their way to it and the number of calls made.\<close>

record receiver =
  rc_os :: os
  rc_stream :: "packet list"
  rc_calls :: nat

fun install_fds :: "nat \<Rightarrow> fd_target list \<Rightarrow> os \<Rightarrow> int list \<times> os"
  where
    "install_fds limit [] s = ([], s)"
  | "install_fds limit (t # ts) s =
      (if length (os_fds s) < limit
       then let (fd, s1) = open_fd t s; (fds, s2) = install_fds limit ts s1 in (fd # fds, s2)
       else ([], s))"

text \<open>
  \<open>recvmsg\<close> into a buffer of \<open>len\<close> bytes; \<open>control\<close> says whether a buffer for a control message is given.  The
  result is \<^term>\<open>None\<close> for an error, and no bytes at the end of the stream.
\<close>

definition recvmsg ::
    "recv_env \<Rightarrow> nat \<Rightarrow> bool \<Rightarrow> receiver \<Rightarrow> (u8 list \<times> int cmsghdr option) option \<times> receiver"
  where "recvmsg env len control r =
    (let r1 = r\<lparr>rc_calls := Suc (rc_calls r)\<rparr>
     in case re_chunk env (rc_calls r) of
          None \<Rightarrow> (None, r1)
        | Some chunk \<Rightarrow>
            (case rc_stream r1 of
               [] \<Rightarrow> (Some ([], None), r1)
             | p # ps \<Rightarrow>
                 let n = min (max 1 chunk) (min len (length (pk_bytes p)));
                     r2 = r1\<lparr>rc_stream := (if n = length (pk_bytes p) then ps
                            else p\<lparr>pk_bytes := drop n (pk_bytes p), pk_control := None\<rparr> # ps)\<rparr>
                 in case (pk_control p, control) of
                      (Some c, True) \<Rightarrow>
                        let (fds, s) = install_fds (re_limit env) (cmsg_data c) (rc_os r2)
                        in (Some (take n (pk_bytes p),
                              if fds = [] then None else Some \<lparr>cmsg_len = CMSG_LEN (length fds * sizeof_int), cmsg_level = cmsg_level c,
                                    cmsg_type = cmsg_type c, cmsg_data = fds\<rparr>),
                            r2\<lparr>rc_os := s\<rparr>)
                    | _ \<Rightarrow> (Some (take n (pk_bytes p), None), r2)))"

subsection \<open>Receiving a message\<close>

text \<open>
  The loop over \<open>recvmsg\<close> until the buffer is full.  Only the first call passes a buffer for the control
  message; that buffer is zero before.
\<close>

function recv_loop ::
    "recv_env \<Rightarrow> u8 list \<Rightarrow> int cmsghdr \<Rightarrow> receiver \<Rightarrow> (StatusCode + u8 list \<times> int cmsghdr) \<times> receiver"
  where "recv_loop env acc c r =
    (if length acc < kExpectedBytes
     then case recvmsg env (kExpectedBytes - length acc) (acc = []) r of
            (None, r1) \<Rightarrow> (Inl kInternal, r1)
          | (Some (bytes, control), r1) \<Rightarrow>
              if bytes = [] then (Inl kInternal, r1)
              else if length acc + length bytes > kExpectedBytes then (Inl kOutOfRange, r1)
              else recv_loop env (acc @ bytes) (case control of None \<Rightarrow> c | Some c' \<Rightarrow> c') r1
     else (Inr (acc, c), r))"
  by pat_completeness auto
termination
  by (relation "measure (\<lambda>(env, acc, c, r). kExpectedBytes - length acc)")
    (auto simp flip: length_greater_0_conv)

declare recv_loop.simps [simp del]

definition GetNamesFromFileDescriptorNames :: "FileDescriptorNames \<Rightarrow> (StatusCode + string list) checked"
  where "GetNamesFromFileDescriptorNames info =
    (if unat (fdn_size info) \<le> length (fdn_names info)
     then Some (collect_names (take (unat (fdn_size info)) (fdn_names info))) else None)"

definition fcntl_valid :: "int \<Rightarrow> os \<Rightarrow> bool"
  where "fcntl_valid fd s \<longleftrightarrow> map_of (os_fds s) fd \<noteq> None"

definition GetSingleMessage :: "recv_env \<Rightarrow> receiver \<Rightarrow> ((StatusCode + ShmDescriptors) \<times> receiver) checked"
  where "GetSingleMessage env r =
    (case recv_loop env [] cmsg_zero r of
       (Inl e, r1) \<Rightarrow> Some (Inl e, r1)
     | (Inr (bytes, cmsg), r1) \<Rightarrow>
         let td = decode_TransferData bytes
         in if td_version td \<noteq> kDomainSocketProtocolVersion then Some (Inl kFailedPrecondition, r1)
            else let num_names = unat (fdn_size (td_names td))
                 in map_option (\<lambda>segment_names. case segment_names of
                      Inl e \<Rightarrow> (Inl e, r1)
                    | Inr names \<Rightarrow>
                        if cmsg_len cmsg \<noteq> CMSG_LEN (num_names * sizeof_int) then (Inl kInternal, r1)
                        else if cmsg_level cmsg \<noteq> SOL_SOCKET then (Inl kInternal, r1)
                        else if cmsg_type cmsg \<noteq> SCM_RIGHTS then (Inl kInternal, r1)
                        else if \<not> list_all (\<lambda>fd. fcntl_valid fd (rc_os r1)) (take num_names (cmsg_data cmsg))
                        then (Inl kInternal, r1)
                        else (Inr \<lparr>sd_transfer_data = td, sd_file_descriptors = take num_names (cmsg_data cmsg)\<rparr>, r1))
                   (GetNamesFromFileDescriptorNames (td_names td)))"

subsection \<open>Receiving the map\<close>

text \<open>\<open>map[key] = value\<close>\<close>

definition umap_assign :: "'k \<Rightarrow> 'v \<Rightarrow> ('k \<times> 'v) list \<Rightarrow> ('k \<times> 'v) list"
  where "umap_assign k v m = (if k \<in> fst ` set m then AList.update k v m else m @ [(k, v)])"

partial_function (option) receive_messages ::
    "recv_env \<Rightarrow> nat \<Rightarrow> nat \<Rightarrow> fd_map \<Rightarrow> receiver \<Rightarrow> ((StatusCode + fd_map) \<times> receiver) option"
  where "receive_messages env expected_message_index expected_num_messages m r = do {
    (received, r1) \<leftarrow> GetSingleMessage env r;
    (case received of
       Inl e \<Rightarrow> Some (Inl e, r1)
     | Inr d \<Rightarrow>
         let td = sd_transfer_data d;
             num = (if expected_message_index = 1 then td_num_messages td else expected_num_messages)
         in if expected_message_index \<noteq> td_message_index td then Some (Inl kInternal, r1)
            else if num \<noteq> td_num_messages td then Some (Inl kFailedPrecondition, r1)
            else do {
              names \<leftarrow> GetNamesFromFileDescriptorNames (td_names td);
              (case names of
                 Inl e \<Rightarrow> Some (Inl e, r1)
               | Inr names \<Rightarrow>
                   if length names \<noteq> length (sd_file_descriptors d) then Some (Inl kFailedPrecondition, r1)
                   else let m1 = fold (\<lambda>(k, v). umap_assign k v) (zip names (sd_file_descriptors d)) m;
                            remaining = size_t_sub num expected_message_index
                        in if remaining > 0
                           then receive_messages env (size_t_add expected_message_index 1) num m1 r1
                           else Some (Inr m1, r1))
            })
  }"

subsection \<open>Paths\<close>

text \<open>A \<open>std::filesystem::path\<close> is its native string.\<close>

definition path_is_absolute :: "string \<Rightarrow> bool"
  where "path_is_absolute p \<longleftrightarrow> p \<noteq> [] \<and> hd p = CHR ''/''"

definition path_append :: "string \<Rightarrow> string \<Rightarrow> string"
  where "path_append p q =
    (if path_is_absolute q \<or> p = [] then q
     else if last p \<noteq> CHR ''/'' then p @ ''/'' @ q else p @ q)"

definition kDomainSocketDirectory :: string
  where "kDomainSocketDirectory = ''/tmp/intrinsic_icon''"

definition kSocketSuffix :: string
  where "kSocketSuffix = ''.sock''"

definition sizeof_sun_path :: nat
  where "sizeof_sun_path = 108"

definition PathLengthIsValidForSockaddrUn :: "string \<Rightarrow> StatusCode"
  where "PathLengthIsValidForSockaddrUn socket_path =
    (if length socket_path > sizeof_sun_path - 1 then kInvalidArgument else kOk)"

definition AbsoluteSocketPath :: "string \<Rightarrow> string \<Rightarrow> StatusCode + string"
  where "AbsoluteSocketPath absolute_path module_name =
    (if \<not> path_is_absolute absolute_path then Inl kInvalidArgument
     else let full_socket_path = path_append absolute_path module_name @ kSocketSuffix;
              status = PathLengthIsValidForSockaddrUn full_socket_path
          in if status \<noteq> kOk then Inl status else Inr full_socket_path)"

definition CreateSocketDirectory :: "sys_env \<Rightarrow> string \<Rightarrow> os \<Rightarrow> StatusCode \<times> os"
  where "CreateSocketDirectory env absolute_path s =
    (if \<not> path_is_absolute absolute_path then (kInvalidArgument, s)
     else case sys_call env Sys_create_directories s of
            (Some _, s1) \<Rightarrow> (kInternal, s1)
          | (None, s1) \<Rightarrow> (kOk, s1))"

text \<open>The address is the content of \<open>sun_path\<close>; \<open>snprintf\<close> with this format does not fail.\<close>

definition AddressFromAbsolutePath :: "string \<Rightarrow> StatusCode + string"
  where "AddressFromAbsolutePath absolute_socket_path =
    (let status = PathLengthIsValidForSockaddrUn absolute_socket_path
     in if status \<noteq> kOk then Inl status else Inr (snprintf_s sizeof_sun_path absolute_socket_path))"

definition SocketDirectoryFromNamespace :: "string \<Rightarrow> string"
  where "SocketDirectoryFromNamespace shared_memory_namespace =
    (if shared_memory_namespace = [] then kDomainSocketDirectory
     else path_append kDomainSocketDirectory [] @ shared_memory_namespace)"

subsection \<open>The client\<close>

text \<open>
  The retry loop of \<open>ConnectToServer\<close>: one attempt, a second of sleep, and again until the deadline.
  \<^term>\<open>None\<close> stands for a loop that never ends.
\<close>

partial_function (option) connect_loop :: "sys_env \<Rightarrow> int \<Rightarrow> os \<Rightarrow> (StatusCode \<times> os) option"
  where "connect_loop env deadline s =
    (case sys_call env Sys_connect s of
       (None, s1) \<Rightarrow> Some (kOk, s1)
     | (Some _, s1) \<Rightarrow>
         (case os_now env s1 of
            (now, s2) \<Rightarrow> if now < deadline then connect_loop env deadline s2 else Some (kDeadlineExceeded, s2)))"

definition ConnectToServer :: "sys_env \<Rightarrow> string \<Rightarrow> int \<Rightarrow> os \<Rightarrow> (StatusCode \<times> os) option"
  where "ConnectToServer env absolute_socket_path deadline s =
    (case AddressFromAbsolutePath absolute_socket_path of
       Inl e \<Rightarrow> Some (e, s)
     | Inr _ \<Rightarrow> connect_loop env deadline s)"

definition seconds :: "int \<Rightarrow> int"
  where "seconds n = n * 1000000000"

definition open_socket :: "sys_env \<Rightarrow> os \<Rightarrow> int \<times> os"
  where "open_socket env s =
    (case sys_call env Sys_socket s of
       (Some _, s1) \<Rightarrow> (- 1, s1)
     | (None, s1) \<Rightarrow> open_fd (Sock (os_calls s)) s1)"

text \<open>
  The client.  \<open>incoming\<close> is what the server sends once the client is connected.  The socket is closed
  on every path, the received descriptors stay open on every path.
\<close>

definition client_body ::
    "sys_env \<Rightarrow> recv_env \<Rightarrow> packet list \<Rightarrow> string \<Rightarrow> string \<Rightarrow> int \<Rightarrow> os \<Rightarrow> ((StatusCode + fd_map) \<times> os) option"
  where "client_body env renv incoming socket_directory module_name deadline s =
    (case CreateSocketDirectory env socket_directory s of
       (status, s1) \<Rightarrow>
         if status \<noteq> kOk then Some (Inl status, s1)
         else case AbsoluteSocketPath socket_directory module_name of
                Inl e \<Rightarrow> Some (Inl e, s1)
              | Inr absolute_socket_path \<Rightarrow>
                  do {
                    (status, s2) \<leftarrow> ConnectToServer env absolute_socket_path deadline s1;
                    (if status \<noteq> kOk then Some (Inl status, s2)
                     else case sys_call env Sys_setsockopt s2 of
                            (Some _, s3) \<Rightarrow> Some (Inl kInternal, s3)
                          | (None, s3) \<Rightarrow>
                              do {
                                (m, r) \<leftarrow> receive_messages renv 1 0 []
                                  \<lparr>rc_os = s3, rc_stream = incoming, rc_calls = 0\<rparr>;
                                Some (m, rc_os r)
                              })
                  })"

definition GetSegmentNameToFileDescriptorMap ::
    "sys_env \<Rightarrow> recv_env \<Rightarrow> packet list \<Rightarrow> string \<Rightarrow> string \<Rightarrow> int \<Rightarrow> os \<Rightarrow> ((StatusCode + fd_map) \<times> os) option"
  where "GetSegmentNameToFileDescriptorMap env renv incoming socket_directory module_name connection_timeout s =
    (case os_now env s of
       (now, s1) \<Rightarrow>
         (case open_socket env s1 of
            (to_server_sock, s2) \<Rightarrow>
              if to_server_sock = - 1 then Some (Inl kInternal, s2)
              else do {
                (r, s3) \<leftarrow> client_body env renv incoming socket_directory module_name
                  (now + seconds connection_timeout) s2;
                Some (r, snd (close env to_server_sock s3))
              }))"

end
