(* ===== verification/Domain_Socket_Server.thy ===== *)
theory Domain_Socket_Server
  imports Domain_Socket
begin

text \<open>
  The server of \<open>domain_socket_server.cc\<close>: the lock file that makes one server the only one of its
  socket, the life cycle of the server, and the thread that serves clients.

  The lock table has one entry per locked file with the descriptor that holds the lock.  A descriptor
  of another process, or of another server of this process, that holds the lock lets \<open>flock\<close> fail with
  \<open>EWOULDBLOCK\<close>; for another process it is the environment that says so.  Closing a descriptor releases
  its lock.  Each \<open>Cleanup\<close> object of the code is the tail of the paths on which it is still armed.
\<close>

record DomainSocketServer =
  dss_absolute_socket_path :: string
  dss_absolute_lock_path :: string
  dss_socket_fd :: int
  dss_flock_fd :: int
  dss_protocol_version :: nat
  dss_messages :: "Message list"
  dss_request_handler :: bool

subsection \<open>System calls\<close>

definition c_str :: "string \<Rightarrow> string"
  where "c_str p = takeWhile (\<lambda>c. c \<noteq> CHR 0x00) p"

definition open_lock :: "sys_env \<Rightarrow> string \<Rightarrow> os \<Rightarrow> int \<times> os"
  where "open_lock env path s =
    (case sys_call env Sys_open s of
       (Some _, s1) \<Rightarrow> (- 1, s1)
     | (None, s1) \<Rightarrow> open_fd (LockFile (c_str path)) s1)"

definition flock_ex :: "sys_env \<Rightarrow> int \<Rightarrow> os \<Rightarrow> errno option \<times> os"
  where "flock_ex env fd s =
    (case sys_call env Sys_flock_ex s of
       (Some e, s1) \<Rightarrow> (Some e, s1)
     | (None, s1) \<Rightarrow>
         (case map_of (os_fds s1) fd of
            Some (LockFile p) \<Rightarrow>
              (case map_of (os_locks s1) p of
                 None \<Rightarrow> (None, s1\<lparr>os_locks := (p, fd) # os_locks s1\<rparr>)
               | Some fd' \<Rightarrow> if fd' = fd then (None, s1) else (Some EAGAIN, s1))
          | _ \<Rightarrow> (Some (EOTHER 9), s1)))"

definition flock_un :: "sys_env \<Rightarrow> int \<Rightarrow> os \<Rightarrow> bool \<times> os"
  where "flock_un env fd s =
    (case sys_call env Sys_flock_un s of
       (Some _, s1) \<Rightarrow> (False, s1)
     | (None, s1) \<Rightarrow>
         if map_of (os_fds s1) fd = None then (False, s1)
         else (True, s1\<lparr>os_locks := filter (\<lambda>(p, d). d \<noteq> fd) (os_locks s1)\<rparr>))"

definition unlink :: "sys_env \<Rightarrow> string \<Rightarrow> os \<Rightarrow> bool \<times> os"
  where "unlink env path s =
    (case sys_call env Sys_unlink s of
       (Some _, s1) \<Rightarrow> (False, s1)
     | (None, s1) \<Rightarrow>
         if path \<notin> set (os_socket_files s1) then (False, s1)
         else (True, s1\<lparr>os_socket_files := filter (\<lambda>p. p \<noteq> path) (os_socket_files s1)\<rparr>))"

definition bind_socket :: "sys_env \<Rightarrow> string \<Rightarrow> os \<Rightarrow> bool \<times> os"
  where "bind_socket env sun_path s =
    (case sys_call env Sys_bind s of
       (Some _, s1) \<Rightarrow> (False, s1)
     | (None, s1) \<Rightarrow>
         if c_str sun_path \<in> set (os_socket_files s1) then (False, s1)
         else (True, s1\<lparr>os_socket_files := c_str sun_path # os_socket_files s1\<rparr>))"

subsection \<open>The lock file\<close>

definition kLockSuffix :: string
  where "kLockSuffix = ''.lock''"

definition LockName :: "string \<Rightarrow> string \<Rightarrow> string"
  where "LockName socket_directory module_name = path_append socket_directory module_name @ kLockSuffix"

text \<open>The loop of \<open>TryLockPath\<close>.  \<^term>\<open>None\<close> stands for a loop that never ends.\<close>

partial_function (option) lock_loop :: "sys_env \<Rightarrow> int \<Rightarrow> int \<Rightarrow> os \<Rightarrow> (StatusCode \<times> os) option"
  where "lock_loop env deadline lock_fd s =
    (case flock_ex env lock_fd s of
       (None, s1) \<Rightarrow> Some (kOk, s1)
     | (Some e, s1) \<Rightarrow>
         if e = EAGAIN
         then (case os_now env s1 of
                 (now, s2) \<Rightarrow>
                   if now < deadline then lock_loop env deadline lock_fd s2 else Some (kDeadlineExceeded, s2))
         else Some (kInternal, s1))"

declare lock_loop.simps [code]

definition TryLockPath :: "sys_env \<Rightarrow> string \<Rightarrow> int \<Rightarrow> os \<Rightarrow> ((StatusCode + int) \<times> os) option"
  where "TryLockPath env absolute_lock_path timeout s =
    (case os_now env s of
       (now, s1) \<Rightarrow>
         if absolute_lock_path = [] then Some (Inl kInvalidArgument, s1)
         else if \<not> path_is_absolute absolute_lock_path then Some (Inl kInvalidArgument, s1)
         else (case open_lock env absolute_lock_path s1 of
                 (lock_fd, s2) \<Rightarrow>
                   if lock_fd = - 1 then Some (Inl kInternal, s2)
                   else map_option
                     (\<lambda>(status, s3). if status = kOk then (Inr lock_fd, s3)
                                     else (Inl status, snd (close env lock_fd s3)))
                     (lock_loop env (now + seconds timeout) lock_fd s2)))"

definition UnlockPathCloseLockfile :: "sys_env \<Rightarrow> int \<Rightarrow> os \<Rightarrow> StatusCode \<times> os"
  where "UnlockPathCloseLockfile env lockfile_fd s =
    (if lockfile_fd = - 1 then (kInvalidArgument, s)
     else case flock_un env lockfile_fd s of
            (False, s1) \<Rightarrow> (kInternal, s1)
          | (True, s1) \<Rightarrow>
              (case close env lockfile_fd s1 of
                 (False, s2) \<Rightarrow> (kInternal, s2)
               | (True, s2) \<Rightarrow> (kOk, s2)))"

subsection \<open>Life cycle\<close>

definition DomainSocketServer_new :: "string \<Rightarrow> string \<Rightarrow> int \<Rightarrow> int \<Rightarrow> nat \<Rightarrow> DomainSocketServer"
  where "DomainSocketServer_new absolute_socket_path absolute_lock_path socket_fd flock_fd protocol_version =
    \<lparr>dss_absolute_socket_path = absolute_socket_path, dss_absolute_lock_path = absolute_lock_path,
     dss_socket_fd = socket_fd, dss_flock_fd = flock_fd, dss_protocol_version = protocol_version,
     dss_messages = [], dss_request_handler = False\<rparr>"

text \<open>What \<open>Create\<close> does while it holds the lock; the result is the path and the descriptor of the socket.\<close>

definition unlink_stale :: "sys_env \<Rightarrow> string \<Rightarrow> os \<Rightarrow> bool \<times> os"
  where "unlink_stale env path s = (if path \<in> set (os_socket_files s) then unlink env path s else (True, s))"

definition create_socket :: "sys_env \<Rightarrow> string \<Rightarrow> string \<Rightarrow> os \<Rightarrow> (StatusCode + string \<times> int) \<times> os"
  where "create_socket env socket_directory module_name s =
    (case AbsoluteSocketPath socket_directory module_name of
       Inl e \<Rightarrow> (Inl e, s)
     | Inr absolute_socket_path \<Rightarrow>
         (case unlink_stale env (c_str absolute_socket_path) s of
            (False, s1) \<Rightarrow> (Inl kInternal, s1)
          | (True, s1) \<Rightarrow>
              (case open_socket env s1 of
                 (socket_fd, s2) \<Rightarrow>
                   if socket_fd = - 1 then (Inl kInternal, s2)
                   else case AddressFromAbsolutePath absolute_socket_path of
                          Inl e \<Rightarrow> (Inl e, snd (close env socket_fd s2))
                        | Inr addr \<Rightarrow>
                            (case bind_socket env addr s2 of
                               (False, s3) \<Rightarrow> (Inl kInternal, snd (close env socket_fd s3))
                             | (True, s3) \<Rightarrow> (Inr (absolute_socket_path, socket_fd), s3)))))"

definition DomainSocketServer_Create ::
    "sys_env \<Rightarrow> string \<Rightarrow> string \<Rightarrow> int \<Rightarrow> nat \<Rightarrow> os \<Rightarrow> ((StatusCode + DomainSocketServer) \<times> os) option"
  where "DomainSocketServer_Create env socket_directory module_name lock_acquire_timeout protocol_version s =
    (case CreateSocketDirectory env socket_directory s of
       (status, s1) \<Rightarrow>
         if status \<noteq> kOk then Some (Inl status, s1)
         else let absolute_lock_path = LockName socket_directory module_name
              in map_option
                   (\<lambda>(lock, s2). case lock of
                      Inl e \<Rightarrow> (Inl e, s2)
                    | Inr flock_fd \<Rightarrow>
                        (case create_socket env socket_directory module_name s2 of
                           (Inl e, s3) \<Rightarrow> (Inl e, snd (UnlockPathCloseLockfile env flock_fd s3))
                         | (Inr (absolute_socket_path, socket_fd), s3) \<Rightarrow>
                             (Inr (DomainSocketServer_new absolute_socket_path absolute_lock_path socket_fd flock_fd
                                     protocol_version), s3)))
                   (TryLockPath env absolute_lock_path lock_acquire_timeout s1))"

text \<open>
  \<open>ServeShmDescriptors\<close>.  \<open>rlim_cur\<close> is the limit that \<open>getrlimit\<close> reports; \<open>started\<close> says whether the new
  thread reports within ten seconds.
\<close>

definition ServeShmDescriptors ::
    "sys_env \<Rightarrow> nat \<Rightarrow> bool \<Rightarrow> fd_map \<Rightarrow> DomainSocketServer \<Rightarrow> os \<Rightarrow> StatusCode \<times> DomainSocketServer \<times> os"
  where "ServeShmDescriptors env rlim_cur started m d s =
    (if dss_request_handler d then (kFailedPrecondition, d, s)
     else case sys_call env Sys_getrlimit s of
            (Some _, s1) \<Rightarrow> (kFailedPrecondition, d, s1)
          | (None, s1) \<Rightarrow>
              if length m \<ge> rlim_cur then (kOutOfRange, d, s1)
              else if length m < 1 then (kInvalidArgument, d, s1)
              else (case PrepareMessages (dss_protocol_version d) m of
                      Inl e \<Rightarrow> (e, d, s1)
                    | Inr messages \<Rightarrow>
                        let d1 = d\<lparr>dss_messages := messages\<rparr>
                        in case sys_call env Sys_listen s1 of
                             (Some _, s2) \<Rightarrow> (kInternal, d1, s2)
                           | (None, s2) \<Rightarrow>
                               (if started then kOk else kInternal, d1\<lparr>dss_request_handler := True\<rparr>, s2)))"

definition kModuleInfoName :: string
  where "kModuleInfoName = ''intrinsic_module_info''"

text \<open>The object representation of \<open>SegmentInfo\<close>\<close>

definition encode_SegmentInfo :: "SegmentInfo \<Rightarrow> u8 list"
  where "encode_SegmentInfo info = le_bytes 4 (unat (si_size info)) @ concat (map encode_name (si_names info))"

definition AddSegmentInfoServeShmDescriptors ::
    "((string \<times> MemorySegmentInfo) list \<Rightarrow> (string \<times> MemorySegmentInfo) list) \<Rightarrow> (fd_map \<Rightarrow> fd_map) \<Rightarrow>
     sys_env \<Rightarrow> nat \<Rightarrow> bool \<Rightarrow> SharedMemoryManager \<Rightarrow> DomainSocketServer \<Rightarrow> os \<Rightarrow>
     (StatusCode \<times> SharedMemoryManager \<times> DomainSocketServer \<times> os) checked"
  where "AddSegmentInfoServeShmDescriptors order fd_order env rlim_cur started m d s = do {
    info \<leftarrow> GetSegmentInfo order m;
    (status, m1, s1) \<leftarrow> AddSegment env kModuleInfoName False (encode_SegmentInfo info) kModuleInfoName m s;
    if status \<noteq> kOk then Some (status, m1, d, s1)
    else (case ServeShmDescriptors env rlim_cur started (fd_order (smm_fd_map m1)) d s1 of
            (status', d1, s2) \<Rightarrow> Some (status', m1, d1, s2))
  }"

text \<open>
  The thread.  Each event is the answer to one \<open>accept\<close>: an error, which ends the thread, or a client,
  with the answers to the sends to it.  The result is what each client is sent.
\<close>

datatype accept_event = AcceptErr | Accepted "nat \<Rightarrow> send_result"

fun request_handler :: "sys_env \<Rightarrow> accept_event list \<Rightarrow> Message list \<Rightarrow> os \<Rightarrow> packet list list \<times> os"
  where
    "request_handler env [] messages s = ([], s)"
  | "request_handler env (AcceptErr # events) messages s = ([], s)"
  | "request_handler env (Accepted sends # events) messages s =
      (let (to_client_sock, s1) = open_fd (Sock (os_calls s)) s;
           s2 = snd (sys_call env Sys_setsockopt s1);
           sent = serve_client sends 0 messages s2;
           s3 = snd (close env to_client_sock s2);
           (rest, s4) = request_handler env events messages s3
       in (sent # rest, s4))"

text \<open>The destructor.  A failed \<open>shutdown\<close> ends the process.\<close>

definition DomainSocketServer_destroy :: "sys_env \<Rightarrow> DomainSocketServer \<Rightarrow> os \<Rightarrow> os checked"
  where "DomainSocketServer_destroy env d s = do {
    s1 \<leftarrow> (if dss_socket_fd d \<noteq> - 1
          then (case sys_call env Sys_shutdown s of
                  (Some _, _) \<Rightarrow> None
                | (None, s1) \<Rightarrow> Some (snd (close env (dss_socket_fd d) s1)))
          else Some s);
    let s2 = (if dss_absolute_socket_path d \<noteq> [] then snd (unlink env (c_str (dss_absolute_socket_path d)) s1) else s1);
    Some (snd (UnlockPathCloseLockfile env (dss_flock_fd d) s2))
  }"

end
