(* ===== verification/Shared_Memory_Props.thy ===== *)
theory Shared_Memory_Props
  imports Shared_Memory
begin

text \<open>
  What the shared memory manager guarantees: adding a segment on every path, opening a segment from
  its descriptor, the reference counts in its header and the list of segments.
\<close>

lemma with_segment_wf:
  assumes wf: "os_wf s" "smm_wf m s" and ok: "rejects name type_id m = kOk"
    and g: "f_size g = sizeof_SegmentHeader + n" "length (f_payload g) = n" "f_header g = Some h" "sh_mutex h = 1"
  shows "smm_wf (with_segment name must_be_used n s m)
    (grown (lowest_free (os_fds s)) g (Some (sizeof_SegmentHeader + n)) k s)"
    (is "smm_wf ?m ?s")
proof -
  let ?info = "\<lparr>msi_data = os_next_base s, msi_length = sizeof_SegmentHeader + n,
    msi_must_be_used = must_be_used, msi_fd = lowest_free (os_fds s)\<rparr>"
  have ext: "os_extends s ?s" using grown_wf(2)[OF wf(1) refl] .
  have old: "smm_wf m ?s" by (rule smm_wf_mono[OF ext wf(2)])
  have pre: "length (smm_segments m) < kMaxNumberOfSegments" "name \<notin> fst ` set (smm_segments m)"
    "VerifyName name = kOk" using ok by (auto simp: rejects_def split: if_splits)
  have "seg_ok ?s ?info" using g by (auto simp: seg_ok_def grown_def)
  moreover have "seg_file ?s ?info \<notin> set (map (seg_file ?s \<circ> snd) (smm_segments m))"
  proof -
    have "seg_file s info \<noteq> Some (length (os_files s))" if "(a, info) \<in> set (smm_segments m)" for a info
      using wf(2) that by (auto simp: smm_wf_def seg_ok_def seg_file_def)
    moreover have "seg_file ?s info = seg_file s info" if "(a, info) \<in> set (smm_segments m)" for a info
      using wf(2) that by (intro seg_file_mono[OF ext]) (auto simp: smm_wf_def)
    moreover have "seg_file ?s ?info = Some (length (os_files s))" by (simp add: seg_file_def grown_def)
    ultimately show ?thesis by force
  qed
  ultimately show ?thesis using old pre by (auto simp: smm_wf_def with_segment_def)
qed

lemma AddSegment_cases:
  assumes wf: "os_wf s" "smm_wf m s"
  obtains (refused) r t where "r \<noteq> kOk" "AddSegment env name must_be_used v type_id m s = Some (r, m, t)"
      "os_fds t = os_fds s" "os_extends s t" "os_wf t"
      "r = (if rejects name type_id m = kOk then kInternal else rejects name type_id m)"
      "never_fails env \<Longrightarrow> rejects name type_id m \<noteq> kOk"
    | (added) k where "rejects name type_id m = kOk"
      "AddSegment env name must_be_used v type_id m s = Some (kOk, with_segment name must_be_used (length v) s m,
        grown (lowest_free (os_fds s)) ((new_file (length v) type_id)\<lparr>f_payload := v\<rparr>)
          (Some (sizeof_SegmentHeader + length v)) k s)"
proof (cases rule: InitSegment_cases[OF wf, of name type_id env must_be_used "length v"])
  case 1
  then show thesis using wf by (intro refused[where t = s]) (simp_all add: AddSegment_def)
next
  case (2 t)
  then show thesis by (intro refused[where t = t]) (simp_all add: AddSegment_def)
next
  case (3 k)
  then have new: "map_of (smm_segments m) name = None"
    by (auto simp: rejects_def map_of_eq_None_iff split: if_splits)
  have "0 < os_next_base s" using wf(1) by (simp add: os_wf_def)
  with new have "GetRawValue name (with_segment name must_be_used (length v) s m)
      = os_next_base s + sizeof_SegmentHeader"
    by (simp add: GetRawValue_def GetRawSegment_def with_segment_def map_add_def)
  moreover have "length (f_payload (new_file (length v) type_id)) = length v" by (simp add: new_file_def)
  ultimately show thesis using 3 \<open>0 < os_next_base s\<close>
    by (intro added[where k = k]) (simp_all add: AddSegment_def SetSegmentValue_def Let_def store_payload_grown)
qed

lemma GetSegmentValue_mono:
  assumes "smm_wf m s" "os_extends s t" "os_wf s" "n \<in> fst ` set (smm_segments m)"
    and "map_of (smm_segments m') n = map_of (smm_segments m) n"
  shows "GetSegmentValue k n m' t = GetSegmentValue k n m s"
proof -
  obtain info where info: "map_of (smm_segments m) n = Some info"
    using assms(4) by (metis map_of_eq_None_iff option.exhaust)
  then have "seg_ok s info" using assms(1) by (auto simp: smm_wf_def dest!: map_of_SomeD)
  then obtain i where i: "mapped_file (msi_data info) s = Some i" "0 < msi_data info"
    using os_wf_map[OF assms(3)] by (auto simp: seg_ok_def mapped_file_def)
  then obtain p where "load_payload (msi_data info + sizeof_SegmentHeader) s = Some p"
    by (simp add: load_payload_def)
  from os_extends_load_payload[OF assms(2) this] this i(2) assms(5) info show ?thesis
    by (simp add: GetSegmentValue_def GetRawValue_def GetRawSegment_def Let_def)
qed

text \<open>C12: Adding a segment, on every path.  A name that is empty, too long, has a slash or is taken, a
  type id that is too long and a full manager are refused with the documented code before any system
  call; otherwise the call succeeds or, if a system call fails, returns \<open>kInternal\<close>.  After a success
  the segment holds the value and the type id; after a failure the manager and the open descriptors
  are as before.  The values of all other segments are untouched, and both the manager and the
  system stay well-formed.\<close>
theorem add_segment_behaviour:
  assumes "os_wf s" "smm_wf m s"
  shows "\<exists>r m' s'. AddSegment env name must_be_used v type_id m s = Some (r, m', s')
    \<and> os_wf s' \<and> smm_wf m' s'
    \<and> (if rejects name type_id m \<noteq> kOk then r = rejects name type_id m \<and> s' = s
       else r = kOk \<or> r = kInternal \<and> \<not> never_fails env)
    \<and> (if r = kOk
       then GetSegmentValue (length v) name m' s' = Some (Some v)
         \<and> (\<exists>h. GetSegmentHeader name m' s' = Some (Some h) \<and> TypeID (sh_type_info h) = type_id)
       else m' = m \<and> os_fds s' = os_fds s)
    \<and> (\<forall>n \<in> fst ` set (smm_segments m). \<forall>k. GetSegmentValue k n m' s' = GetSegmentValue k n m s)"
proof (cases rule: AddSegment_cases[OF assms, of env name must_be_used v type_id])
  case refused: (1 r t)
  have "smm_wf m t" by (rule smm_wf_mono[OF refused(4) assms(2)])
  moreover have "GetSegmentValue k n m t = GetSegmentValue k n m s" if "n \<in> fst ` set (smm_segments m)" for k n
    by (rule GetSegmentValue_mono[OF assms(2) refused(4) assms(1) that refl])
  moreover have "rejects name type_id m \<noteq> kOk \<Longrightarrow> t = s"
    using refused(2) InitSegment_rejects by (auto simp: AddSegment_def)
  ultimately show ?thesis using refused by auto
next
  case added: (2 k)
  let ?m = "with_segment name must_be_used (length v) s m"
  let ?s = "grown (lowest_free (os_fds s)) ((new_file (length v) type_id)\<lparr>f_payload := v\<rparr>)
    (Some (sizeof_SegmentHeader + length v)) k s"
  have new: "name \<notin> fst ` set (smm_segments m)" and tid: "length type_id \<le> kMaxSize"
    using added(1) by (auto simp: rejects_def split: if_splits)
  have base: "0 < os_next_base s" using assms(1) by (simp add: os_wf_def)
  from new have m: "map_of (smm_segments m) name = None" by (simp add: map_of_eq_None_iff)
  have "os_wf ?s" by (rule grown_wf(1)[OF assms(1) refl])
  moreover have "smm_wf ?m ?s"
    by (rule with_segment_wf[OF assms added(1), where h = "SegmentHeader_new type_id"]) (simp_all add: new_file_def SegmentHeader_new_def)
  moreover have "GetSegmentValue (length v) name ?m ?s = Some (Some v)"
    using base m by (simp add: GetSegmentValue_def GetRawValue_def GetRawSegment_def with_segment_def Let_def
        load_payload_def map_add_def)
  moreover have "\<exists>h. GetSegmentHeader name ?m ?s = Some (Some h) \<and> TypeID (sh_type_info h) = type_id"
    using base m tid by (simp add: GetSegmentHeader_def GetRawSegment_def with_segment_def load_header_def
        new_file_def SegmentHeader_new_def TypeID_new map_add_def)
  moreover have "GetSegmentValue k n ?m ?s = GetSegmentValue k n m s" if "n \<in> fst ` set (smm_segments m)" for k n
    using that new
    by (intro GetSegmentValue_mono[OF assms(2) grown_wf(2)[OF assms(1) refl] assms(1)])
      (auto simp: with_segment_def map_add_def split: option.splits)
  ultimately show ?thesis using added by auto
qed

definition ok_env :: sys_env
  where "ok_env = \<lparr>se_fails = (\<lambda>n c. None), se_now = (\<lambda>n. 0)\<rparr>"

definition empty_manager :: SharedMemoryManager
  where "empty_manager = \<lparr>smm_fd_map = [], smm_segments = [], smm_module_name = ''arm'', smm_namespace = []\<rparr>"

lemma ok_env_never_fails [simp]: "never_fails ok_env"
  by (simp add: never_fails_def ok_env_def)

lemma empty_manager_wf [simp]: "smm_wf empty_manager s"
  by (simp add: smm_wf_def empty_manager_def)

theorem add_segment_behaviour_witness:
  "os_wf os_init \<and> smm_wf empty_manager os_init
    \<and> (\<exists>m' s'. AddSegment ok_env ''joints'' True [1, 2, 3] ''bytes'' empty_manager os_init = Some (kOk, m', s')
        \<and> GetSegmentValue 3 ''joints'' m' s' = Some (Some [1, 2, 3]))
    \<and> (\<exists>m' s'. AddSegment ok_env ''a/b'' True [1] ''bytes'' empty_manager os_init
        = Some (kInvalidArgument, m', s'))"
proof -
  have "rejects ''joints'' ''bytes'' empty_manager = kOk" "rejects ''a/b'' ''bytes'' empty_manager = kInvalidArgument"
    by (simp_all add: rejects_def empty_manager_def VerifyName_def kMaxNumberOfSegments_def kMaxSize_def
        kMaxSegmentStringSize_def)
  then show ?thesis
    using add_segment_behaviour[OF os_wf_init empty_manager_wf, of ok_env "''joints''" True "[1, 2, 3]" "''bytes''"]
      add_segment_behaviour[OF os_wf_init empty_manager_wf, of ok_env "''a/b''" True "[1]" "''bytes''"]
    by (auto simp: os_wf_init eval_nat_numeral)
qed

subsection \<open>Reference counts\<close>

definition refs :: "ReadWriteKind \<Rightarrow> nat \<Rightarrow> MemorySegment list \<Rightarrow> os \<Rightarrow> nat"
  where "refs kind i ls s =
    length (filter (\<lambda>ms. ms_kind ms = kind \<and> map_of (os_maps s) (ms_header ms) = Some i) ls)"

definition handle_inv :: "fd_map \<Rightarrow> MemorySegment list \<Rightarrow> os \<Rightarrow> bool"
  where "handle_inv fm ls s \<longleftrightarrow>
    os_wf s \<and> distinct (map ms_header ls)
    \<and> (\<forall>ms \<in> set ls. (ms_kind ms = kReadOnly \<or> ms_kind ms = kReadWrite)
        \<and> map_of (os_maps s) (ms_header ms) \<noteq> None
        \<and> (\<forall>i. map_of (os_maps s) (ms_header ms) = Some i \<longrightarrow> f_header (os_files s ! i) \<noteq> None))
    \<and> (\<forall>i < length (os_files s). \<forall>h. f_header (os_files s ! i) = Some h \<longrightarrow>
        sh_mutex h = 1 \<and> sh_ref_count_reader h = int (refs kReadOnly i ls s)
        \<and> sh_ref_count_writer h = int (refs kReadWrite i ls s))
    \<and> (\<forall>n fd i. map_of fm n = Some fd \<longrightarrow> map_of (os_fds s) fd = Some (Memfd i) \<longrightarrow>
        f_header (os_files s ! i) \<noteq> None)"

lemma refs_mset: "mset ls = mset ls' \<Longrightarrow> refs kind i ls s = refs kind i ls' s"
  unfolding refs_def by (rule mset_eq_length) simp

lemma handle_inv_mset: "mset ls = mset ls' \<Longrightarrow> handle_inv fm ls s \<Longrightarrow> handle_inv fm ls' s"
  using refs_mset[of ls ls'] mset_eq_setD[of ls ls']
    mset_eq_imp_distinct_iff[of "map ms_header ls" "map ms_header ls'"]
  by (simp add: handle_inv_def)

lemma refs_Cons: "refs kind i (ms # ls) s =
    refs kind i ls s + (if ms_kind ms = kind \<and> map_of (os_maps s) (ms_header ms) = Some i then 1 else 0)"
  by (simp add: refs_def)

lemma refs_cong:
  assumes "\<And>ms. ms \<in> set ls \<Longrightarrow> map_of (os_maps t) (ms_header ms) = map_of (os_maps s) (ms_header ms)"
  shows "refs kind i ls t = refs kind i ls s"
  unfolding refs_def by (intro arg_cong[where f = length] filter_cong) (simp_all add: assms)

lemma map_of_munmap: "b \<noteq> base \<Longrightarrow> map_of (os_maps (snd (munmap env base s))) b = map_of (os_maps s) b"
proof -
  assume "b \<noteq> base"
  then have "map_of (filter (\<lambda>(b, i). b \<noteq> base) xs) b = map_of xs b" for xs :: "(nat \<times> nat) list"
    by (induction xs) auto
  then show ?thesis by (auto simp: munmap_def sys_call_def split: option.split)
qed

lemma munmap_fields [simp]:
  "os_files (snd (munmap env base s)) = os_files s" "os_fds (snd (munmap env base s)) = os_fds s"
  by (auto simp: munmap_def sys_call_def split: option.split)

lemma os_wf_store_file:
  "os_wf s \<Longrightarrow> os_wf (s\<lparr>os_files := (os_files s)[i := f]\<rparr>)"
  by (simp add: os_wf_def)

lemma os_wf_munmap: "os_wf s \<Longrightarrow> os_wf (snd (munmap env base s))"
  by (auto simp: os_wf_def munmap_def sys_call_def distinct_map inj_on_def split: option.split)

lemma CleanUp_inv:
  assumes inv: "handle_inv fm (ms # ls) s"
  obtains s' where "CleanUpSharedMemory env ms s = Some s'" "handle_inv fm ls s'"
proof -
  obtain i h where i: "map_of (os_maps s) (ms_header ms) = Some i" "f_header (os_files s ! i) = Some h"
    using inv by (auto simp: handle_inv_def)
  have wf: "os_wf s" and len: "i < length (os_files s)" and base: "ms_header ms \<noteq> 0"
    using inv os_wf_map i(1) by (auto simp: handle_inv_def)
  define dec where "dec = (if ms_kind ms = kReadOnly then h\<lparr>sh_ref_count_reader := sh_ref_count_reader h - 1\<rparr>
    else h\<lparr>sh_ref_count_writer := sh_ref_count_writer h - 1\<rparr>)"
  define s1 where "s1 = s\<lparr>os_files := (os_files s)[i := (os_files s ! i)\<lparr>f_header := Some dec\<rparr>]\<rparr>"
  have h: "sh_mutex h = 1" "sh_ref_count_reader h = int (refs kReadOnly i (ms # ls) s)"
    "sh_ref_count_writer h = int (refs kReadWrite i (ms # ls) s)" and kind: "ms_kind ms = kReadOnly \<or> ms_kind ms = kReadWrite"
    using inv i len by (auto simp: handle_inv_def)
  have "CleanUpSharedMemory env ms s = Some (snd (munmap env (ms_header ms) s1))"
    using kind base i h wf len
    by (auto simp: CleanUpSharedMemory_def update_ref_count_def load_header_def store_header_def mapped_file_wf
        DecrementReaderRefCount_def DecrementWriterRefCount_def DecrementRefCount_def refs_def s1_def dec_def)
  moreover define t where "t = snd (munmap env (ms_header ms) s1)"
  moreover have "handle_inv fm ls t"
  proof -
    have t: "os_files t = (os_files s)[i := (os_files s ! i)\<lparr>f_header := Some dec\<rparr>]" "os_fds t = os_fds s"
      by (simp_all add: t_def s1_def)
    have "ms_header ms \<notin> ms_header ` set ls" using inv by (simp add: handle_inv_def)
    then have maps: "map_of (os_maps t) (ms_header l) = map_of (os_maps s) (ms_header l)" if "l \<in> set ls" for l
      unfolding t_def using that by (subst map_of_munmap) (metis imageI, simp add: s1_def)
    have refs: "refs kind j ls t = refs kind j ls s" for kind j by (rule refs_cong) (rule maps)
    have "os_wf t" using wf by (simp add: t_def os_wf_munmap os_wf_store_file s1_def)
    then show ?thesis using inv i len h kind
      by (auto simp: handle_inv_def t maps refs refs_Cons dec_def nth_list_update)
  qed
  ultimately show thesis by (metis that)
qed


text \<open>The effect of \<open>MemorySegment::Get\<close>: at most a new mapping.\<close>

definition remapped :: "(nat \<times> nat) option \<Rightarrow> nat \<Rightarrow> os \<Rightarrow> os"
  where "remapped x k s =
    (case x of None \<Rightarrow> s\<lparr>os_calls := k\<rparr>
     | Some (i, n) \<Rightarrow> s\<lparr>os_maps := (os_next_base s, i) # os_maps s,
                      os_next_base := os_next_base s + n + 4096, os_calls := k\<rparr>)"

lemma MemorySegment_Get_cases:
  assumes "os_wf s"
  obtains (error) e x k where "MemorySegment_Get env fm name s = (Inl e, remapped x k s)"
      "\<And>i n. x = Some (i, n) \<Longrightarrow> i < length (os_files s)"
    | (mapped) fd i k where "map_of fm name = Some fd" "map_of (os_fds s) fd = Some (Memfd i)"
      "sizeof_SegmentHeader < f_size (os_files s ! i)"
      "MemorySegment_Get env fm name s =
        (Inr \<lparr>sd_segment_start = os_next_base s, sd_size = f_size (os_files s ! i)\<rparr>,
         remapped (Some (i, f_size (os_files s ! i))) k s)"
proof -
  have pos: "0 < os_next_base s" using assms by (simp add: os_wf_def)
  have same: "\<exists>k. s = s\<lparr>os_calls := k\<rparr>" by (rule exI[of _ "os_calls s"]) simp
  note defs = MemorySegment_Get_def fstat_size_def mmap_def mlock_def sys_call_def Let_def remapped_def
  consider (none) "\<And>fd i. map_of fm name = Some fd \<Longrightarrow> map_of (os_fds s) fd \<noteq> Some (Memfd i)"
    | (memfd) fd i where "map_of fm name = Some fd" "map_of (os_fds s) fd = Some (Memfd i)" by blast
  then show thesis
  proof cases
    case none
    then have "\<exists>e k. MemorySegment_Get env fm name s = (Inl e, remapped None k s)"
      using same by (auto simp: defs split: option.splits fd_target.splits if_splits)
    then show thesis using error[where x = None] by blast
  next
    case memfd
    let ?n = "f_size (os_files s ! i)"
    have i: "i < length (os_files s)" using os_wf_fd[OF assms memfd(2)] .
    have "(\<exists>e k. MemorySegment_Get env fm name s = (Inl e, remapped None k s))
      \<or> (\<exists>e k. MemorySegment_Get env fm name s = (Inl e, remapped (Some (i, ?n)) k s))
      \<or> (\<exists>k. sizeof_SegmentHeader < ?n \<and> MemorySegment_Get env fm name s =
          (Inr \<lparr>sd_segment_start = os_next_base s, sd_size = ?n\<rparr>, remapped (Some (i, ?n)) k s))"
      using memfd pos same by (auto simp: defs split: option.splits)
    then show thesis
      using error[where x = None] error[where x = "Some (i, ?n)"] mapped[OF memfd] i by blast
  qed
qed

lemma os_wf_mapped:
  assumes "os_wf s" "i < length (os_files s)"
  shows "os_wf (s\<lparr>os_maps := (os_next_base s, i) # os_maps s, os_next_base := os_next_base s + n + 4096\<rparr>)"
    (is "os_wf ?t")
  unfolding os_wf_def
proof (intro conjI)
  show "distinct (map fst (os_maps ?t))"
    using assms(1) fresh_base[OF assms(1)] by (simp add: os_wf_def map_of_eq_None_iff)
  show "\<forall>(b, j) \<in> set (os_maps ?t). 0 < b \<and> b < os_next_base ?t \<and> j < length (os_files ?t)"
    using assms by (auto simp: os_wf_def)
qed (use assms(1) in \<open>simp_all add: os_wf_def\<close>)

lemma remapped_inv:
  assumes inv: "handle_inv fm ls s" and i: "\<And>i n. x = Some (i, n) \<Longrightarrow> i < length (os_files s)"
  shows "handle_inv fm ls (remapped x k s)"
    "l \<in> set ls \<Longrightarrow> map_of (os_maps (remapped x k s)) (ms_header l) = map_of (os_maps s) (ms_header l)"
proof -
  have wf: "os_wf s" using inv by (simp add: handle_inv_def)
  have old: "map_of (os_maps (remapped x k s)) (ms_header l) = map_of (os_maps s) (ms_header l)" if "l \<in> set ls" for l
  proof -
    have "ms_header l < os_next_base s" using inv that os_wf_map[OF wf] by (fastforce simp: handle_inv_def)
    then show ?thesis by (auto simp: remapped_def split: option.split)
  qed
  then show "l \<in> set ls \<Longrightarrow> map_of (os_maps (remapped x k s)) (ms_header l) = map_of (os_maps s) (ms_header l)" .
  have refs: "refs kind j ls (remapped x k s) = refs kind j ls s" for kind j by (rule refs_cong) (rule old)
  have same: "os_files (remapped x k s) = os_files s" "os_fds (remapped x k s) = os_fds s"
    by (auto simp: remapped_def split: option.split)
  have "os_wf (remapped x k s)"
  proof (cases x)
    case (Some y)
    then show ?thesis using wf i by (cases y) (simp add: remapped_def os_wf_mapped)
  qed (use wf in \<open>simp add: remapped_def\<close>)
  then show "handle_inv fm ls (remapped x k s)"
    using inv by (simp add: handle_inv_def refs same old)
qed

lemma refs_le: "refs kind i ls s \<le> length ls"
  by (simp add: refs_def)

lemma MemorySegment_new_inv:
  assumes inv: "handle_inv fm ls s" and n: "length ls < 2 ^ 31 - 1"
    and kind: "kind = kReadOnly \<or> kind = kReadWrite"
    and i: "map_of (os_maps s) base = Some i" "f_header (os_files s ! i) = Some h"
    and fresh: "base \<notin> ms_header ` set ls"
  obtains ms s' where "MemorySegment_new name \<lparr>sd_segment_start = base, sd_size = m\<rparr> kind s = Some (ms, s')"
    "handle_inv fm (ms # ls) s'" "ms_header ms = base" "ms_value ms = base + sizeof_SegmentHeader" "ms_size ms = m"
    "os_maps s' = os_maps s" "map f_payload (os_files s') = map f_payload (os_files s)"
proof -
  have wf: "os_wf s" using inv by (simp add: handle_inv_def)
  have len: "i < length (os_files s)" and base: "base \<noteq> 0" using os_wf_map[OF wf i(1)] by auto
  have h: "sh_mutex h = 1" "sh_ref_count_reader h = int (refs kReadOnly i ls s)"
    "sh_ref_count_writer h = int (refs kReadWrite i ls s)" using inv i len by (auto simp: handle_inv_def)
  have bound: "int (refs k i ls s) \<noteq> 2 ^ 31 - 1" for k using refs_le[of k i ls s] n by simp
  define inc where "inc = (if kind = kReadOnly then h\<lparr>sh_ref_count_reader := sh_ref_count_reader h + 1\<rparr>
    else h\<lparr>sh_ref_count_writer := sh_ref_count_writer h + 1\<rparr>)"
  define ms where "ms = \<lparr>ms_name = name, ms_header = base, ms_value = base + sizeof_SegmentHeader,
    ms_size = m, ms_kind = kind\<rparr>"
  define t where "t = s\<lparr>os_files := (os_files s)[i := (os_files s ! i)\<lparr>f_header := Some inc\<rparr>]\<rparr>"
  have t: "os_files t = (os_files s)[i := (os_files s ! i)\<lparr>f_header := Some inc\<rparr>]" "os_fds t = os_fds s"
    "os_maps t = os_maps s" by (simp_all add: t_def)
  have "MemorySegment_new name \<lparr>sd_segment_start = base, sd_size = m\<rparr> kind s = Some (ms, t)"
    using kind base i h len wf bound[of kReadOnly] bound[of kReadWrite]
    by (auto simp: MemorySegment_new_def update_ref_count_def load_header_def store_header_def mapped_file_wf
        IncrementReaderRefCount_def IncrementWriterRefCount_def IncrementRefCount_def t_def inc_def ms_def Let_def)
  moreover have refs: "refs k j ls t = refs k j ls s" for k j by (rule refs_cong) (simp add: t)
  have "os_wf t" using wf by (simp add: t_def os_wf_store_file)
  then have "handle_inv fm (ms # ls) t"
    using inv i len h kind fresh
    by (auto simp: handle_inv_def t refs refs_Cons inc_def ms_def nth_list_update)
  moreover have "map f_payload (os_files t) = map f_payload (os_files s)"
    using len by (simp add: t map_update list_update_same_conv)
  moreover note t(3)
  moreover have "ms_header ms = base" "ms_value ms = base + sizeof_SegmentHeader" "ms_size ms = m"
    by (simp_all add: ms_def)
  ultimately show thesis by (intro that[of ms t])
qed

lemma TypedMemorySegment_Get_cases:
  assumes inv: "handle_inv fm ls s" and n: "length ls < 2 ^ 31 - 1"
    and kind: "kind = kReadOnly \<or> kind = kReadWrite"
  obtains (error) e s' where "TypedMemorySegment_Get kind env k fm name s = Some (Inl e, s')" "handle_inv fm ls s'"
    | (opened) fd i ms s' where "TypedMemorySegment_Get kind env k fm name s = Some (Inr ms, s')"
      "handle_inv fm (ms # ls) s'" "map_of fm name = Some fd" "map_of (os_fds s) fd = Some (Memfd i)"
      "map_of (os_maps s') (ms_header ms) = Some i" "ms_size ms = f_size (os_files s ! i)"
      "sizeof_SegmentHeader + k \<le> ms_size ms" "ms_header ms \<noteq> 0" "ms_value ms = ms_header ms + sizeof_SegmentHeader"
      "\<And>b j. map_of (os_maps s) b = Some j \<Longrightarrow> map_of (os_maps s') b = Some j"
      "map f_payload (os_files s') = map f_payload (os_files s)"
proof -
  have wf: "os_wf s" using inv by (simp add: handle_inv_def)
  show thesis
  proof (cases rule: MemorySegment_Get_cases[OF wf, of env fm name])
    case (1 e x c)
    then show thesis
      using remapped_inv(1)[OF inv, of x c] by (intro error) (simp_all add: TypedMemorySegment_Get_def)
  next
    case (2 fd i c)
    let ?n = "f_size (os_files s ! i)"
    let ?t = "remapped (Some (i, ?n)) c s"
    have i: "i < length (os_files s)" using os_wf_fd[OF wf 2(2)] .
    have inv': "handle_inv fm ls ?t" by (rule remapped_inv[OF inv]) (use i in auto)
    have t: "os_files ?t = os_files s" "map_of (os_maps ?t) (os_next_base s) = Some i"
      by (simp_all add: remapped_def)
    obtain h where h: "f_header (os_files s ! i) = Some h"
      using inv 2(1,2) by (fastforce simp: handle_inv_def)
    have fresh: "os_next_base s \<notin> ms_header ` set ls"
      using inv fresh_base[OF wf] by (fastforce simp: handle_inv_def)
    have pos: "0 < os_next_base s" using wf by (simp add: os_wf_def)
    have old: "map_of (os_maps ?t) b = Some j" if "map_of (os_maps s) b = Some j" for b j
      using that os_wf_map[OF wf that] by (simp add: remapped_def)
    show thesis
    proof (cases "?n < k + sizeof_SegmentHeader")
      case True
      then show thesis using 2(4) inv'
        by (intro error) (simp_all add: TypedMemorySegment_Get_def SharedMemorySegmentFitsLowerSizeBound_def)
    next
      case False
      obtain ms s' where m: "MemorySegment_new name \<lparr>sd_segment_start = os_next_base s, sd_size = ?n\<rparr> kind ?t = Some (ms, s')"
        "handle_inv fm (ms # ls) s'" "ms_header ms = os_next_base s" "ms_size ms = ?n"
        "ms_value ms = os_next_base s + sizeof_SegmentHeader"
        "os_maps s' = os_maps ?t" "map f_payload (os_files s') = map f_payload (os_files s)"
        using MemorySegment_new_inv[OF inv' n kind t(2), of h name ?n] h fresh unfolding t(1) by metis
      have "TypedMemorySegment_Get kind env k fm name s = Some (Inr ms, s')"
        using 2(4) False m(1)
        by (simp add: TypedMemorySegment_Get_def SharedMemorySegmentFitsLowerSizeBound_def Let_def)
      then show thesis using m t(2) old False pos by (intro opened[OF _ m(2) 2(1,2)]) simp_all
    qed
  qed
qed

text \<open>
  Programs over handles: open, move, move-assign and destroy, on the handles created so far.  A handle
  that was moved from or destroyed stays in the list as an empty one.
\<close>

datatype seg_op = OpenSeg ReadWriteKind nat string | MoveSeg nat | MoveAssignSeg nat nat | DropSeg nat

primrec seg_exec ::
    "sys_env \<Rightarrow> fd_map \<Rightarrow> seg_op \<Rightarrow> MemorySegment list \<times> os \<Rightarrow> (MemorySegment list \<times> os) checked"
  where
    "seg_exec env fm (OpenSeg kind sizeof_T name) st = (case st of (hs, s) \<Rightarrow>
       map_option (\<lambda>(r, s1). (case r of Inl e \<Rightarrow> hs | Inr ms \<Rightarrow> hs @ [ms], s1))
         (TypedMemorySegment_Get kind env sizeof_T fm name s))"
  | "seg_exec env fm (MoveSeg i) st = (case st of (hs, s) \<Rightarrow>
       if i < length hs
       then let (new, old) = MemorySegment_move (hs ! i) in Some (hs[i := old] @ [new], s)
       else Some (hs, s))"
  | "seg_exec env fm (MoveAssignSeg i j) st = (case st of (hs, s) \<Rightarrow>
       if i < length hs \<and> j < length hs \<and> i \<noteq> j
       then map_option (\<lambda>(this, other, s1). (hs[i := this, j := other], s1))
              (MemorySegment_move_assign env (hs ! i) (hs ! j) s)
       else Some (hs, s))"
  | "seg_exec env fm (DropSeg i) st = (case st of (hs, s) \<Rightarrow>
       if i < length hs
       then map_option (\<lambda>s1. (hs[i := MemorySegment_default], s1)) (CleanUpSharedMemory env (hs ! i) s)
       else Some (hs, s))"

fun seg_run ::
    "sys_env \<Rightarrow> fd_map \<Rightarrow> seg_op list \<Rightarrow> MemorySegment list \<times> os \<Rightarrow> (MemorySegment list \<times> os) checked"
  where
    "seg_run env fm [] st = Some st"
  | "seg_run env fm (p # ps) st = Option.bind (seg_exec env fm p st) (seg_run env fm ps)"

fun typed_open :: "seg_op \<Rightarrow> bool"
  where
    "typed_open (OpenSeg kind n name) = (kind \<noteq> kUnknownKind)"
  | "typed_open p = True"

definition live :: "MemorySegment list \<Rightarrow> MemorySegment list"
  where "live hs = filter (\<lambda>ms. ms_header ms \<noteq> 0) hs"

definition live_one :: "MemorySegment \<Rightarrow> MemorySegment multiset"
  where "live_one ms = mset (live [ms])"

lemma live_append [simp]: "mset (live (hs @ [ms])) = mset (live hs) + live_one ms"
  by (simp add: live_def live_one_def)

lemma live_one_default [simp]: "live_one MemorySegment_default = {#}"
  by (simp add: live_one_def live_def MemorySegment_default_def)

lemma live_update:
  "i < length hs \<Longrightarrow> mset (live (hs[i := x])) + live_one (hs ! i) = mset (live hs) + live_one x"
proof (induction hs arbitrary: i)
  case (Cons a hs)
  then show ?case by (cases i) (auto simp: live_def live_one_def)
qed simp

lemma live_update_default: "i < length hs \<Longrightarrow> mset (live hs) = mset (live (hs[i := MemorySegment_default])) + live_one (hs ! i)"
  using live_update[of i hs MemorySegment_default] by simp

lemma live_length: "length (live hs) \<le> length hs"
  by (simp add: live_def)

lemma CleanUp_live:
  assumes "handle_inv fm (live hs) s" "i < length hs"
  obtains s' where "CleanUpSharedMemory env (hs ! i) s = Some s'"
    "handle_inv fm (live (hs[i := MemorySegment_default])) s'"
proof (cases "ms_header (hs ! i) = 0")
  case True
  then have "mset (live hs) = mset (live (hs[i := MemorySegment_default]))"
    using live_update_default[OF assms(2)] by (simp add: live_one_def live_def)
  with handle_inv_mset[OF this assms(1)] True show thesis
    by (intro that[of s]) (simp_all add: CleanUpSharedMemory_def)
next
  case False
  then have "mset (live hs) = mset (hs ! i # live (hs[i := MemorySegment_default]))"
    using live_update_default[OF assms(2)] by (simp add: live_one_def live_def)
  from CleanUp_inv[OF handle_inv_mset[OF this assms(1)]] that show thesis by metis
qed

lemma seg_exec_inv:
  assumes "handle_inv fm (live hs) s" "length hs < 2 ^ 31 - 1" "typed_open p"
  obtains hs' s' where "seg_exec env fm p (hs, s) = Some (hs', s')" "handle_inv fm (live hs') s'"
    "length hs' \<le> Suc (length hs)"
proof (cases p)
  case (OpenSeg kind n name)
  have l: "length (live hs) < 2 ^ 31 - 1" using assms(2) live_length[of hs] by linarith
  have k: "kind = kReadOnly \<or> kind = kReadWrite" using assms(3) OpenSeg by (cases kind) auto
  show thesis
  proof (cases rule: TypedMemorySegment_Get_cases[OF assms(1) l k, of env n name])
    case (1 e s')
    then show thesis using OpenSeg by (intro that[of hs s']) simp_all
  next
    case (2 fd i ms s')
    have "mset (ms # live hs) = mset (live (hs @ [ms]))" using 2(8) by (simp add: live_one_def live_def)
    from handle_inv_mset[OF this 2(2)] 2(1) show thesis
      using OpenSeg by (intro that[of "hs @ [ms]" s']) simp_all
  qed
next
  case (MoveSeg i)
  show thesis
  proof (cases "i < length hs")
    case True
    then have "mset (live hs) = mset (live (hs[i := MemorySegment_default] @ [hs ! i]))"
      using live_update_default[of i hs] by simp
    from handle_inv_mset[OF this assms(1)] True MoveSeg show thesis
      by (intro that[of "hs[i := MemorySegment_default] @ [hs ! i]" s]) (simp_all add: MemorySegment_move_def)
  qed (use assms(1) MoveSeg that in simp)
next
  case (MoveAssignSeg i j)
  show thesis
  proof (cases "i < length hs \<and> j < length hs \<and> i \<noteq> j")
    case True
    then obtain s' where s': "CleanUpSharedMemory env (hs ! i) s = Some s'"
      "handle_inv fm (live (hs[i := MemorySegment_default])) s'" using CleanUp_live[OF assms(1)] by metis
    let ?hs = "hs[i := hs ! j, j := MemorySegment_default]"
    have "mset (live ?hs) + live_one (hs ! j) = mset (live (hs[i := MemorySegment_default])) + live_one (hs ! j)"
      using live_update[of j "hs[i := hs ! j]" MemorySegment_default] live_update[of i hs "hs ! j"]
        live_update_default[of i hs] True by (simp add: add.commute add.left_commute)
    then have "mset (live (hs[i := MemorySegment_default])) = mset (live ?hs)" by simp
    from handle_inv_mset[OF this s'(2)] s'(1) True MoveAssignSeg show thesis
      by (intro that[of ?hs s']) (simp_all add: MemorySegment_move_assign_def)
  qed (use assms(1) MoveAssignSeg that in auto)
next
  case (DropSeg i)
  show thesis
  proof (cases "i < length hs")
    case True
    then obtain s' where "CleanUpSharedMemory env (hs ! i) s = Some s'"
      "handle_inv fm (live (hs[i := MemorySegment_default])) s'" using CleanUp_live[OF assms(1)] by metis
    with DropSeg True show thesis by (intro that[of "hs[i := MemorySegment_default]" s']) simp_all
  qed (use assms(1) DropSeg that in simp)
qed

lemma seg_run_inv:
  assumes "handle_inv fm (live hs) s" "length hs + length ps < 2 ^ 31 - 1" "list_all typed_open ps"
  obtains hs' s' where "seg_run env fm ps (hs, s) = Some (hs', s')" "handle_inv fm (live hs') s'"
  using assms
proof (induction ps arbitrary: hs s thesis)
  case (Cons p ps)
  from Cons.prems(3) have n: "length hs < 2 ^ 31 - 1" by simp
  from Cons.prems(4) have p: "typed_open p" by simp
  obtain hs1 s1 where s1: "seg_exec env fm p (hs, s) = Some (hs1, s1)" "handle_inv fm (live hs1) s1"
    "length hs1 \<le> Suc (length hs)" using seg_exec_inv[OF Cons.prems(2) n p] by metis
  with Cons.prems(3) have "length hs1 + length ps < 2 ^ 31 - 1" by simp
  with Cons.IH[of hs1 s1] Cons.prems(1,4) s1 show ?case by auto
qed simp

text \<open>C8: The reference counts in a header are exact.  For every program that opens, moves,
  move-assigns and destroys handles, with system calls failing at any time, no step faults or blocks,
  and at the end the counts of every header are the numbers of live read-only and read-write handles
  mapped to its file.\<close>
theorem refcounts_count_handles:
  assumes "handle_inv fm [] s" "length ps < 2 ^ 31 - 1" "list_all typed_open ps"
  shows "\<exists>hs s'. seg_run env fm ps ([], s) = Some (hs, s')
    \<and> (\<forall>i < length (os_files s'). \<forall>h. f_header (os_files s' ! i) = Some h \<longrightarrow>
        ReaderRefCount h = Some (int (refs kReadOnly i (live hs) s'))
        \<and> WriterRefCount h = Some (int (refs kReadWrite i (live hs) s')))"
proof -
  have inv: "handle_inv fm (live []) s" and len: "length [] + length ps < 2 ^ 31 - 1"
    using assms(1,2) by (simp_all add: live_def)
  obtain hs s' where "seg_run env fm ps ([], s) = Some (hs, s')" "handle_inv fm (live hs) s'"
    using seg_run_inv[OF inv len assms(3)] by metis
  then show ?thesis
    by (auto simp: handle_inv_def ReaderRefCount_def WriterRefCount_def ReadRefCountSynchronized_def)
qed

text \<open>A system with one segment of two bytes, shared under the name \<open>joints\<close>.\<close>

definition joints_os :: os
  where "joints_os = grown 0 ((new_file 2 ''bytes'')\<lparr>f_payload := [1, 2]\<rparr>) (Some (sizeof_SegmentHeader + 2)) 5 os_init"

definition joints_manager :: SharedMemoryManager
  where "joints_manager = with_segment ''joints'' True 2 os_init empty_manager"

lemma lowest_free_Nil [simp]: "lowest_free [] = 0"
  by (simp add: lowest_free_def)

lemma joints_wf: "os_wf joints_os" "smm_wf joints_manager joints_os"
proof -
  have fd: "lowest_free (os_fds os_init) = 0" by (simp add: os_init_def)
  show "os_wf joints_os" unfolding joints_os_def by (rule grown_wf(1)[OF os_wf_init]) (simp add: fd)
  have "rejects ''joints'' ''bytes'' empty_manager = kOk"
    by (simp add: rejects_def empty_manager_def VerifyName_def kMaxNumberOfSegments_def kMaxSize_def
        kMaxSegmentStringSize_def)
  from with_segment_wf[OF os_wf_init empty_manager_wf this, of "(new_file 2 ''bytes'')\<lparr>f_payload := [1, 2]\<rparr>" 2
      "SegmentHeader_new ''bytes''" True 5]
  show "smm_wf joints_manager joints_os"
    unfolding joints_os_def joints_manager_def by (simp add: fd new_file_def SegmentHeader_new_def)
qed

lemma joints_inv: "handle_inv (smm_fd_map joints_manager) [] joints_os"
  using joints_wf(1) unfolding handle_inv_def
  by (auto simp: joints_os_def joints_manager_def grown_def os_init_def new_file_def SegmentHeader_new_def
      refs_def with_segment_def empty_manager_def)

theorem refcounts_count_handles_witness:
  "handle_inv (smm_fd_map joints_manager) [] joints_os
    \<and> (\<exists>hs s'. seg_run ok_env (smm_fd_map joints_manager)
          [OpenSeg kReadOnly 2 ''joints'', OpenSeg kReadWrite 1 ''joints'', MoveSeg 0, DropSeg 1] ([], joints_os)
          = Some (hs, s')
        \<and> (\<forall>i < length (os_files s'). \<forall>h. f_header (os_files s' ! i) = Some h \<longrightarrow>
            ReaderRefCount h = Some (int (refs kReadOnly i (live hs) s'))))"
  using joints_inv refcounts_count_handles[OF joints_inv, of
      "[OpenSeg kReadOnly 2 ''joints'', OpenSeg kReadWrite 1 ''joints'', MoveSeg 0, DropSeg 1]" ok_env]
  by auto

subsection \<open>Sharing\<close>

lemma sizeof_SegmentHeader_pos [simp]: "0 < sizeof_SegmentHeader"
  by (simp add: sizeof_SegmentHeader_def)

lemma MemorySegment_Get_never_fails:
  assumes "os_wf s" "never_fails env" "map_of fm name = Some fd" "map_of (os_fds s) fd = Some (Memfd i)"
    and "sizeof_SegmentHeader < f_size (os_files s ! i)"
  shows "\<exists>sd s'. MemorySegment_Get env fm name s = (Inr sd, s') \<and> sd_size sd = f_size (os_files s ! i)"
proof -
  have "0 \<le> fd" "0 < os_next_base s" using assms(1,4) by (auto simp: os_wf_def dest!: map_of_SomeD)
  then show ?thesis using assms(2-5)
    by (simp add: MemorySegment_Get_def fstat_size_def mmap_def mlock_def sys_call_def never_fails_def Let_def)
qed

text \<open>A segment of a manager can be opened by its name, and the handle and the manager share its
  memory: the handle has the size of the payload, it reads the value the manager has, and what is
  written through the handle is what the manager reads afterwards.\<close>
theorem opened_segment_is_shared:
  assumes wf: "os_wf s" "smm_wf m s" "handle_inv (smm_fd_map m) ls s" "length ls < 2 ^ 31 - 1"
    and "never_fails env" "map_of (smm_segments m) name = Some info"
    and k: "0 < k" "sizeof_SegmentHeader + k \<le> msi_length info"
  shows "\<exists>ms s' v. ReadWriteMemorySegment_Get env k (smm_fd_map m) name s = Some (Inr ms, s')
    \<and> ValueSize ms = msi_length info - sizeof_SegmentHeader
    \<and> GetValue k ms s' = Some v \<and> GetSegmentValue k name m s = Some (Some v)
    \<and> (\<forall>bytes. length bytes = k \<longrightarrow>
        (\<exists>s2. MemorySegment_SetValue bytes ms s' = Some s2 \<and> GetSegmentValue k name m s2 = Some (Some bytes)))"
proof -
  have "seg_ok s info" using wf(2) assms(6) by (auto simp: smm_wf_def dest!: map_of_SomeD)
  then obtain i where i: "map_of (os_maps s) (msi_data info) = Some i" "map_of (os_fds s) (msi_fd info) = Some (Memfd i)"
    "i < length (os_files s)" "f_size (os_files s ! i) = msi_length info"
    "length (f_payload (os_files s ! i)) = msi_length info - sizeof_SegmentHeader" by (auto simp: seg_ok_def)
  have fm: "map_of (smm_fd_map m) name = Some (msi_fd info)"
    using wf(2) assms(6) by (simp add: smm_wf_def map_of_map comp_def)
  have kind: "kReadWrite = kReadOnly \<or> kReadWrite = kReadWrite" by simp
  show ?thesis
  proof (cases rule: TypedMemorySegment_Get_cases[OF wf(3,4) kind, of env k name])
    case (1 e s')
    from MemorySegment_Get_never_fails[OF wf(1) assms(5) fm i(2)] k i(4) 1(1) show ?thesis
      by (auto simp: TypedMemorySegment_Get_def SharedMemorySegmentFitsLowerSizeBound_def)
  next
    case (2 fd j ms s')
    have j: "j = i" and wf': "os_wf s'" using 2(2-4) fm i(2) by (simp_all add: handle_inv_def)
    have len: "length (os_files s') = length (os_files s)" using 2(11) by (rule map_eq_imp_length_eq)
    have pay: "f_payload (os_files s' ! i) = f_payload (os_files s ! i)"
      using arg_cong[OF 2(11), of "\<lambda>xs. xs ! i"] i(3) len by simp
    have maps: "mapped_file (ms_header ms) s' = Some i" "mapped_file (msi_data info) s' = Some i"
      "mapped_file (msi_data info) s = Some i"
      using 2(5,10) i(1) j wf(1) wf' by (simp_all add: mapped_file_wf)
    have raw: "GetRawValue name m = msi_data info + sizeof_SegmentHeader"
      using assms(6) os_wf_map[OF wf(1) i(1)] by (simp add: GetRawValue_def GetRawSegment_def Let_def)
    let ?v = "take k (f_payload (os_files s ! i))"
    let ?s2 = "\<lambda>bytes. s'\<lparr>os_files := (os_files s')[i := (os_files s' ! i)\<lparr>f_payload :=
      memcpy_prefix (f_payload (os_files s' ! i)) bytes (length bytes)\<rparr>]\<rparr>"
    have "ReadWriteMemorySegment_Get env k (smm_fd_map m) name s = Some (Inr ms, s')"
      using 2(1) by (simp add: ReadWriteMemorySegment_Get_def)
    moreover have "ValueSize ms = msi_length info - sizeof_SegmentHeader"
      using 2(6-9) i(4) j by (simp add: ValueSize_def MemorySegment_IsValid_def)
    moreover have "GetValue k ms s' = Some ?v" using maps 2(9) pay by (simp add: GetValue_def load_payload_def)
    moreover have "GetSegmentValue k name m s = Some (Some ?v)"
      using maps raw by (simp add: GetSegmentValue_def load_payload_def)
    moreover have "MemorySegment_SetValue bytes ms s' = Some (?s2 bytes)
        \<and> GetSegmentValue k name m (?s2 bytes) = Some (Some bytes)" if "length bytes = k" for bytes
      using maps raw 2(9) pay i(3,5) len k that
      by (simp add: MemorySegment_SetValue_def store_payload_def Let_def GetSegmentValue_def load_payload_def
          mapped_file_def memcpy_prefix_def split: option.splits if_splits)
    ultimately show ?thesis by blast
  qed
qed

theorem opened_segment_is_shared_witness:
  "os_wf joints_os \<and> smm_wf joints_manager joints_os \<and> never_fails ok_env
    \<and> (\<exists>ms s'. ReadWriteMemorySegment_Get ok_env 2 (smm_fd_map joints_manager) ''joints'' joints_os = Some (Inr ms, s')
        \<and> ValueSize ms = 2 \<and> GetValue 2 ms s' = Some [1, 2]
        \<and> (\<exists>s2. MemorySegment_SetValue [3, 4] ms s' = Some s2
            \<and> GetSegmentValue 2 ''joints'' joints_manager s2 = Some (Some [3, 4])))"
proof -
  let ?info = "\<lparr>msi_data = 4096, msi_length = sizeof_SegmentHeader + 2, msi_must_be_used = True, msi_fd = 0\<rparr>"
  have info: "map_of (smm_segments joints_manager) ''joints'' = Some ?info"
    by (simp add: joints_manager_def with_segment_def empty_manager_def os_init_def)
  have "GetSegmentValue 2 ''joints'' joints_manager joints_os = Some (Some [1, 2])"
    by (simp add: GetSegmentValue_def GetRawValue_def GetRawSegment_def info load_payload_def mapped_file_def
        joints_os_def grown_def os_init_def)
  moreover have k: "0 < (2 :: nat)" "sizeof_SegmentHeader + 2 \<le> msi_length ?info" by simp_all
  have l: "length ([] :: MemorySegment list) < 2 ^ 31 - 1" by simp
  obtain ms s' v where o: "ReadWriteMemorySegment_Get ok_env 2 (smm_fd_map joints_manager) ''joints'' joints_os = Some (Inr ms, s')"
    "ValueSize ms = msi_length ?info - sizeof_SegmentHeader" "GetValue 2 ms s' = Some v"
    "GetSegmentValue 2 ''joints'' joints_manager joints_os = Some (Some v)"
    "\<forall>bytes. length bytes = 2 \<longrightarrow> (\<exists>s2. MemorySegment_SetValue bytes ms s' = Some s2
      \<and> GetSegmentValue 2 ''joints'' joints_manager s2 = Some (Some bytes))"
    using opened_segment_is_shared[OF joints_wf joints_inv l ok_env_never_fails info k] by blast
  moreover from o(5)[rule_format, of "[3, 4]"] have "\<exists>s2. MemorySegment_SetValue [3, 4] ms s' = Some s2
      \<and> GetSegmentValue 2 ''joints'' joints_manager s2 = Some (Some [3, 4])" by simp
  ultimately show ?thesis using joints_wf by auto
qed


subsection \<open>The list of segments\<close>

definition name_entry :: "string \<times> MemorySegmentInfo \<Rightarrow> SegmentName"
  where "name_entry x = \<lparr>sn_value = snprintf_s kMaxSegmentStringSize (fst x),
    sn_must_be_used = msi_must_be_used (snd x)\<rparr>"

lemma fill_names_eq:
  "index + length segs \<le> length names \<Longrightarrow>
    fill_names index segs names = Some (take index names @ map name_entry segs @ drop (index + length segs) names)"
proof (induction segs arbitrary: index names)
  case (Cons x segs)
  obtain n b where x: "x = (n, b)" by force
  let ?names = "names[index := name_entry x]"
  have "fill_names index (x # segs) names = fill_names (Suc index) segs ?names"
    using Cons.prems by (simp add: x name_entry_def)
  also have "\<dots> = Some (take (Suc index) ?names @ map name_entry segs @ drop (Suc index + length segs) ?names)"
    using Cons.prems by (intro Cons.IH) simp
  finally show ?case using Cons.prems by (simp add: take_Suc_conv_app_nth drop_update_cancel)
qed simp

lemma InterfaceNameFromSegment_entry:
  assumes "no_nul n" "length n < kMaxSegmentStringSize"
  shows "InterfaceNameFromSegment (name_entry (n, b)) = Inr n"
proof -
  have tw: "takeWhile (\<lambda>c. c \<noteq> CHR 0x00) n = n" using assms(1) by (auto intro: takeWhile_eq_all_conv[THEN iffD2])
  have "sn_value (name_entry (n, b)) = n @ replicate (kMaxSegmentStringSize - length n) (CHR 0x00)"
    using assms(2) by (simp add: name_entry_def snprintf_s_def Let_def tw)
  then show ?thesis
    using takeWhile_no_nul_zeros[of "length n" n "kMaxSegmentStringSize - length n"]
    by (simp add: InterfaceNameFromSegment_def StringView_takeWhile tw)
qed

lemma collect_names_entries:
  "(\<And>n b. (n, b) \<in> set segs \<Longrightarrow> no_nul n \<and> length n < kMaxSegmentStringSize) \<Longrightarrow>
    collect_names (map name_entry segs) = Inr (map fst segs)"
proof (induction segs)
  case (Cons x segs)
  obtain n b where x: "x = (n, b)" by force
  have "InterfaceNameFromSegment (name_entry x) = Inr n"
    using Cons.prems[of n b] by (simp add: x InterfaceNameFromSegment_entry)
  moreover have "collect_names (map name_entry segs) = Inr (map fst segs)"
    by (rule Cons.IH) (use Cons.prems in auto)
  ultimately show ?case by (simp add: x)
qed simp

text \<open>The list of segments tells a client exactly what the manager has: in whatever order the
  manager's map is iterated, the names read from the list are the registered names and the required
  names are those of the segments that must be used.  No write into or read from the fixed array of
  the list is out of bounds.\<close>
theorem segment_info_roundtrip:
  assumes "smm_wf m s" "mset (order (smm_segments m)) = mset (smm_segments m)"
    and "\<forall>n \<in> fst ` set (smm_segments m). no_nul n"
  shows "\<exists>info. GetSegmentInfo order m = Some info
    \<and> GetNamesFromSegmentInfo info = Some (Inr (GetRegisteredMemoryNames order m))
    \<and> GetRequiredInterfaceNamesFromSegmentInfo info
      = Some (Inr (map fst (filter (\<lambda>(n, b). msi_must_be_used b) (order (smm_segments m)))))"
proof -
  let ?segs = "order (smm_segments m)"
  have len: "length ?segs \<le> kMaxNumberOfSegments"
    using assms(1) mset_eq_length[OF assms(2)] by (simp add: smm_wf_def)
  have names: "no_nul n \<and> length n < kMaxSegmentStringSize" if "(n, b) \<in> set ?segs" for n b
  proof -
    have "(n, b) \<in> set (smm_segments m)" using that mset_eq_setD[OF assms(2)] by simp
    then show ?thesis using assms(1,3)
      by (fastforce simp: smm_wf_def VerifyName_def split: if_splits)
  qed
  let ?pad = "replicate (kMaxNumberOfSegments - length ?segs) SegmentName_default"
  have fill: "GetSegmentInfo order m = Some \<lparr>si_size = word_of_nat (length ?segs), si_names = map name_entry ?segs @ ?pad\<rparr>"
    using fill_names_eq[of 0 ?segs "replicate kMaxNumberOfSegments SegmentName_default"] len
    by (simp add: GetSegmentInfo_def SegmentInfoFromHashMap_def)
  have sz: "unat (word_of_nat (length ?segs) :: u32) = length ?segs"
    using len by (simp add: unat_of_nat take_bit_nat_eq_self kMaxNumberOfSegments_def)
  have req: "filter sn_must_be_used (map name_entry ?segs) = map name_entry (filter (\<lambda>(n, b). msi_must_be_used b) ?segs)"
    by (simp add: filter_map comp_def name_entry_def case_prod_unfold)
  have "collect_names (map name_entry ?segs) = Inr (map fst ?segs)" by (rule collect_names_entries) (rule names)
  moreover have "collect_names (map name_entry (filter (\<lambda>(n, b). msi_must_be_used b) ?segs))
      = Inr (map fst (filter (\<lambda>(n, b). msi_must_be_used b) ?segs))"
    by (rule collect_names_entries) (use names in auto)
  ultimately show ?thesis using fill sz req
    by (simp add: GetNamesFromSegmentInfo_def GetRequiredInterfaceNamesFromSegmentInfo_def GetRegisteredMemoryNames_def)
qed

theorem segment_info_roundtrip_witness:
  "smm_wf joints_manager joints_os
    \<and> (\<exists>info. GetSegmentInfo rev joints_manager = Some info \<and> GetNamesFromSegmentInfo info = Some (Inr [''joints'']))"
proof -
  have "fst ` set (smm_segments joints_manager) = {''joints''}" "GetRegisteredMemoryNames rev joints_manager = [''joints'']"
    by (simp_all add: joints_manager_def with_segment_def empty_manager_def GetRegisteredMemoryNames_def)
  then show ?thesis using segment_info_roundtrip[OF joints_wf(2), of rev] joints_wf(2) by auto
qed

end
