(* ===== verification/Hardware_Interface.thy ===== *)
theory Hardware_Interface
  imports Domain_Socket_Server Shared_Memory_Props
begin

text \<open>
  Hardware interfaces: typed messages in shared memory segments (\<open>hardware_interface_registry.h\<close> and
  \<open>.cc\<close>, \<open>get_hardware_interface.h\<close>, \<open>hardware_interface_handle.h\<close>, \<open>hardware_interface_traits.h\<close> in
  \<open>icon/hal\<close>), the cycle counter of \<open>icon/utils/current_cycle.h\<close>, and the two interfaces the runtime
  itself uses (\<open>icon_state_utils.cc\<close>, \<open>control_period_utils.cc\<close>).

  A class \<open>HardwareInterfaceT\<close> with its traits is a record: its type string, its size, and what the
  flatbuffers library does with its buffers.  The library is not part of the sources: the verifier,
  \<open>GetRoot\<close> and the mutators are fields of the record, and what is used of them are hypotheses of the
  theorems.  A pointer into a segment is read through the segment at the time of the access.
\<close>

record 'a interface_type =
  it_type_string :: string
  it_sizeof :: nat
  it_is_table :: bool
  it_verify :: "u8 list \<Rightarrow> bool"
  it_root :: "u8 list \<Rightarrow> 'a"
  it_mutate :: "'a \<Rightarrow> u8 list \<Rightarrow> u8 list"

subsection \<open>The cycle counter\<close>

definition GetCurrentCycle :: "u64 \<Rightarrow> u64"
  where "GetCurrentCycle counter = counter"

definition SetCurrentCycle :: "u64 \<Rightarrow> u64 \<Rightarrow> u64"
  where "SetCurrentCycle new_cycle counter = new_cycle"

definition IncrementCurrentCycle :: "u64 \<Rightarrow> u64"
  where "IncrementCurrentCycle counter = counter + 1"

subsection \<open>Opening an interface\<close>

definition SegmentHeaderIsValid :: "'a interface_type \<Rightarrow> SegmentHeader \<Rightarrow> StatusCode"
  where "SegmentHeaderIsValid T segment_header =
    (if sh_version segment_header \<noteq> ExpectedVersion then kInvalidArgument
     else if TypeID (sh_type_info segment_header) \<noteq> it_type_string T then kInvalidArgument
     else kOk)"

definition FlatbufferIsValid :: "'a interface_type \<Rightarrow> u8 list \<Rightarrow> nat \<Rightarrow> StatusCode"
  where "FlatbufferIsValid T buffer buffer_size =
    (if it_is_table T \<and> \<not> it_verify T (take buffer_size buffer) then kInvalidArgument else kOk)"

text \<open>The checks on an open segment; after a failed check the destructor gives the segment back.\<close>

definition check_segment ::
    "sys_env \<Rightarrow> 'a interface_type \<Rightarrow> MemorySegment \<Rightarrow> os \<Rightarrow> ((StatusCode + MemorySegment) \<times> os) checked"
  where "check_segment env T segment s = do {
    header \<leftarrow> load_header (ms_header segment) s;
    buffer \<leftarrow> load_payload (ms_value segment) s;
    let status = SegmentHeaderIsValid T header;
        status' = FlatbufferIsValid T buffer (ValueSize segment)
    in if status \<noteq> kOk
       then map_option (\<lambda>s1. (Inl status, s1)) (CleanUpSharedMemory env segment s)
       else if status' \<noteq> kOk
       then map_option (\<lambda>s1. (Inl status', s1)) (CleanUpSharedMemory env segment s)
       else Some (Inr segment, s)
  }"

definition GetInterfaceHandle ::
    "sys_env \<Rightarrow> 'a interface_type \<Rightarrow> fd_map \<Rightarrow> string \<Rightarrow> os \<Rightarrow> ((StatusCode + MemorySegment) \<times> os) checked"
  where "GetInterfaceHandle env T fm interface_name s = do {
    (segment, s1) \<leftarrow> ReadOnlyMemorySegment_Get env (it_sizeof T) fm interface_name s;
    (case segment of Inl e \<Rightarrow> Some (Inl e, s1) | Inr ro_segment \<Rightarrow> check_segment env T ro_segment s1)
  }"

definition GetMutableInterfaceHandle ::
    "sys_env \<Rightarrow> 'a interface_type \<Rightarrow> fd_map \<Rightarrow> string \<Rightarrow> os \<Rightarrow> ((StatusCode + MemorySegment) \<times> os) checked"
  where "GetMutableInterfaceHandle env T fm interface_name s = do {
    (segment, s1) \<leftarrow> ReadWriteMemorySegment_Get env (it_sizeof T) fm interface_name s;
    (case segment of Inl e \<Rightarrow> Some (Inl e, s1) | Inr rw_segment \<Rightarrow> check_segment env T rw_segment s1)
  }"

definition GetInterfaceHandle_manager ::
    "sys_env \<Rightarrow> 'a interface_type \<Rightarrow> SharedMemoryManager \<Rightarrow> string \<Rightarrow> os \<Rightarrow> ((StatusCode + MemorySegment) \<times> os) checked"
  where "GetInterfaceHandle_manager env T m interface_name s = GetInterfaceHandle env T (smm_fd_map m) interface_name s"

definition GetMutableInterfaceHandle_manager ::
    "sys_env \<Rightarrow> 'a interface_type \<Rightarrow> SharedMemoryManager \<Rightarrow> string \<Rightarrow> os \<Rightarrow> ((StatusCode + MemorySegment) \<times> os) checked"
  where "GetMutableInterfaceHandle_manager env T m interface_name s =
    GetMutableInterfaceHandle env T (smm_fd_map m) interface_name s"

subsection \<open>Handles\<close>

definition handle_read :: "'a interface_type \<Rightarrow> MemorySegment \<Rightarrow> os \<Rightarrow> 'a checked"
  where "handle_read T segment s = map_option (it_root T) (load_payload (ms_value segment) s)"

definition handle_write :: "'a interface_type \<Rightarrow> 'a \<Rightarrow> MemorySegment \<Rightarrow> os \<Rightarrow> os checked"
  where "handle_write T x segment s = do {
    buffer \<leftarrow> load_payload (ms_value segment) s;
    store_payload (ms_value segment) (it_mutate T x buffer) s
  }"

definition handle_NumUpdates :: "MemorySegment \<Rightarrow> os \<Rightarrow> int checked"
  where "handle_NumUpdates segment s = map_option NumUpdates (load_header (ms_header segment) s)"

definition handle_LastUpdatedTime :: "MemorySegment \<Rightarrow> os \<Rightarrow> int checked"
  where "handle_LastUpdatedTime segment s = map_option LastUpdatedTime (load_header (ms_header segment) s)"

definition handle_LastUpdatedCycle :: "MemorySegment \<Rightarrow> os \<Rightarrow> u64 checked"
  where "handle_LastUpdatedCycle segment s = map_option LastUpdatedCycle (load_header (ms_header segment) s)"

definition handle_UpdatedAt :: "u64 \<Rightarrow> int \<Rightarrow> MemorySegment \<Rightarrow> os \<Rightarrow> os checked"
  where "handle_UpdatedAt counter time segment s = MemorySegment_UpdatedAt time (GetCurrentCycle counter) segment s"

text \<open>The message \<open>IconState\<close> is its field \<open>current_cycle\<close>, a signed 64 bit integer.\<close>

type_synonym IconState = int

definition WasUpdatedThisCycle :: "IconState interface_type \<Rightarrow> MemorySegment \<Rightarrow> MemorySegment \<Rightarrow> os \<Rightarrow> StatusCode checked"
  where "WasUpdatedThisCycle I icon_state hw_interface s = do {
    icon_cycle \<leftarrow> handle_LastUpdatedCycle icon_state s;
    current_cycle \<leftarrow> handle_read I icon_state s;
    if sint icon_cycle \<noteq> current_cycle then Some kFailedPrecondition
    else do {
      hw_cycle \<leftarrow> handle_LastUpdatedCycle hw_interface s;
      Some (if sint hw_cycle \<noteq> current_cycle then kFailedPrecondition else kOk)
    }
  }"

record StrictHandle =
  sth_interface :: MemorySegment
  sth_icon_state :: MemorySegment

definition StrictHandle_Value ::
    "'a interface_type \<Rightarrow> IconState interface_type \<Rightarrow> StrictHandle \<Rightarrow> os \<Rightarrow> (StatusCode + 'a) checked"
  where "StrictHandle_Value T I h s = do {
    status \<leftarrow> WasUpdatedThisCycle I (sth_icon_state h) (sth_interface h) s;
    if status \<noteq> kOk then Some (Inl status) else map_option Inr (handle_read T (sth_interface h) s)
  }"

definition MutableStrictHandle_Value ::
    "'a interface_type \<Rightarrow> IconState interface_type \<Rightarrow> StrictHandle \<Rightarrow> os \<Rightarrow> (StatusCode + 'a) checked"
  where "MutableStrictHandle_Value T I h s = do {
    status \<leftarrow> WasUpdatedThisCycle I (sth_icon_state h) (sth_interface h) s;
    if status \<noteq> kOk then Some (Inl status) else map_option Inr (handle_read T (sth_interface h) s)
  }"

definition MutableStrictHandle_UpdatedAt :: "u64 \<Rightarrow> int \<Rightarrow> StrictHandle \<Rightarrow> os \<Rightarrow> os checked"
  where "MutableStrictHandle_UpdatedAt counter time h s = handle_UpdatedAt counter time (sth_interface h) s"

definition kIconStateInterfaceName :: string
  where "kIconStateInterfaceName = ''icon_state''"

text \<open>If the second handle cannot be opened, the first one is destroyed.\<close>

definition with_icon_state ::
    "sys_env \<Rightarrow> IconState interface_type \<Rightarrow> SharedMemoryManager \<Rightarrow> (StatusCode + MemorySegment) \<times> os \<Rightarrow>
     ((StatusCode + StrictHandle) \<times> os) checked"
  where "with_icon_state env I m r =
    (case r of
       (Inl e, s) \<Rightarrow> Some (Inl e, s)
     | (Inr handle, s) \<Rightarrow> do {
         (icon_state, s1) \<leftarrow> GetInterfaceHandle_manager env I m kIconStateInterfaceName s;
         (case icon_state of
            Inl e \<Rightarrow> map_option (\<lambda>s2. (Inl e, s2)) (CleanUpSharedMemory env handle s1)
          | Inr segment \<Rightarrow> Some (Inr \<lparr>sth_interface = handle, sth_icon_state = segment\<rparr>, s1))
       })"

definition GetStrictInterfaceHandle ::
    "sys_env \<Rightarrow> 'a interface_type \<Rightarrow> IconState interface_type \<Rightarrow> SharedMemoryManager \<Rightarrow> string \<Rightarrow> os \<Rightarrow>
     ((StatusCode + StrictHandle) \<times> os) checked"
  where "GetStrictInterfaceHandle env T I m interface_name s =
    Option.bind (GetInterfaceHandle_manager env T m interface_name s) (with_icon_state env I m)"

definition GetMutableStrictInterfaceHandle ::
    "sys_env \<Rightarrow> 'a interface_type \<Rightarrow> IconState interface_type \<Rightarrow> SharedMemoryManager \<Rightarrow> string \<Rightarrow> os \<Rightarrow>
     ((StatusCode + StrictHandle) \<times> os) checked"
  where "GetMutableStrictInterfaceHandle env T I m interface_name s =
    Option.bind (GetMutableInterfaceHandle_manager env T m interface_name s) (with_icon_state env I m)"

definition GetHardwareModuleInfo ::
    "sys_env \<Rightarrow> nat \<Rightarrow> fd_map \<Rightarrow> os \<Rightarrow> ((StatusCode + MemorySegment) \<times> os) checked"
  where "GetHardwareModuleInfo env sizeof_SegmentInfo fm s =
    ReadOnlyMemorySegment_Get env sizeof_SegmentInfo fm kModuleInfoName s"

definition GetInterfacesFromModuleInfo :: "SegmentInfo \<Rightarrow> (StatusCode + string list) checked"
  where "GetInterfacesFromModuleInfo segment_info = GetNamesFromSegmentInfo segment_info"

definition GetRequiredInterfacesFromModuleInfo :: "SegmentInfo \<Rightarrow> (StatusCode + string list) checked"
  where "GetRequiredInterfacesFromModuleInfo segment_info = GetRequiredInterfaceNamesFromSegmentInfo segment_info"

subsection \<open>Advertising an interface\<close>

text \<open>The segment is added, then the buffer is copied to its value.\<close>

definition AdvertiseInterfaceT ::
    "sys_env \<Rightarrow> string \<Rightarrow> bool \<Rightarrow> u8 list \<Rightarrow> string \<Rightarrow> SharedMemoryManager \<Rightarrow> os \<Rightarrow>
     (StatusCode \<times> SharedMemoryManager \<times> os) checked"
  where "AdvertiseInterfaceT env interface_name must_be_used buffer type_id m s = do {
    (status, m1, s1) \<leftarrow> AddSegment_bytes env interface_name must_be_used (length buffer) type_id m s;
    if status \<noteq> kOk then Some (status, m1, s1)
    else do {
      s2 \<leftarrow> store_payload (GetRawValue interface_name m1) buffer s1;
      Some (kOk, m1, s2)
    }
  }"

definition AdvertiseInterface ::
    "sys_env \<Rightarrow> 'a interface_type \<Rightarrow> string \<Rightarrow> u8 list \<Rightarrow> SharedMemoryManager \<Rightarrow> os \<Rightarrow>
     ((StatusCode + MemorySegment) \<times> SharedMemoryManager \<times> os) checked"
  where "AdvertiseInterface env T interface_name buffer m s = do {
    (status, m1, s1) \<leftarrow> AdvertiseInterfaceT env interface_name False buffer (it_type_string T) m s;
    if status \<noteq> kOk then Some (Inl status, m1, s1)
    else do { (r, s2) \<leftarrow> GetInterfaceHandle_manager env T m1 interface_name s1; Some (r, m1, s2) }
  }"

definition AdvertiseMutableInterface ::
    "sys_env \<Rightarrow> 'a interface_type \<Rightarrow> string \<Rightarrow> u8 list \<Rightarrow> SharedMemoryManager \<Rightarrow> os \<Rightarrow>
     ((StatusCode + MemorySegment) \<times> SharedMemoryManager \<times> os) checked"
  where "AdvertiseMutableInterface env T interface_name buffer m s = do {
    (status, m1, s1) \<leftarrow> AdvertiseInterfaceT env interface_name False buffer (it_type_string T) m s;
    if status \<noteq> kOk then Some (Inl status, m1, s1)
    else do { (r, s2) \<leftarrow> GetMutableInterfaceHandle_manager env T m1 interface_name s1; Some (r, m1, s2) }
  }"

definition AdvertiseStrictInterface ::
    "sys_env \<Rightarrow> 'a interface_type \<Rightarrow> IconState interface_type \<Rightarrow> string \<Rightarrow> u8 list \<Rightarrow> SharedMemoryManager \<Rightarrow> os \<Rightarrow>
     ((StatusCode + StrictHandle) \<times> SharedMemoryManager \<times> os) checked"
  where "AdvertiseStrictInterface env T I interface_name buffer m s = do {
    (status, m1, s1) \<leftarrow> AdvertiseInterfaceT env interface_name True buffer (it_type_string T) m s;
    if status \<noteq> kOk then Some (Inl status, m1, s1)
    else do { (r, s2) \<leftarrow> GetStrictInterfaceHandle env T I m1 interface_name s1; Some (r, m1, s2) }
  }"

definition AdvertiseMutableStrictInterface ::
    "sys_env \<Rightarrow> 'a interface_type \<Rightarrow> IconState interface_type \<Rightarrow> string \<Rightarrow> u8 list \<Rightarrow> SharedMemoryManager \<Rightarrow> os \<Rightarrow>
     ((StatusCode + StrictHandle) \<times> SharedMemoryManager \<times> os) checked"
  where "AdvertiseMutableStrictInterface env T I interface_name buffer m s = do {
    (status, m1, s1) \<leftarrow> AdvertiseInterfaceT env interface_name True buffer (it_type_string T) m s;
    if status \<noteq> kOk then Some (Inl status, m1, s1)
    else do { (r, s2) \<leftarrow> GetMutableStrictInterfaceHandle env T I m1 interface_name s1; Some (r, m1, s2) }
  }"

definition Registry_Size :: "SharedMemoryManager \<Rightarrow> nat"
  where "Registry_Size m = length (GetRegisteredMemoryNames id m)"

subsection \<open>The interfaces of the runtime\<close>

text \<open>\<open>BuildIconState\<close> and \<open>BuildControlPeriod\<close>: the builder is given the value of the struct.\<close>

definition BuildIconState :: "(IconState \<Rightarrow> u8 list) \<Rightarrow> u8 list"
  where "BuildIconState finish = finish (sint (- 1 :: u64))"

definition BuildControlPeriod :: "(int \<Rightarrow> u8 list) \<Rightarrow> u8 list"
  where "BuildControlPeriod finish = finish 0"

definition UpdateControlPeriod ::
    "int interface_type \<Rightarrow> u64 \<Rightarrow> int \<Rightarrow> int \<Rightarrow> MemorySegment \<Rightarrow> os \<Rightarrow> (StatusCode \<times> os) checked"
  where "UpdateControlPeriod C counter now duration handle s =
    (if duration \<le> 0 then Some (kFailedPrecondition, s)
     else do {
       s1 \<leftarrow> handle_write C duration handle s;
       s2 \<leftarrow> handle_UpdatedAt counter now handle s1;
       Some (kOk, s2)
     })"

end
