(* ===== verification/Hardware_Interface_Props.thy ===== *)
theory Hardware_Interface_Props
  imports Hardware_Interface
begin

text \<open>
  Properties of hardware interfaces: an interface can only be opened as the type it was advertised
  with, an advertised interface is usable, and a strict handle refuses stale data.
\<close>

subsection \<open>Opening\<close>

text \<open>What opening a segment promises, for reading and for writing.\<close>

locale segment_provider =
  fixes get :: "nat \<Rightarrow> fd_map \<Rightarrow> string \<Rightarrow> os \<Rightarrow> ((StatusCode + MemorySegment) \<times> os) option"
  assumes get_returns: "handle_inv fm ls s \<Longrightarrow> length ls < 2 ^ 31 - 1 \<Longrightarrow> \<exists>r s'. get k fm name s = Some (r, s')"
    and get_refuses: "handle_inv fm ls s \<Longrightarrow> length ls < 2 ^ 31 - 1 \<Longrightarrow> get k fm name s = Some (Inl e, s') \<Longrightarrow>
      handle_inv fm ls s'"
    and get_opens: "handle_inv fm ls s \<Longrightarrow> length ls < 2 ^ 31 - 1 \<Longrightarrow> get k fm name s = Some (Inr ms, s') \<Longrightarrow>
      handle_inv fm (ms # ls) s' \<and> ms_value ms = ms_header ms + sizeof_SegmentHeader
      \<and> ms_header ms \<noteq> 0 \<and> sizeof_SegmentHeader + k \<le> ms_size ms"

definition opened_as :: "'a interface_type \<Rightarrow> MemorySegment \<Rightarrow> os \<Rightarrow> bool"
  where "opened_as T ms s \<longleftrightarrow> it_sizeof T \<le> ValueSize ms
    \<and> (\<exists>h p. load_header (ms_header ms) s = Some h \<and> load_payload (ms_value ms) s = Some p
        \<and> sh_version h = ExpectedVersion \<and> TypeID (sh_type_info h) = it_type_string T
        \<and> (it_is_table T \<longrightarrow> it_verify T (take (ValueSize ms) p)))"

lemma live_handle_loads:
  assumes "handle_inv fm (ms # ls) s" "ms_value ms = ms_header ms + sizeof_SegmentHeader"
  obtains i h where "map_of (os_maps s) (ms_header ms) = Some i" "i < length (os_files s)"
    "load_header (ms_header ms) s = Some h" "load_payload (ms_value ms) s = Some (f_payload (os_files s ! i))"
proof -
  have wf: "os_wf s" using assms(1) by (simp add: handle_inv_def)
  obtain i h where i: "map_of (os_maps s) (ms_header ms) = Some i" "f_header (os_files s ! i) = Some h"
    using assms(1) by (auto simp: handle_inv_def)
  then show thesis using os_wf_map[OF wf i(1)] assms(2)
    by (intro that[of i h]) (simp_all add: load_header_def load_payload_def mapped_file_wf[OF wf])
qed

context segment_provider
begin

text \<open>The checks on top of it: an error leaves no reference behind, a success has the right type.\<close>

lemma checked_get:
  assumes inv: "handle_inv fm ls s" "length ls < 2 ^ 31 - 1"
  shows "\<exists>r s'. Option.bind (get (it_sizeof T) fm name s)
      (\<lambda>(segment, s1). case segment of Inl e \<Rightarrow> Some (Inl e, s1) | Inr ms \<Rightarrow> check_segment env T ms s1) = Some (r, s')
    \<and> (case r of Inl e \<Rightarrow> handle_inv fm ls s' | Inr ms \<Rightarrow> handle_inv fm (ms # ls) s' \<and> opened_as T ms s')"
proof -
  obtain r s1 where g: "get (it_sizeof T) fm name s = Some (r, s1)" using get_returns[OF inv] by blast
  show ?thesis
  proof (cases r)
    case (Inl e)
    then show ?thesis using g get_refuses[OF inv] by auto
  next
    case (Inr ms)
    with g get_opens[OF inv] have o: "handle_inv fm (ms # ls) s1" "ms_value ms = ms_header ms + sizeof_SegmentHeader"
      "ms_header ms \<noteq> 0" "sizeof_SegmentHeader + it_sizeof T \<le> ms_size ms" by blast+
    obtain i h where l: "load_header (ms_header ms) s1 = Some h" "load_payload (ms_value ms) s1 = Some (f_payload (os_files s1 ! i))"
      using live_handle_loads[OF o(1,2)] by metis
    obtain s2 where c: "CleanUpSharedMemory env ms s1 = Some s2" "handle_inv fm ls s2" using CleanUp_inv[OF o(1)] by metis
    have "it_sizeof T \<le> ValueSize ms" using o(2-4) by (simp add: ValueSize_def MemorySegment_IsValid_def)
    then show ?thesis using g Inr l c o(1)
      by (auto simp: check_segment_def SegmentHeaderIsValid_def FlatbufferIsValid_def Let_def opened_as_def)
  qed
qed

end

lemma TypedGet_provides:
  assumes "kind = kReadOnly \<or> kind = kReadWrite"
  shows "segment_provider (TypedMemorySegment_Get kind env)"
proof
  fix fm ls s k name
  assume inv: "handle_inv fm ls s" "length ls < 2 ^ 31 - 1"
  note c = TypedMemorySegment_Get_cases[OF inv assms, of env k name]
  show "\<exists>r s'. TypedMemorySegment_Get kind env k fm name s = Some (r, s')" by (rule c) auto
  show "handle_inv fm ls s'" if "TypedMemorySegment_Get kind env k fm name s = Some (Inl e, s')" for e s'
    by (rule c) (use that in auto)
  show "handle_inv fm (ms # ls) s' \<and> ms_value ms = ms_header ms + sizeof_SegmentHeader
      \<and> ms_header ms \<noteq> 0 \<and> sizeof_SegmentHeader + k \<le> ms_size ms"
    if "TypedMemorySegment_Get kind env k fm name s = Some (Inr ms, s')" for ms s'
    by (rule c) (use that in auto)
qed

interpretation ro: segment_provider "ReadOnlyMemorySegment_Get env" for env
  unfolding ReadOnlyMemorySegment_Get_def by (rule TypedGet_provides) simp

interpretation rw: segment_provider "ReadWriteMemorySegment_Get env" for env
  unfolding ReadWriteMemorySegment_Get_def by (rule TypedGet_provides) simp


subsection \<open>Advertising\<close>

definition header_id :: "memfile \<Rightarrow> (nat \<times> TypeInfo \<times> u64) option"
  where "header_id f = map_option (\<lambda>h. (sh_version h, sh_type_info h, sh_updated_at_cycle h)) (f_header f)"

lemma update_ref_count_id:
  assumes "update_ref_count f b s = Some s'"
    and "\<And>h h1. f h = Some h1 \<Longrightarrow> (sh_version h1, sh_type_info h1, sh_updated_at_cycle h1) = (sh_version h, sh_type_info h, sh_updated_at_cycle h)"
  shows "map header_id (os_files s') = map header_id (os_files s)"
proof -
  obtain i h h1 where i: "mapped_file b s = Some i" "f_header (os_files s ! i) = Some h" "f h = Some h1"
    and s': "s' = s\<lparr>os_files := (os_files s)[i := (os_files s ! i)\<lparr>f_header := Some h1\<rparr>]\<rparr>"
    using assms(1) by (auto simp: update_ref_count_def load_header_def store_header_def bind_eq_Some_conv split: option.splits)
  have "i < length (os_files s)" using i(1) by (auto simp: mapped_file_def split: option.splits if_splits)
  then show ?thesis using i assms(2)[OF i(3)]
    by (simp add: s' map_update header_id_def list_update_same_conv)
qed

lemma TypedGet_id:
  assumes "TypedMemorySegment_Get kind env k fm name s = Some (Inr ms, s')"
  shows "map header_id (os_files s') = map header_id (os_files s)"
proof -
  obtain sd s1 where g: "MemorySegment_Get env fm name s = (Inr sd, s1)"
    and n: "MemorySegment_new name sd kind s1 = Some (ms, s')"
    using assms by (auto simp: TypedMemorySegment_Get_def Let_def split: prod.splits sum.splits if_splits)
  have "os_files s1 = os_files s"
    using g by (auto simp: MemorySegment_Get_def fstat_size_def mmap_def mlock_def sys_call_def Let_def
        split: option.splits prod.splits if_splits fd_target.splits)
  moreover have "map header_id (os_files s') = map header_id (os_files s1)"
    using n by (cases kind)
      (auto simp: MemorySegment_new_def Let_def bind_eq_Some_conv IncrementReaderRefCount_def IncrementWriterRefCount_def
        split: if_splits elim!: update_ref_count_id)
  ultimately show ?thesis by simp
qed

lemma handle_inv_grown:
  assumes inv: "handle_inv fm ls s" and g: "f_header g = Some h" "sh_mutex h = 1" "sh_ref_count_reader h = 0" "sh_ref_count_writer h = 0"
    and fd: "fd = lowest_free (os_fds s)"
  shows "handle_inv (fm @ [(name, fd)]) ls (grown fd g (Some n) k s)"
proof -
  let ?s = "grown fd g (Some n) k s"
  have wf: "os_wf s" using inv by (simp add: handle_inv_def)
  have old: "map_of (os_maps ?s) (ms_header l) = map_of (os_maps s) (ms_header l)" if "l \<in> set ls" for l
  proof -
    have "ms_header l < os_next_base s" using inv that os_wf_map[OF wf] by (fastforce simp: handle_inv_def)
    then show ?thesis by (simp add: grown_def)
  qed
  have less: "i < length (os_files s)" if "l \<in> set ls" "map_of (os_maps s) (ms_header l) = Some i" for l i
    using os_wf_map[OF wf that(2)] by simp
  have refs: "refs kind i ls ?s = refs kind i ls s" for kind i by (rule refs_cong) (rule old)
  have none: "refs kind (length (os_files s)) ls s = 0" for kind
    using less by (fastforce simp: refs_def filter_empty_conv)
  show ?thesis unfolding handle_inv_def
  proof (intro conjI)
    show "os_wf ?s" by (rule grown_wf(1)[OF wf fd])
    show "distinct (map ms_header ls)" using inv by (simp add: handle_inv_def)
    show "\<forall>ms \<in> set ls. (ms_kind ms = kReadOnly \<or> ms_kind ms = kReadWrite)
        \<and> map_of (os_maps ?s) (ms_header ms) \<noteq> None
        \<and> (\<forall>i. map_of (os_maps ?s) (ms_header ms) = Some i \<longrightarrow> f_header (os_files ?s ! i) \<noteq> None)"
      using inv old less by (auto simp: handle_inv_def nth_append)
    show "\<forall>i < length (os_files ?s). \<forall>h. f_header (os_files ?s ! i) = Some h \<longrightarrow>
        sh_mutex h = 1 \<and> sh_ref_count_reader h = int (refs kReadOnly i ls ?s)
        \<and> sh_ref_count_writer h = int (refs kReadWrite i ls ?s)"
      using inv g none unfolding refs by (auto simp: handle_inv_def nth_append less_Suc_eq)
    show "\<forall>n fd' i. map_of (fm @ [(name, fd)]) n = Some fd' \<longrightarrow> map_of (os_fds ?s) fd' = Some (Memfd i) \<longrightarrow>
        f_header (os_files ?s ! i) \<noteq> None"
    proof (intro allI impI)
      fix n' fd' i
      assume n': "map_of (fm @ [(name, fd)]) n' = Some fd'" and i: "map_of (os_fds ?s) fd' = Some (Memfd i)"
      show "f_header (os_files ?s ! i) \<noteq> None"
      proof (cases "fd' = fd")
        case True
        then show ?thesis using i g(1) by auto
      next
        case False
        then have "map_of fm n' = Some fd'" "map_of (os_fds s) fd' = Some (Memfd i)"
          using n' i by (auto simp: grown_def map_add_def split: option.splits if_splits)
        then show ?thesis using inv os_wf_fd[OF wf] by (auto simp: handle_inv_def nth_append)
      qed
    qed
  qed
qed

lemma Advertise_cases:
  assumes wf: "os_wf s" "smm_wf m s"
  shows "AdvertiseInterfaceT env name must_be_used buffer type_id m s = AddSegment env name must_be_used buffer type_id m s"
proof (cases rule: InitSegment_cases[OF wf, of name type_id env must_be_used "length buffer"])
  case 1
  then show ?thesis by (simp add: AdvertiseInterfaceT_def AddSegment_def AddSegment_bytes_def)
next
  case (2 t)
  then show ?thesis by (simp add: AdvertiseInterfaceT_def AddSegment_def AddSegment_bytes_def)
next
  case (3 k)
  then have new: "map_of (smm_segments m) name = None"
    by (auto simp: rejects_def map_of_eq_None_iff split: if_splits)
  have "0 < os_next_base s" using wf(1) by (simp add: os_wf_def)
  with new have "0 < GetRawValue name (with_segment name must_be_used (length buffer) s m)"
    by (simp add: GetRawValue_def GetRawSegment_def with_segment_def map_add_def)
  then show ?thesis using 3
    by (simp add: AdvertiseInterfaceT_def AddSegment_def AddSegment_bytes_def SetSegmentValue_def Let_def option.map_comp comp_def
        map_conv_bind_option)
qed

text \<open>A segment with the right type id, size and content can be opened.\<close>

lemma open_advertised:
  assumes inv: "handle_inv fm ls s" "length ls < 2 ^ 31 - 1" and env: "never_fails env" and kind: "kind = kReadOnly \<or> kind = kReadWrite"
    and f: "map_of fm name = Some fd" "map_of (os_fds s) fd = Some (Memfd i)"
    and sz: "0 < it_sizeof T" "sizeof_SegmentHeader + it_sizeof T \<le> f_size (os_files s ! i)"
    and h: "header_id (os_files s ! i) = Some (ExpectedVersion, tinfo, c)" "TypeID tinfo = it_type_string T"
    and v: "it_is_table T \<longrightarrow> it_verify T (take (f_size (os_files s ! i) - sizeof_SegmentHeader) (f_payload (os_files s ! i)))"
  obtains ms s' where "Option.bind (TypedMemorySegment_Get kind env (it_sizeof T) fm name s)
      (\<lambda>(segment, s1). case segment of Inl e \<Rightarrow> Some (Inl e, s1) | Inr ms \<Rightarrow> check_segment env T ms s1) = Some (Inr ms, s')"
    "handle_inv fm (ms # ls) s'" "map_of (os_maps s') (ms_header ms) = Some i" "ms_value ms = ms_header ms + sizeof_SegmentHeader"
    "load_payload (ms_value ms) s' = Some (f_payload (os_files s ! i))"
    "map header_id (os_files s') = map header_id (os_files s)"
    "\<And>b j. map_of (os_maps s) b = Some j \<Longrightarrow> map_of (os_maps s') b = Some j"
    "map f_payload (os_files s') = map f_payload (os_files s)" "ms_size ms = f_size (os_files s ! i)"
proof (cases rule: TypedMemorySegment_Get_cases[OF inv kind, of env "it_sizeof T" name])
  case (1 e s')
  have wf: "os_wf s" using inv(1) by (simp add: handle_inv_def)
  have "sizeof_SegmentHeader < f_size (os_files s ! i)" using sz by simp
  from MemorySegment_Get_never_fails[OF wf env f this] 1(1) sz show thesis
    by (auto simp: TypedMemorySegment_Get_def SharedMemorySegmentFitsLowerSizeBound_def)
next
  case (2 fd' j ms s')
  have j: "j = i" using 2(3,4) f by simp
  obtain i' hd where l: "map_of (os_maps s') (ms_header ms) = Some i'" "i' < length (os_files s')"
    "load_header (ms_header ms) s' = Some hd" "load_payload (ms_value ms) s' = Some (f_payload (os_files s' ! i'))"
    by (rule live_handle_loads[OF 2(2,9)])
  have i': "i' = i" using l(1) 2(5) j by simp
  note id = TypedGet_id[OF 2(1)]
  have len: "length (os_files s') = length (os_files s)" using id by (rule map_eq_imp_length_eq)
  have pay: "f_payload (os_files s' ! i) = f_payload (os_files s ! i)"
    using arg_cong[OF 2(11), of "\<lambda>xs. xs ! i"] l(2) len i' by simp
  have hid: "header_id (os_files s' ! i) = header_id (os_files s ! i)"
    using arg_cong[OF id, of "\<lambda>xs. xs ! i"] l(2) len i' by simp
  have "f_header (os_files s' ! i) = Some hd"
    using l(1-3) i' by (auto simp: load_header_def mapped_file_def split: option.splits)
  then have hd: "sh_version hd = ExpectedVersion" "TypeID (sh_type_info hd) = it_type_string T"
    using hid h by (auto simp: header_id_def)
  have "ValueSize ms = f_size (os_files s ! i) - sizeof_SegmentHeader"
    using 2(6-9) j by (simp add: ValueSize_def MemorySegment_IsValid_def)
  then have "check_segment env T ms s' = Some (Inr ms, s')"
    using l(3,4) hd v pay i' by (simp add: check_segment_def SegmentHeaderIsValid_def FlatbufferIsValid_def Let_def)
  then show thesis using 2 j l(4) pay i' id by (intro that[of ms s']) simp_all
qed

text \<open>A message that is advertised under an acceptable name can be read through the returned handle and
  written through it; the manager's segment holds what was written.  The hypothesis on the flatbuffers
  library is that the verifier accepts the buffer its builder made.\<close>
theorem advertised_interface_usable:
  assumes wf: "os_wf s" "smm_wf m s" and inv: "handle_inv (smm_fd_map m) ls s" "length ls < 2 ^ 31 - 1"
    and env: "never_fails env" and ok: "rejects name (it_type_string T) m = kOk"
    and sz: "0 < it_sizeof T" "it_sizeof T \<le> length buffer" and fb: "it_is_table T \<longrightarrow> it_verify T buffer"
  shows "\<exists>ms m' s'. AdvertiseMutableInterface env T name buffer m s = Some (Inr ms, m', s')
    \<and> handle_read T ms s' = Some (it_root T buffer)
    \<and> handle_inv (smm_fd_map m') (ms # ls) s'
    \<and> (\<forall>x. length (it_mutate T x buffer) = length buffer \<longrightarrow>
        (\<exists>s2. handle_write T x ms s' = Some s2
          \<and> GetSegmentValue (length buffer) name m' s2 = Some (Some (it_mutate T x buffer))))"
proof -
  let ?tid = "it_type_string T" and ?fd = "lowest_free (os_fds s)"
  obtain k where a: "AddSegment env name False buffer ?tid m s = Some (kOk, with_segment name False (length buffer) s m,
        grown ?fd ((new_file (length buffer) ?tid)\<lparr>f_payload := buffer\<rparr>) (Some (sizeof_SegmentHeader + length buffer)) k s)"
    by (rule AddSegment_cases[OF wf, of env name False buffer ?tid]) (use env ok in auto)
  let ?g = "(new_file (length buffer) ?tid)\<lparr>f_payload := buffer\<rparr>"
  let ?m = "with_segment name False (length buffer) s m"
  let ?s = "grown ?fd ?g (Some (sizeof_SegmentHeader + length buffer)) k s"
  let ?i = "length (os_files s)"
  have new: "name \<notin> fst ` set (smm_segments m)" "length ?tid \<le> kMaxSize" using ok by (auto simp: rejects_def split: if_splits)
  have fm: "smm_fd_map ?m = smm_fd_map m @ [(name, ?fd)]" by (simp add: with_segment_def)
  have "name \<notin> fst ` set (smm_fd_map m)" using new(1) wf(2) by (force simp: smm_wf_def)
  then have "map_of (smm_fd_map m) name = None" by (simp add: map_of_eq_None_iff)
  then have fd: "map_of (smm_fd_map ?m) name = Some ?fd" by (simp add: fm map_add_def)
  have inv': "handle_inv (smm_fd_map ?m) ls ?s"
    unfolding fm by (rule handle_inv_grown[OF inv(1), where h = "SegmentHeader_new ?tid"]) (simp_all add: new_file_def SegmentHeader_new_def)
  have f: "map_of (os_fds ?s) ?fd = Some (Memfd ?i)" "os_files ?s ! ?i = ?g" by simp_all
  have g: "f_size ?g = sizeof_SegmentHeader + length buffer" "f_payload ?g = buffer"
    "header_id ?g = Some (ExpectedVersion, TypeInfo_new ?tid, 0)"
    by (simp_all add: new_file_def header_id_def SegmentHeader_new_def)
  have p: "sizeof_SegmentHeader + it_sizeof T \<le> f_size (os_files ?s ! ?i)"
    "header_id (os_files ?s ! ?i) = Some (ExpectedVersion, TypeInfo_new ?tid, 0)" "TypeID (TypeInfo_new ?tid) = it_type_string T"
    "it_is_table T \<longrightarrow> it_verify T (take (f_size (os_files ?s ! ?i) - sizeof_SegmentHeader) (f_payload (os_files ?s ! ?i)))"
    unfolding f(2) g using sz fb new(2) by (simp_all add: TypeID_new)
  obtain ms s' where o: "Option.bind (TypedMemorySegment_Get kReadWrite env (it_sizeof T) (smm_fd_map ?m) name ?s)
      (\<lambda>(segment, s1). case segment of Inl e \<Rightarrow> Some (Inl e, s1) | Inr ms \<Rightarrow> check_segment env T ms s1) = Some (Inr ms, s')"
    "handle_inv (smm_fd_map ?m) (ms # ls) s'" "map_of (os_maps s') (ms_header ms) = Some ?i"
    "ms_value ms = ms_header ms + sizeof_SegmentHeader"
    "load_payload (ms_value ms) s' = Some buffer"
    "\<And>b j. map_of (os_maps ?s) b = Some j \<Longrightarrow> map_of (os_maps s') b = Some j"
    "map f_payload (os_files s') = map f_payload (os_files ?s)"
    by (rule open_advertised[OF inv' inv(2) env disjI2[OF refl] fd f(1) sz(1) p, unfolded f(2) g]) blast
  have "GetMutableInterfaceHandle env T (smm_fd_map ?m) name ?s = Some (Inr ms, s')"
    using o(1) by (simp add: GetMutableInterfaceHandle_def ReadWriteMemorySegment_Get_def)
  then have adv: "AdvertiseMutableInterface env T name buffer m s = Some (Inr ms, ?m, s')"
    using a by (simp add: AdvertiseMutableInterface_def Advertise_cases[OF wf] GetMutableInterfaceHandle_manager_def)
  have rd: "handle_read T ms s' = Some (it_root T buffer)" using o(5) by (simp add: handle_read_def)
  have wf': "os_wf s'" using o(2) by (simp add: handle_inv_def)
  have base: "0 < os_next_base s" "map_of (os_maps ?s) (os_next_base s) = Some ?i"
    using wf(1) by (simp_all add: os_wf_def grown_def)
  have "map_of (smm_segments m) name = None" using new(1) by (simp add: map_of_eq_None_iff)
  then have raw: "GetRawValue name ?m = os_next_base s + sizeof_SegmentHeader"
    using base(1) by (simp add: GetRawValue_def GetRawSegment_def with_segment_def map_add_def)
  have maps: "mapped_file (ms_header ms) s' = Some ?i" "mapped_file (os_next_base s) s' = Some ?i" "?i < length (os_files s')"
    using o(3) o(6)[OF base(2)] os_wf_map[OF wf' o(3)] by (simp_all add: mapped_file_wf[OF wf'])
  have pay: "f_payload (os_files s' ! ?i) = buffer"
    using arg_cong[OF o(7), of "\<lambda>xs. xs ! ?i"] maps(3) g(2) by (simp add: nth_append)
  have "\<exists>s2. handle_write T x ms s' = Some s2
      \<and> GetSegmentValue (length buffer) name ?m s2 = Some (Some (it_mutate T x buffer))"
    if "length (it_mutate T x buffer) = length buffer" for x
    using that o(4,5) maps pay raw
    by (simp add: handle_write_def store_payload_def Let_def GetSegmentValue_def load_payload_def mapped_file_def
        memcpy_prefix_def split: option.splits if_splits)
  then show ?thesis using adv rd o(2) by blast
qed

subsection \<open>Freshness\<close>

lemma UpdatedAt_effect:
  assumes "os_wf s" "map_of (os_maps s) (ms_header ms) = Some i" "f_header (os_files s ! i) = Some h"
  shows "handle_UpdatedAt c t ms s =
    Some (s\<lparr>os_files := (os_files s)[i := (os_files s ! i)\<lparr>f_header := Some (UpdatedAt t c h)\<rparr>]\<rparr>)"
  using assms by (simp add: handle_UpdatedAt_def GetCurrentCycle_def MemorySegment_UpdatedAt_def load_header_def
      store_header_def mapped_file_wf)

lemma live_handle_file:
  assumes "handle_inv fm ls s" "ms \<in> set ls"
  shows "\<exists>i h. map_of (os_maps s) (ms_header ms) = Some i \<and> f_header (os_files s ! i) = Some h"
proof -
  have "map_of (os_maps s) (ms_header ms) \<noteq> None"
    "\<And>i. map_of (os_maps s) (ms_header ms) = Some i \<Longrightarrow> f_header (os_files s ! i) \<noteq> None"
    using assms unfolding handle_inv_def by blast+
  then show ?thesis by auto
qed

lemma sint_eq_iff: "sint (a :: u64) = sint b \<longleftrightarrow> a = b"
  by (auto intro: signed_word_eqI)


subsection \<open>Witnesses\<close>

text \<open>A struct of one byte, and two segments with handles on them.\<close>

definition byte_type :: "int interface_type"
  where "byte_type = \<lparr>it_type_string = ''bytes'', it_sizeof = 1, it_is_table = False, it_verify = (\<lambda>_. True),
    it_root = (\<lambda>p. int (le_value (take 1 p))), it_mutate = (\<lambda>x p. word_of_int x # drop 1 p)\<rparr>"

definition demo_file :: "u8 \<Rightarrow> memfile"
  where "demo_file b = \<lparr>f_size = sizeof_SegmentHeader + 1,
    f_header = Some ((SegmentHeader_new ''bytes'')\<lparr>sh_ref_count_writer := 1\<rparr>), f_payload = [b]\<rparr>"

definition demo_handle :: "nat \<Rightarrow> MemorySegment"
  where "demo_handle base = \<lparr>ms_name = ''demo'', ms_header = base, ms_value = base + sizeof_SegmentHeader,
    ms_size = sizeof_SegmentHeader + 1, ms_kind = kReadWrite\<rparr>"

definition demo_os :: os
  where "demo_os = \<lparr>os_files = [demo_file 5, demo_file 0], os_fds = [(0, Memfd 0), (1, Memfd 1)],
    os_maps = [(4096, 0), (16384, 1)], os_next_base = 32768, os_locks = [], os_socket_files = [], os_calls = 0\<rparr>"

lemma demo_inv: "handle_inv [(''joints'', 0)] [demo_handle 4096, demo_handle 16384] demo_os"
  unfolding handle_inv_def
  by (auto simp: demo_os_def os_wf_def fd_ok_def demo_handle_def demo_file_def refs_def SegmentHeader_new_def less_Suc_eq)


theorem advertised_interface_usable_witness:
  "\<exists>ms m' s'. AdvertiseMutableInterface ok_env byte_type ''joints'' [7] empty_manager os_init = Some (Inr ms, m', s')
    \<and> handle_read byte_type ms s' = Some 7
    \<and> (\<exists>s2. handle_write byte_type 9 ms s' = Some s2 \<and> GetSegmentValue 1 ''joints'' m' s2 = Some (Some [9]))"
proof -
  have inv: "handle_inv (smm_fd_map empty_manager) [] os_init"
    using os_wf_init by (simp add: handle_inv_def os_init_def empty_manager_def)
  have ok: "rejects ''joints'' (it_type_string byte_type) empty_manager = kOk"
    by (simp add: rejects_def empty_manager_def byte_type_def VerifyName_def kMaxNumberOfSegments_def kMaxSize_def
        kMaxSegmentStringSize_def)
  have sz: "0 < it_sizeof byte_type" "it_sizeof byte_type \<le> length [7 :: u8]" "it_is_table byte_type \<longrightarrow> it_verify byte_type [7]"
    and l: "length ([] :: MemorySegment list) < 2 ^ 31 - 1" by (simp_all add: byte_type_def)
  obtain ms m' s' where a: "AdvertiseMutableInterface ok_env byte_type ''joints'' [7] empty_manager os_init = Some (Inr ms, m', s')"
    "handle_read byte_type ms s' = Some (it_root byte_type [7])"
    "\<forall>x. length (it_mutate byte_type x [7]) = length [7 :: u8] \<longrightarrow>
        (\<exists>s2. handle_write byte_type x ms s' = Some s2
          \<and> GetSegmentValue (length [7 :: u8]) ''joints'' m' s2 = Some (Some (it_mutate byte_type x [7])))"
    using advertised_interface_usable[OF os_wf_init empty_manager_wf inv l ok_env_never_fails ok sz] by blast
  from a(3)[rule_format, of 9] a(1,2) show ?thesis by (auto simp: byte_type_def)
qed


end
