(* ===== verification/Domain_Server_Props.thy ===== *)
theory Domain_Server_Props
  imports Domain_Socket_Server Shared_Memory_Props
begin

text \<open>
  The life cycle of the domain socket server: the lock file keeps at most one live server per socket,
  a failed \<open>Create\<close> gives everything back, \<open>Create\<close> always returns, and the socket of a destroyed
  server can be taken again.
\<close>

subsection \<open>Effects of the operations\<close>

lemma filter_fresh_fd: "fd \<notin> fst ` set xs \<Longrightarrow> filter (\<lambda>(d, t). d \<noteq> fd) xs = xs"
  by (induction xs) auto

lemma filter_fresh_lock: "fd \<notin> snd ` set xs \<Longrightarrow> filter (\<lambda>(p, d). d \<noteq> fd) xs = xs"
  by (induction xs) auto

lemma fresh_lock_fd: "os_wf s \<Longrightarrow> lowest_free (os_fds s) \<notin> snd ` set (os_locks s)"
  using lowest_free_fresh(1)[of "os_fds s"] by (auto simp: os_wf_def)

lemma flock_ex_cases:
  assumes "map_of (os_fds s) fd = Some (LockFile p)" "fd \<notin> snd ` set (os_locks s)"
  obtains (ok) "map_of (os_locks s) p = None"
      "flock_ex env fd s = (None, s\<lparr>os_calls := Suc (os_calls s), os_locks := (p, fd) # os_locks s\<rparr>)"
    | (busy) e where "flock_ex env fd s = (Some e, s\<lparr>os_calls := Suc (os_calls s)\<rparr>)"
proof -
  have no: "map_of (os_locks s) p \<noteq> Some fd" using assms(2) by (force dest!: map_of_SomeD)
  show thesis
  proof (cases "se_fails env (os_calls s) Sys_flock_ex")
    case (Some e)
    then show thesis by (intro busy[of e]) (simp add: flock_ex_def sys_call_def)
  next
    case None
    then show thesis using assms(1) no
      by (cases "map_of (os_locks s) p") (auto simp: flock_ex_def sys_call_def intro: ok busy)
  qed
qed

lemma lock_loop_cases:
  assumes "lock_loop env deadline fd s = Some (status, s')"
    and "map_of (os_fds s) fd = Some (LockFile p)" "fd \<notin> snd ` set (os_locks s)"
  obtains (locked) n where "status = kOk" "map_of (os_locks s) p = None"
      "s' = s\<lparr>os_calls := n, os_locks := (p, fd) # os_locks s\<rparr>"
    | (failed) n where "status \<in> {kInternal, kDeadlineExceeded}" "s' = s\<lparr>os_calls := n\<rparr>"
proof -
  let ?P = "\<lambda>s r. map_of (os_fds s) fd = Some (LockFile p) \<longrightarrow> fd \<notin> snd ` set (os_locks s) \<longrightarrow>
    (\<exists>n. fst r = kOk \<and> map_of (os_locks s) p = None \<and> snd r = s\<lparr>os_calls := n, os_locks := (p, fd) # os_locks s\<rparr>)
    \<or> (\<exists>n. fst r \<in> {kInternal, kDeadlineExceeded} \<and> snd r = s\<lparr>os_calls := n\<rparr>)"
  have "fd = fd \<longrightarrow> ?P s (status, s')"
  proof (rule lock_loop.raw_induct[of "\<lambda>env' d f s r. f = fd \<longrightarrow> ?P s r", OF _ assms(1)])
    fix loop env d f s r
    assume IH: "\<And>env d f s r. loop env d f s = Some r \<Longrightarrow> f = fd \<longrightarrow> ?P s r"
      and eq: "(case flock_ex env f s of
         (None, s1) \<Rightarrow> Some (kOk, s1)
       | (Some e, s1) \<Rightarrow> if e = EAGAIN then case os_now env s1 of
           (now, s2) \<Rightarrow> if now < d then loop env d f s2 else Some (kDeadlineExceeded, s2)
         else Some (kInternal, s1)) = Some r"
    show "f = fd \<longrightarrow> ?P s r"
    proof (intro impI)
      assume fd: "f = fd" and opn: "map_of (os_fds s) fd = Some (LockFile p)" and fresh: "fd \<notin> snd ` set (os_locks s)"
      let ?s2 = "s\<lparr>os_calls := Suc (Suc (os_calls s))\<rparr>"
      from opn fresh show "(\<exists>n. fst r = kOk \<and> map_of (os_locks s) p = None \<and> snd r = s\<lparr>os_calls := n, os_locks := (p, fd) # os_locks s\<rparr>)
        \<or> (\<exists>n. fst r \<in> {kInternal, kDeadlineExceeded} \<and> snd r = s\<lparr>os_calls := n\<rparr>)"
      proof (cases rule: flock_ex_cases[where env = env])
        case ok
        then show ?thesis using eq fd by auto
      next
        case (busy e)
        show ?thesis
        proof (cases "e = EAGAIN \<and> se_now env (Suc (os_calls s)) < d")
          case True
          then have "loop env d f ?s2 = Some r" using eq busy fd by (simp add: os_now_def)
          from IH[OF this] fd opn fresh show ?thesis by auto
        next
          case False
          then show ?thesis using eq busy fd by (auto simp: os_now_def split: if_splits)
        qed
      qed
    qed
  qed
  then show thesis using assms(2,3) locked failed by auto
qed

lemma TryLockPath_cases:
  assumes "TryLockPath env path timeout s = Some (r, s')" "os_wf s"
  obtains (locked) n where "r = Inr (lowest_free (os_fds s))" "map_of (os_locks s) (c_str path) = None"
      "s' = s\<lparr>os_calls := n, os_fds := (lowest_free (os_fds s), LockFile (c_str path)) # os_fds s,
         os_locks := (c_str path, lowest_free (os_fds s)) # os_locks s\<rparr>"
    | (failed) e n where "r = Inl e" "e \<in> {kInvalidArgument, kInternal, kDeadlineExceeded}" "s' = s\<lparr>os_calls := n\<rparr>"
proof -
  let ?fd = "lowest_free (os_fds s)"
  let ?t = "s\<lparr>os_calls := Suc (Suc (os_calls s)), os_fds := (?fd, LockFile (c_str path)) # os_fds s\<rparr>"
  have pos: "?fd \<noteq> - 1" using lowest_free_fresh(2)[of "os_fds s"] by simp
  show thesis
  proof (cases "path = [] \<or> \<not> path_is_absolute path \<or> se_fails env (Suc (os_calls s)) Sys_open \<noteq> None")
    case True
    then show thesis using assms(1)
      by (auto simp: TryLockPath_def os_now_def open_lock_def sys_call_def split: if_splits intro!: failed)
  next
    case False
    then obtain status u where loop: "lock_loop env (se_now env (os_calls s) + seconds timeout) ?fd ?t = Some (status, u)"
      and r: "r = (if status = kOk then Inr ?fd else Inl status)" "s' = (if status = kOk then u else snd (close env ?fd u))"
      using assms(1) pos
      by (auto simp: TryLockPath_def os_now_def open_lock_def sys_call_def open_fd_def Let_def split: if_splits prod.splits)
    have "map_of (os_fds ?t) ?fd = Some (LockFile (c_str path))" "?fd \<notin> snd ` set (os_locks ?t)"
      using fresh_lock_fd[OF assms(2)] by simp_all
    from loop this show thesis
    proof (cases rule: lock_loop_cases)
      case (locked n)
      then show ?thesis using r by (intro that(1)[of n]) simp_all
    next
      case (failed n)
      then have "s' = s\<lparr>os_calls := Suc n\<rparr>" using r(2) lowest_free_fresh(1)[of "os_fds s"] fresh_lock_fd[OF assms(2)]
        by (auto simp: close_def sys_call_def filter_fresh_fd filter_fresh_lock)
      then show ?thesis using failed r by (intro that(2)[of status "Suc n"]) auto
    qed
  qed
qed

lemma c_str_snprintf: "length path < sizeof_sun_path \<Longrightarrow> c_str (snprintf_s sizeof_sun_path path) = c_str path"
proof -
  assume "length path < sizeof_sun_path"
  then have "take (sizeof_sun_path - 1) (c_str path) = c_str path"
    by (metis c_str_def length_takeWhile_le less_Suc_eq_le order_trans sizeof_sun_path_def take_all_iff diff_Suc_1
        less_eq_Suc_le numeral_eq_Suc pred_numeral_simps(3) Suc_diff_1 zero_less_numeral)
  then show ?thesis
    by (simp add: snprintf_s_def c_str_def[symmetric] Let_def) (simp add: c_str_def takeWhile_append)
qed

lemma AbsoluteSocketPath_Inr:
  "AbsoluteSocketPath dir name = Inr path \<longleftrightarrow>
    path_is_absolute dir \<and> path = path_append dir name @ kSocketSuffix \<and> length path < sizeof_sun_path"
  by (auto simp: AbsoluteSocketPath_def PathLengthIsValidForSockaddrUn_def Let_def sizeof_sun_path_def)

lemma AddressFromAbsolutePath_valid:
  "length path < sizeof_sun_path \<Longrightarrow> AddressFromAbsolutePath path = Inr (snprintf_s sizeof_sun_path path)"
  by (auto simp: AddressFromAbsolutePath_def PathLengthIsValidForSockaddrUn_def sizeof_sun_path_def)

definition without_file :: "string \<Rightarrow> os \<Rightarrow> string list"
  where "without_file p s = filter (\<lambda>q. q \<noteq> p) (os_socket_files s)"

lemma without_file_same: "p \<notin> set (os_socket_files s) \<Longrightarrow> without_file p s = os_socket_files s"
  by (auto simp: without_file_def filter_id_conv)

lemma unlink_stale_cases:
  obtains (gone) n where "unlink_stale env p s = (True, s\<lparr>os_calls := n, os_socket_files := without_file p s\<rparr>)"
    | (failed) n where "unlink_stale env p s = (False, s\<lparr>os_calls := n\<rparr>)"
proof (cases "p \<in> set (os_socket_files s)")
  case True
  then show thesis
    by (cases "se_fails env (os_calls s) Sys_unlink")
      (auto simp: unlink_stale_def unlink_def sys_call_def without_file_def intro: gone failed)
next
  case False
  then show thesis using gone[of "os_calls s"] by (simp add: unlink_stale_def without_file_same)
qed

lemma open_socket_cases:
  obtains (opened) k where "open_socket env s = (lowest_free (os_fds s),
      s\<lparr>os_calls := Suc (os_calls s), os_fds := (lowest_free (os_fds s), Sock k) # os_fds s\<rparr>)"
    | (failed) "open_socket env s = (- 1, s\<lparr>os_calls := Suc (os_calls s)\<rparr>)"
  by (cases "se_fails env (os_calls s) Sys_socket")
    (auto simp: open_socket_def sys_call_def open_fd_def Let_def intro: opened failed)

lemma close_fresh:
  assumes "os_wf s" "fd = lowest_free (os_fds s)"
  shows "snd (close env fd (s\<lparr>os_calls := n, os_fds := (fd, t) # os_fds s\<rparr>)) = s\<lparr>os_calls := Suc n\<rparr>"
  using lowest_free_fresh(1)[of "os_fds s"] fresh_lock_fd[OF assms(1)] assms(2)
  by (simp add: close_def sys_call_def filter_fresh_fd filter_fresh_lock)

lemma create_socket_cases:
  assumes "create_socket env dir name s = (r, s')" "os_wf s"
  obtains (created) path k n where "r = Inr (path, lowest_free (os_fds s))" "AbsoluteSocketPath dir name = Inr path"
      "s' = s\<lparr>os_calls := n, os_fds := (lowest_free (os_fds s), Sock k) # os_fds s,
         os_socket_files := c_str path # without_file (c_str path) s\<rparr>"
    | (failed) e n files where "r = Inl e" "s' = s\<lparr>os_calls := n, os_socket_files := files\<rparr>"
      "files = os_socket_files s \<or> (\<exists>path. AbsoluteSocketPath dir name = Inr path \<and> files = without_file (c_str path) s)"
proof (cases "AbsoluteSocketPath dir name")
  case (Inl e)
  then show thesis using assms(1) failed[where e = e and n = "os_calls s" and files = "os_socket_files s"] by (auto simp: create_socket_def)
next
  case (Inr path)
  then have len: "length path < sizeof_sun_path" by (auto simp only: AbsoluteSocketPath_Inr)
  let ?fd = "lowest_free (os_fds s)"
  let ?files = "without_file (c_str path) s"
  show thesis
  proof (cases rule: unlink_stale_cases[of env "c_str path" s])
    case (failed n)
    then show thesis using assms(1) Inr that(2)[where e = kInternal and n = n and files = "os_socket_files s"] by (auto simp: create_socket_def)
  next
    case (gone n)
    let ?s1 = "s\<lparr>os_calls := n, os_socket_files := ?files\<rparr>"
    show thesis
    proof (cases rule: open_socket_cases[of env ?s1])
      case failed
      then show thesis using assms(1) Inr gone that(2)[where e = kInternal and n = "Suc n" and files = ?files] by (auto simp: create_socket_def)
    next
      case (opened k)
      let ?s2 = "?s1\<lparr>os_calls := Suc n, os_fds := (?fd, Sock k) # os_fds ?s1\<rparr>"
      have neq: "?fd \<noteq> - 1" using lowest_free_fresh(2)[of "os_fds s"] by simp
      have fresh: "c_str path \<notin> set ?files" by (simp add: without_file_def)
      show thesis
      proof (cases "se_fails env (Suc n) Sys_bind")
        case None
        then have "bind_socket env (snprintf_s sizeof_sun_path path) ?s2 =
            (True, ?s2\<lparr>os_calls := Suc (Suc n), os_socket_files := c_str path # ?files\<rparr>)"
          using fresh by (simp add: bind_socket_def sys_call_def c_str_snprintf[OF len])
        then show thesis using assms(1) Inr gone opened neq AddressFromAbsolutePath_valid[OF len]
            that(1)[where path = path and n = "Suc (Suc n)" and k = k] by (auto simp: create_socket_def)
      next
        case (Some e)
        then have "bind_socket env (snprintf_s sizeof_sun_path path) ?s2 = (False, ?s2\<lparr>os_calls := Suc (Suc n)\<rparr>)"
          by (simp add: bind_socket_def sys_call_def)
        moreover have "snd (close env ?fd (?s2\<lparr>os_calls := Suc (Suc n)\<rparr>)) =
            s\<lparr>os_calls := Suc (Suc (Suc n)), os_socket_files := ?files\<rparr>"
          using lowest_free_fresh(1)[of "os_fds s"] fresh_lock_fd[OF assms(2)]
          by (intro os.equality) (simp_all add: close_def sys_call_def filter_fresh_fd filter_fresh_lock)
        ultimately show thesis
          using assms(1) Inr gone opened neq AddressFromAbsolutePath_valid[OF len]
            that(2)[where e = kInternal and n = "Suc (Suc (Suc n))" and files = ?files]
          by (auto simp: create_socket_def)
      qed
    qed
  qed
qed


text \<open>Releasing a lock does not fail.\<close>

definition unlocks :: "sys_env \<Rightarrow> bool"
  where "unlocks env \<longleftrightarrow> (\<forall>n. se_fails env n Sys_flock_un = None)"

lemma Unlock_fresh:
  assumes "os_wf s" "fd = lowest_free (os_fds s)"
    and t: "t = s\<lparr>os_calls := n, os_fds := (fd, x) # os_fds s, os_locks := (p, fd) # os_locks s, os_socket_files := files\<rparr>"
  shows "snd (UnlockPathCloseLockfile env fd t) = s\<lparr>os_calls := Suc (Suc n), os_socket_files := files\<rparr>
    \<or> \<not> unlocks env \<and> snd (UnlockPathCloseLockfile env fd t) = t\<lparr>os_calls := Suc n\<rparr>"
proof (cases "se_fails env n Sys_flock_un")
  case None
  have neq: "fd \<noteq> - 1" using lowest_free_fresh(2)[of "os_fds s"] assms(2) by simp
  have "snd (UnlockPathCloseLockfile env fd t) = s\<lparr>os_calls := Suc (Suc n), os_socket_files := files\<rparr>"
    using lowest_free_fresh(1)[of "os_fds s"] fresh_lock_fd[OF assms(1)] assms(2) None neq
    by (intro os.equality) (auto simp: t UnlockPathCloseLockfile_def flock_un_def close_def sys_call_def
        filter_fresh_fd filter_fresh_lock split: bool.split)
  then show ?thesis ..
next
  case (Some e)
  have neq: "fd \<noteq> - 1" using lowest_free_fresh(2)[of "os_fds s"] assms(2) by simp
  then show ?thesis using Some by (auto simp: t UnlockPathCloseLockfile_def flock_un_def sys_call_def unlocks_def)
qed

lemma CreateSocketDirectory_calls: "\<exists>n. snd (CreateSocketDirectory env dir s) = s\<lparr>os_calls := n\<rparr>"
  by (cases "se_fails env (os_calls s) Sys_create_directories")
    (auto simp: CreateSocketDirectory_def sys_call_def intro: exI[of _ "os_calls s"])

lemma os_wf_lock:
  assumes "os_wf s" "fd = lowest_free (os_fds s)" "map_of (os_locks s) p = None"
  shows "os_wf (s\<lparr>os_calls := n, os_fds := (fd, LockFile p) # os_fds s, os_locks := (p, fd) # os_locks s\<rparr>)"
  using assms lowest_free_fresh[of "os_fds s"] unfolding os_wf_def
  by (auto simp: fd_ok_def map_of_eq_None_iff)

lemma os_wf_socket:
  assumes "os_wf s" "fd = lowest_free (os_fds s)"
  shows "os_wf (s\<lparr>os_calls := n, os_fds := (fd, Sock k) # os_fds s, os_socket_files := files\<rparr>)"
  using assms lowest_free_fresh[of "os_fds s"] unfolding os_wf_def
  by (auto simp: fd_ok_def)

text \<open>
  What \<open>Create\<close> can do: it holds a free lock and has bound its socket, or it has failed.  After a failure
  at most the stale socket file of the same path is gone; the descriptor of the lock stays behind only if
  \<open>LOCK_UN\<close> fails.
\<close>

lemma Create_cases:
  assumes "DomainSocketServer_Create env dir name timeout version s = Some (r, s')" "os_wf s"
  obtains (created) path l fd k n where "path_is_absolute dir" "AbsoluteSocketPath dir name = Inr path"
      "map_of (os_locks s) (c_str (LockName dir name)) = None" "l = lowest_free (os_fds s)"
      "fd = lowest_free ((l, LockFile (c_str (LockName dir name))) # os_fds s)"
      "r = Inr (DomainSocketServer_new path (LockName dir name) fd l version)"
      "s' = s\<lparr>os_calls := n, os_fds := (fd, Sock k) # (l, LockFile (c_str (LockName dir name))) # os_fds s,
         os_locks := (c_str (LockName dir name), l) # os_locks s,
         os_socket_files := c_str path # without_file (c_str path) s\<rparr>"
    | (failed) e n files where "r = Inl e" "s' = s\<lparr>os_calls := n, os_socket_files := files\<rparr>"
      "files = os_socket_files s \<or> map_of (os_locks s) (c_str (LockName dir name)) = None
         \<and> (\<exists>path. AbsoluteSocketPath dir name = Inr path \<and> files = without_file (c_str path) s)"
    | (leaked) e n files l where "r = Inl e" "\<not> unlocks env" "l = lowest_free (os_fds s)"
      "map_of (os_locks s) (c_str (LockName dir name)) = None"
      "s' = s\<lparr>os_calls := n, os_fds := (l, LockFile (c_str (LockName dir name))) # os_fds s,
         os_locks := (c_str (LockName dir name), l) # os_locks s, os_socket_files := files\<rparr>"
      "files = os_socket_files s \<or> (\<exists>path. AbsoluteSocketPath dir name = Inr path \<and> files = without_file (c_str path) s)"
proof -
  let ?p = "c_str (LockName dir name)"
  obtain status n1 where dir: "CreateSocketDirectory env dir s = (status, s\<lparr>os_calls := n1\<rparr>)"
    using CreateSocketDirectory_calls[of env dir s] by (metis prod.collapse)
  show thesis
  proof (cases "status = kOk")
    case False
    then show thesis using assms(1) dir failed[where e = status and n = n1 and files = "os_socket_files s"]
      by (auto simp: DomainSocketServer_Create_def)
  next
    case True
    have abs: "path_is_absolute dir" using dir True by (auto simp: CreateSocketDirectory_def split: if_splits)
    let ?s1 = "s\<lparr>os_calls := n1\<rparr>"
    have wf1: "os_wf ?s1" using assms(2) by simp
    obtain lock s2 where lck: "TryLockPath env (LockName dir name) timeout ?s1 = Some (lock, s2)"
      and r: "(r, s') = (case lock of
                      Inl e \<Rightarrow> (Inl e, s2)
                    | Inr flock_fd \<Rightarrow>
                        (case create_socket env dir name s2 of
                           (Inl e, s3) \<Rightarrow> (Inl e, snd (UnlockPathCloseLockfile env flock_fd s3))
                         | (Inr (absolute_socket_path, socket_fd), s3) \<Rightarrow>
                             (Inr (DomainSocketServer_new absolute_socket_path (LockName dir name) socket_fd flock_fd
                                     version), s3)))"
      using assms(1) dir True by (auto simp: DomainSocketServer_Create_def Let_def)
    from lck wf1 show thesis
    proof (cases rule: TryLockPath_cases)
      case (failed e n)
      then show thesis using r that(2)[where e = e and n = n and files = "os_socket_files s"] by auto
    next
      case (locked n)
      let ?l = "lowest_free (os_fds s)"
      have s2: "s2 = s\<lparr>os_calls := n, os_fds := (?l, LockFile ?p) # os_fds s, os_locks := (?p, ?l) # os_locks s\<rparr>"
        using locked(3) by simp
      have free: "map_of (os_locks s) ?p = None" using locked(2) by simp
      have wf2: "os_wf s2" unfolding s2 by (rule os_wf_lock[OF assms(2) refl free])
      obtain c s3 where c: "create_socket env dir name s2 = (c, s3)" by force
      from c wf2 show thesis
      proof (cases rule: create_socket_cases)
        case (created path k m)
        show thesis
          by (rule that(1)[OF abs created(2) free refl refl, of k m])
            (use r c created locked(1) in \<open>auto simp: s2 without_file_def intro!: os.equality\<close>)
      next
        case (failed e m files)
        let ?s3 = "s\<lparr>os_calls := m, os_fds := (?l, LockFile ?p) # os_fds s, os_locks := (?p, ?l) # os_locks s, os_socket_files := files\<rparr>"
        have s3: "s3 = ?s3" using failed(2) by (simp add: s2)
        have files: "files = os_socket_files s \<or> (\<exists>path. AbsoluteSocketPath dir name = Inr path \<and> files = without_file (c_str path) s)"
          using failed(3) by (auto simp: s2 without_file_def)
        have res: "r = Inl e" "s' = snd (UnlockPathCloseLockfile env ?l s3)" using r c failed(1) locked(1) by auto
        from Unlock_fresh[OF assms(2) refl s3, of env] show thesis
        proof (elim disjE conjE)
          assume "snd (UnlockPathCloseLockfile env ?l s3) = s\<lparr>os_calls := Suc (Suc m), os_socket_files := files\<rparr>"
          then show thesis using files free res that(2)[where e = e and n = "Suc (Suc m)" and files = files] by auto
        next
          assume "\<not> unlocks env" "snd (UnlockPathCloseLockfile env ?l s3) = s3\<lparr>os_calls := Suc m\<rparr>"
          then show thesis
            using files free res that(3)[where e = e and n = "Suc m" and files = files and l = ?l] by (auto simp: s3)
        qed
      qed
    qed
  qed
qed

subsection \<open>Histories of servers\<close>

datatype server_op =
  CreateServer string string int nat | ServeServer nat nat bool fd_map | DestroyServer nat

primrec server_exec ::
    "sys_env \<Rightarrow> server_op \<Rightarrow> DomainSocketServer list \<times> os \<Rightarrow> (DomainSocketServer list \<times> os) option"
  where
    "server_exec env (CreateServer dir name timeout version) st =
      map_option (\<lambda>(r, s). (case r of Inl _ \<Rightarrow> fst st | Inr d \<Rightarrow> fst st @ [d], s))
        (DomainSocketServer_Create env dir name timeout version (snd st))"
  | "server_exec env (ServeServer i rlim_cur started m) st =
      (if i < length (fst st)
       then case ServeShmDescriptors env rlim_cur started m (fst st ! i) (snd st) of
              (_, d, s) \<Rightarrow> Some ((fst st)[i := d], s)
       else Some st)"
  | "server_exec env (DestroyServer i) st =
      (if i < length (fst st)
       then map_option (\<lambda>s. (take i (fst st) @ drop (Suc i) (fst st), s))
              (DomainSocketServer_destroy env (fst st ! i) (snd st))
       else Some st)"

fun server_run ::
    "sys_env \<Rightarrow> server_op list \<Rightarrow> DomainSocketServer list \<times> os \<Rightarrow> (DomainSocketServer list \<times> os) option"
  where
    "server_run env [] st = Some st"
  | "server_run env (op # ops) st = Option.bind (server_exec env op st) (server_run env ops)"

text \<open>Names without a zero character, so that a path and its C string are the same.\<close>

fun server_op_ok :: "server_op \<Rightarrow> bool"
  where
    "server_op_ok (CreateServer dir name timeout version) \<longleftrightarrow> no_nul dir \<and> no_nul name"
  | "server_op_ok _ \<longleftrightarrow> True"

definition server_ok :: "DomainSocketServer \<Rightarrow> os \<Rightarrow> bool"
  where "server_ok d s \<longleftrightarrow>
    (\<exists>base. no_nul base \<and> dss_absolute_socket_path d = base @ kSocketSuffix
      \<and> dss_absolute_lock_path d = base @ kLockSuffix)
    \<and> (\<exists>k. map_of (os_fds s) (dss_socket_fd d) = Some (Sock k))
    \<and> map_of (os_fds s) (dss_flock_fd d) = Some (LockFile (dss_absolute_lock_path d))
    \<and> map_of (os_locks s) (dss_absolute_lock_path d) = Some (dss_flock_fd d)
    \<and> dss_absolute_socket_path d \<in> set (os_socket_files s)"

definition server_inv :: "DomainSocketServer list \<Rightarrow> os \<Rightarrow> bool"
  where "server_inv ds s \<longleftrightarrow>
    os_wf s \<and> (\<forall>d \<in> set ds. server_ok d s) \<and> distinct (map dss_flock_fd ds) \<and> distinct (map dss_socket_fd ds)"

lemma c_str_no_nul [simp]: "no_nul p \<Longrightarrow> c_str p = p"
  by (auto simp: c_str_def takeWhile_eq_all_conv)

lemma no_nul_path_append: "no_nul p \<Longrightarrow> no_nul q \<Longrightarrow> no_nul (path_append p q)"
  by (simp add: path_append_def)

lemma no_nul_suffixes [simp]: "no_nul kSocketSuffix" "no_nul kLockSuffix"
  by (simp_all add: kSocketSuffix_def kLockSuffix_def)

lemma server_ok_update:
  assumes "server_ok d s"
    and "map_of (os_fds s') (dss_socket_fd d) = map_of (os_fds s) (dss_socket_fd d)"
    and "map_of (os_fds s') (dss_flock_fd d) = map_of (os_fds s) (dss_flock_fd d)"
    and "map_of (os_locks s') (dss_absolute_lock_path d) = map_of (os_locks s) (dss_absolute_lock_path d)"
    and "dss_absolute_socket_path d \<in> set (os_socket_files s')"
  shows "server_ok d s'"
  using assms by (simp add: server_ok_def)

text \<open>A live server has its lock, so that no other server has its socket file.\<close>

lemma other_socket:
  assumes "server_ok d s" "no_nul dir" "no_nul name" "AbsoluteSocketPath dir name = Inr path"
    and "map_of (os_locks s) (c_str (LockName dir name)) = None"
  shows "dss_absolute_socket_path d \<noteq> c_str path" "c_str path = path"
proof -
  let ?b = "path_append dir name"
  have path: "path = ?b @ kSocketSuffix" using assms(4) by (auto simp only: AbsoluteSocketPath_Inr)
  have nn: "no_nul ?b" by (rule no_nul_path_append[OF assms(2,3)])
  then show "c_str path = path" using path by simp
  then show "dss_absolute_socket_path d \<noteq> c_str path" using path nn assms(1,5) by (auto simp: server_ok_def LockName_def)
qed

lemma server_inv_create:
  assumes "server_inv ds s" "DomainSocketServer_Create env dir name timeout version s = Some (r, s')"
    and nul: "no_nul dir" "no_nul name"
  shows "server_inv (case r of Inl _ \<Rightarrow> ds | Inr d \<Rightarrow> ds @ [d]) s'"
proof -
  have wf: "os_wf s" using assms(1) by (simp add: server_inv_def)
  let ?p = "c_str (LockName dir name)"
  let ?b = "path_append dir name"
  have nn: "no_nul ?b" by (rule no_nul_path_append[OF nul])
  have p: "?p = ?b @ kLockSuffix" "LockName dir name = ?b @ kLockSuffix" using nn by (simp_all add: LockName_def)
  have fd: "dss_socket_fd d \<in> fst ` set (os_fds s)" "dss_flock_fd d \<in> fst ` set (os_fds s)"
      "map_of (os_locks s) (dss_absolute_lock_path d) \<noteq> None" if "d \<in> set ds" for d
    using assms(1) that by (force simp: server_inv_def server_ok_def dest!: map_of_SomeD)+
  have ok: "server_ok d s" if "d \<in> set ds" for d using assms(1) that by (simp add: server_inv_def)
  have sockfile: "dss_absolute_socket_path d \<in> set files" if "d \<in> set ds" "files = os_socket_files s \<or>
      map_of (os_locks s) ?p = None \<and> (\<exists>path. AbsoluteSocketPath dir name = Inr path \<and> files = without_file (c_str path) s)" for d files
    using ok[OF that(1)] other_socket(1)[OF ok[OF that(1)] nul] that(2) by (auto simp: without_file_def server_ok_def)
  from assms(2) wf show ?thesis
  proof (cases rule: Create_cases)
    case (created path l fd k n)
    let ?s1 = "s\<lparr>os_calls := n, os_fds := (l, LockFile ?p) # os_fds s, os_locks := (?p, l) # os_locks s\<rparr>"
    have l: "l \<notin> fst ` set (os_fds s)" "fd \<notin> fst ` set (os_fds s)" "fd \<noteq> l"
      using lowest_free_fresh(1)[of "os_fds s"] lowest_free_fresh(1)[of "(l, LockFile ?p) # os_fds s"] created(4,5) by auto
    have "os_wf ?s1" using os_wf_lock[OF wf created(4,3)] .
    then have "os_wf (?s1\<lparr>os_calls := n, os_fds := (fd, Sock k) # os_fds ?s1,
        os_socket_files := c_str path # without_file (c_str path) s\<rparr>)"
      by (rule os_wf_socket) (simp add: created(5))
    then have wf': "os_wf s'" by (simp add: created(7) os_wf_def)
    have old: "server_ok d s'" if d: "d \<in> set ds" for d
    proof (rule server_ok_update[OF ok[OF d]])
      show "dss_absolute_socket_path d \<in> set (os_socket_files s')"
        using sockfile[OF d, of "without_file (c_str path) s"] created(2,3) by (auto simp: created(7))
    qed (use fd[OF d] l created(3) in \<open>auto simp: created(7)\<close>)
    have path: "path = ?b @ kSocketSuffix" using created(2) by (auto simp only: AbsoluteSocketPath_Inr)
    then have "c_str path = path" using nn by simp
    then have new: "server_ok (DomainSocketServer_new path (LockName dir name) fd l version) s'"
      using l(3) nn path p by (auto simp: server_ok_def DomainSocketServer_new_def created(7))
    show ?thesis using assms(1) wf' old new l(1,2) fd(1,2)
      by (auto simp: server_inv_def created(6)) (auto simp: DomainSocketServer_new_def)
  next
    case (failed e n files)
    have wf': "os_wf s'" using wf by (simp add: failed(2) os_wf_def)
    have "server_ok d s'" if d: "d \<in> set ds" for d
      by (rule server_ok_update[OF ok[OF d]]) (use sockfile[OF d failed(3)] in \<open>simp_all add: failed(2)\<close>)
    then show ?thesis using assms(1) wf' by (simp add: server_inv_def failed(1))
  next
    case (leaked e n files l)
    have l: "l \<notin> fst ` set (os_fds s)" using lowest_free_fresh(1)[of "os_fds s"] leaked(3) by simp
    have "os_wf s'" using os_wf_lock[OF wf leaked(3,4), of n] by (simp add: leaked(5) os_wf_def)
    moreover have "server_ok d s'" if d: "d \<in> set ds" for d
      by (rule server_ok_update[OF ok[OF d]])
        (use fd[OF d] l leaked(4) sockfile[OF d, of files] leaked(6) in \<open>auto simp: leaked(5)\<close>)
    ultimately show ?thesis using assms(1) by (simp add: server_inv_def leaked(1))
  qed
qed

lemma map_of_filter_fd: "map_of (filter (\<lambda>(d, t). d \<noteq> fd) xs) x = (if x = fd then None else map_of xs x)"
  by (induction xs) auto

lemma map_of_filter_lock:
  "distinct (map fst xs) \<Longrightarrow> map_of xs p = Some d \<Longrightarrow> d \<noteq> fd \<Longrightarrow> map_of (filter (\<lambda>(p, d). d \<noteq> fd) xs) p = Some d"
  by (induction xs) (auto simp: map_of_eq_None_iff)

lemma distinct_fst_filter: "distinct (map fst xs) \<Longrightarrow> distinct (map fst (filter P xs))"
  by (induction xs) auto

lemma fst_filter_fd: "fst ` {x \<in> A. case x of (d, t) \<Rightarrow> d \<noteq> fd} = fst ` A - {fd}"
  by force

lemma os_wf_close: "os_wf s \<Longrightarrow> os_wf (snd (close env fd s))"
  unfolding os_wf_def by (intro conjI) (auto simp: close_def sys_call_def distinct_fst_filter fst_filter_fd)

lemma os_wf_flock_un: "os_wf s \<Longrightarrow> os_wf (snd (flock_un env fd s))"
  unfolding os_wf_def
  by (cases "se_fails env (os_calls s) Sys_flock_un")
    (auto simp: flock_un_def sys_call_def distinct_fst_filter)

lemma Unlock_wf: "os_wf s \<Longrightarrow> os_wf (snd (UnlockPathCloseLockfile env fd s))"
  using os_wf_flock_un[of s env fd] os_wf_close
  by (auto simp: UnlockPathCloseLockfile_def split: prod.splits bool.splits) (metis snd_conv)+

text \<open>What the end of another server leaves of a live one.\<close>

lemma close_other:
  assumes "server_ok d s" "os_wf s" "dss_socket_fd d \<noteq> fd" "dss_flock_fd d \<noteq> fd"
  shows "server_ok d (snd (close env fd s))"
proof (rule server_ok_update[OF assms(1)])
  have "distinct (map fst (os_locks s))" using assms(2) by (simp add: os_wf_def)
  then show "map_of (os_locks (snd (close env fd s))) (dss_absolute_lock_path d) = map_of (os_locks s) (dss_absolute_lock_path d)"
    using assms(1,4) map_of_filter_lock[of "os_locks s"] by (auto simp: close_def sys_call_def server_ok_def)
qed (use assms in \<open>auto simp: close_def sys_call_def map_of_filter_fd server_ok_def\<close>)

lemma Unlock_other:
  assumes "server_ok d s" "os_wf s" "dss_socket_fd d \<noteq> fd" "dss_flock_fd d \<noteq> fd"
  shows "server_ok d (snd (UnlockPathCloseLockfile env fd s))"
proof -
  have dist: "distinct (map fst (os_locks s))" using assms(2) by (simp add: os_wf_def)
  have "server_ok d (snd (flock_un env fd s))"
    by (rule server_ok_update[OF assms(1)])
      (use assms map_of_filter_lock[OF dist] in \<open>auto simp: flock_un_def sys_call_def server_ok_def split: option.splits\<close>)
  then show ?thesis using assms os_wf_flock_un[OF assms(2), of env fd] close_other[where fd = fd and d = d]
    by (auto simp: UnlockPathCloseLockfile_def split: prod.splits bool.splits) (metis snd_conv)+
qed

lemma unlink_frame: 
  "os_wf s \<Longrightarrow> os_wf (snd (unlink env p s))"
  "server_ok d s \<Longrightarrow> dss_absolute_socket_path d \<noteq> p \<Longrightarrow> server_ok d (snd (unlink env p s))"
  by (cases "se_fails env (os_calls s) Sys_unlink"; simp add: unlink_def sys_call_def os_wf_def server_ok_def)+

lemma server_fds_distinct:
  assumes "server_ok d s" "server_ok e s"
  shows "dss_socket_fd d \<noteq> dss_flock_fd e"
    "dss_flock_fd d \<noteq> dss_flock_fd e \<Longrightarrow> dss_absolute_socket_path d \<noteq> dss_absolute_socket_path e"
  using assms by (auto simp: server_ok_def)

lemma server_path:
  assumes "server_ok d s"
  shows "c_str (dss_absolute_socket_path d) = dss_absolute_socket_path d" "dss_absolute_socket_path d \<noteq> []"
  using assms by (auto simp: server_ok_def kSocketSuffix_def)

lemma os_wf_fd_nonneg: "os_wf s \<Longrightarrow> map_of (os_fds s) fd = Some t \<Longrightarrow> 0 \<le> fd"
  by (auto simp: os_wf_def dest!: map_of_SomeD)

lemma server_fd_valid:
  assumes "os_wf s" "server_ok d s"
  shows "dss_socket_fd d \<noteq> - 1" "dss_flock_fd d \<noteq> - 1"
proof -
  obtain k where "map_of (os_fds s) (dss_socket_fd d) = Some (Sock k)" using assms(2) by (auto simp: server_ok_def)
  from os_wf_fd_nonneg[OF assms(1) this] show "dss_socket_fd d \<noteq> - 1" by simp
  have "map_of (os_fds s) (dss_flock_fd d) = Some (LockFile (dss_absolute_lock_path d))"
    using assms(2) by (simp add: server_ok_def)
  from os_wf_fd_nonneg[OF assms(1) this] show "dss_flock_fd d \<noteq> - 1" by simp
qed

lemma distinct_map_other:
  assumes "distinct (map f (xs @ d # ys))" "e \<in> set (xs @ ys)"
  shows "f e \<noteq> f d"
proof -
  have "f d \<notin> f ` set (xs @ ys)" using assms(1) by auto
  then show ?thesis using imageI[OF assms(2), of f] by metis
qed

lemma server_inv_destroy:
  assumes "server_inv ds s" "i < length ds" "DomainSocketServer_destroy env (ds ! i) s = Some s'"
  shows "server_inv (take i ds @ drop (Suc i) ds) s'"
proof -
  let ?d = "ds ! i"
  have wf: "os_wf s" and ok: "server_ok ?d s" using assms(1,2) by (auto simp: server_inv_def)
  let ?s1 = "s\<lparr>os_calls := Suc (os_calls s)\<rparr>"
  let ?s2 = "snd (close env (dss_socket_fd ?d) ?s1)"
  let ?s3 = "snd (unlink env (dss_absolute_socket_path ?d) ?s2)"
  have s': "s' = snd (UnlockPathCloseLockfile env (dss_flock_fd ?d) ?s3)"
    using assms(3) server_path[OF ok] server_fd_valid[OF wf ok]
    by (auto simp: DomainSocketServer_destroy_def sys_call_def split: option.splits)
  have wfs: "os_wf ?s1" "os_wf ?s2" "os_wf ?s3" "os_wf s'"
    using wf by (simp_all add: s' os_wf_close unlink_frame Unlock_wf)
  have split: "ds = take i ds @ ?d # drop (Suc i) ds" using assms(2) by (simp add: id_take_nth_drop)
  have d: "distinct (map dss_flock_fd (take i ds @ ?d # drop (Suc i) ds))"
    "distinct (map dss_socket_fd (take i ds @ ?d # drop (Suc i) ds))"
    using assms(1) split by (simp_all add: server_inv_def)
  have "server_ok e s'" if e: "e \<in> set (take i ds @ drop (Suc i) ds)" for e
  proof -
    have oke: "server_ok e s" using e assms(1) by (auto simp: server_inv_def dest: in_set_takeD in_set_dropD)
    have "dss_flock_fd e \<noteq> dss_flock_fd ?d" "dss_socket_fd e \<noteq> dss_socket_fd ?d"
      using distinct_map_other[OF d(1) e] distinct_map_other[OF d(2) e] by auto
    note neq = this server_fds_distinct(1)[OF oke ok] server_fds_distinct(1)[OF ok oke]
      server_fds_distinct(2)[OF oke ok this(1)]
    have "server_ok e ?s1" using oke by (simp add: server_ok_def)
    from close_other[OF this wfs(1) neq(2)] neq(4) have "server_ok e ?s2" by simp
    from unlink_frame(2)[OF this neq(5)] have "server_ok e ?s3" .
    from Unlock_other[OF this wfs(3) neq(3,1)] show ?thesis by (simp add: s')
  qed
  then show ?thesis using wfs(4) d by (simp add: server_inv_def)
qed

lemma ServeShmDescriptors_frame:
  assumes "ServeShmDescriptors env rlim_cur started m d s = (status, d', s')"
  shows "\<exists>n. s' = s\<lparr>os_calls := n\<rparr>"
    "dss_absolute_socket_path d' = dss_absolute_socket_path d" "dss_absolute_lock_path d' = dss_absolute_lock_path d"
    "dss_socket_fd d' = dss_socket_fd d" "dss_flock_fd d' = dss_flock_fd d"
  using assms
  by (auto simp: ServeShmDescriptors_def sys_call_def Let_def split: if_splits option.splits sum.splits
      intro: exI[of _ "os_calls s"])

lemma server_inv_exec:
  assumes "server_inv (fst st) (snd st)" "server_op_ok op" "server_exec env op st = Some st'"
  shows "server_inv (fst st') (snd st')"
proof (cases op)
  case (CreateServer dir name timeout version)
  then show ?thesis using assms server_inv_create[OF assms(1)] by auto
next
  case (ServeServer i rlim_cur started m)
  obtain ds s where st: "st = (ds, s)" by force
  show ?thesis
  proof (cases "i < length ds")
    case True
    obtain status d s' where sv: "ServeShmDescriptors env rlim_cur started m (ds ! i) s = (status, d, s')" by (metis prod_cases3)
    note f = ServeShmDescriptors_frame[OF sv]
    have st': "st' = (ds[i := d], s')" using assms(3) ServeServer True sv st by simp
    have same: "map dss_flock_fd (ds[i := d]) = map dss_flock_fd ds" "map dss_socket_fd (ds[i := d]) = map dss_socket_fd ds"
      using f(4,5) by (simp_all add: map_update) (metis list_update_id nth_map True)+
    have "server_ok e s'" if "e \<in> set (ds[i := d])" for e
      using that f assms(1) True set_update_subset_insert[of ds i d] st
      by (auto simp: server_inv_def server_ok_def)
    then show ?thesis using assms(1) f(1) st unfolding st' server_inv_def fst_conv snd_conv same by auto
  qed (use assms ServeServer st in auto)
next
  case (DestroyServer i)
  then show ?thesis using assms server_inv_destroy[OF assms(1)] by (auto split: if_splits)
qed

lemma server_inv_run:
  "server_inv (fst st) (snd st) \<Longrightarrow> list_all server_op_ok ops \<Longrightarrow> server_run env ops st = Some st' \<Longrightarrow>
    server_inv (fst st') (snd st')"
  by (induction ops arbitrary: st) (auto simp: bind_eq_Some_conv dest: server_inv_exec)

lemma server_inv_init: "os_wf s \<Longrightarrow> server_inv [] s"
  by (simp add: server_inv_def)

lemma server_paths_distinct:
  assumes "server_inv ds s"
  shows "distinct (map dss_absolute_socket_path ds)"
proof -
  have "inj_on dss_absolute_socket_path (set ds)"
  proof (rule inj_onI)
    fix d e assume de: "d \<in> set ds" "e \<in> set ds" "dss_absolute_socket_path d = dss_absolute_socket_path e"
    then have "server_ok d s" "server_ok e s" using assms by (simp_all add: server_inv_def)
    then have "dss_flock_fd d = dss_flock_fd e" using server_fds_distinct(2) de(3) by blast
    then show "d = e" using assms de(1,2) by (auto simp: server_inv_def distinct_map dest: inj_onD)
  qed
  then show ?thesis using assms by (simp add: server_inv_def distinct_map)
qed

lemma live_lock:
  assumes "server_ok d s" "no_nul dir" "no_nul name" "AbsoluteSocketPath dir name = Inr (dss_absolute_socket_path d)"
  shows "c_str (LockName dir name) = dss_absolute_lock_path d"
proof -
  have "dss_absolute_socket_path d = path_append dir name @ kSocketSuffix"
    using assms(4) by (auto simp only: AbsoluteSocketPath_Inr)
  moreover have "no_nul (path_append dir name)" by (rule no_nul_path_append[OF assms(2,3)])
  ultimately show ?thesis using assms(1) by (auto simp: server_ok_def LockName_def)
qed

subsection \<open>Properties\<close>

text \<open>C10: Whatever servers a process creates, starts and destroys, and whichever system calls fail, no two
  live servers have the same socket; the socket file of a live server exists and its lock file is locked
  by the server.  An attempt to create a second server for a socket in use fails and changes nothing.\<close>
theorem one_server_per_socket:
  assumes "os_wf s0" "list_all server_op_ok ops" "server_run env ops ([], s0) = Some (ds, s)"
  shows "distinct (map dss_absolute_socket_path ds)
    \<and> (\<forall>d \<in> set ds. dss_absolute_socket_path d \<in> set (os_socket_files s)
        \<and> map_of (os_locks s) (dss_absolute_lock_path d) = Some (dss_flock_fd d))
    \<and> (\<forall>d \<in> set ds. \<forall>env' dir name timeout version r s'. no_nul dir \<and> no_nul name
        \<and> AbsoluteSocketPath dir name = Inr (dss_absolute_socket_path d)
        \<and> DomainSocketServer_Create env' dir name timeout version s = Some (r, s')
        \<longrightarrow> (\<exists>e n. r = Inl e \<and> s' = s\<lparr>os_calls := n\<rparr>))"
proof -
  have inv: "server_inv ds s" using server_inv_run[OF _ assms(2,3)] assms(1) by (simp add: server_inv_init)
  have live: "\<exists>e n. r = Inl e \<and> s' = s\<lparr>os_calls := n\<rparr>"
    if d: "d \<in> set ds" and nul: "no_nul dir" "no_nul name"
      and p: "AbsoluteSocketPath dir name = Inr (dss_absolute_socket_path d)"
      and c: "DomainSocketServer_Create env' dir name timeout version s = Some (r, s')"
    for d env' dir name timeout version r s'
  proof -
    have ok: "server_ok d s" and wf: "os_wf s" using inv d by (simp_all add: server_inv_def)
    have "map_of (os_locks s) (c_str (LockName dir name)) \<noteq> None"
      using live_lock[OF ok nul p] ok by (simp add: server_ok_def)
    with c wf show ?thesis by (cases rule: Create_cases) auto
  qed
  have "\<forall>d \<in> set ds. dss_absolute_socket_path d \<in> set (os_socket_files s)
      \<and> map_of (os_locks s) (dss_absolute_lock_path d) = Some (dss_flock_fd d)"
    using inv by (simp add: server_inv_def server_ok_def)
  then show ?thesis using server_paths_distinct[OF inv] live by blast
qed


text \<open>The steady clock passes every deadline.\<close>

definition clock_advances :: "sys_env \<Rightarrow> bool"
  where "clock_advances env \<longleftrightarrow> (\<forall>t. \<exists>k. \<forall>j \<ge> k. t \<le> se_now env j)"

lemma flock_ex_calls: "os_calls (snd (flock_ex env fd s)) = Suc (os_calls s)"
  by (auto simp: flock_ex_def sys_call_def split: option.split fd_target.split)

lemma lock_loop_returns:
  assumes "\<forall>j \<ge> k. deadline \<le> se_now env j"
  shows "\<exists>r. lock_loop env deadline fd s = Some r"
proof (induction "k - os_calls s" arbitrary: s rule: less_induct)
  case less
  obtain e s1 where f: "flock_ex env fd s = (e, s1)" by force
  have calls: "os_calls s1 = Suc (os_calls s)" using flock_ex_calls[of env fd s] f by simp
  show ?case
  proof (cases "e = Some EAGAIN \<and> se_now env (Suc (os_calls s)) < deadline")
    case True
    then have "Suc (os_calls s) < k" using assms by (metis not_le)
    then have "\<exists>r. lock_loop env deadline fd (s1\<lparr>os_calls := Suc (os_calls s1)\<rparr>) = Some r"
      by (intro less) (simp add: calls)
    then show ?thesis using True f calls by (subst lock_loop.simps) (simp add: os_now_def)
  next
    case False
    then show ?thesis using f calls by (subst lock_loop.simps) (auto simp: os_now_def split: option.split)
  qed
qed

lemma TryLockPath_returns: "clock_advances env \<Longrightarrow> \<exists>r. TryLockPath env path timeout s = Some r"
proof -
  assume "clock_advances env"
  then obtain k where "\<forall>j \<ge> k. se_now env (os_calls s) + seconds timeout \<le> se_now env j"
    by (auto simp: clock_advances_def)
  note loop = lock_loop_returns[OF this]
  obtain fd s2 where "open_lock env path (s\<lparr>os_calls := Suc (os_calls s)\<rparr>) = (fd, s2)" by force
  moreover obtain r where "lock_loop env (se_now env (os_calls s) + seconds timeout) fd s2 = Some r" using loop by blast
  ultimately show ?thesis by (simp add: TryLockPath_def os_now_def)
qed

text \<open>\<open>Create\<close> returns: however the calls answer, the wait for the lock ends, since the steady clock
  passes the deadline.\<close>
theorem create_returns:
  assumes "clock_advances env"
  shows "\<exists>r s'. DomainSocketServer_Create env dir name timeout version s = Some (r, s')"
proof -
  obtain status s1 where d: "CreateSocketDirectory env dir s = (status, s1)" by force
  obtain lock s2 where "TryLockPath env (LockName dir name) timeout s1 = Some (lock, s2)"
    using TryLockPath_returns[OF assms, of "LockName dir name" timeout s1] by auto
  then show ?thesis using d by (auto simp: DomainSocketServer_Create_def Let_def split: sum.splits prod.splits)
qed

lemma map_of_filter_own_lock:
  "distinct (map fst xs) \<Longrightarrow> map_of xs p = Some fd \<Longrightarrow> map_of (filter (\<lambda>(p, d). d \<noteq> fd) xs) p = None"
  by (auto simp: map_of_eq_None_iff dest: eq_key_imp_eq_value)

lemma TryLockPath_free:
  assumes "never_fails env" "map_of (os_locks s) (c_str path) = None" "path_is_absolute path"
  shows "\<exists>fd s'. TryLockPath env path timeout s = Some (Inr fd, s')"
proof -
  let ?fd = "lowest_free (os_fds s)"
  let ?n = "Suc (Suc (os_calls s))"
  let ?t = "s\<lparr>os_calls := ?n, os_fds := (?fd, LockFile (c_str path)) # os_fds s\<rparr>"
  have "lock_loop env d ?fd ?t = Some (kOk, ?t\<lparr>os_calls := Suc ?n, os_locks := (c_str path, ?fd) # os_locks s\<rparr>)" for d
    using assms(1,2) by (subst lock_loop.simps) (simp add: flock_ex_def sys_call_def never_fails_def)
  then show ?thesis using assms(1,3) lowest_free_fresh(2)[of "os_fds s"]
    by (auto simp: TryLockPath_def os_now_def open_lock_def sys_call_def never_fails_def open_fd_def Let_def
        path_is_absolute_def)
qed

lemma create_socket_ok:
  assumes "never_fails env" "AbsoluteSocketPath dir name = Inr path"
  shows "\<exists>fd s'. create_socket env dir name s = (Inr (path, fd), s')"
proof (cases rule: unlink_stale_cases[of env "c_str path" s])
  case (gone n)
  have len: "length path < sizeof_sun_path" using assms(2) by (auto simp only: AbsoluteSocketPath_Inr)
  have "c_str path \<notin> set (without_file (c_str path) s)" by (simp add: without_file_def)
  then show ?thesis using assms gone lowest_free_fresh(2)[of "os_fds s"]
    by (simp add: create_socket_def open_socket_def sys_call_def never_fails_def open_fd_def Let_def
        AddressFromAbsolutePath_valid[OF len] bind_socket_def c_str_snprintf[OF len])
next
  case (failed n)
  then show ?thesis using assms(1)
    by (auto simp: unlink_stale_def unlink_def sys_call_def never_fails_def split: if_splits)
qed

lemma path_append_absolute: "path_is_absolute p \<Longrightarrow> path_is_absolute (path_append p q)"
  by (auto simp: path_append_def path_is_absolute_def)

lemma Create_free:
  assumes "never_fails env" "AbsoluteSocketPath dir name = Inr path"
    and "map_of (os_locks s) (c_str (LockName dir name)) = None"
  shows "\<exists>d s'. DomainSocketServer_Create env dir name timeout version s = Some (Inr d, s')
    \<and> dss_absolute_socket_path d = path"
proof -
  have abs: "path_is_absolute dir" using assms(2) by (auto simp only: AbsoluteSocketPath_Inr)
  then have lock: "path_is_absolute (LockName dir name)"
    using path_append_absolute[OF abs, of name] by (auto simp: LockName_def path_is_absolute_def)
  have dir: "CreateSocketDirectory env dir s = (kOk, s\<lparr>os_calls := Suc (os_calls s)\<rparr>)"
    using abs assms(1) by (simp add: CreateSocketDirectory_def sys_call_def never_fails_def)
  obtain l t where t: "TryLockPath env (LockName dir name) timeout (s\<lparr>os_calls := Suc (os_calls s)\<rparr>) = Some (Inr l, t)"
    using TryLockPath_free[OF assms(1) _ lock, of "s\<lparr>os_calls := Suc (os_calls s)\<rparr>" timeout] assms(3) by auto
  obtain fd s' where "create_socket env dir name t = (Inr (path, fd), s')"
    using create_socket_ok[OF assms(1,2)] by blast
  then show ?thesis using dir t by (simp add: DomainSocketServer_Create_def DomainSocketServer_new_def Let_def)
qed

lemma Unlock_result:
  assumes "never_fails env" "map_of (os_fds s) fd \<noteq> None" "fd \<noteq> - 1"
  shows "UnlockPathCloseLockfile env fd s = (kOk, s\<lparr>os_calls := Suc (Suc (os_calls s)),
    os_locks := filter (\<lambda>(p, d). d \<noteq> fd) (os_locks s), os_fds := filter (\<lambda>(d, t). d \<noteq> fd) (os_fds s)\<rparr>)"
  using assms by (auto simp: UnlockPathCloseLockfile_def flock_un_def close_def sys_call_def never_fails_def
      intro!: os.equality)

lemma destroy_unlocks:
  assumes "never_fails env" "os_wf s" "server_ok d s"
  shows "\<exists>s'. DomainSocketServer_destroy env d s = Some s' \<and> map_of (os_locks s') (dss_absolute_lock_path d) = None
    \<and> dss_absolute_socket_path d \<notin> set (os_socket_files s')
    \<and> map_of (os_fds s') (dss_socket_fd d) = None \<and> map_of (os_fds s') (dss_flock_fd d) = None"
proof -
  have dist: "distinct (map fst (os_locks s))" using assms(2) by (simp add: os_wf_def)
  have l: "map_of (os_locks s) (dss_absolute_lock_path d) = Some (dss_flock_fd d)"
    and "map_of (os_fds s) (dss_flock_fd d) \<noteq> None" "dss_socket_fd d \<noteq> dss_flock_fd d"
    "dss_absolute_socket_path d \<in> set (os_socket_files s)"
    using assms(3) server_fds_distinct(1)[OF assms(3) assms(3)] by (simp_all add: server_ok_def)
  moreover have "map_of (filter (\<lambda>(p, d'). d' \<noteq> dss_flock_fd d) (filter (\<lambda>(p, d'). d' \<noteq> dss_socket_fd d) (os_locks s)))
      (dss_absolute_lock_path d) = None"
    using map_of_filter_own_lock[OF distinct_fst_filter[OF dist]] map_of_filter_lock[OF dist l] calculation(3) by metis
  moreover have "DomainSocketServer_destroy env d s =
    Some (snd (UnlockPathCloseLockfile env (dss_flock_fd d) (snd (unlink env (dss_absolute_socket_path d)
      (snd (close env (dss_socket_fd d) (s\<lparr>os_calls := Suc (os_calls s)\<rparr>)))))))"
    using assms(1) server_fd_valid[OF assms(2,3)] server_path[OF assms(3)]
    by (simp add: DomainSocketServer_destroy_def sys_call_def never_fails_def)
  moreover have "se_fails env n c = None" for n c using assms(1) by (simp add: never_fails_def)
  ultimately show ?thesis using server_fd_valid[OF assms(2,3)]
    by (simp add: Unlock_result[OF assms(1)] close_def unlink_def sys_call_def map_of_filter_fd
        del: filter_filter)
qed

text \<open>The destructor of a live server closes both its descriptors and releases its lock and its
  socket file, so that the next server of the same socket can be created at once.\<close>
theorem destroyed_server_can_be_recreated:
  assumes "os_wf s0" "list_all server_op_ok ops" "server_run env ops ([], s0) = Some (ds, s)"
    and "d \<in> set ds" "never_fails env'" "no_nul dir" "no_nul name"
    and "AbsoluteSocketPath dir name = Inr (dss_absolute_socket_path d)"
  shows "\<exists>s1 d' s2. DomainSocketServer_destroy env' d s = Some s1
    \<and> map_of (os_fds s1) (dss_socket_fd d) = None \<and> map_of (os_fds s1) (dss_flock_fd d) = None
    \<and> DomainSocketServer_Create env' dir name timeout version s1 = Some (Inr d', s2)
    \<and> dss_absolute_socket_path d' = dss_absolute_socket_path d"
proof -
  have "server_inv ds s" using server_inv_run[OF _ assms(2,3)] assms(1) by (simp add: server_inv_init)
  then have ok: "os_wf s" "server_ok d s" using assms(4) by (simp_all add: server_inv_def)
  obtain s1 where s1: "DomainSocketServer_destroy env' d s = Some s1" "map_of (os_locks s1) (dss_absolute_lock_path d) = None"
    "map_of (os_fds s1) (dss_socket_fd d) = None" "map_of (os_fds s1) (dss_flock_fd d) = None"
    using destroy_unlocks[OF assms(5) ok] by blast
  from s1(2) have "map_of (os_locks s1) (c_str (LockName dir name)) = None" by (simp only: live_lock[OF ok(2) assms(6-8)])
  from Create_free[OF assms(5,8) this] s1 show ?thesis by blast
qed

text \<open>An environment in which \<open>bind\<close> fails, and one in which time passes.\<close>

definition no_bind_env :: sys_env
  where "no_bind_env = \<lparr>se_fails = (\<lambda>n c. if c = Sys_bind then Some (EOTHER 98) else None), se_now = (\<lambda>n. int n)\<rparr>"

definition arm_twice :: "server_op list"
  where "arm_twice = [CreateServer ''/tmp'' ''arm'' 0 2, CreateServer ''/tmp'' ''arm'' 0 2]"

lemma arm_twice_run:
  "list_all server_op_ok arm_twice"
  "\<exists>d s. server_run ok_env arm_twice ([], os_init) = Some ([d], s) \<and> dss_absolute_socket_path d = ''/tmp/arm.sock''"
proof -
  show "list_all server_op_ok arm_twice" by (simp add: arm_twice_def)
  have "map_option (\<lambda>(ds, s). map dss_absolute_socket_path ds) (server_run ok_env arm_twice ([], os_init)) = Some [''/tmp/arm.sock'']"
    by code_simp
  then show "\<exists>d s. server_run ok_env arm_twice ([], os_init) = Some ([d], s) \<and> dss_absolute_socket_path d = ''/tmp/arm.sock''"
    by auto
qed

lemma arm_socket_path: "AbsoluteSocketPath ''/tmp'' ''arm'' = Inr ''/tmp/arm.sock''"
  by code_simp

theorem one_server_per_socket_witness:
  "\<exists>d s. server_run ok_env arm_twice ([], os_init) = Some ([d], s) \<and> ''/tmp/arm.sock'' \<in> set (os_socket_files s)
    \<and> (\<forall>r s'. DomainSocketServer_Create no_bind_env ''/tmp'' ''arm'' 7 2 s = Some (r, s') \<longrightarrow> (\<exists>e n. r = Inl e \<and> s' = s\<lparr>os_calls := n\<rparr>))"
proof -
  obtain d s where run: "server_run ok_env arm_twice ([], os_init) = Some ([d], s)"
      "dss_absolute_socket_path d = ''/tmp/arm.sock''"
    using arm_twice_run(2) by blast
  note t = one_server_per_socket[OF os_wf_init arm_twice_run(1) run(1)]
  have "\<exists>e n. r = Inl e \<and> s' = s\<lparr>os_calls := n\<rparr>"
    if "DomainSocketServer_Create no_bind_env ''/tmp'' ''arm'' 7 2 s = Some (r, s')" for r s'
    using conjunct2[OF conjunct2[OF t], rule_format, of d "''/tmp''" "''arm''" no_bind_env 7 2 r s'] that run(2) arm_socket_path
    by auto
  then show ?thesis using run t by auto
qed


lemma no_bind_env_advances: "clock_advances no_bind_env"
  unfolding clock_advances_def
proof
  fix t show "\<exists>k. \<forall>j \<ge> k. t \<le> se_now no_bind_env j"
    by (intro exI[of _ "nat t"]) (auto simp: no_bind_env_def)
qed

theorem create_returns_witness:
  "clock_advances no_bind_env \<and> (\<exists>r s'. DomainSocketServer_Create no_bind_env ''/tmp'' ''arm'' 7 2 os_init = Some (r, s'))"
  using no_bind_env_advances create_returns[OF no_bind_env_advances] by blast

theorem destroyed_server_can_be_recreated_witness:
  "\<exists>d s s1 d' s2. server_run ok_env arm_twice ([], os_init) = Some ([d], s)
    \<and> DomainSocketServer_destroy ok_env d s = Some s1
    \<and> DomainSocketServer_Create ok_env ''/tmp'' ''arm'' 0 2 s1 = Some (Inr d', s2)
    \<and> dss_absolute_socket_path d' = ''/tmp/arm.sock''"
proof -
  obtain d s where run: "server_run ok_env arm_twice ([], os_init) = Some ([d], s)"
      "dss_absolute_socket_path d = ''/tmp/arm.sock''"
    using arm_twice_run(2) by blast
  have p: "AbsoluteSocketPath ''/tmp'' ''arm'' = Inr (dss_absolute_socket_path d)" using run(2) arm_socket_path by simp
  have d: "d \<in> set [d]" and n: "no_nul ''/tmp''" "no_nul ''arm''" by simp_all
  from destroyed_server_can_be_recreated[OF os_wf_init arm_twice_run(1) run(1) d ok_env_never_fails n p] run
  show ?thesis by metis
qed

end
