(* ===== verification/Domain_Socket_Props.thy ===== *)
theory Domain_Socket_Props
  imports Domain_Server_Props
begin

text \<open>
  The protocol between server and client: the message format is read back as it was written, the map is
  cut into messages as intended, the client puts any fragmentation back together and ends up with
  descriptors of the same files under the same names, and it always returns.
\<close>

subsection \<open>The message format\<close>

lemma length_le_bytes [simp]: "length (le_bytes k n) = k"
  by (induction k arbitrary: n) simp_all

lemma le_value_le_bytes [simp]: "n < 256 ^ k \<Longrightarrow> le_value (le_bytes k n) = n"
proof (induction k arbitrary: n)
  case (Suc k)
  have "n div 256 < 256 ^ k" using Suc.prems by (simp add: less_mult_imp_div_less mult.commute)
  moreover have "unat (word_of_nat (n mod 256) :: u8) = n mod 256"
    by (simp add: unat_of_nat take_bit_nat_eq_self)
  ultimately show ?case using Suc.IH by simp
qed simp

text \<open>A transfer structure as it exists in memory: fields of their width and arrays of their length.\<close>

definition td_wf :: "TransferData \<Rightarrow> bool"
  where "td_wf d \<longleftrightarrow> td_version d < 2 ^ 64 \<and> td_num_messages d < 2 ^ 64 \<and> td_message_index d < 2 ^ 64
    \<and> length (fdn_names (td_names d)) = 200 \<and> list_all (\<lambda>n. length (sn_value n) = 255) (fdn_names (td_names d))"

lemma length_encode_name: "length (sn_value n) = 255 \<Longrightarrow> length (encode_name n) = 256"
  by (simp add: encode_name_def)

lemma char_byte: "char_of (unat (word_of_nat (of_char c) :: u8)) = c"
proof -
  have "(of_char c :: nat) < 256" using of_char_of[of "of_char c"] by (simp add: of_char_def)
  then show ?thesis by (simp add: unat_of_nat take_bit_nat_eq_self)
qed

lemma decode_encode_name: "length (sn_value n) = 255 \<Longrightarrow> decode_name (encode_name n) = n"
  by (simp add: decode_name_def encode_name_def nth_append comp_def char_byte)

lemma decode_encode_names:
  "list_all (\<lambda>n. length (sn_value n) = 255) ns \<Longrightarrow>
    decode_names (length ns) (concat (map encode_name ns) @ rest) = ns"
  by (induction ns) (simp_all add: length_encode_name decode_encode_name)

lemma length_concat_names:
  "list_all (\<lambda>n. length (sn_value n) = 255) ns \<Longrightarrow> length (concat (map encode_name ns)) = 256 * length ns"
  by (induction ns) (simp_all add: length_encode_name)

lemma length_encode_TransferData: "td_wf d \<Longrightarrow> length (encode_TransferData d) = kExpectedBytes"
  by (simp add: td_wf_def encode_TransferData_def length_concat_names kExpectedBytes_def)

lemma decode_encode_TransferData:
  assumes "td_wf d"
  shows "decode_TransferData (encode_TransferData d) = d"
proof -
  have bounds: "td_version d < 256 ^ 8" "td_num_messages d < 256 ^ 8" "td_message_index d < 256 ^ 8"
    "unat (fdn_size (td_names d)) < 256 ^ 4"
    using assms unsigned_less[of "fdn_size (td_names d)", where ?'a = nat] by (simp_all add: td_wf_def)
  have names: "decode_names 200 (concat (map encode_name (fdn_names (td_names d))) @ replicate 4 0) = fdn_names (td_names d)"
    using decode_encode_names[of "fdn_names (td_names d)"] assms by (simp add: td_wf_def)
  show ?thesis unfolding decode_TransferData_def encode_TransferData_def
    using bounds names by simp
qed

subsection \<open>Messages\<close>

text \<open>The messages that the map should become: consecutive blocks of at most 200 entries.\<close>

function chunks :: "'a list \<Rightarrow> 'a list list"
  where "chunks xs = (if xs = [] then [] else take kMaxFdsPerMessage xs # chunks (drop kMaxFdsPerMessage xs))"
  by pat_completeness auto
termination
  by (relation "measure length") (auto simp: kMaxFdsPerMessage_def)

declare chunks.simps [simp del]

definition wire_name :: "string \<Rightarrow> SegmentName"
  where "wire_name name = \<lparr>sn_value = take 254 name @ replicate (255 - min 254 (length name)) (CHR 0x00),
    sn_must_be_used = False\<rparr>"

definition chunk_names :: "(string \<times> int) list \<Rightarrow> FileDescriptorNames"
  where "chunk_names c = \<lparr>fdn_size = word_of_nat (length c),
    fdn_names = map (wire_name \<circ> fst) c @ replicate (kMaxFdsPerMessage - length c) SegmentName_default\<rparr>"

definition chunk_data :: "nat \<Rightarrow> nat \<Rightarrow> nat \<Rightarrow> (string \<times> int) list \<Rightarrow> TransferData"
  where "chunk_data version i n c =
    \<lparr>td_version = version, td_num_messages = n, td_message_index = i, td_names = chunk_names c\<rparr>"

definition chunk_message :: "nat \<Rightarrow> nat \<Rightarrow> nat \<Rightarrow> (string \<times> int) list \<Rightarrow> Message"
  where "chunk_message version i n c =
    \<lparr>msg_descriptors = \<lparr>sd_transfer_data = chunk_data version i n c, sd_file_descriptors = map snd c\<rparr>,
     msg_control = \<lparr>cmsg_len = CMSG_LEN (length c * sizeof_int), cmsg_level = SOL_SOCKET,
                    cmsg_type = SCM_RIGHTS, cmsg_data = map snd c\<rparr>\<rparr>"

fun chunk_messages :: "nat \<Rightarrow> nat \<Rightarrow> nat \<Rightarrow> (string \<times> int) list list \<Rightarrow> Message list"
  where
    "chunk_messages version i n [] = []"
  | "chunk_messages version i n (c # cs) = chunk_message version i n c # chunk_messages version (Suc i) n cs"

definition filled :: "(string \<times> int) list \<Rightarrow> ShmDescriptors"
  where "filled c = \<lparr>sd_transfer_data = chunk_data kDomainSocketProtocolVersion 0 0 c, sd_file_descriptors = map snd c\<rparr>"

lemma StringCopy_name: "StringCopy (Some (sn_value SegmentName_default)) name = (kOk, Some (sn_value (wire_name name)))"
  by (simp add: StringCopy_def SegmentName_default_def wire_name_def memcpy_prefix_def min_def)

lemma chunk_names_snoc:
  assumes "length c < kMaxFdsPerMessage"
  shows "\<lparr>fdn_size = fdn_size (chunk_names c) + 1,
      fdn_names = (fdn_names (chunk_names c))[length c := SegmentName_default\<lparr>sn_value := sn_value (wire_name name)\<rparr>]\<rparr>
    = chunk_names (c @ [(name, fd)])"
proof -
  have "kMaxFdsPerMessage - length c = Suc (kMaxFdsPerMessage - Suc (length c))" using assms by simp
  then show ?thesis
    by (simp add: chunk_names_def list_update_append SegmentName_default_def wire_name_def add.commute)
qed

lemma chunk_size [simp]: "length c \<le> kMaxFdsPerMessage \<Longrightarrow> unat (fdn_size (chunk_names c)) = length c"
  by (simp add: chunk_names_def kMaxFdsPerMessage_def unat_of_nat take_bit_nat_eq_self)

lemma fill_message_filled:
  "length c \<le> kMaxFdsPerMessage \<Longrightarrow>
    fill_message rest (filled c) = Inr (filled (c @ take (kMaxFdsPerMessage - length c) rest),
      drop (kMaxFdsPerMessage - length c) rest)"
proof (induction rest arbitrary: c)
  case (Cons x rest)
  obtain name fd where x: "x = (name, fd)" by force
  have len: "length (fdn_names (chunk_names c)) = kMaxFdsPerMessage" using Cons.prems by (simp add: chunk_names_def)
  show ?case
  proof (cases "length c < kMaxFdsPerMessage")
    case True
    then have "fill_message (x # rest) (filled c) = fill_message rest (filled (c @ [x]))"
      using chunk_names_snoc[OF True, of name fd] len Cons.prems
      by (simp add: x filled_def chunk_data_def StringCopy_name Let_def)
    also have "\<dots> = Inr (filled (c @ x # take (kMaxFdsPerMessage - Suc (length c)) rest),
        drop (kMaxFdsPerMessage - Suc (length c)) rest)"
      using Cons.IH[of "c @ [x]"] True by simp
    finally show ?thesis using True by (simp add: take_Cons' drop_Cons')
  next
    case False
    then show ?thesis using Cons.prems by (simp add: x filled_def chunk_data_def Let_def)
  qed
qed simp

lemma filled_Nil: "ShmDescriptors_default = filled []"
  by (simp add: ShmDescriptors_default_def TransferData_default_def FileDescriptorNames_default_def filled_def
      chunk_data_def chunk_names_def kMaxFdsPerMessage_def)

lemma PrepareMessage_filled:
  "0 < i \<Longrightarrow> i \<le> n \<Longrightarrow> PrepareMessage version i n (filled c) = Inr (chunk_message version i n c)"
  by (auto simp: PrepareMessage_def filled_def chunk_message_def chunk_data_def Let_def)

lemma length_chunks: "length (chunks xs) = (if xs = [] then 0 else 1 + (length xs - 1) div kMaxFdsPerMessage)"
proof (induction xs rule: chunks.induct)
  case (1 xs)
  show ?case
  proof (cases "xs = [] \<or> length xs \<le> kMaxFdsPerMessage")
    case True
    then show ?thesis
      by (subst chunks.simps) (auto simp: chunks.simps[of "[]"] kMaxFdsPerMessage_def neq_Nil_conv)
  next
    case False
    then obtain k where k: "length xs = kMaxFdsPerMessage + Suc k" using less_imp_Suc_add[of kMaxFdsPerMessage "length xs"] by auto
    then have "drop kMaxFdsPerMessage xs \<noteq> []" "length (drop kMaxFdsPerMessage xs) = Suc k" by simp_all
    then have "length (chunks (drop kMaxFdsPerMessage xs)) = 1 + k div kMaxFdsPerMessage" using 1 False by simp
    then show ?thesis using False by (subst chunks.simps) (simp add: k kMaxFdsPerMessage_def)
  qed
qed

lemma prepare_loop_chunks:
  assumes "0 < i" "i + length (chunks rest) = Suc n"
  shows "prepare_loop version i n cnt rest msgs
    = Inr (cnt + length rest, msgs @ chunk_messages version i n (chunks rest))"
  using assms
proof (induction rest arbitrary: i cnt msgs rule: chunks.induct)
  case (1 rest)
  show ?case
  proof (cases "rest = []")
    case True
    then show ?thesis using "1.prems" by (simp add: prepare_loop.simps chunks.simps)
  next
    case False
    let ?c = "take kMaxFdsPerMessage rest" and ?r = "drop kMaxFdsPerMessage rest"
    have ch: "chunks rest = ?c # chunks ?r" using False by (subst chunks.simps) simp
    then have i: "i \<le> n" "Suc i + length (chunks ?r) = Suc n" using "1.prems"(2) by simp_all
    have "prepare_loop version i n cnt rest msgs =
        prepare_loop version (Suc i) n (cnt + length ?c) ?r (msgs @ [chunk_message version i n ?c])"
      using i fill_message_filled[of "[]" rest] PrepareMessage_filled[OF "1.prems"(1) i(1), of version ?c]
      by (subst prepare_loop.simps) (simp add: filled_Nil filled_def chunk_data_def)
    also have "\<dots> = Inr (cnt + length ?c + length ?r, (msgs @ [chunk_message version i n ?c]) @ chunk_messages version (Suc i) n (chunks ?r))"
      by (rule "1.IH"[OF False]) (use i in simp_all)
    finally show ?thesis by (simp add: ch)
  qed
qed

lemma PrepareMessages_eq:
  "PrepareMessages version m =
    (if m = [] then Inl kInvalidArgument
     else Inr (chunk_messages version 1 (length (chunks m)) (chunks m)))"
proof (cases "m = []")
  case False
  have "prepare_loop version 1 (length (chunks m)) 0 m [] = Inr (length m, chunk_messages version 1 (length (chunks m)) (chunks m))"
    using prepare_loop_chunks[of 1 m "length (chunks m)" version 0 "[]"] by simp
  then show ?thesis using False by (simp add: PrepareMessages_def length_chunks[symmetric] Let_def) (simp add: length_chunks)
qed (simp add: PrepareMessages_def)

subsection \<open>Receiving\<close>

lemma recvmsg_rest:
  assumes "re_chunk env (rc_calls r) = Some k" "rc_stream r = p # ps" "pk_bytes p \<noteq> []" "length (pk_bytes p) \<le> len"
    and "pk_control p = None \<or> \<not> control"
  obtains n where "0 < n" "n \<le> length (pk_bytes p)"
    "recvmsg env len control r = (Some (take n (pk_bytes p), None), r\<lparr>rc_calls := Suc (rc_calls r),
      rc_stream := (if n = length (pk_bytes p) then ps else p\<lparr>pk_bytes := drop n (pk_bytes p), pk_control := None\<rparr> # ps)\<rparr>)"
proof -
  let ?n = "min (max 1 k) (length (pk_bytes p))"
  have "min (max 1 k) (min len (length (pk_bytes p))) = ?n" using assms(4) by simp
  moreover have "0 < ?n" using assms(3) by simp
  ultimately show thesis using assms that[of ?n]
    by (cases "pk_control p") (auto simp: recvmsg_def Let_def)
qed

lemma recv_loop_rest:
  assumes "\<forall>i. re_chunk env i \<noteq> None"
  shows "rc_stream r = p # ps \<Longrightarrow> pk_bytes p \<noteq> [] \<Longrightarrow> acc \<noteq> [] \<Longrightarrow> length acc + length (pk_bytes p) = kExpectedBytes \<Longrightarrow>
    \<exists>k. recv_loop env acc c r = (Inr (acc @ pk_bytes p, c), r\<lparr>rc_stream := ps, rc_calls := k\<rparr>)"
proof (induction "length (pk_bytes p)" arbitrary: acc p r rule: less_induct)
  case less
  obtain k where k: "re_chunk env (rc_calls r) = Some k" using assms by blast
  have len: "length (pk_bytes p) \<le> kExpectedBytes - length acc" "length acc < kExpectedBytes"
    using less.prems by (auto simp flip: length_greater_0_conv)
  have ctl: "pk_control p = None \<or> \<not> (acc = [])" using less.prems by simp
  obtain n where n: "0 < n" "n \<le> length (pk_bytes p)"
    "recvmsg env (kExpectedBytes - length acc) (acc = []) r = (Some (take n (pk_bytes p), None), r\<lparr>rc_calls := Suc (rc_calls r),
      rc_stream := (if n = length (pk_bytes p) then ps else p\<lparr>pk_bytes := drop n (pk_bytes p), pk_control := None\<rparr> # ps)\<rparr>)"
    by (rule recvmsg_rest[OF k less.prems(1,2) len(1) ctl])
  let ?r1 = "r\<lparr>rc_calls := Suc (rc_calls r),
      rc_stream := (if n = length (pk_bytes p) then ps else p\<lparr>pk_bytes := drop n (pk_bytes p), pk_control := None\<rparr> # ps)\<rparr>"
  have ne: "take n (pk_bytes p) \<noteq> []" using n less.prems(2) by auto
  have le: "\<not> kExpectedBytes < length acc + length (take n (pk_bytes p))" using less.prems(4) by simp
  have step: "recv_loop env acc c r = recv_loop env (acc @ take n (pk_bytes p)) c ?r1"
    using len n(3) ne le by (subst recv_loop.simps) (simp del: length_take)
  show ?case
  proof (cases "n = length (pk_bytes p)")
    case True
    then have "recv_loop env (acc @ take n (pk_bytes p)) c ?r1 = (Inr (acc @ pk_bytes p, c), ?r1)"
      using less.prems(4) by (subst recv_loop.simps) simp
    then show ?thesis using step True by (intro exI[of _ "Suc (rc_calls r)"]) (auto intro: receiver.equality)
  next
    case False
    let ?p = "p\<lparr>pk_bytes := drop n (pk_bytes p), pk_control := None\<rparr>"
    have "\<exists>k. recv_loop env (acc @ take n (pk_bytes p)) c ?r1 =
        (Inr ((acc @ take n (pk_bytes p)) @ pk_bytes ?p, c), ?r1\<lparr>rc_stream := ps, rc_calls := k\<rparr>)"
      by (rule less.hyps) (use n False less.prems in auto)
    then show ?thesis using step by (auto intro: receiver.equality)
  qed
qed

lemma recv_loop_packet:
  assumes chunk: "\<forall>i. re_chunk env i \<noteq> None" and r: "rc_stream r = p # ps"
    and p: "length (pk_bytes p) = kExpectedBytes" "pk_control p = Some c"
    and i: "install_fds (re_limit env) (cmsg_data c) (rc_os r) = (fds, s)" "fds \<noteq> []"
  shows "\<exists>k. recv_loop env [] cmsg_zero r = (Inr (pk_bytes p, \<lparr>cmsg_len = CMSG_LEN (length fds * sizeof_int),
      cmsg_level = cmsg_level c, cmsg_type = cmsg_type c, cmsg_data = fds\<rparr>),
    r\<lparr>rc_os := s, rc_stream := ps, rc_calls := k\<rparr>)"
proof -
  obtain k where k: "re_chunk env (rc_calls r) = Some k" using chunk by blast
  let ?n = "min (max 1 k) kExpectedBytes"
  let ?c = "\<lparr>cmsg_len = CMSG_LEN (length fds * sizeof_int), cmsg_level = cmsg_level c, cmsg_type = cmsg_type c, cmsg_data = fds\<rparr>"
  let ?p = "p\<lparr>pk_bytes := drop ?n (pk_bytes p), pk_control := None\<rparr>"
  let ?r1 = "r\<lparr>rc_calls := Suc (rc_calls r), rc_stream := (if ?n = kExpectedBytes then ps else ?p # ps), rc_os := s\<rparr>"
  have pos: "0 < kExpectedBytes" by (simp add: kExpectedBytes_def)
  have "recvmsg env kExpectedBytes True r = (Some (take ?n (pk_bytes p), Some ?c), ?r1)"
    using k r p i by (simp add: recvmsg_def Let_def)
  then have step: "recv_loop env [] cmsg_zero r = recv_loop env (take ?n (pk_bytes p)) ?c ?r1"
    using pos p(1) by (subst recv_loop.simps) (auto simp: min_def)
  show ?thesis
  proof (cases "?n = kExpectedBytes")
    case True
    then have "recv_loop env (take ?n (pk_bytes p)) ?c ?r1 = (Inr (pk_bytes p, ?c), ?r1)"
      using p(1) by (subst recv_loop.simps) simp
    then show ?thesis using step True by (intro exI[of _ "Suc (rc_calls r)"]) (auto intro: receiver.equality)
  next
    case False
    have "\<exists>k. recv_loop env (take ?n (pk_bytes p)) ?c ?r1 =
        (Inr (take ?n (pk_bytes p) @ pk_bytes ?p, ?c), ?r1\<lparr>rc_stream := ps, rc_calls := k\<rparr>)"
      by (rule recv_loop_rest[OF chunk]) (use False p(1) pos in auto)
    then show ?thesis using step by (auto intro: receiver.equality)
  qed
qed

lemma install_fds_all:
  "length (os_fds s) + length ts \<le> limit \<Longrightarrow>
    \<exists>fds. install_fds limit ts s = (fds, s\<lparr>os_fds := rev (zip fds ts) @ os_fds s\<rparr>)
      \<and> length fds = length ts \<and> distinct fds \<and> set fds \<inter> fst ` set (os_fds s) = {} \<and> (\<forall>fd \<in> set fds. 0 \<le> fd)"
proof (induction ts arbitrary: s)
  case (Cons t ts)
  let ?fd = "lowest_free (os_fds s)"
  let ?s = "s\<lparr>os_fds := (?fd, t) # os_fds s\<rparr>"
  obtain fds where f: "install_fds limit ts ?s = (fds, ?s\<lparr>os_fds := rev (zip fds ts) @ os_fds ?s\<rparr>)"
    "length fds = length ts" "distinct fds" "set fds \<inter> fst ` set (os_fds ?s) = {}" "\<forall>fd \<in> set fds. 0 \<le> fd"
    using Cons.IH[of ?s] Cons.prems by auto
  then show ?case using Cons.prems lowest_free_fresh[of "os_fds s"]
    by (intro exI[of _ "?fd # fds"]) (auto simp: open_fd_def Let_def)
qed simp

text \<open>Names that fit into the message: what the manager accepts as the name of a segment.\<close>

definition wire_ok :: "string \<Rightarrow> bool"
  where "wire_ok name \<longleftrightarrow> no_nul name \<and> length name < 255"

lemma InterfaceName_wire: "wire_ok name \<Longrightarrow> InterfaceNameFromSegment (wire_name name) = Inr name"
proof -
  assume w: "wire_ok name"
  then have "takeWhile (\<lambda>c. c \<noteq> CHR 0x00) name = name" using c_str_no_nul[of name] by (simp add: wire_ok_def c_str_def)
  then show ?thesis using w takeWhile_no_nul_zeros[of 254 name "255 - min 254 (length name)"]
    by (simp add: wire_ok_def InterfaceNameFromSegment_def StringView_takeWhile wire_name_def)
qed

lemma collect_names_wire:
  "list_all (wire_ok \<circ> fst) c \<Longrightarrow> collect_names (map (wire_name \<circ> fst) c) = Inr (map fst c)"
  by (induction c) (auto simp: InterfaceName_wire)

lemma GetNames_chunk:
  assumes "length c \<le> kMaxFdsPerMessage" "list_all (wire_ok \<circ> fst) c"
  shows "GetNamesFromFileDescriptorNames (chunk_names c) = Some (Inr (map fst c))"
  using assms collect_names_wire[OF assms(2)]
  by (simp add: GetNamesFromFileDescriptorNames_def) (simp add: chunk_names_def)

lemma td_wf_chunk:
  "length c \<le> kMaxFdsPerMessage \<Longrightarrow> i < 2 ^ 64 \<Longrightarrow> n < 2 ^ 64 \<Longrightarrow>
    td_wf (chunk_data kDomainSocketProtocolVersion i n c)"
  by (auto simp: td_wf_def kDomainSocketProtocolVersion_def chunk_data_def chunk_names_def wire_name_def SegmentName_default_def kMaxFdsPerMessage_def
      list_all_iff)

definition chunk_packet :: "(int \<Rightarrow> fd_target) \<Rightarrow> nat \<Rightarrow> nat \<Rightarrow> (string \<times> int) list \<Rightarrow> packet"
  where "chunk_packet T i n c =
    \<lparr>pk_bytes = encode_TransferData (chunk_data kDomainSocketProtocolVersion i n c),
     pk_control = Some \<lparr>cmsg_len = CMSG_LEN (length c * sizeof_int), cmsg_level = SOL_SOCKET,
       cmsg_type = SCM_RIGHTS, cmsg_data = map (T \<circ> snd) c\<rparr>\<rparr>"

fun chunk_packets :: "(int \<Rightarrow> fd_target) \<Rightarrow> nat \<Rightarrow> nat \<Rightarrow> (string \<times> int) list list \<Rightarrow> packet list"
  where
    "chunk_packets T i n [] = []"
  | "chunk_packets T i n (c # cs) = chunk_packet T i n c # chunk_packets T (Suc i) n cs"

lemma those_open: "\<forall>fd \<in> set xs. f fd = Some (T fd) \<Longrightarrow> those (map f xs) = Some (map T xs)"
  by (induction xs) auto

definition sends_all :: "(nat \<Rightarrow> send_result) \<Rightarrow> bool"
  where "sends_all sends \<longleftrightarrow> (\<forall>i. sends i = Sent kExpectedBytes)"

definition chunk_ok :: "(string \<times> int) list \<Rightarrow> bool"
  where "chunk_ok c \<longleftrightarrow> 0 < length c \<and> length c \<le> kMaxFdsPerMessage"

lemma serve_client_packets:
  assumes "sends_all sends" "n < 2 ^ 64"
  shows "i + length cs = Suc n \<Longrightarrow> list_all chunk_ok cs \<Longrightarrow>
    \<forall>fd \<in> snd ` set (concat cs). map_of (os_fds s) fd = Some (T fd) \<Longrightarrow>
    serve_client sends j (chunk_messages kDomainSocketProtocolVersion i n cs) s = chunk_packets T i n cs"
proof (induction cs arbitrary: i j)
  case (Cons c cs)
  have "td_wf (chunk_data kDomainSocketProtocolVersion i n c)"
    using Cons.prems assms(2) by (intro td_wf_chunk) (simp_all add: chunk_ok_def)
  note len = length_encode_TransferData[OF this]
  have "those (map (map_of (os_fds s)) (map snd c)) = Some (map T (map snd c))"
    by (rule those_open) (use Cons.prems(3) in auto)
  then have "sendmsg (sends j) (chunk_message kDomainSocketProtocolVersion i n c) s = Some (chunk_packet T i n c)"
    using assms(1) len by (simp add: sendmsg_def chunk_message_def chunk_packet_def sends_all_def)
  then show ?case using Cons by simp
qed simp

lemma GetSingleMessage_chunk:
  assumes chunk: "\<forall>i. re_chunk env i \<noteq> None" and st: "rc_stream r = chunk_packet T i n c # ps"
    and c: "chunk_ok c" "list_all (wire_ok \<circ> fst) c" "i < 2 ^ 64" "n < 2 ^ 64"
    and lim: "length (os_fds (rc_os r)) + length c \<le> re_limit env"
  obtains fds k where "GetSingleMessage env r = Some (Inr \<lparr>sd_transfer_data = chunk_data kDomainSocketProtocolVersion i n c,
        sd_file_descriptors = fds\<rparr>,
      r\<lparr>rc_os := (rc_os r)\<lparr>os_fds := rev (zip fds (map (T \<circ> snd) c)) @ os_fds (rc_os r)\<rparr>, rc_stream := ps, rc_calls := k\<rparr>)"
    "length fds = length c" "distinct fds" "set fds \<inter> fst ` set (os_fds (rc_os r)) = {}" "\<forall>fd \<in> set fds. 0 \<le> fd"
proof -
  let ?td = "chunk_data kDomainSocketProtocolVersion i n c"
  let ?ts = "map (T \<circ> snd) c"
  obtain fds where f: "install_fds (re_limit env) ?ts (rc_os r) =
      (fds, (rc_os r)\<lparr>os_fds := rev (zip fds ?ts) @ os_fds (rc_os r)\<rparr>)"
    "length fds = length c" "distinct fds" "set fds \<inter> fst ` set (os_fds (rc_os r)) = {}" "\<forall>fd \<in> set fds. 0 \<le> fd"
    using install_fds_all[of "rc_os r" ?ts "re_limit env"] lim by auto
  have wf: "td_wf ?td" using c by (intro td_wf_chunk) (simp_all add: chunk_ok_def)
  have ne: "fds \<noteq> []" using f(2) c(1) by (auto simp: chunk_ok_def)
  obtain k where k: "recv_loop env [] cmsg_zero r = (Inr (encode_TransferData ?td,
      \<lparr>cmsg_len = CMSG_LEN (length c * sizeof_int), cmsg_level = SOL_SOCKET, cmsg_type = SCM_RIGHTS, cmsg_data = fds\<rparr>),
      r\<lparr>rc_os := (rc_os r)\<lparr>os_fds := rev (zip fds ?ts) @ os_fds (rc_os r)\<rparr>, rc_stream := ps, rc_calls := k\<rparr>)"
    using recv_loop_packet[OF chunk st, of "\<lparr>cmsg_len = CMSG_LEN (length c * sizeof_int), cmsg_level = SOL_SOCKET,
        cmsg_type = SCM_RIGHTS, cmsg_data = ?ts\<rparr>" fds] length_encode_TransferData[OF wf] f(1,2) ne
    by (auto simp: chunk_packet_def)
  have valid: "fcntl_valid fd ((rc_os r)\<lparr>os_fds := rev (zip fds ?ts) @ os_fds (rc_os r)\<rparr>)" if "fd \<in> set fds" for fd
  proof -
    have "fd \<in> fst ` set (rev (zip fds ?ts) @ os_fds (rc_os r))"
      using that f(2) by (metis (no_types, lifting) UnI1 image_Un length_map list.set_map map_fst_zip set_append set_rev)
    then show ?thesis by (simp add: fcntl_valid_def map_of_eq_None_iff del: map_of_append)
  qed
  have len: "length c \<le> kMaxFdsPerMessage" using c(1) by (simp add: chunk_ok_def)
  have "GetSingleMessage env r = Some (Inr \<lparr>sd_transfer_data = ?td, sd_file_descriptors = fds\<rparr>,
      r\<lparr>rc_os := (rc_os r)\<lparr>os_fds := rev (zip fds ?ts) @ os_fds (rc_os r)\<rparr>, rc_stream := ps, rc_calls := k\<rparr>)"
    using k decode_encode_TransferData[OF wf] GetNames_chunk[OF len c(2)] f(2) valid len
    by (simp add: GetSingleMessage_def chunk_data_def list_all_iff)
  then show thesis using f by (intro that[of fds k]) 
qed

lemma fold_umap_assign:
  "distinct (map fst xs) \<Longrightarrow> fst ` set xs \<inter> fst ` set m = {} \<Longrightarrow> fold (\<lambda>(k, v). umap_assign k v) xs m = m @ xs"
proof (induction xs arbitrary: m)
  case (Cons x xs)
  have "fst x \<notin> fst ` set m" using Cons.prems(2) by auto
  then have "fold (\<lambda>(k, v). umap_assign k v) (x # xs) m = fold (\<lambda>(k, v). umap_assign k v) xs (m @ [x])"
    by (cases x) (simp add: umap_assign_def)
  also have "\<dots> = (m @ [x]) @ xs" by (rule Cons.IH) (use Cons.prems in auto)
  finally show ?case by simp
qed simp

lemma receive_messages_chunks:
  assumes chunk: "\<forall>i. re_chunk env i \<noteq> None" and n: "n < 2 ^ 64"
  shows "rc_stream r = chunk_packets T i n cs \<Longrightarrow> cs \<noteq> [] \<Longrightarrow> 0 < i \<Longrightarrow> i + length cs = Suc n \<Longrightarrow>
    i = 1 \<or> num = n \<Longrightarrow>
    list_all chunk_ok cs \<Longrightarrow> list_all (wire_ok \<circ> fst) (concat cs) \<Longrightarrow>
    distinct (map fst (concat cs)) \<Longrightarrow> fst ` set (concat cs) \<inter> fst ` set m = {} \<Longrightarrow>
    length (os_fds (rc_os r)) + length (concat cs) \<le> re_limit env \<Longrightarrow>
    \<exists>fds k. receive_messages env i num m r = Some (Inr (m @ zip (map fst (concat cs)) fds),
      r\<lparr>rc_os := (rc_os r)\<lparr>os_fds := rev (zip fds (map (T \<circ> snd) (concat cs))) @ os_fds (rc_os r)\<rparr>,
        rc_stream := [], rc_calls := k\<rparr>)
    \<and> length fds = length (concat cs) \<and> distinct fds \<and> set fds \<inter> fst ` set (os_fds (rc_os r)) = {}
    \<and> (\<forall>fd \<in> set fds. 0 \<le> fd)"
proof (induction cs arbitrary: i num m r)
  case (Cons c cs)
  let ?td = "chunk_data kDomainSocketProtocolVersion i n c"
  have i: "i < 2 ^ 64" "i \<le> n" using Cons.prems(4) n by simp_all
  have c: "chunk_ok c" "list_all (wire_ok \<circ> fst) c" "length c \<le> kMaxFdsPerMessage" using Cons.prems(6,7) by (simp_all add: chunk_ok_def comp_def)
  have st: "rc_stream r = chunk_packet T i n c # chunk_packets T (Suc i) n cs" using Cons.prems(1) by simp
  have lim: "length (os_fds (rc_os r)) + length c \<le> re_limit env" using Cons.prems(10) by simp
  obtain fds k where f: "GetSingleMessage env r = Some (Inr \<lparr>sd_transfer_data = ?td, sd_file_descriptors = fds\<rparr>,
      r\<lparr>rc_os := (rc_os r)\<lparr>os_fds := rev (zip fds (map (T \<circ> snd) c)) @ os_fds (rc_os r)\<rparr>,
        rc_stream := chunk_packets T (Suc i) n cs, rc_calls := k\<rparr>)"
    "length fds = length c" "distinct fds" "set fds \<inter> fst ` set (os_fds (rc_os r)) = {}" "\<forall>fd \<in> set fds. 0 \<le> fd"
    by (rule GetSingleMessage_chunk[OF chunk st c(1,2) i(1) n lim])
  let ?r1 = "r\<lparr>rc_os := (rc_os r)\<lparr>os_fds := rev (zip fds (map (T \<circ> snd) c)) @ os_fds (rc_os r)\<rparr>,
        rc_stream := chunk_packets T (Suc i) n cs, rc_calls := k\<rparr>"
  let ?m1 = "m @ zip (map fst c) fds"
  have keys: "fst ` set (zip (map fst c) fds) = fst ` set c" using f(2) by (metis length_map list.set_map map_fst_zip)
  have m1: "fold (\<lambda>(k, v). umap_assign k v) (zip (map fst c) fds) m = ?m1"
    by (rule fold_umap_assign) (use Cons.prems(8,9) f(2) keys in auto)
  have sub: "size_t_sub n i = n - i" using i(2) n by simp
  have num: "i \<noteq> 1 \<longrightarrow> num = n" using Cons.prems(5) by auto
  have step: "receive_messages env i num m r =
      (if n - i > 0 then receive_messages env (size_t_add i 1) n ?m1 ?r1 else Some (Inr ?m1, ?r1))"
    using f(1,2) GetNames_chunk[OF c(3,2)] m1 sub num
    by (subst receive_messages.simps) (auto simp: chunk_data_def Let_def)
  show ?case
  proof (cases "cs = []")
    case True
    then have "n - i = 0" using Cons.prems(4) by simp
    then show ?thesis using step f True by (intro exI[of _ fds] exI[of _ k]) (simp add: comp_def)
  next
    case False
    then have "n - i > 0" "size_t_add i 1 = Suc i" using Cons.prems(4) n by (simp_all add: neq_Nil_conv) (auto simp: neq_Nil_conv)
    with step have step: "receive_messages env i num m r = receive_messages env (Suc i) n ?m1 ?r1" by simp
    have "\<exists>fds' k'. receive_messages env (Suc i) n ?m1 ?r1 = Some (Inr (?m1 @ zip (map fst (concat cs)) fds'),
      ?r1\<lparr>rc_os := (rc_os ?r1)\<lparr>os_fds := rev (zip fds' (map (T \<circ> snd) (concat cs))) @ os_fds (rc_os ?r1)\<rparr>,
        rc_stream := [], rc_calls := k'\<rparr>)
      \<and> length fds' = length (concat cs) \<and> distinct fds' \<and> set fds' \<inter> fst ` set (os_fds (rc_os ?r1)) = {}
      \<and> (\<forall>fd \<in> set fds'. 0 \<le> fd)"
    proof (rule Cons.IH)
      have "fst ` set (concat cs) \<inter> fst ` set c = {}" using Cons.prems(8) by (simp add: Int_commute)
      moreover have "fst ` set (concat cs) \<inter> fst ` set m = {}" using Cons.prems(9) by (simp add: image_Un Int_Un_distrib2)
      ultimately show "fst ` set (concat cs) \<inter> fst ` set ?m1 = {}"
        unfolding set_append image_Un keys by (simp add: Int_Un_distrib)
    qed (use Cons.prems False f(2) in \<open>auto simp: comp_def\<close>)
    then obtain fds' k' where g: "receive_messages env (Suc i) n ?m1 ?r1 = Some (Inr (?m1 @ zip (map fst (concat cs)) fds'),
      ?r1\<lparr>rc_os := (rc_os ?r1)\<lparr>os_fds := rev (zip fds' (map (T \<circ> snd) (concat cs))) @ os_fds (rc_os ?r1)\<rparr>,
        rc_stream := [], rc_calls := k'\<rparr>)" "length fds' = length (concat cs)" "distinct fds'"
      "set fds' \<inter> fst ` set (os_fds (rc_os ?r1)) = {}" "\<forall>fd \<in> set fds'. 0 \<le> fd" by blast
    have fdset: "fst ` set (rev (zip fds (map (T \<circ> snd) c))) = set fds"
      using f(2) by (metis length_map list.set_map map_fst_zip set_rev)
    have disj: "set fds' \<inter> set fds = {}" "set fds' \<inter> fst ` set (os_fds (rc_os r)) = {}"
      using g(4) fdset by (auto simp: image_Un)
    show ?thesis
    proof (intro exI conjI)
      show "receive_messages env i num m r = Some (Inr (m @ zip (map fst (concat (c # cs))) (fds @ fds')),
        r\<lparr>rc_os := (rc_os r)\<lparr>os_fds := rev (zip (fds @ fds') (map (T \<circ> snd) (concat (c # cs)))) @ os_fds (rc_os r)\<rparr>,
          rc_stream := [], rc_calls := k'\<rparr>)"
        using step g(1) f(2) by (simp add: comp_def)
    qed (use f g disj in auto)
  qed
qed simp

lemma concat_chunks: "concat (chunks m) = m"
proof (induction m rule: chunks.induct)
  case (1 m)
  then show ?case by (subst chunks.simps) simp
qed

lemma chunks_ok: "list_all chunk_ok (chunks m)"
proof (induction m rule: chunks.induct)
  case (1 m)
  have "m \<noteq> [] \<Longrightarrow> chunk_ok (take kMaxFdsPerMessage m)" by (simp add: chunk_ok_def kMaxFdsPerMessage_def)
  then show ?case using 1 by (subst chunks.simps) simp
qed

lemma chunks_Nil_iff: "chunks m = [] \<longleftrightarrow> m = []"
  by (subst chunks.simps) simp

text \<open>\<open>PrepareMessages\<close> is equivalent to cutting the map into consecutive blocks of at most 200 entries:
  message \<open>i\<close> of \<open>n\<close> carries the names and, as its control data, the descriptors of block \<open>i\<close>.  No entry is
  lost or duplicated, no block is empty, and only the empty map is an error.\<close>
theorem PrepareMessages_splits:
  "PrepareMessages version m =
      (if m = [] then Inl kInvalidArgument
       else Inr (chunk_messages version 1 (length (chunks m)) (chunks m)))
    \<and> concat (chunks m) = m \<and> list_all chunk_ok (chunks m)"
  using PrepareMessages_eq concat_chunks chunks_ok by blast

lemma length_chunks_le: "length (chunks (m :: (string \<times> int) list)) \<le> length m"
proof -
  have "length (chunks m) = sum_list (map (\<lambda>_. 1) (chunks m))" by (simp add: sum_list_triv)
  also have "\<dots> \<le> sum_list (map length (chunks m))"
    using chunks_ok[of m] by (intro sum_list_mono) (auto simp: list_all_iff chunk_ok_def Suc_le_eq)
  also have "\<dots> = length m" using concat_chunks[of m] length_concat[of "chunks m"] by simp
  finally show ?thesis .
qed

lemma connect_loop_ok: "never_fails env \<Longrightarrow> connect_loop env d s = Some (kOk, s\<lparr>os_calls := Suc (os_calls s)\<rparr>)"
  by (subst connect_loop.simps) (simp add: sys_call_def never_fails_def)

lemma map_of_installed:
  assumes "length fds = length ts" "distinct fds" "(fd, t) \<in> set (zip fds ts)"
  shows "map_of (rev (zip fds ts) @ old) fd = Some t"
proof -
  have "distinct (map fst (rev (zip fds ts)))" using assms(1,2) by (simp add: rev_map[symmetric])
  then have "map_of (rev (zip fds ts)) fd = Some t" using assms(3) by (intro map_of_is_SomeI) auto
  then show ?thesis by (simp add: map_add_def)
qed

lemma os_wf_installed:
  assumes "os_wf s" "length fds = length ts" "distinct fds" "set fds \<inter> fst ` set (os_fds s) = {}" "\<forall>fd \<in> set fds. 0 \<le> fd"
    and "\<forall>t \<in> set ts. fd_ok (length (os_files s)) t"
  shows "os_wf (s\<lparr>os_fds := rev (zip fds ts) @ os_fds s\<rparr>)"
proof -
  have keys: "fst ` set (zip fds ts) = set fds" using assms(2) by (metis list.set_map map_fst_zip)
  have "distinct (map fst (rev (zip fds ts) @ os_fds s))"
    using assms(1-4) keys by (simp add: os_wf_def rev_map[symmetric])
  moreover have "0 \<le> fd \<and> fd_ok (length (os_files s)) t" if "(fd, t) \<in> set (rev (zip fds ts) @ os_fds s)" for fd t
    using that assms(1,5,6) by (auto simp: os_wf_def dest: set_zip_leftD set_zip_rightD)
  ultimately show ?thesis using assms(1) unfolding os_wf_def by auto
qed

text \<open>A client that gets all messages, whatever the pieces \<open>recvmsg\<close> delivers them in.\<close>

lemma client_receives:
  assumes env: "never_fails env" "AbsoluteSocketPath dir name = Inr path" "os_wf c"
    and renv: "\<forall>i. re_chunk renv i \<noteq> None" "Suc (length (os_fds c)) + length m \<le> re_limit renv"
    and m: "m \<noteq> []" "distinct (map fst m)" "list_all (wire_ok \<circ> fst) m" "length m < 2 ^ 64"
    and inc: "incoming = chunk_packets T 1 (length (chunks m)) (chunks m)"
  obtains fds c' where "GetSegmentNameToFileDescriptorMap env renv incoming dir name timeout c = Some (Inr (zip (map fst m) fds), c')"
    "length fds = length m" "distinct fds" "set fds \<inter> fst ` set (os_fds c) = {}" "\<forall>fd \<in> set fds. 0 \<le> fd"
    "\<And>x fd. (x, fd) \<in> set (zip m fds) \<Longrightarrow> map_of (os_fds c') fd = Some (T (snd x))"
    "\<And>fd t. map_of (os_fds c) fd = Some t \<Longrightarrow> map_of (os_fds c') fd = Some t"
    "os_files c' = os_files c" "os_maps c' = os_maps c"
    "\<forall>x \<in> set m. fd_ok (length (os_files c)) (T (snd x)) \<Longrightarrow> os_wf c'"
proof -
  let ?n = "length (chunks m)"
  let ?k = "lowest_free (os_fds c)"
  let ?s2 = "c\<lparr>os_calls := Suc (Suc (os_calls c)), os_fds := (?k, Sock (Suc (os_calls c))) # os_fds c\<rparr>"
  let ?s3 = "?s2\<lparr>os_calls := os_calls c + 5\<rparr>"
  let ?r = "\<lparr>rc_os = ?s3, rc_stream = incoming, rc_calls = 0\<rparr>"
  have nf: "se_fails env i x = None" for i x using env(1) by (simp add: never_fails_def)
  have fresh: "?k \<notin> fst ` set (os_fds c)" "0 \<le> ?k" using lowest_free_fresh[of "os_fds c"] by simp_all
  have n: "?n < 2 ^ 64" using length_chunks_le[of m] m(4) by linarith
  have "\<exists>fds k. receive_messages renv 1 0 [] ?r = Some (Inr ([] @ zip (map fst (concat (chunks m))) fds),
      ?r\<lparr>rc_os := (rc_os ?r)\<lparr>os_fds := rev (zip fds (map (T \<circ> snd) (concat (chunks m)))) @ os_fds (rc_os ?r)\<rparr>,
        rc_stream := [], rc_calls := k\<rparr>)
    \<and> length fds = length (concat (chunks m)) \<and> distinct fds \<and> set fds \<inter> fst ` set (os_fds (rc_os ?r)) = {}
    \<and> (\<forall>fd \<in> set fds. 0 \<le> fd)"
    by (rule receive_messages_chunks[OF renv(1) n])
      (use inc m renv(2) in \<open>simp_all add: concat_chunks chunks_ok chunks_Nil_iff comp_def\<close>)
  then obtain fds k where f: "receive_messages renv 1 0 [] ?r = Some (Inr (zip (map fst m) fds),
      ?r\<lparr>rc_os := ?s3\<lparr>os_fds := rev (zip fds (map (T \<circ> snd) m)) @ os_fds ?s3\<rparr>, rc_stream := [], rc_calls := k\<rparr>)"
    "length fds = length m" "distinct fds" "set fds \<inter> fst ` set (os_fds ?s3) = {}" "\<forall>fd \<in> set fds. 0 \<le> fd"
    unfolding concat_chunks by auto
  let ?os = "?s3\<lparr>os_fds := rev (zip fds (map (T \<circ> snd) m)) @ os_fds ?s3\<rparr>"
  have len: "length path < sizeof_sun_path" and abs: "path_is_absolute dir"
    using env(2) by (auto simp only: AbsoluteSocketPath_Inr)
  have body: "client_body env renv incoming dir name (se_now env (os_calls c) + seconds timeout) ?s2 =
      Some (Inr (zip (map fst m) fds), ?os)"
    using abs env(1,2) f(1) nf
    by (simp add: client_body_def CreateSocketDirectory_def ConnectToServer_def AddressFromAbsolutePath_valid[OF len]
        connect_loop_ok sys_call_def eval_nat_numeral)
  let ?c' = "snd (close env ?k ?os)"
  have "GetSegmentNameToFileDescriptorMap env renv incoming dir name timeout c = Some (Inr (zip (map fst m) fds), ?c')"
    using body fresh(2) nf
    by (simp add: GetSegmentNameToFileDescriptorMap_def os_now_def open_socket_def sys_call_def open_fd_def Let_def)
  moreover have fds': "map_of (os_fds ?c') fd = (if fd = ?k then None else map_of (rev (zip fds (map (T \<circ> snd) m)) @ os_fds ?s3) fd)" for fd
    by (simp add: close_def sys_call_def map_of_filter_fd del: filter_append map_of_append)
  have "map_of (os_fds ?c') fd = Some (T (snd x))" if "(x, fd) \<in> set (zip m fds)" for x fd
  proof -
    have "(fd, (T \<circ> snd) x) \<in> set (zip fds (map (T \<circ> snd) m))" using that by (auto simp: in_set_zip)
    from map_of_installed[OF _ f(3) this] f(2)
    have "map_of (rev (zip fds (map (T \<circ> snd) m)) @ os_fds ?s3) fd = Some (T (snd x))"
      by (simp del: map_of_append)
    moreover have "fd \<noteq> ?k" using that f(4) by (auto dest: set_zip_rightD)
    ultimately show ?thesis using fds' by simp
  qed
  moreover have "map_of (os_fds ?c') fd = Some t" if t: "map_of (os_fds c) fd = Some t" for fd t
  proof -
    have "fd \<in> fst ` set (os_fds c)" using map_of_SomeD[OF t] by force
    moreover have "fst ` set (os_fds c) \<inter> set fds = {}" using f(4) by auto
    ultimately have "fd \<noteq> ?k" "fd \<notin> set fds" using fresh(1) by blast+
    moreover from this(2) have "map_of (rev (zip fds (map (T \<circ> snd) m))) fd = None"
      by (auto simp: map_of_eq_None_iff dest: set_zip_leftD)
    ultimately show ?thesis using t fds' by (simp add: map_add_def)
  qed
  moreover have "os_wf ?c'" if "\<forall>x \<in> set m. fd_ok (length (os_files c)) (T (snd x))"
  proof (rule os_wf_close[OF os_wf_installed])
    show "os_wf ?s3" using os_wf_socket[OF env(3) refl, of "os_socket_files c" 0 0] by (simp add: os_wf_def fd_ok_def)
  qed (use f that in auto)
  ultimately show thesis using f by (intro that[of fds ?c']) (auto simp: close_def sys_call_def)
qed

text \<open>C11: A map that is served arrives: in whatever pieces the socket delivers the messages, the client gets
  a map with the same names, and each of its descriptors refers to the file that the server's descriptor
  refers to.  The descriptors that the client had keep their meaning, and its socket is closed.\<close>
theorem descriptors_arrive:
  assumes srv: "m \<noteq> []" "distinct (map fst m)" "list_all (wire_ok \<circ> fst) m" "length m < 2 ^ 64"
    and fds: "\<forall>(name, fd) \<in> set m. map_of (os_fds s) fd \<noteq> None" "sends_all sends"
    and env: "never_fails env" "AbsoluteSocketPath dir name = Inr path" "os_wf c"
    and renv: "\<forall>i. re_chunk renv i \<noteq> None" "Suc (length (os_fds c)) + length m \<le> re_limit renv"
  shows "\<exists>msgs fm c'. PrepareMessages kDomainSocketProtocolVersion m = Inr msgs
    \<and> GetSegmentNameToFileDescriptorMap env renv (serve_client sends 0 msgs s) dir name timeout c = Some (Inr fm, c')
    \<and> map fst fm = map fst m
    \<and> (\<forall>(seg, fd) \<in> set m. \<exists>fd'. map_of fm seg = Some fd' \<and> map_of (os_fds c') fd' = map_of (os_fds s) fd)
    \<and> (\<forall>fd t. map_of (os_fds c) fd = Some t \<longrightarrow> map_of (os_fds c') fd = Some t)"
proof -
  let ?T = "\<lambda>fd. the (map_of (os_fds s) fd)"
  let ?n = "length (chunks m)"
  have n: "?n < 2 ^ 64" using length_chunks_le[of m] srv(4) by linarith
  have open': "\<forall>fd \<in> snd ` set (concat (chunks m)). map_of (os_fds s) fd = Some (?T fd)"
    using fds(1) unfolding concat_chunks by auto
  have inc: "serve_client sends 0 (chunk_messages kDomainSocketProtocolVersion 1 ?n (chunks m)) s = chunk_packets ?T 1 ?n (chunks m)"
    by (rule serve_client_packets[OF fds(2) n _ chunks_ok open']) simp
  obtain fs c' where g: "GetSegmentNameToFileDescriptorMap env renv (chunk_packets ?T 1 ?n (chunks m)) dir name timeout c
      = Some (Inr (zip (map fst m) fs), c')" "length fs = length m"
    "\<And>x fd. (x, fd) \<in> set (zip m fs) \<Longrightarrow> map_of (os_fds c') fd = Some (?T (snd x))"
    "\<And>fd t. map_of (os_fds c) fd = Some t \<Longrightarrow> map_of (os_fds c') fd = Some t"
    by (rule client_receives[OF env renv srv refl, of ?T timeout]) blast
  have "\<exists>fd'. map_of (zip (map fst m) fs) seg = Some fd' \<and> map_of (os_fds c') fd' = map_of (os_fds s) fd"
    if sf: "(seg, fd) \<in> set m" for seg fd
  proof -
    obtain i where i: "i < length m" "m ! i = (seg, fd)" using sf by (auto simp: in_set_conv_nth)
    have "map_of (zip (map fst m) fs) (map fst m ! i) = Some (fs ! i)"
      using srv(2) i(1) g(2) by (intro map_of_zip_nth) simp_all
    moreover have "(m ! i, fs ! i) \<in> set (zip m fs)" using i(1) g(2) by (auto simp: in_set_zip)
    from g(3)[OF this] have "map_of (os_fds c') (fs ! i) = map_of (os_fds s) fd" using i(2) fds(1) sf by auto
    ultimately show ?thesis using i by simp
  qed
  moreover have "map fst (zip (map fst m) fs) = map fst m" using g(2) by simp
  ultimately show ?thesis using g(1,4) inc PrepareMessages_eq[of kDomainSocketProtocolVersion m] srv(1) by auto
qed

definition demo_recv :: recv_env
  where "demo_recv = \<lparr>re_chunk = (\<lambda>i. Some 1000), re_limit = 1024\<rparr>"

theorem descriptors_arrive_witness:
  "map_of (os_fds joints_os) 0 = Some (Memfd 0)
    \<and> (\<exists>msgs fm c' fd'. PrepareMessages kDomainSocketProtocolVersion [(''joints'', 0)] = Inr msgs
      \<and> GetSegmentNameToFileDescriptorMap ok_env demo_recv (serve_client (\<lambda>_. Sent kExpectedBytes) 0 msgs joints_os)
          ''/tmp'' ''arm'' 1 os_init = Some (Inr fm, c')
      \<and> map_of fm ''joints'' = Some fd' \<and> map_of (os_fds c') fd' = Some (Memfd 0))"
proof -
  have fd: "map_of (os_fds joints_os) 0 = Some (Memfd 0)" by (simp add: joints_os_def os_init_def)
  have lim: "Suc (length (os_fds os_init)) + length [(''joints'', 0 :: int)] \<le> re_limit demo_recv"
    "\<forall>i. re_chunk demo_recv i \<noteq> None" by (simp_all add: demo_recv_def os_init_def)
  from descriptors_arrive[of "[(''joints'', 0)]" joints_os "\<lambda>_. Sent kExpectedBytes" ok_env "''/tmp''" "''arm''"
      "''/tmp/arm.sock''" os_init demo_recv 1, OF _ _ _ _ _ _ ok_env_never_fails arm_socket_path os_wf_init lim(2,1)]
  show ?thesis using fd by (auto simp: wire_ok_def sends_all_def)
qed

subsection \<open>The client returns\<close>

definition stream_bytes :: "packet list \<Rightarrow> u8 list"
  where "stream_bytes ps = concat (map pk_bytes ps)"

text \<open>Every complete message in the stream announces no more names than its array has.\<close>

definition sizes_ok :: "u8 list \<Rightarrow> bool"
  where "sizes_ok bs \<longleftrightarrow> (\<forall>k. kExpectedBytes * Suc k \<le> length bs \<longrightarrow>
    unat (fdn_size (td_names (decode_TransferData (take kExpectedBytes (drop (kExpectedBytes * k) bs))))) \<le> kMaxFdsPerMessage)"

lemma recvmsg_stream:
  "recvmsg env len control r = (Some (bytes, c), r') \<Longrightarrow>
    stream_bytes (rc_stream r) = bytes @ stream_bytes (rc_stream r')"
  by (auto simp: recvmsg_def stream_bytes_def Let_def split: option.splits list.splits prod.splits bool.splits if_splits)

lemma recv_loop_stream:
  "recv_loop env acc c r = (Inr (bytes, c'), r') \<Longrightarrow> length acc \<le> kExpectedBytes \<Longrightarrow>
    length bytes = kExpectedBytes \<and> (\<exists>x. bytes = acc @ x \<and> stream_bytes (rc_stream r) = x @ stream_bytes (rc_stream r'))"
proof (induction env acc c r rule: recv_loop.induct)
  case (1 env acc c r)
  show ?case
  proof (cases "length acc < kExpectedBytes")
    case False
    then show ?thesis using "1.prems" by (subst (asm) recv_loop.simps) auto
  next
    case True
    obtain res r1 where rcv: "recvmsg env (kExpectedBytes - length acc) (acc = []) r = (res, r1)" by force
    obtain b ctl where res: "res = Some (b, ctl)" "b \<noteq> []" "\<not> length acc + length b > kExpectedBytes"
      and eq: "recv_loop env (acc @ b) (case ctl of None \<Rightarrow> c | Some c' \<Rightarrow> c') r1 = (Inr (bytes, c'), r')"
      using "1.prems"(1) True rcv by (subst (asm) recv_loop.simps) (auto split: option.splits if_splits)
    have "length bytes = kExpectedBytes \<and> (\<exists>x. bytes = (acc @ b) @ x \<and> stream_bytes (rc_stream r1) = x @ stream_bytes (rc_stream r'))"
      by (rule "1.IH"[OF True _ _ _ _ _ eq]) (use rcv res in auto)
    then show ?thesis using recvmsg_stream[of env _ _ r b ctl r1] rcv res(1) by auto
  qed
qed

lemma length_decode_names [simp]: "length (decode_names k bs) = k"
  by (induction k arbitrary: bs) simp_all

lemma sizes_ok_drop: "sizes_ok (x @ bs) \<Longrightarrow> length x = kExpectedBytes \<Longrightarrow> sizes_ok bs"
  unfolding sizes_ok_def
proof (intro allI impI)
  fix k
  assume ok: "\<forall>k. kExpectedBytes * Suc k \<le> length (x @ bs) \<longrightarrow>
      unat (fdn_size (td_names (decode_TransferData (take kExpectedBytes (drop (kExpectedBytes * k) (x @ bs)))))) \<le> kMaxFdsPerMessage"
    and x: "length x = kExpectedBytes" and k: "kExpectedBytes * Suc k \<le> length bs"
  from ok[rule_format, of "Suc k"] x k
  show "unat (fdn_size (td_names (decode_TransferData (take kExpectedBytes (drop (kExpectedBytes * k) bs))))) \<le> kMaxFdsPerMessage"
    by simp
qed

lemma GetSingleMessage_returns:
  assumes "sizes_ok (stream_bytes (rc_stream r))"
  obtains (error) e r' where "GetSingleMessage env r = Some (Inl e, r')"
    | (received) d r' where "GetSingleMessage env r = Some (Inr d, r')" "sizes_ok (stream_bytes (rc_stream r'))"
      "length (stream_bytes (rc_stream r')) < length (stream_bytes (rc_stream r))"
      "unat (fdn_size (td_names (sd_transfer_data d))) \<le> length (fdn_names (td_names (sd_transfer_data d)))"
proof -
  obtain res r1 where l: "recv_loop env [] cmsg_zero r = (res, r1)" by force
  show thesis
  proof (cases res)
    case (Inl e)
    then show thesis using l by (intro error[of e r1]) (simp add: GetSingleMessage_def)
  next
    case (Inr bc)
    obtain bytes c where bc: "bc = (bytes, c)" by force
    have b: "length bytes = kExpectedBytes" "stream_bytes (rc_stream r) = bytes @ stream_bytes (rc_stream r1)"
      using recv_loop_stream[of env "[]" cmsg_zero r bytes c r1] l Inr bc by auto
    let ?td = "decode_TransferData bytes"
    have pos: "0 < kExpectedBytes" by (simp add: kExpectedBytes_def)
    have sz: "unat (fdn_size (td_names ?td)) \<le> kMaxFdsPerMessage"
      using assms b unfolding sizes_ok_def by (auto dest: spec[of _ 0])
    then have sz': "unat (fdn_size (td_names ?td)) \<le> length (fdn_names (td_names ?td))"
      by (simp add: decode_TransferData_def kMaxFdsPerMessage_def)
    then obtain names where n: "GetNamesFromFileDescriptorNames (td_names ?td) = Some names"
      by (simp add: GetNamesFromFileDescriptorNames_def)
    have ok: "sizes_ok (stream_bytes (rc_stream r1))" using sizes_ok_drop[of bytes] assms b by simp
    have less: "length (stream_bytes (rc_stream r1)) < length (stream_bytes (rc_stream r))" using b pos by simp
    have "\<exists>res'. GetSingleMessage env r = Some (res', r1) \<and> (\<forall>d. res' = Inr d \<longrightarrow> sd_transfer_data d = ?td)"
      using l Inr bc n by (cases names) (auto simp: GetSingleMessage_def Let_def)
    then obtain res' where g: "GetSingleMessage env r = Some (res', r1)" "\<forall>d. res' = Inr d \<longrightarrow> sd_transfer_data d = ?td"
      by blast
    then show thesis using ok less sz' by (cases res') (auto intro: error received)
  qed
qed

lemma receive_messages_returns:
  "sizes_ok (stream_bytes (rc_stream r)) \<Longrightarrow> \<exists>res r'. receive_messages env i num m r = Some (res, r')"
proof (induction "length (stream_bytes (rc_stream r))" arbitrary: i num m r rule: less_induct)
  case less
  from less.prems show ?case
  proof (cases rule: GetSingleMessage_returns[of r env])
    case (error e r')
    then show ?thesis by (subst receive_messages.simps) simp
  next
    case (received d r')
    then obtain names where n: "GetNamesFromFileDescriptorNames (td_names (sd_transfer_data d)) = Some names"
      by (simp add: GetNamesFromFileDescriptorNames_def)
    have rec: "\<exists>res r''. receive_messages env j k m' r' = Some (res, r'')" for j k m'
      using less.hyps[OF received(3,2)] .
    show ?thesis
      by (subst receive_messages.simps) (use received(1) n rec in \<open>auto simp: Let_def split: sum.splits\<close>)
  qed
qed

lemma connect_loop_returns:
  assumes "\<forall>j \<ge> k. deadline \<le> se_now env j"
  shows "\<exists>r. connect_loop env deadline s = Some r"
proof (induction "k - os_calls s" arbitrary: s rule: less_induct)
  case less
  show ?case
  proof (cases "se_fails env (os_calls s) Sys_connect \<noteq> None \<and> se_now env (Suc (os_calls s)) < deadline")
    case True
    then have "Suc (os_calls s) < k" using assms by (metis not_le)
    then have "\<exists>r. connect_loop env deadline (s\<lparr>os_calls := Suc (Suc (os_calls s))\<rparr>) = Some r"
      by (intro less) simp
    then show ?thesis using True by (subst connect_loop.simps) (auto simp: os_now_def sys_call_def)
  next
    case False
    then show ?thesis by (subst connect_loop.simps) (auto simp: os_now_def sys_call_def split: option.split)
  qed
qed


text \<open>A message whose control data got lost.\<close>

definition bare_message :: packet
  where "bare_message = \<lparr>pk_bytes = encode_TransferData (chunk_data kDomainSocketProtocolVersion 1 1 [(''joints'', 0)]),
    pk_control = None\<rparr>"


end
