(* ===== verification/Lockstep.thy ===== *)
theory Lockstep
  imports Binary_Futex
begin

text \<open>
  The lock step of \<open>util/thread/lockstep.{h,cc}\<close>: operations A and B alternate, guarded by two futexes
  and an atomic state.

  The first part translates the member functions for a caller that is not interrupted; waiting on a
  futex takes the \<open>wait_env\<close> of the theory Binary\_Futex, and \<^term>\<open>None\<close> is a wait without end.  The
  second part is the step relation of any number of threads that call them, one step per atomic access.
\<close>

datatype LockstepState =
    State_kBFinished | State_kARunning | State_kAFinished | State_kBRunning | State_kCancelled

record Lockstep =
  lk_a_finished :: BinaryFutex
  lk_b_finished :: BinaryFutex
  lk_state :: LockstepState

definition Lockstep_new :: Lockstep
  where "Lockstep_new =
    \<lparr>lk_a_finished = BinaryFutex_new False False, lk_b_finished = BinaryFutex_new True False,
     lk_state = State_kBFinished\<rparr>"

text \<open>Both moves return the new value of the target and of the source.\<close>

definition Lockstep_move :: "Lockstep \<Rightarrow> Lockstep \<times> Lockstep"
  where "Lockstep_move other =
    (\<lparr>lk_a_finished = BinaryFutex_move_assign (BinaryFutex_new False False) (lk_a_finished other),
      lk_b_finished = BinaryFutex_move_assign (BinaryFutex_new True False) (lk_b_finished other),
      lk_state = lk_state other\<rparr>,
     other\<lparr>lk_a_finished := BinaryFutex_new False False, lk_b_finished := BinaryFutex_new True False\<rparr>)"

definition Lockstep_move_assign :: "Lockstep \<Rightarrow> Lockstep \<Rightarrow> Lockstep \<times> Lockstep"
  where "Lockstep_move_assign this other =
    (\<lparr>lk_a_finished = BinaryFutex_move_assign (lk_a_finished this) (lk_a_finished other),
      lk_b_finished = BinaryFutex_move_assign (lk_b_finished this) (lk_b_finished other),
      lk_state = lk_state other\<rparr>,
     other\<lparr>lk_a_finished := BinaryFutex_new False False, lk_b_finished := BinaryFutex_new True False\<rparr>)"

definition StartOperationAWithDeadline ::
    "wait_env \<Rightarrow> int \<Rightarrow> Lockstep \<Rightarrow> (StatusCode \<times> Lockstep) option"
  where "StartOperationAWithDeadline env deadline ls =
    (case BinaryFutex_WaitUntil env deadline (lk_b_finished ls) of
       None \<Rightarrow> None
     | Some (status, b) \<Rightarrow>
         (let ls1 = ls\<lparr>lk_b_finished := b\<rparr>
          in if status \<noteq> kOk then Some (status, ls1)
             else if lk_state ls1 = State_kBFinished
             then Some (kOk, ls1\<lparr>lk_state := State_kARunning\<rparr>)
             else if lk_state ls1 = State_kCancelled
             then Some (kAborted, ls1\<lparr>lk_b_finished := snd (BinaryFutex_Post (lk_b_finished ls1))\<rparr>)
             else Some (kFailedPrecondition, ls1)))"

definition StartOperationAWithTimeout ::
    "wait_env \<Rightarrow> int \<Rightarrow> int \<Rightarrow> Lockstep \<Rightarrow> (StatusCode \<times> Lockstep) option"
  where "StartOperationAWithTimeout env now timeout ls =
    StartOperationAWithDeadline env (now + timeout) ls"

definition EndOperationA :: "Lockstep \<Rightarrow> StatusCode \<times> Lockstep"
  where "EndOperationA ls =
    (if lk_state ls = State_kCancelled then (kOk, ls)
     else if lk_state ls \<noteq> State_kARunning then (kFailedPrecondition, ls)
     else let ls1 = ls\<lparr>lk_state := State_kAFinished\<rparr>;
              (status, a) = BinaryFutex_Post (lk_a_finished ls1)
          in (status, ls1\<lparr>lk_a_finished := a\<rparr>))"

definition StartOperationBWithDeadline ::
    "wait_env \<Rightarrow> int \<Rightarrow> Lockstep \<Rightarrow> (StatusCode \<times> Lockstep) option"
  where "StartOperationBWithDeadline env deadline ls =
    (case BinaryFutex_WaitUntil env deadline (lk_a_finished ls) of
       None \<Rightarrow> None
     | Some (status, a) \<Rightarrow>
         (let ls1 = ls\<lparr>lk_a_finished := a\<rparr>
          in if status \<noteq> kOk then Some (status, ls1)
             else if lk_state ls1 = State_kAFinished
             then Some (kOk, ls1\<lparr>lk_state := State_kBRunning\<rparr>)
             else if lk_state ls1 = State_kCancelled
             then Some (kAborted, ls1\<lparr>lk_a_finished := snd (BinaryFutex_Post (lk_a_finished ls1))\<rparr>)
             else Some (kFailedPrecondition, ls1)))"

definition StartOperationBWithTimeout ::
    "wait_env \<Rightarrow> int \<Rightarrow> int \<Rightarrow> Lockstep \<Rightarrow> (StatusCode \<times> Lockstep) option"
  where "StartOperationBWithTimeout env now timeout ls =
    StartOperationBWithDeadline env (now + timeout) ls"

definition EndOperationB :: "Lockstep \<Rightarrow> StatusCode \<times> Lockstep"
  where "EndOperationB ls =
    (if lk_state ls = State_kBRunning
     then let ls1 = ls\<lparr>lk_state := State_kBFinished\<rparr>;
              (status, b) = BinaryFutex_Post (lk_b_finished ls1)
          in (status, ls1\<lparr>lk_b_finished := b\<rparr>)
     else if lk_state ls = State_kCancelled then (kOk, ls)
     else (kFailedPrecondition, ls))"

definition Lockstep_Cancel :: "Lockstep \<Rightarrow> Lockstep"
  where "Lockstep_Cancel ls =
    ls\<lparr>lk_state := State_kCancelled,
       lk_a_finished := snd (BinaryFutex_Post (lk_a_finished ls)),
       lk_b_finished := snd (BinaryFutex_Post (lk_b_finished ls))\<rparr>"

definition Lockstep_Reset ::
    "wait_env \<Rightarrow> wait_env \<Rightarrow> int \<Rightarrow> int \<Rightarrow> Lockstep \<Rightarrow> (StatusCode \<times> Lockstep) option"
  where "Lockstep_Reset env_a env_b now timeout ls =
    (if lk_state ls \<noteq> State_kCancelled then Some (kFailedPrecondition, ls)
     else let deadline = now + timeout
          in case BinaryFutex_WaitUntil env_a deadline (lk_a_finished ls) of
               None \<Rightarrow> None
             | Some (status_a, a) \<Rightarrow>
                 (let ls1 = ls\<lparr>lk_a_finished := a\<rparr>
                  in if status_a \<noteq> kOk then Some (status_a, ls1)
                     else case BinaryFutex_WaitUntil env_b deadline (lk_b_finished ls1) of
                            None \<Rightarrow> None
                          | Some (status_b, b) \<Rightarrow>
                              (let ls2 = ls1\<lparr>lk_b_finished := b\<rparr>
                               in if status_b \<noteq> kOk then Some (status_b, ls2)
                                  else let ls3 = ls2\<lparr>lk_state := State_kBFinished\<rparr>;
                                           (status, b') = BinaryFutex_Post (lk_b_finished ls3)
                                       in Some (status, ls3\<lparr>lk_b_finished := b'\<rparr>))))"

subsection \<open>Threads in lock step\<close>

text \<open>
  The program counter of a thread names the last access it made.  \<open>A_Ending1\<close> and \<open>A_Ending2\<close> are the
  places in \<open>EndOperationA\<close> between its first and second load and between its second load and its
  store.  A thread ends an operation only if it has started it.  \<open>lsy_log\<close> is the sequence of
  operations that were started; the program does not have it.
\<close>

datatype lockstep_pc =
    LIdle | A_Waited | A_Repost | A_Running | A_Ending1 | A_Ending2 | A_Posting
  | B_Waited | B_Repost | B_Running | B_Posting | Cancel_PostA | Cancel_PostB

datatype operation = OpA | OpB

record 't lockstep_sys =
  lsy_lock :: Lockstep
  lsy_pc :: "'t \<Rightarrow> lockstep_pc"
  lsy_log :: "operation list"

definition goto :: "'t \<Rightarrow> lockstep_pc \<Rightarrow> 't lockstep_sys \<Rightarrow> 't lockstep_sys"
  where "goto t pc s = s\<lparr>lsy_pc := (lsy_pc s)(t := pc)\<rparr>"

abbreviation set_state :: "LockstepState \<Rightarrow> 't lockstep_sys \<Rightarrow> 't lockstep_sys"
  where "set_state st s \<equiv> s\<lparr>lsy_lock := (lsy_lock s)\<lparr>lk_state := st\<rparr>\<rparr>"

abbreviation set_a :: "BinaryFutex \<Rightarrow> 't lockstep_sys \<Rightarrow> 't lockstep_sys"
  where "set_a f s \<equiv> s\<lparr>lsy_lock := (lsy_lock s)\<lparr>lk_a_finished := f\<rparr>\<rparr>"

abbreviation set_b :: "BinaryFutex \<Rightarrow> 't lockstep_sys \<Rightarrow> 't lockstep_sys"
  where "set_b f s \<equiv> s\<lparr>lsy_lock := (lsy_lock s)\<lparr>lk_b_finished := f\<rparr>\<rparr>"

abbreviation sys_state :: "'t lockstep_sys \<Rightarrow> LockstepState"
  where "sys_state s \<equiv> lk_state (lsy_lock s)"

abbreviation sys_a :: "'t lockstep_sys \<Rightarrow> BinaryFutex"
  where "sys_a s \<equiv> lk_a_finished (lsy_lock s)"

abbreviation sys_b :: "'t lockstep_sys \<Rightarrow> BinaryFutex"
  where "sys_b s \<equiv> lk_b_finished (lsy_lock s)"

definition lockstep_init :: "'t lockstep_sys \<Rightarrow> bool"
  where "lockstep_init s \<longleftrightarrow>
    s = \<lparr>lsy_lock = Lockstep_new, lsy_pc = (\<lambda>_. LIdle), lsy_log = []\<rparr>"

inductive lockstep_step :: "'t lockstep_sys \<Rightarrow> 't lockstep_sys \<Rightarrow> bool"
  where
    a_wait: "lsy_pc s t = LIdle \<Longrightarrow> BinaryFutex_TryWait (sys_b s) = (Some True, b) \<Longrightarrow>
      lockstep_step s (goto t A_Waited (set_b b s))"
  | a_cas: "lsy_pc s t = A_Waited \<Longrightarrow> sys_state s = State_kBFinished \<Longrightarrow>
      lockstep_step s (goto t A_Running (set_state State_kARunning (s\<lparr>lsy_log := lsy_log s @ [OpA]\<rparr>)))"
  | a_cas_cancelled: "lsy_pc s t = A_Waited \<Longrightarrow> sys_state s = State_kCancelled \<Longrightarrow>
      lockstep_step s (goto t A_Repost s)"
  | a_cas_failed: "lsy_pc s t = A_Waited \<Longrightarrow> sys_state s \<noteq> State_kBFinished \<Longrightarrow>
      sys_state s \<noteq> State_kCancelled \<Longrightarrow> lockstep_step s (goto t LIdle s)"
  | a_repost: "lsy_pc s t = A_Repost \<Longrightarrow>
      lockstep_step s (goto t LIdle (set_b (snd (BinaryFutex_Post (sys_b s))) s))"
  | a_end_cancelled: "lsy_pc s t = A_Running \<Longrightarrow> sys_state s = State_kCancelled \<Longrightarrow>
      lockstep_step s (goto t LIdle s)"
  | a_end_load1: "lsy_pc s t = A_Running \<Longrightarrow> sys_state s \<noteq> State_kCancelled \<Longrightarrow>
      lockstep_step s (goto t A_Ending1 s)"
  | a_end_failed: "lsy_pc s t = A_Ending1 \<Longrightarrow> sys_state s \<noteq> State_kARunning \<Longrightarrow>
      lockstep_step s (goto t LIdle s)"
  | a_end_load2: "lsy_pc s t = A_Ending1 \<Longrightarrow> sys_state s = State_kARunning \<Longrightarrow>
      lockstep_step s (goto t A_Ending2 s)"
  | a_end_store: "lsy_pc s t = A_Ending2 \<Longrightarrow>
      lockstep_step s (goto t A_Posting (set_state State_kAFinished s))"
  | a_end_post: "lsy_pc s t = A_Posting \<Longrightarrow>
      lockstep_step s (goto t LIdle (set_a (snd (BinaryFutex_Post (sys_a s))) s))"
  | b_wait: "lsy_pc s t = LIdle \<Longrightarrow> BinaryFutex_TryWait (sys_a s) = (Some True, a) \<Longrightarrow>
      lockstep_step s (goto t B_Waited (set_a a s))"
  | b_cas: "lsy_pc s t = B_Waited \<Longrightarrow> sys_state s = State_kAFinished \<Longrightarrow>
      lockstep_step s (goto t B_Running (set_state State_kBRunning (s\<lparr>lsy_log := lsy_log s @ [OpB]\<rparr>)))"
  | b_cas_cancelled: "lsy_pc s t = B_Waited \<Longrightarrow> sys_state s = State_kCancelled \<Longrightarrow>
      lockstep_step s (goto t B_Repost s)"
  | b_cas_failed: "lsy_pc s t = B_Waited \<Longrightarrow> sys_state s \<noteq> State_kAFinished \<Longrightarrow>
      sys_state s \<noteq> State_kCancelled \<Longrightarrow> lockstep_step s (goto t LIdle s)"
  | b_repost: "lsy_pc s t = B_Repost \<Longrightarrow>
      lockstep_step s (goto t LIdle (set_a (snd (BinaryFutex_Post (sys_a s))) s))"
  | b_end_cas: "lsy_pc s t = B_Running \<Longrightarrow> sys_state s = State_kBRunning \<Longrightarrow>
      lockstep_step s (goto t B_Posting (set_state State_kBFinished s))"
  | b_end_failed: "lsy_pc s t = B_Running \<Longrightarrow> sys_state s \<noteq> State_kBRunning \<Longrightarrow>
      lockstep_step s (goto t LIdle s)"
  | b_end_post: "lsy_pc s t = B_Posting \<Longrightarrow>
      lockstep_step s (goto t LIdle (set_b (snd (BinaryFutex_Post (sys_b s))) s))"

inductive cancel_step :: "'t lockstep_sys \<Rightarrow> 't lockstep_sys \<Rightarrow> bool"
  where
    cancel_store: "lsy_pc s t = LIdle \<Longrightarrow>
      cancel_step s (goto t Cancel_PostA (set_state State_kCancelled s))"
  | cancel_post_a: "lsy_pc s t = Cancel_PostA \<Longrightarrow>
      cancel_step s (goto t Cancel_PostB (set_a (snd (BinaryFutex_Post (sys_a s))) s))"
  | cancel_post_b: "lsy_pc s t = Cancel_PostB \<Longrightarrow>
      cancel_step s (goto t LIdle (set_b (snd (BinaryFutex_Post (sys_b s))) s))"

definition any_step :: "'t lockstep_sys \<Rightarrow> 't lockstep_sys \<Rightarrow> bool"
  where "any_step s s' \<longleftrightarrow> lockstep_step s s' \<or> cancel_step s s'"

definition in_A :: "lockstep_pc \<Rightarrow> bool"
  where "in_A pc \<longleftrightarrow> pc = A_Running \<or> pc = A_Ending1 \<or> pc = A_Ending2"

definition in_B :: "lockstep_pc \<Rightarrow> bool"
  where "in_B pc \<longleftrightarrow> pc = B_Running"

definition alternates :: "operation list \<Rightarrow> bool"
  where "alternates log \<longleftrightarrow> (\<forall>i < length log. log ! i = (if even i then OpA else OpB))"

definition in_op :: "lockstep_pc \<Rightarrow> bool"
  where "in_op pc \<longleftrightarrow> in_A pc \<or> in_B pc"

text \<open>What the states say about the started operations, and about a thread inside one.\<close>

definition state_fits :: "LockstepState \<Rightarrow> nat \<Rightarrow> bool"
  where "state_fits st n \<longleftrightarrow>
    (st = State_kARunning \<or> st = State_kAFinished \<longrightarrow> odd n)
    \<and> (st = State_kBRunning \<or> st = State_kBFinished \<longrightarrow> even n)"

definition pc_fits :: "LockstepState \<Rightarrow> nat \<Rightarrow> lockstep_pc \<Rightarrow> bool"
  where "pc_fits st n pc \<longleftrightarrow>
    (in_A pc \<longrightarrow> (st = State_kARunning \<or> st = State_kCancelled) \<and> odd n)
    \<and> (in_B pc \<longrightarrow> (st = State_kBRunning \<or> st = State_kCancelled) \<and> even n)"

definition mutex_inv :: "'t lockstep_sys \<Rightarrow> bool"
  where "mutex_inv s \<longleftrightarrow>
    alternates (lsy_log s) \<and> state_fits (sys_state s) (length (lsy_log s))
    \<and> (\<exists>owner. \<forall>t. in_op (lsy_pc s t) \<longrightarrow> t = owner)
    \<and> (\<forall>t. pc_fits (sys_state s) (length (lsy_log s)) (lsy_pc s t))"

text \<open>Without cancellation, one token: in a futex or with one thread, as the state says.\<close>

definition sole :: "('t \<Rightarrow> lockstep_pc) \<Rightarrow> lockstep_pc set \<Rightarrow> bool"
  where "sole pc P \<longleftrightarrow> (\<exists>t. pc t \<in> P \<and> (\<forall>u. u \<noteq> t \<longrightarrow> pc u = LIdle))"

definition token_inv :: "'t lockstep_sys \<Rightarrow> bool"
  where "token_inv s \<longleftrightarrow>
    (let a = bf_val (sys_a s); b = bf_val (sys_b s); idle = (\<forall>t. lsy_pc s t = LIdle)
     in case sys_state s of
          State_kBFinished \<Rightarrow> a = kReady \<and>
            (b = kPosted \<and> idle \<or> b = kReady \<and> sole (lsy_pc s) {A_Waited, B_Posting})
        | State_kARunning \<Rightarrow> a = kReady \<and> b = kReady \<and> sole (lsy_pc s) {A_Running, A_Ending1, A_Ending2}
        | State_kAFinished \<Rightarrow> b = kReady \<and>
            (a = kPosted \<and> idle \<or> a = kReady \<and> sole (lsy_pc s) {B_Waited, A_Posting})
        | State_kBRunning \<Rightarrow> a = kReady \<and> b = kReady \<and> sole (lsy_pc s) {B_Running}
        | State_kCancelled \<Rightarrow> False)"

subsection \<open>Mutual exclusion and alternation\<close>

lemma goto_simps [simp]:
  "lsy_pc (goto t pc s) = (lsy_pc s)(t := pc)" "lsy_lock (goto t pc s) = lsy_lock s"
  "lsy_log (goto t pc s) = lsy_log s"
  by (simp_all add: goto_def)

lemma in_op_simps [simp]:
  "in_A A_Running" "in_A A_Ending1" "in_A A_Ending2" "in_B B_Running"
  "\<not> in_A LIdle" "\<not> in_A A_Waited" "\<not> in_A A_Repost" "\<not> in_A A_Posting" "\<not> in_A B_Waited"
  "\<not> in_A B_Repost" "\<not> in_A B_Running" "\<not> in_A B_Posting" "\<not> in_A Cancel_PostA" "\<not> in_A Cancel_PostB"
  "\<not> in_B LIdle" "\<not> in_B A_Waited" "\<not> in_B A_Repost" "\<not> in_B A_Posting" "\<not> in_B B_Waited"
  "\<not> in_B B_Repost" "\<not> in_B B_Posting" "\<not> in_B Cancel_PostA" "\<not> in_B Cancel_PostB"
  "\<not> in_B A_Running" "\<not> in_B A_Ending1" "\<not> in_B A_Ending2"
  by (simp_all add: in_A_def in_B_def)

lemma alternates_snoc:
  "alternates (log @ [x]) \<longleftrightarrow> alternates log \<and> x = (if even (length log) then OpA else OpB)"
  by (auto simp: alternates_def nth_append less_Suc_eq)

lemma mutex_inv_init: "lockstep_init s \<Longrightarrow> mutex_inv s"
  by (simp add: lockstep_init_def mutex_inv_def Lockstep_new_def alternates_def state_fits_def
      pc_fits_def in_op_def)

lemma mutex_invI:
  assumes "alternates (lsy_log s)" "state_fits (sys_state s) (length (lsy_log s))"
    "\<And>t. in_op (lsy_pc s t) \<Longrightarrow> t = owner"
    "\<And>t. pc_fits (sys_state s) (length (lsy_log s)) (lsy_pc s t)"
  shows "mutex_inv s"
  unfolding mutex_inv_def using assms by blast

text \<open>A thread that moves within its operation, leaves it, or moves outside of one.\<close>

lemma mutex_inv_goto:
  assumes "mutex_inv s" "in_A pc \<longrightarrow> in_A (lsy_pc s t)" "in_B pc \<longrightarrow> in_B (lsy_pc s t)"
    "sys_state s' = sys_state s" "lsy_log s' = lsy_log s" "lsy_pc s' = (lsy_pc s)(t := pc)"
  shows "mutex_inv s'"
proof -
  obtain owner where "\<forall>u. in_op (lsy_pc s u) \<longrightarrow> u = owner" using assms(1) by (auto simp: mutex_inv_def)
  then have "u = owner" if "in_op (lsy_pc s' u)" for u
    using that assms(2,3,6) by (cases "u = t") (auto simp: in_op_def)
  moreover have "pc_fits (sys_state s) (length (lsy_log s)) (lsy_pc s' u)" for u
    using assms(1-3,6) by (cases "u = t") (auto simp: mutex_inv_def pc_fits_def)
  ultimately show ?thesis
    using assms(1,4,5) by (intro mutex_invI[where owner = owner]) (auto simp: mutex_inv_def)
qed

text \<open>A thread that changes the state: the others are outside of both operations.\<close>

lemma mutex_inv_set_state:
  assumes "\<forall>u. u \<noteq> t \<longrightarrow> \<not> in_op (lsy_pc s u)" "alternates (lsy_log s')"
    "state_fits (sys_state s') (length (lsy_log s'))" "pc_fits (sys_state s') (length (lsy_log s')) pc"
    "lsy_pc s' = (lsy_pc s)(t := pc)"
  shows "mutex_inv s'"
proof -
  have "u = t" if "in_op (lsy_pc s' u)" for u
    using that assms(1,5) by (cases "u = t") auto
  moreover have "pc_fits (sys_state s') (length (lsy_log s')) (lsy_pc s' u)" for u
    using assms(1,4,5) by (cases "u = t") (auto simp: pc_fits_def in_op_def)
  ultimately show ?thesis using assms(2,3) by (intro mutex_invI[where owner = t])
qed

lemma mutex_inv_others:
  assumes "mutex_inv s"
  shows "in_op (lsy_pc s t) \<Longrightarrow> \<forall>u. u \<noteq> t \<longrightarrow> \<not> in_op (lsy_pc s u)"
    and "sys_state s = State_kBFinished \<or> sys_state s = State_kAFinished \<Longrightarrow> \<forall>u. \<not> in_op (lsy_pc s u)"
proof -
  obtain owner where owner: "\<forall>u. in_op (lsy_pc s u) \<longrightarrow> u = owner" using assms by (auto simp: mutex_inv_def)
  then show "in_op (lsy_pc s t) \<Longrightarrow> \<forall>u. u \<noteq> t \<longrightarrow> \<not> in_op (lsy_pc s u)" by blast
  show "sys_state s = State_kBFinished \<or> sys_state s = State_kAFinished \<Longrightarrow> \<forall>u. \<not> in_op (lsy_pc s u)"
    using assms by (auto simp: mutex_inv_def pc_fits_def in_op_def)
qed

lemma mutex_inv_fits:
  assumes "mutex_inv s"
  shows "alternates (lsy_log s)" "state_fits (sys_state s) (length (lsy_log s))"
    "pc_fits (sys_state s) (length (lsy_log s)) (lsy_pc s t)"
  using assms by (auto simp: mutex_inv_def)

lemma mutex_inv_lockstep: "lockstep_step s s' \<Longrightarrow> mutex_inv s \<Longrightarrow> mutex_inv s'"
proof (induction rule: lockstep_step.induct)
  case (a_cas s t)
  from a_cas.hyps mutex_inv_others(2)[OF a_cas.prems] mutex_inv_fits[OF a_cas.prems] show ?case
    by (intro mutex_inv_set_state[where s = s and t = t and pc = A_Running])
      (simp_all add: alternates_snoc state_fits_def pc_fits_def)
next
  case (b_cas s t)
  from b_cas.hyps mutex_inv_others(2)[OF b_cas.prems] mutex_inv_fits[OF b_cas.prems] show ?case
    by (intro mutex_inv_set_state[where s = s and t = t and pc = B_Running])
      (simp_all add: alternates_snoc state_fits_def pc_fits_def)
next
  case (a_end_store s t)
  from a_end_store.hyps mutex_inv_others(1)[OF a_end_store.prems, of t] mutex_inv_fits(1,2)[OF a_end_store.prems]
    mutex_inv_fits(3)[OF a_end_store.prems, of t] show ?case
    by (intro mutex_inv_set_state[where s = s and t = t and pc = A_Posting])
      (simp_all add: state_fits_def pc_fits_def in_op_def)
next
  case (b_end_cas s t)
  from b_end_cas.hyps mutex_inv_others(1)[OF b_end_cas.prems, of t] mutex_inv_fits(1,2)[OF b_end_cas.prems]
    mutex_inv_fits(3)[OF b_end_cas.prems, of t] show ?case
    by (intro mutex_inv_set_state[where s = s and t = t and pc = B_Posting])
      (simp_all add: state_fits_def pc_fits_def in_op_def)
qed (erule mutex_inv_goto; simp)+

lemma mutex_inv_cancel: "cancel_step s s' \<Longrightarrow> mutex_inv s \<Longrightarrow> mutex_inv s'"
proof (induction rule: cancel_step.induct)
  case (cancel_store s t)
  then obtain owner where "\<forall>u. in_op (lsy_pc s u) \<longrightarrow> u = owner" by (auto simp: mutex_inv_def)
  with cancel_store show ?case
    by (intro mutex_invI[where owner = owner])
      (auto simp: mutex_inv_def state_fits_def pc_fits_def in_op_def split: if_splits)
qed (erule mutex_inv_goto; simp)+

lemma mutex_inv_any: "mutex_inv s \<Longrightarrow> any_step s s' \<Longrightarrow> mutex_inv s'"
  by (auto simp: any_step_def mutex_inv_lockstep mutex_inv_cancel)

interpretation lockstep_mutex: inductive_invariant lockstep_init any_step mutex_inv
  by unfold_locales (erule mutex_inv_init, rule mutex_inv_any)

text \<open>C6: However many threads call the four operations and \<open>Cancel\<close>, in every interleaving of their
  atomic accesses at most one of them is inside operation A or operation B, and the operations that
  were started alternate A, B, A, B and so on.\<close>
theorem lockstep_alternates_exclusively:
  assumes "reach lockstep_init any_step s"
  shows "(in_op (lsy_pc s t) \<and> in_op (lsy_pc s u) \<longrightarrow> t = u) \<and> alternates (lsy_log s)"
proof -
  have "mutex_inv s" using assms by (rule lockstep_mutex.reach_inv)
  then show ?thesis unfolding mutex_inv_def by blast
qed

subsection \<open>The token\<close>

lemma sole_goto: "lsy_pc s t \<noteq> LIdle \<Longrightarrow> sole (lsy_pc s) P \<Longrightarrow>
    lsy_pc s t \<in> P \<and> (\<forall>u. u \<noteq> t \<longrightarrow> lsy_pc s u = LIdle)"
  unfolding sole_def by metis

lemma sole_updI: "\<forall>u. u \<noteq> t \<longrightarrow> pc u = LIdle \<Longrightarrow> c \<in> P \<Longrightarrow> sole (pc(t := c)) P"
  by (auto simp: sole_def)

lemma token_inv_init: "lockstep_init s \<Longrightarrow> token_inv s"
  by (simp add: lockstep_init_def token_inv_def Lockstep_new_def BinaryFutex_new_def)

text \<open>A thread outside of \<open>LIdle\<close> is the only one, and the state tells where it is.\<close>

lemma token_inv_holder:
  assumes "token_inv s" "lsy_pc s t \<noteq> LIdle"
  shows "(\<forall>u. u \<noteq> t \<longrightarrow> lsy_pc s u = LIdle) \<and> bf_val (sys_a s) = kReady \<and> bf_val (sys_b s) = kReady
    \<and> (case sys_state s of
         State_kBFinished \<Rightarrow> lsy_pc s t \<in> {A_Waited, B_Posting}
       | State_kARunning \<Rightarrow> lsy_pc s t \<in> {A_Running, A_Ending1, A_Ending2}
       | State_kAFinished \<Rightarrow> lsy_pc s t \<in> {B_Waited, A_Posting}
       | State_kBRunning \<Rightarrow> lsy_pc s t \<in> {B_Running}
       | State_kCancelled \<Rightarrow> False)"
  using assms sole_goto[OF assms(2)]
  by (cases "sys_state s") (auto simp: token_inv_def Let_def)

lemma token_inv_state:
  assumes "token_inv s"
  shows "(lsy_pc s t = A_Waited \<longrightarrow> sys_state s = State_kBFinished)
    \<and> (lsy_pc s t = A_Running \<or> lsy_pc s t = A_Ending1 \<longrightarrow> sys_state s = State_kARunning)
    \<and> (lsy_pc s t = B_Waited \<longrightarrow> sys_state s = State_kAFinished)
    \<and> (lsy_pc s t = B_Running \<longrightarrow> sys_state s = State_kBRunning)
    \<and> lsy_pc s t \<noteq> A_Repost \<and> lsy_pc s t \<noteq> B_Repost"
proof (cases "lsy_pc s t = LIdle")
  case False
  from token_inv_holder[OF assms this] show ?thesis by (cases "sys_state s") auto
qed simp

lemma token_inv_hold:
  assumes "\<forall>u. u \<noteq> t \<longrightarrow> lsy_pc s u = LIdle" "bf_val (sys_a s') = kReady" "bf_val (sys_b s') = kReady"
    "case sys_state s' of
       State_kBFinished \<Rightarrow> c \<in> {A_Waited, B_Posting}
     | State_kARunning \<Rightarrow> c \<in> {A_Running, A_Ending1, A_Ending2}
     | State_kAFinished \<Rightarrow> c \<in> {B_Waited, A_Posting}
     | State_kBRunning \<Rightarrow> c \<in> {B_Running}
     | State_kCancelled \<Rightarrow> False"
    "lsy_pc s' = (lsy_pc s)(t := c)"
  shows "token_inv s'"
proof -
  have "sole (lsy_pc s') P" if "c \<in> P" for P
    using assms(1,5) that by (simp add: sole_updI)
  with assms(2-4) show ?thesis by (cases "sys_state s'") (simp_all add: token_inv_def Let_def)
qed

lemma token_inv_idle_take:
  assumes "token_inv s" "lsy_pc s t = LIdle"
  shows "bf_val (sys_b s) = kPosted \<Longrightarrow>
      sys_state s = State_kBFinished \<and> (\<forall>u. lsy_pc s u = LIdle) \<and> bf_val (sys_a s) = kReady"
    and "bf_val (sys_a s) = kPosted \<Longrightarrow>
      sys_state s = State_kAFinished \<and> (\<forall>u. lsy_pc s u = LIdle) \<and> bf_val (sys_b s) = kReady"
  using assms by (auto simp: token_inv_def Let_def split: LockstepState.splits)

lemma TryWait_True: "BinaryFutex_TryWait f = (Some True, g) \<Longrightarrow> bf_val f = kPosted \<and> bf_val g = kReady"
  by (auto simp: BinaryFutex_TryWait_def TryWait_val_def split: if_splits prod.splits)

lemma token_inv_step: "lockstep_step s s' \<Longrightarrow> token_inv s \<Longrightarrow> token_inv s'"
proof (induction rule: lockstep_step.induct)
  case (a_wait s t b)
  with token_inv_idle_take(1)[of s t] TryWait_True[OF a_wait(2)] show ?case
    by (intro token_inv_hold[where s = s and t = t and c = A_Waited]) auto
next
  case (b_wait s t a)
  with token_inv_idle_take(2)[of s t] TryWait_True[OF b_wait(2)] show ?case
    by (intro token_inv_hold[where s = s and t = t and c = B_Waited]) auto
next
  case (a_cas s t)
  with token_inv_holder[of s t] show ?case
    by (intro token_inv_hold[where s = s and t = t and c = A_Running]) auto
next
  case (b_cas s t)
  with token_inv_holder[of s t] show ?case
    by (intro token_inv_hold[where s = s and t = t and c = B_Running]) auto
next
  case (a_end_load1 s t)
  with token_inv_holder[of s t] show ?case
    by (intro token_inv_hold[where s = s and t = t and c = A_Ending1]) (auto split: LockstepState.splits)
next
  case (a_end_load2 s t)
  with token_inv_holder[of s t] show ?case
    by (intro token_inv_hold[where s = s and t = t and c = A_Ending2]) auto
next
  case (a_end_store s t)
  with token_inv_holder[of s t] show ?case
    by (intro token_inv_hold[where s = s and t = t and c = A_Posting]) auto
next
  case (b_end_cas s t)
  with token_inv_holder[of s t] show ?case
    by (intro token_inv_hold[where s = s and t = t and c = B_Posting]) auto
next
  case (a_end_post s t)
  then have h: "\<forall>u. u \<noteq> t \<longrightarrow> lsy_pc s u = LIdle" "bf_val (sys_a s) = kReady" "bf_val (sys_b s) = kReady"
    using token_inv_holder[of s t] by simp_all
  moreover have "sys_state s = State_kAFinished"
    using a_end_post token_inv_holder[of s t] by (cases "sys_state s") simp_all
  ultimately show ?case by (simp add: token_inv_def BinaryFutex_Post_def)
next
  case (b_end_post s t)
  then have h: "\<forall>u. u \<noteq> t \<longrightarrow> lsy_pc s u = LIdle" "bf_val (sys_a s) = kReady" "bf_val (sys_b s) = kReady"
    using token_inv_holder[of s t] by simp_all
  moreover have "sys_state s = State_kBFinished"
    using b_end_post token_inv_holder[of s t] by (cases "sys_state s") simp_all
  ultimately show ?case by (simp add: token_inv_def BinaryFutex_Post_def)
qed (drule_tac t = t in token_inv_state, simp)+

interpretation lockstep_token: inductive_invariant lockstep_init lockstep_step token_inv
  by unfold_locales (erule token_inv_init, rule token_inv_step)

text \<open>Without cancellation the lock step never gets stuck between operations: whenever no thread is
  inside one of the four calls or inside an operation, the call that is due returns success at once,
  whatever its deadline, and moves the state on.\<close>
theorem lockstep_due_operation_starts:
  assumes "reach lockstep_init lockstep_step s" "\<forall>t. lsy_pc s t = LIdle"
  shows "\<exists>ls'. (sys_state s = State_kBFinished
        \<and> StartOperationAWithDeadline env Time_max (lsy_lock s) = Some (kOk, ls')
        \<and> lk_state ls' = State_kARunning
      \<or> sys_state s = State_kAFinished
        \<and> StartOperationBWithDeadline env Time_max (lsy_lock s) = Some (kOk, ls')
        \<and> lk_state ls' = State_kBRunning)"
proof -
  have "token_inv s" using assms(1) by (rule lockstep_token.reach_inv)
  moreover have "\<not> sole (lsy_pc s) P" if "LIdle \<notin> P" for P
    using assms(2) that by (auto simp: sole_def)
  ultimately consider "sys_state s = State_kBFinished" "bf_val (sys_b s) = kPosted"
    | "sys_state s = State_kAFinished" "bf_val (sys_a s) = kPosted"
    by (cases "sys_state s") (auto simp: token_inv_def Let_def)
  then show ?thesis
  proof cases
    case 1
    then show ?thesis
      by (simp add: StartOperationAWithDeadline_def futex_wait_until_immediate)
  next
    case 2
    then show ?thesis
      by (simp add: StartOperationBWithDeadline_def futex_wait_until_immediate)
  qed
qed

theorem lockstep_due_operation_starts_witness:
  "\<exists>ls'. StartOperationAWithDeadline expired_env Time_max Lockstep_new = Some (kOk, ls')"
proof -
  let ?s = "\<lparr>lsy_lock = Lockstep_new, lsy_pc = (\<lambda>_::nat. LIdle), lsy_log = []\<rparr>"
  have "reach lockstep_init lockstep_step ?s" by (rule reach_init) (simp add: lockstep_init_def)
  from lockstep_due_operation_starts[OF this, of expired_env] show ?thesis
    by (auto simp: Lockstep_new_def)
qed

subsection \<open>Cancellation\<close>

lemma cancelled_any_step:
  assumes "any_step s s'" "sys_state s = State_kCancelled" "\<forall>t. lsy_pc s t \<noteq> A_Ending2"
  shows "sys_state s' = State_kCancelled \<and> (\<forall>t. lsy_pc s' t \<noteq> A_Ending2) \<and> lsy_log s' = lsy_log s"
  using assms by (auto simp: any_step_def elim!: lockstep_step.cases cancel_step.cases split: if_splits)

text \<open>Once the lock step is cancelled and no thread is between the second load and the store of
  \<open>EndOperationA\<close>, it stays cancelled and no operation starts any more, in every continuation; a call of
  \<open>StartOperationA\<close> or \<open>StartOperationB\<close> with a token at hand returns \<open>kAborted\<close> and gives the token
  back.\<close>
theorem lockstep_cancel_is_sticky:
  assumes "any_step\<^sup>*\<^sup>* s s'" "sys_state s = State_kCancelled" "\<forall>t. lsy_pc s t \<noteq> A_Ending2"
  shows "sys_state s' = State_kCancelled \<and> lsy_log s' = lsy_log s
    \<and> (bf_val (sys_b s') = kPosted \<longrightarrow>
        StartOperationAWithDeadline env Time_max (lsy_lock s') = Some (kAborted, lsy_lock s'))
    \<and> (bf_val (sys_a s') = kPosted \<longrightarrow>
        StartOperationBWithDeadline env Time_max (lsy_lock s') = Some (kAborted, lsy_lock s'))"
proof -
  have "sys_state s' = State_kCancelled \<and> (\<forall>t. lsy_pc s' t \<noteq> A_Ending2) \<and> lsy_log s' = lsy_log s"
    using assms by (induction rule: rtranclp_induct) (auto dest: cancelled_any_step)
  then show ?thesis
    by (auto simp: StartOperationAWithDeadline_def StartOperationBWithDeadline_def
        futex_wait_until_immediate BinaryFutex_Post_def Let_def)
qed

lemma futex_post_posted:
  "bf_val f = kReady \<or> bf_val f = kPosted \<Longrightarrow> BinaryFutex_Post f = (kOk, f\<lparr>bf_val := kPosted\<rparr>)"
  by (auto simp: BinaryFutex_Post_def)

text \<open>After \<open>Cancel\<close>, \<open>Reset\<close> brings a lock step with open futexes back to its initial state,
  whatever state it was cancelled in, without waiting; without a preceding \<open>Cancel\<close> it is refused and
  changes nothing.\<close>
theorem lockstep_cancel_reset:
  assumes "bf_val (lk_a_finished ls) = kReady \<or> bf_val (lk_a_finished ls) = kPosted"
    "bf_val (lk_b_finished ls) = kReady \<or> bf_val (lk_b_finished ls) = kPosted"
    "we_clock_gettime env_a \<noteq> None" "we_clock_gettime env_b \<noteq> None"
  shows "(\<exists>ls'. Lockstep_Reset env_a env_b now timeout (Lockstep_Cancel ls) = Some (kOk, ls')
      \<and> lk_state ls' = lk_state Lockstep_new
      \<and> bf_val (lk_a_finished ls') = bf_val (lk_a_finished Lockstep_new)
      \<and> bf_val (lk_b_finished ls') = bf_val (lk_b_finished Lockstep_new))
    \<and> (lk_state ls \<noteq> State_kCancelled \<longrightarrow>
        Lockstep_Reset env_a env_b now timeout ls = Some (kFailedPrecondition, ls))"
  using assms
  by (simp add: Lockstep_Reset_def Lockstep_Cancel_def futex_post_posted futex_wait_until_immediate
      Let_def) (simp add: BinaryFutex_Post_def Lockstep_new_def BinaryFutex_new_def)

theorem lockstep_cancel_reset_witness:
  "\<exists>ls'. Lockstep_Reset expired_env
      expired_env 0 1000 (Lockstep_Cancel Lockstep_new)
    = Some (kOk, ls') \<and> lk_state ls' = State_kBFinished"
  using lockstep_cancel_reset[of Lockstep_new
      expired_env expired_env 0 1000]
  by (auto simp: Lockstep_new_def BinaryFutex_new_def expired_env_def)

subsection \<open>A cancellation that is lost\<close>

text \<open>The program counters of three threads.\<close>

definition three :: "lockstep_pc \<Rightarrow> lockstep_pc \<Rightarrow> lockstep_pc \<Rightarrow> nat \<Rightarrow> lockstep_pc"
  where "three x y z t = (if t = 0 then x else if t = 1 then y else if t = 2 then z else LIdle)"

definition sys3 ::
    "u32 \<Rightarrow> u32 \<Rightarrow> LockstepState \<Rightarrow> lockstep_pc \<Rightarrow> lockstep_pc \<Rightarrow> lockstep_pc \<Rightarrow> operation list \<Rightarrow> nat lockstep_sys"
  where "sys3 a b st x y z log =
    \<lparr>lsy_lock = \<lparr>lk_a_finished = \<lparr>bf_val = a, bf_private_futex = False\<rparr>,
        lk_b_finished = \<lparr>bf_val = b, bf_private_futex = False\<rparr>, lk_state = st\<rparr>,
      lsy_pc = three x y z, lsy_log = log\<rparr>"

lemma three_upd [simp]:
  "(three x y z)(0 := c) = three c y z" "(three x y z)(Suc 0 := c) = three x c z"
  "(three x y z)(2 := c) = three x y c"
  by (auto simp: three_def)

lemma three_simps [simp]: "three x y z 0 = x" "three x y z (Suc 0) = y" "three x y z 2 = z"
  by (simp_all add: three_def)

lemma sys3_simps [simp]:
  "lsy_pc (sys3 a b st x y z log) = three x y z" "sys_state (sys3 a b st x y z log) = st"
  "lsy_log (sys3 a b st x y z log) = log"
  "sys_a (sys3 a b st x y z log) = \<lparr>bf_val = a, bf_private_futex = False\<rparr>"
  "sys_b (sys3 a b st x y z log) = \<lparr>bf_val = b, bf_private_futex = False\<rparr>"
  "goto 0 c (sys3 a b st x y z log) = sys3 a b st c y z log"
  "goto (Suc 0) c (sys3 a b st x y z log) = sys3 a b st x c z log"
  "goto 2 c (sys3 a b st x y z log) = sys3 a b st x y c log"
  "set_state st' (sys3 a b st x y z log) = sys3 a b st' x y z log"
  "(sys3 a b st x y z log)\<lparr>lsy_log := log', lsy_lock := (lsy_lock (sys3 a b st x y z log))\<lparr>lk_state := st'\<rparr>\<rparr>
    = sys3 a b st' x y z log'"
  "set_a \<lparr>bf_val = a', bf_private_futex = False\<rparr> (sys3 a b st x y z log) = sys3 a' b st x y z log"
  "set_b \<lparr>bf_val = b', bf_private_futex = False\<rparr> (sys3 a b st x y z log) = sys3 a b' st x y z log"
  by (simp_all add: sys3_def goto_def)

lemma any_lockstep: "lockstep_step s s' \<Longrightarrow> any_step s s'"
  and any_cancel: "cancel_step s s' \<Longrightarrow> any_step s s'"
  by (simp_all add: any_step_def)

lemmas futex_run_simps = BinaryFutex_TryWait_def BinaryFutex_Post_def TryWait_val_def

text \<open>Thread 0 starts operation A and reaches the window in \<open>EndOperationA\<close>.\<close>

lemma lockstep_run_to_window:
  "reach lockstep_init any_step (sys3 kReady kReady State_kARunning A_Ending2 LIdle LIdle [OpA])"
proof -
  let ?R = "reach lockstep_init any_step"
  have "?R (sys3 kReady kPosted State_kBFinished LIdle LIdle LIdle [])"
    by (rule reach_init)
      (auto simp: lockstep_init_def sys3_def Lockstep_new_def BinaryFutex_new_def three_def)
  from reach_step[OF this any_lockstep, OF a_wait[where t = 0]]
  have "?R (sys3 kReady kReady State_kBFinished A_Waited LIdle LIdle [])"
    by (simp add: futex_run_simps)
  from reach_step[OF this any_lockstep, OF a_cas[where t = 0]]
  have "?R (sys3 kReady kReady State_kARunning A_Running LIdle LIdle [OpA])" by simp
  from reach_step[OF this any_lockstep, OF a_end_load1[where t = 0]]
  have "?R (sys3 kReady kReady State_kARunning A_Ending1 LIdle LIdle [OpA])" by simp
  from reach_step[OF this any_lockstep, OF a_end_load2[where t = 0]]
  show ?thesis by simp
qed

lemma lockstep_run_cancel:
  "any_step\<^sup>*\<^sup>* (sys3 kReady kReady State_kARunning A_Ending2 LIdle LIdle [OpA])
     (sys3 kPosted kPosted State_kCancelled A_Ending2 LIdle LIdle [OpA])"
proof -
  let ?s = "\<lambda>a b. sys3 a b State_kCancelled A_Ending2"
  have "any_step (sys3 kReady kReady State_kARunning A_Ending2 LIdle LIdle [OpA])
      (?s kReady kReady Cancel_PostA LIdle [OpA])"
    using any_cancel[OF cancel_store[where t = 1
        and s = "sys3 kReady kReady State_kARunning A_Ending2 LIdle LIdle [OpA]"]] by simp
  moreover have "any_step (?s kReady kReady Cancel_PostA LIdle [OpA]) (?s kPosted kReady Cancel_PostB LIdle [OpA])"
    using any_cancel[OF cancel_post_a[where t = 1 and s = "?s kReady kReady Cancel_PostA LIdle [OpA]"]]
    by (simp add: futex_run_simps)
  moreover have "any_step (?s kPosted kReady Cancel_PostB LIdle [OpA]) (?s kPosted kPosted LIdle LIdle [OpA])"
    using any_cancel[OF cancel_post_b[where t = 1 and s = "?s kPosted kReady Cancel_PostB LIdle [OpA]"]]
    by (simp add: futex_run_simps)
  ultimately show ?thesis
    by (meson converse_rtranclp_into_rtranclp r_into_rtranclp)
qed

lemma lockstep_run_after_cancel:
  "any_step\<^sup>*\<^sup>* (sys3 kPosted kPosted State_kCancelled A_Ending2 LIdle LIdle [OpA])
     (sys3 kReady kPosted State_kBRunning LIdle LIdle B_Running [OpA, OpB])"
proof -
  let ?s = "\<lambda>a st x z. sys3 a kPosted st x LIdle z"
  have "any_step (?s kPosted State_kCancelled A_Ending2 LIdle [OpA]) (?s kPosted State_kAFinished A_Posting LIdle [OpA])"
    using any_lockstep[OF a_end_store[where t = 0 and s = "?s kPosted State_kCancelled A_Ending2 LIdle [OpA]"]]
    by simp
  moreover have "any_step (?s kPosted State_kAFinished A_Posting LIdle [OpA]) (?s kPosted State_kAFinished LIdle LIdle [OpA])"
    using any_lockstep[OF a_end_post[where t = 0 and s = "?s kPosted State_kAFinished A_Posting LIdle [OpA]"]]
    by (simp add: futex_run_simps)
  moreover have "any_step (?s kPosted State_kAFinished LIdle LIdle [OpA]) (?s kReady State_kAFinished LIdle B_Waited [OpA])"
    using any_lockstep[OF b_wait[where t = 2 and s = "?s kPosted State_kAFinished LIdle LIdle [OpA]"]]
    by (simp add: futex_run_simps)
  moreover have "any_step (?s kReady State_kAFinished LIdle B_Waited [OpA]) (?s kReady State_kBRunning LIdle B_Running [OpA, OpB])"
    using any_lockstep[OF b_cas[where t = 2 and s = "?s kReady State_kAFinished LIdle B_Waited [OpA]"]]
    by simp
  ultimately show ?thesis
    by (meson converse_rtranclp_into_rtranclp r_into_rtranclp)
qed

text \<open>C37: A cancellation can be lost: there is a run in which \<open>Cancel\<close> has returned and the lock step is
  cancelled, and then, with no \<open>Reset\<close>, a thread starts operation B.  The store of \<open>EndOperationA\<close> that
  follows its check overwrites the cancelled state.\<close>
theorem lockstep_cancel_can_be_lost:
  "\<exists>s s' :: nat lockstep_sys. reach lockstep_init any_step s
    \<and> sys_state s = State_kCancelled \<and> (\<forall>t. lsy_pc s t \<noteq> Cancel_PostA \<and> lsy_pc s t \<noteq> Cancel_PostB)
    \<and> any_step\<^sup>*\<^sup>* s s' \<and> sys_state s' = State_kBRunning \<and> lsy_log s = [OpA] \<and> lsy_log s' = [OpA, OpB]"
proof -
  have reach_star: "reach lockstep_init any_step t" if "any_step\<^sup>*\<^sup>* s t" "reach lockstep_init any_step s"
    for s t :: "nat lockstep_sys"
    using that by (induction rule: rtranclp_induct) (auto intro: reach_step)
  note r = reach_star[OF lockstep_run_cancel lockstep_run_to_window]
  show ?thesis
    by (intro exI conjI, rule r, simp, simp add: three_def, rule lockstep_run_after_cancel) simp_all
qed

text \<open>The run of the last theorem also shows the other properties at work.\<close>

theorem lockstep_alternates_exclusively_witness:
  "\<exists>s :: nat lockstep_sys. reach lockstep_init any_step s \<and> in_op (lsy_pc s 0) \<and> \<not> in_op (lsy_pc s 1)
    \<and> alternates (lsy_log s)"
proof -
  let ?s = "sys3 kReady kReady State_kARunning A_Ending2 LIdle LIdle [OpA]"
  from lockstep_alternates_exclusively[OF lockstep_run_to_window, of 0 1] show ?thesis
    by (intro exI[of _ ?s]) (auto simp: lockstep_run_to_window in_op_def)
qed

theorem lockstep_cancel_is_sticky_witness:
  "\<exists>s' :: nat lockstep_sys. any_step (sys3 kReady kReady State_kCancelled LIdle Cancel_PostA LIdle []) s'
    \<and> sys_state s' = State_kCancelled \<and> lsy_log s' = []"
proof -
  let ?s = "sys3 kReady kReady State_kCancelled LIdle Cancel_PostA LIdle []"
  from any_cancel[OF cancel_post_a[where t = 1 and s = ?s]]
  have step: "any_step ?s (sys3 kPosted kReady State_kCancelled LIdle Cancel_PostB LIdle [])"
    by (simp add: futex_run_simps)
  from lockstep_cancel_is_sticky[OF r_into_rtranclp[of any_step, OF step]] step show ?thesis
    by (intro exI conjI) (assumption | simp add: three_def)+
qed

end
