(* ===== verification/Shared_Object.thy ===== *)
theory Shared_Object
  imports Hardware_Interface_Props Domain_Socket_Props Lockstep
begin

text \<open>
  Objects that live in shared memory segments.  A C++ object of a class without pointers is its bytes in
  the payload of a file; the locale \<open>shm_object\<close> states what the representation of a class promises, and
  it is interpreted for \<open>BinaryFutex\<close>, \<open>Lockstep\<close> and \<open>RealtimeClockUpdate\<close>, the three classes the library
  shares between processes.  The rest are lemmas on managers that add and open further segments.
\<close>

subsection \<open>Objects in segments\<close>

text \<open>Reading and writing an object of \<open>n\<close> bytes through a pointer into a mapping\<close>

definition load_object :: "(u8 list \<Rightarrow> 'a) \<Rightarrow> nat \<Rightarrow> nat \<Rightarrow> os \<Rightarrow> 'a checked"
  where "load_object decode n pointer s = map_option (\<lambda>bs. decode (take n bs)) (load_payload pointer s)"

definition store_object :: "('a \<Rightarrow> u8 list) \<Rightarrow> 'a \<Rightarrow> nat \<Rightarrow> os \<Rightarrow> os checked"
  where "store_object encode x pointer s = store_payload pointer (encode x) s"

text \<open>The object representations: members in order, padded to the alignment.\<close>

definition sizeof_BinaryFutex :: nat
  where "sizeof_BinaryFutex = 8"

definition encode_BinaryFutex :: "BinaryFutex \<Rightarrow> u8 list"
  where "encode_BinaryFutex f =
    le_bytes 4 (unat (bf_val f)) @ [if bf_private_futex f then 1 else 0] @ replicate 3 0"

definition decode_BinaryFutex :: "u8 list \<Rightarrow> BinaryFutex"
  where "decode_BinaryFutex bs = \<lparr>bf_val = word_of_nat (le_value (take 4 bs)), bf_private_futex = (bs ! 4 \<noteq> 0)\<rparr>"

fun encode_LockstepState :: "LockstepState \<Rightarrow> u8"
  where
    "encode_LockstepState State_kBFinished = 0"
  | "encode_LockstepState State_kARunning = 1"
  | "encode_LockstepState State_kAFinished = 2"
  | "encode_LockstepState State_kBRunning = 3"
  | "encode_LockstepState State_kCancelled = 4"

definition decode_LockstepState :: "u8 \<Rightarrow> LockstepState"
  where "decode_LockstepState b =
    (if b = 0 then State_kBFinished else if b = 1 then State_kARunning else if b = 2 then State_kAFinished
     else if b = 3 then State_kBRunning else State_kCancelled)"

definition sizeof_Lockstep :: nat
  where "sizeof_Lockstep = 20"

definition encode_Lockstep :: "Lockstep \<Rightarrow> u8 list"
  where "encode_Lockstep ls =
    encode_BinaryFutex (lk_a_finished ls) @ encode_BinaryFutex (lk_b_finished ls)
    @ [encode_LockstepState (lk_state ls)] @ replicate 3 0"

definition decode_Lockstep :: "u8 list \<Rightarrow> Lockstep"
  where "decode_Lockstep bs =
    \<lparr>lk_a_finished = decode_BinaryFutex (take 8 bs), lk_b_finished = decode_BinaryFutex (take 8 (drop 8 bs)),
     lk_state = decode_LockstepState (bs ! 16)\<rparr>"

definition sizeof_RealtimeClockUpdate :: nat
  where "sizeof_RealtimeClockUpdate = 8"

definition encode_RealtimeClockUpdate :: "i64 \<Rightarrow> u8 list"
  where "encode_RealtimeClockUpdate t = le_bytes 8 (unat t)"

definition decode_RealtimeClockUpdate :: "u8 list \<Rightarrow> i64"
  where "decode_RealtimeClockUpdate bs = word_of_nat (le_value bs)"

text \<open>What the representation of a class promises to code that keeps its objects in segments.\<close>

locale shm_object =
  fixes encode :: "'a \<Rightarrow> u8 list"
    and decode :: "u8 list \<Rightarrow> 'a"
    and n :: nat
  assumes length_encode [simp]: "length (encode x) = n"
    and decode_encode [simp]: "decode (encode x) = x"
begin

lemma load_file:
  assumes "mapped_file (p - sizeof_SegmentHeader) s = Some i" "take n (f_payload (os_files s ! i)) = encode x"
  shows "load_object decode n p s = Some x"
  using assms by (simp add: load_object_def load_payload_def)

lemma store_file:
  assumes "mapped_file (p - sizeof_SegmentHeader) s = Some i" "n \<le> length (f_payload (os_files s ! i))"
  shows "store_object encode x p s = Some (s\<lparr>os_files := (os_files s)[i := (os_files s ! i)\<lparr>f_payload :=
      encode x @ drop n (f_payload (os_files s ! i))\<rparr>]\<rparr>)"
  using assms by (simp add: store_object_def store_payload_def memcpy_prefix_def Let_def)

end

interpretation futex_object: shm_object encode_BinaryFutex decode_BinaryFutex sizeof_BinaryFutex
proof unfold_locales
  fix f :: BinaryFutex
  have "unat (bf_val f) < 256 ^ 4" using unsigned_less[of "bf_val f", where ?'a = nat] by simp
  then show "decode_BinaryFutex (encode_BinaryFutex f) = f"
    by (simp add: encode_BinaryFutex_def decode_BinaryFutex_def nth_append)
qed (simp add: encode_BinaryFutex_def sizeof_BinaryFutex_def)

lemma decode_encode_LockstepState [simp]: "decode_LockstepState (encode_LockstepState st) = st"
  by (cases st) (simp_all add: decode_LockstepState_def)

interpretation lockstep_object: shm_object encode_Lockstep decode_Lockstep sizeof_Lockstep
proof unfold_locales
  fix ls :: Lockstep
  have "length (encode_BinaryFutex f) = 8" for f using futex_object.length_encode by (simp add: sizeof_BinaryFutex_def)
  then show "decode_Lockstep (encode_Lockstep ls) = ls" "length (encode_Lockstep ls) = sizeof_Lockstep"
    by (simp_all add: encode_Lockstep_def decode_Lockstep_def sizeof_Lockstep_def nth_append)
qed

interpretation update_object: shm_object encode_RealtimeClockUpdate decode_RealtimeClockUpdate sizeof_RealtimeClockUpdate
proof unfold_locales
  fix t :: i64
  have "unat t < 256 ^ 8" using unsigned_less[of t, where ?'a = nat] by simp
  then show "decode_RealtimeClockUpdate (encode_RealtimeClockUpdate t) = t"
    by (simp add: encode_RealtimeClockUpdate_def decode_RealtimeClockUpdate_def)
qed (simp add: encode_RealtimeClockUpdate_def sizeof_RealtimeClockUpdate_def)

lemma TypedGet_same:
  assumes "TypedMemorySegment_Get kind env k fm name s = Some (Inr ms, s')"
  shows "os_fds s' = os_fds s" "map f_size (os_files s') = map f_size (os_files s)"
proof -
  obtain sd s1 where g: "MemorySegment_Get env fm name s = (Inr sd, s1)"
    and n: "MemorySegment_new name sd kind s1 = Some (ms, s')"
    using assms by (auto simp: TypedMemorySegment_Get_def Let_def split: prod.splits sum.splits if_splits)
  have "os_fds s1 = os_fds s \<and> os_files s1 = os_files s"
    using g by (auto simp: MemorySegment_Get_def fstat_size_def mmap_def mlock_def sys_call_def Let_def
        split: option.splits prod.splits if_splits fd_target.splits)
  moreover have "os_fds t = os_fds u \<and> map f_size (os_files t) = map f_size (os_files u)"
    if "update_ref_count f b u = Some t" for f b t u
    using that by (auto simp: update_ref_count_def load_header_def store_header_def bind_eq_Some_conv map_update
        intro!: list_update_same_conv[THEN iffD2] nth_map split: option.splits simp: mapped_file_def split: if_splits)
  then have "os_fds s' = os_fds s1 \<and> map f_size (os_files s') = map f_size (os_files s1)"
    using n by (cases kind) (auto simp: MemorySegment_new_def Let_def split: if_splits)
  ultimately show "os_fds s' = os_fds s" "map f_size (os_files s') = map f_size (os_files s)" by simp_all
qed

text \<open>Opening a segment does not disturb the manager.\<close>

lemma smm_wf_same:
  assumes wf: "smm_wf m s" "os_wf s" and inv: "handle_inv (smm_fd_map m) ls s'"
    and maps: "\<And>b j. map_of (os_maps s) b = Some j \<Longrightarrow> map_of (os_maps s') b = Some j"
    and same: "os_fds s' = os_fds s" "map f_size (os_files s') = map f_size (os_files s)"
      "map (length \<circ> f_payload) (os_files s') = map (length \<circ> f_payload) (os_files s)"
  shows "smm_wf m s'"
proof -
  have len: "length (os_files s') = length (os_files s)" using same(2) by (rule map_eq_imp_length_eq)
  have fs: "f_size (os_files s' ! i) = f_size (os_files s ! i)" "length (f_payload (os_files s' ! i)) = length (f_payload (os_files s ! i))"
    if "i < length (os_files s)" for i
    using arg_cong[OF same(2), of "\<lambda>xs. xs ! i"] arg_cong[OF same(3), of "\<lambda>xs. xs ! i"] that len by simp_all
  have ok: "seg_ok s' info \<and> seg_file s' info = seg_file s info" if n: "(n, info) \<in> set (smm_segments m)" for n info
  proof -
    obtain i where i: "map_of (os_maps s) (msi_data info) = Some i" "map_of (os_fds s) (msi_fd info) = Some (Memfd i)"
      "i < length (os_files s)" "f_size (os_files s ! i) = msi_length info" "sizeof_SegmentHeader \<le> msi_length info"
      "length (f_payload (os_files s ! i)) = msi_length info - sizeof_SegmentHeader"
      using wf(1) n by (auto simp: smm_wf_def seg_ok_def)
    have "map_of (smm_segments m) n = Some info" using wf(1) n by (simp add: smm_wf_def)
    then have "map_of (smm_fd_map m) n = Some (msi_fd info)" using wf(1) by (simp add: smm_wf_def map_of_map comp_def)
    then have "f_header (os_files s' ! i) \<noteq> None" using inv i(2) same(1) unfolding handle_inv_def by metis
    then obtain h where h: "f_header (os_files s' ! i) = Some h" by blast
    then have "sh_mutex h = 1" using inv i(3) len by (auto simp: handle_inv_def)
    then show ?thesis using i h len fs[OF i(3)] same(1) maps[OF i(1)] by (auto simp: seg_ok_def seg_file_def)
  qed
  then have "map (seg_file s' \<circ> snd) (smm_segments m) = map (seg_file s \<circ> snd) (smm_segments m)" by auto
  moreover have "distinct (map (seg_file s \<circ> snd) (smm_segments m))" using wf(1) by (simp add: smm_wf_def)
  ultimately have "distinct (map (seg_file s' \<circ> snd) (smm_segments m))" by (simp only:)
  then show ?thesis using wf(1) ok by (auto simp: smm_wf_def)
qed

lemma smm_wf_opened:
  assumes wf: "smm_wf m s" "os_wf s" and inv: "handle_inv (smm_fd_map m) ls s'"
    and maps: "\<And>b j. map_of (os_maps s) b = Some j \<Longrightarrow> map_of (os_maps s') b = Some j"
    and same: "os_fds s' = os_fds s" "map f_size (os_files s') = map f_size (os_files s)"
      "map f_payload (os_files s') = map f_payload (os_files s)"
  shows "smm_wf m s'"
proof -
  have "map (length \<circ> f_payload) (os_files s') = map (length \<circ> f_payload) (os_files s)"
    using arg_cong[OF same(3), of "map length"] by simp
  from smm_wf_same[OF wf inv maps same(1,2) this] show ?thesis .
qed

text \<open>The manager \<open>m\<close> has file \<open>i\<close> under the name \<open>n\<close>.\<close>

definition names_file :: "SharedMemoryManager \<Rightarrow> string \<Rightarrow> os \<Rightarrow> nat \<Rightarrow> bool"
  where "names_file m n s i \<longleftrightarrow> (\<exists>fd. map_of (smm_fd_map m) n = Some fd \<and> map_of (os_fds s) fd = Some (Memfd i))"

text \<open>Adding a segment.\<close>

lemma add_named:
  assumes wf: "os_wf s" "smm_wf m s" and inv: "handle_inv (smm_fd_map m) ls s"
    and env: "never_fails env" and ok: "rejects name type_id m = kOk"
  obtains m' s' where "AddSegment env name must_be_used v type_id m s = Some (kOk, m', s')"
    "os_wf s'" "smm_wf m' s'" "handle_inv (smm_fd_map m') ls s'"
    "fst ` set (smm_segments m') = insert name (fst ` set (smm_segments m))"
    "length (smm_segments m') = Suc (length (smm_segments m))"
    "map f_payload (os_files s') = map f_payload (os_files s) @ [v]"
    "map f_size (os_files s') = map f_size (os_files s) @ [sizeof_SegmentHeader + length v]"
    "\<And>b j. map_of (os_maps s) b = Some j \<Longrightarrow> map_of (os_maps s') b = Some j"
    "names_file m' name s' (length (os_files s))" "\<And>n i. names_file m n s i \<Longrightarrow> names_file m' n s' i"
    "f_header (os_files s' ! length (os_files s)) = Some (SegmentHeader_new type_id)" "take (length (os_files s)) (os_files s') = os_files s"
proof -
  let ?fd = "lowest_free (os_fds s)"
  obtain k where a: "AddSegment env name must_be_used v type_id m s = Some (kOk, with_segment name must_be_used (length v) s m,
        grown ?fd ((new_file (length v) type_id)\<lparr>f_payload := v\<rparr>) (Some (sizeof_SegmentHeader + length v)) k s)"
    by (rule AddSegment_cases[OF wf, of env name must_be_used v type_id]) (use env ok in auto)
  let ?g = "(new_file (length v) type_id)\<lparr>f_payload := v\<rparr>"
  let ?m = "with_segment name must_be_used (length v) s m"
  let ?s = "grown ?fd ?g (Some (sizeof_SegmentHeader + length v)) k s"
  have new: "name \<notin> fst ` set (smm_segments m)" using ok by (auto simp: rejects_def split: if_splits)
  have fm: "smm_fd_map ?m = smm_fd_map m @ [(name, ?fd)]" by (simp add: with_segment_def)
  have "name \<notin> fst ` set (smm_fd_map m)" using new wf(2) by (force simp: smm_wf_def)
  then have "map_of (smm_fd_map m) name = None" by (simp add: map_of_eq_None_iff)
  then have fd: "map_of (smm_fd_map ?m) name = Some ?fd" by (simp add: fm map_add_def)
  have inv': "handle_inv (smm_fd_map ?m) ls ?s"
    unfolding fm by (rule handle_inv_grown[OF inv, where h = "SegmentHeader_new type_id"]) (simp_all add: new_file_def SegmentHeader_new_def)
  have wf': "os_wf ?s" "smm_wf ?m ?s"
    by (rule grown_wf(1)[OF wf(1) refl],
        rule with_segment_wf[OF wf ok, where h = "SegmentHeader_new type_id"]) (simp_all add: new_file_def SegmentHeader_new_def)
  have old: "map_of (os_maps ?s) b = Some j" if "map_of (os_maps s) b = Some j" for b j
    using grown_wf(2)[OF wf(1) refl] that by (simp add: os_extends_def)
  have fds: "map_of (os_fds ?s) d = Some t" if "map_of (os_fds s) d = Some t" for d t
    using grown_wf(2)[OF wf(1) refl] that by (simp add: os_extends_def)
  have n1: "names_file ?m name ?s (length (os_files s))" using fd by (simp add: names_file_def)
  have n2: "names_file ?m n ?s i" if "names_file m n s i" for n i
    using that fds by (auto simp: names_file_def fm)
  show thesis
    by (rule that[OF a wf' inv' _ _ _ _ old n1 n2]) (auto simp: with_segment_def new_file_def)
qed

lemma opened_kind:
  "TypedMemorySegment_Get kind env k fm name s = Some (Inr ms, s') \<Longrightarrow> ms_kind ms = kind"
  by (auto simp: TypedMemorySegment_Get_def MemorySegment_new_def Let_def split: prod.splits sum.splits if_splits)

text \<open>Opening a segment of the manager once more.\<close>

lemma open_again:
  assumes inv: "handle_inv (smm_fd_map m) ls s" "length ls < 2 ^ 31 - 1" and env: "never_fails env"
    and n: "names_file m name s i" and k: "0 < k" "sizeof_SegmentHeader + k \<le> f_size (os_files s ! i)"
    and kind: "kind = kReadOnly \<or> kind = kReadWrite"
  obtains ms s' where "TypedMemorySegment_Get kind env k (smm_fd_map m) name s = Some (Inr ms, s')"
    "handle_inv (smm_fd_map m) (ms # ls) s'" "map_of (os_maps s') (ms_header ms) = Some i" "ms_header ms \<noteq> 0"
    "ms_value ms = ms_header ms + sizeof_SegmentHeader" "map f_payload (os_files s') = map f_payload (os_files s)"
    "\<And>b j. map_of (os_maps s) b = Some j \<Longrightarrow> map_of (os_maps s') b = Some j"
    "os_fds s' = os_fds s" "map f_size (os_files s') = map f_size (os_files s)" "ms_kind ms = kind"
proof -
  obtain fd where fd: "map_of (smm_fd_map m) name = Some fd" "map_of (os_fds s) fd = Some (Memfd i)"
    using n by (auto simp: names_file_def)
  show thesis
  proof (cases rule: TypedMemorySegment_Get_cases[OF inv kind, of env k name])
    case (1 e s')
    have "os_wf s" using inv(1) by (simp add: handle_inv_def)
    from MemorySegment_Get_never_fails[OF this env fd] k 1(1) show thesis
      by (auto simp: TypedMemorySegment_Get_def SharedMemorySegmentFitsLowerSizeBound_def)
  next
    case (2 fd' j ms s')
    moreover have "j = i" using 2(3,4) fd by simp
    ultimately show thesis using TypedGet_same[OF 2(1)] opened_kind[OF 2(1)] by (intro that[OF 2(1)]) simp_all
  qed
qed

text \<open>Adding a segment and opening it.\<close>

lemma add_then_open:
  assumes wf: "os_wf s" "smm_wf m s" and inv: "handle_inv (smm_fd_map m) ls s" "length ls < 2 ^ 31 - 1"
    and env: "never_fails env" and ok: "rejects name type_id m = kOk" and v: "0 < length v"
    and kind: "kind = kReadOnly \<or> kind = kReadWrite"
  obtains m' s1 ms s' where "AddSegment env name must_be_used v type_id m s = Some (kOk, m', s1)"
    "TypedMemorySegment_Get kind env (length v) (smm_fd_map m') name s1 = Some (Inr ms, s')"
    "os_wf s'" "smm_wf m' s'" "handle_inv (smm_fd_map m') (ms # ls) s'"
    "fst ` set (smm_segments m') = insert name (fst ` set (smm_segments m))"
    "length (smm_segments m') = Suc (length (smm_segments m))"
    "map_of (os_maps s') (ms_header ms) = Some (length (os_files s))" "ms_header ms \<noteq> 0"
    "ms_value ms = ms_header ms + sizeof_SegmentHeader" "map f_payload (os_files s') = map f_payload (os_files s) @ [v]"
    "\<And>b j. map_of (os_maps s) b = Some j \<Longrightarrow> map_of (os_maps s') b = Some j"
    "names_file m' name s' (length (os_files s))" "\<And>n i. names_file m n s i \<Longrightarrow> names_file m' n s' i"
    "map f_size (os_files s') = map f_size (os_files s) @ [sizeof_SegmentHeader + length v]"
proof -
  let ?i = "length (os_files s)"
  obtain m' s1 where a: "AddSegment env name must_be_used v type_id m s = Some (kOk, m', s1)"
    "os_wf s1" "smm_wf m' s1" "handle_inv (smm_fd_map m') ls s1"
    "fst ` set (smm_segments m') = insert name (fst ` set (smm_segments m))"
    "length (smm_segments m') = Suc (length (smm_segments m))"
    "map f_payload (os_files s1) = map f_payload (os_files s) @ [v]"
    "map f_size (os_files s1) = map f_size (os_files s) @ [sizeof_SegmentHeader + length v]"
    "\<And>b j. map_of (os_maps s) b = Some j \<Longrightarrow> map_of (os_maps s1) b = Some j"
    "names_file m' name s1 ?i" "\<And>n i. names_file m n s i \<Longrightarrow> names_file m' n s1 i"
    by (rule add_named[OF wf inv(1) env ok, of must_be_used v]) blast
  have len: "length (os_files s1) = Suc ?i" using arg_cong[OF a(7), of length] by simp
  have size': "sizeof_SegmentHeader + length v \<le> f_size (os_files s1 ! ?i)"
    using arg_cong[OF a(8), of "\<lambda>xs. xs ! ?i"] len by (simp add: nth_append)
  obtain ms s' where b: "TypedMemorySegment_Get kind env (length v) (smm_fd_map m') name s1 = Some (Inr ms, s')"
    "handle_inv (smm_fd_map m') (ms # ls) s'" "map_of (os_maps s') (ms_header ms) = Some ?i" "ms_header ms \<noteq> 0"
    "ms_value ms = ms_header ms + sizeof_SegmentHeader" "map f_payload (os_files s') = map f_payload (os_files s1)"
    "\<And>b j. map_of (os_maps s1) b = Some j \<Longrightarrow> map_of (os_maps s') b = Some j"
    "os_fds s' = os_fds s1" "map f_size (os_files s') = map f_size (os_files s1)"
    by (rule open_again[OF a(4) inv(2) env a(10) v size' kind]) blast
  have "smm_wf m' s'" by (rule smm_wf_opened[OF a(3,2) b(2,7,8,9,6)])
  moreover have "os_wf s'" using b(2) by (simp add: handle_inv_def)
  moreover have "names_file m' n s' i" if "names_file m' n s1 i" for n i using that b(8) by (simp add: names_file_def)
  ultimately show thesis using a b by (intro that[OF a(1) b(1)]) simp_all
qed

text \<open>Writing to the payload of a file does not touch the reference counts.\<close>

lemma handle_inv_payload:
  assumes "handle_inv fm ls s" "i < length (os_files s)"
  shows "handle_inv fm ls (s\<lparr>os_files := (os_files s)[i := (os_files s ! i)\<lparr>f_payload := p\<rparr>]\<rparr>)" (is "handle_inv fm ls ?s")
proof -
  have h: "f_header (os_files ?s ! j) = f_header (os_files s ! j)" for j
    using assms(2) by (cases "j = i") simp_all
  have r: "refs kind j ls ?s = refs kind j ls s" for kind j by (rule refs_cong) simp
  have "os_wf ?s" using assms(1) by (simp add: handle_inv_def os_wf_store_file)
  then show ?thesis using assms(1) unfolding handle_inv_def r h by simp
qed

lemma mapped_file_less: "mapped_file b s = Some i \<Longrightarrow> i < length (os_files s)"
  by (auto simp: mapped_file_def split: option.splits if_splits)

lemma mapped_file_same [simp]: "mapped_file b ((s :: os)\<lparr>os_files := (os_files s)[i := f]\<rparr>) = mapped_file b s"
  by (simp add: mapped_file_def split: option.split)

lemma take_encode_length:
  assumes "take n xs = ys" "length ys = n"
  shows "n \<le> length xs"
  using assms by (metis length_take min.absorb_iff2)

text \<open>Only payloads differ.\<close>

definition payload_only :: "os \<Rightarrow> os \<Rightarrow> bool"
  where "payload_only s s' \<longleftrightarrow> os_maps s' = os_maps s \<and> os_fds s' = os_fds s \<and> map f_size (os_files s') = map f_size (os_files s)
    \<and> map f_header (os_files s') = map f_header (os_files s)
    \<and> (\<forall>fm ls. handle_inv fm ls s \<longrightarrow> handle_inv fm ls s')"

lemma payload_only_store:
  assumes "i < length (os_files s)"
  shows "payload_only s (s\<lparr>os_files := (os_files s)[i := (os_files s ! i)\<lparr>f_payload := p\<rparr>]\<rparr>)"
  using assms handle_inv_payload[OF _ assms]
  by (auto simp: payload_only_def map_update intro!: list_update_same_conv[THEN iffD2])

end
