(* ===== verification/Remote_Trigger.thy ===== *)
theory Remote_Trigger
  imports Shared_Object
begin

text \<open>
  Remote triggers, \<open>icon/interprocess/remote_trigger/remote_trigger_server.{h,cc}\<close>: a server waits on a request
  futex in shared memory, runs its callback and posts a response futex.  The server thread is \<open>Run_loop\<close>,
  whose environment says what other threads do between its accesses; \<open>trigger_step\<close> interleaves the server
  thread with a client and a thread that stops the server.
\<close>

definition kSemRequestSuffix :: string
  where "kSemRequestSuffix = ''.req''"

definition kSemResponseSuffix :: string
  where "kSemResponseSuffix = ''.res''"

definition kRequestTimeout :: int
  where "kRequestTimeout = 100 * 10 ^ 6"

definition typeid_BinaryFutex :: string
  where "typeid_BinaryFutex = ''N9intrinsic11BinaryFutexE''"

text \<open>
  A server.  A callback is a value of the type \<open>'c\<close>; what running it does to the memory and to the state
  \<open>'u\<close> of the program is the argument \<open>call\<close> of the operations.  \<open>rts_joinable\<close> says whether
  \<open>async_thread_\<close> is joinable.
\<close>

record 'c RemoteTriggerServer =
  rts_server_memory_name :: string
  rts_callback :: "'c option"
  rts_is_running :: bool
  rts_request_futex :: MemorySegment
  rts_response_futex :: MemorySegment
  rts_joinable :: bool

definition RemoteTriggerServer_new ::
    "string \<Rightarrow> MemorySegment \<Rightarrow> MemorySegment \<Rightarrow> 'c \<Rightarrow> 'c RemoteTriggerServer"
  where "RemoteTriggerServer_new server_memory_name request_futex response_futex callback =
    \<lparr>rts_server_memory_name = server_memory_name, rts_callback = Some callback, rts_is_running = False,
     rts_request_futex = request_futex, rts_response_futex = response_futex, rts_joinable = False\<rparr>"

definition RemoteTriggerServer_Create ::
    "sys_env \<Rightarrow> string \<Rightarrow> 'c \<Rightarrow> SharedMemoryManager \<Rightarrow> os \<Rightarrow>
     ((StatusCode + 'c RemoteTriggerServer) \<times> SharedMemoryManager \<times> os) checked"
  where "RemoteTriggerServer_Create env server_memory_name callback shm_manager s = do {
    let request_name = server_memory_name @ kSemRequestSuffix;
    let response_name = server_memory_name @ kSemResponseSuffix;
    let futex = encode_BinaryFutex (BinaryFutex_new False False);
    (status, m1, s1) \<leftarrow> AddSegment env request_name False futex typeid_BinaryFutex shm_manager s;
    if status \<noteq> kOk then Some (Inl status, m1, s1)
    else do {
      (status, m2, s2) \<leftarrow> AddSegment env response_name False futex typeid_BinaryFutex m1 s1;
      if status \<noteq> kOk then Some (Inl status, m2, s2)
      else do {
        (request_futex, s3) \<leftarrow> ReadOnlyMemorySegment_Get env sizeof_BinaryFutex (smm_fd_map m2) request_name s2;
        (case request_futex of
           Inl e \<Rightarrow> Some (Inl e, m2, s3)
         | Inr request \<Rightarrow> do {
             (response_futex, s4) \<leftarrow> ReadWriteMemorySegment_Get env sizeof_BinaryFutex (smm_fd_map m2) response_name s3;
             (case response_futex of
                Inl e \<Rightarrow> do { s5 \<leftarrow> CleanUpSharedMemory env request s4; Some (Inl e, m2, s5) }
              | Inr response \<Rightarrow> Some (Inr (RemoteTriggerServer_new server_memory_name request response callback), m2, s4))
           })
      }
    }
  }"

definition RequestStop :: "'c RemoteTriggerServer \<Rightarrow> 'c RemoteTriggerServer"
  where "RequestStop server = server\<lparr>rts_is_running := False\<rparr>"

text \<open>Joining waits for the end of the thread, for ever if its loop does not end (\<open>ends\<close>).\<close>

definition JoinAsyncThread :: "bool \<Rightarrow> 'c RemoteTriggerServer \<Rightarrow> 'c RemoteTriggerServer checked"
  where "JoinAsyncThread ends server =
    (if rts_joinable server then if ends then Some (server\<lparr>rts_joinable := False\<rparr>) else None else Some server)"

definition RemoteTriggerServer_IsStarted :: "'c RemoteTriggerServer \<Rightarrow> bool"
  where "RemoteTriggerServer_IsStarted server = rts_is_running server"

definition IsReadyToStart :: "'c RemoteTriggerServer \<Rightarrow> bool"
  where "IsReadyToStart server \<longleftrightarrow> \<not> RemoteTriggerServer_IsStarted server \<and> \<not> rts_joinable server"

text \<open>The move constructor gives the new object and the source; a move assignment gives back the segments of the target.\<close>

definition moved_from :: "'c RemoteTriggerServer \<Rightarrow> 'c RemoteTriggerServer"
  where "moved_from other = other\<lparr>rts_server_memory_name := [], rts_callback := None,
    rts_request_futex := MemorySegment_default, rts_response_futex := MemorySegment_default\<rparr>"

definition RemoteTriggerServer_move ::
    "bool \<Rightarrow> 'c RemoteTriggerServer \<Rightarrow> ('c RemoteTriggerServer \<times> 'c RemoteTriggerServer) checked"
  where "RemoteTriggerServer_move ends other = do {
    other1 \<leftarrow> JoinAsyncThread ends (RequestStop other);
    Some (other1\<lparr>rts_is_running := False, rts_joinable := False\<rparr>, moved_from other1)
  }"

definition RemoteTriggerServer_move_assign ::
    "sys_env \<Rightarrow> bool \<Rightarrow> bool \<Rightarrow> 'c RemoteTriggerServer \<Rightarrow> 'c RemoteTriggerServer \<Rightarrow> os \<Rightarrow>
     ('c RemoteTriggerServer \<times> 'c RemoteTriggerServer \<times> os) checked"
  where "RemoteTriggerServer_move_assign env ends ends' this other s = do {
    other1 \<leftarrow> JoinAsyncThread ends (RequestStop other);
    this1 \<leftarrow> JoinAsyncThread ends' (RequestStop this);
    s1 \<leftarrow> CleanUpSharedMemory env (rts_request_futex this1) s;
    s2 \<leftarrow> CleanUpSharedMemory env (rts_response_futex this1) s1;
    Some (this1\<lparr>rts_server_memory_name := rts_server_memory_name other1, rts_callback := rts_callback other1,
            rts_request_futex := rts_request_futex other1, rts_response_futex := rts_response_futex other1\<rparr>,
          moved_from other1, s2)
  }"

text \<open>A call of a member function on a futex in a segment\<close>

definition on_futex :: "(BinaryFutex \<Rightarrow> ('r \<times> BinaryFutex) option) \<Rightarrow> MemorySegment \<Rightarrow> os \<Rightarrow> ('r \<times> os) checked"
  where "on_futex f segment s = do {
    futex \<leftarrow> load_object decode_BinaryFutex sizeof_BinaryFutex (ms_value segment) s;
    (r, futex1) \<leftarrow> f futex;
    s1 \<leftarrow> store_object encode_BinaryFutex futex1 (ms_value segment) s;
    Some (r, s1)
  }"

text \<open>The destructor; the segments are given back when the members are destroyed.\<close>

definition RemoteTriggerServer_destroy :: "sys_env \<Rightarrow> bool \<Rightarrow> 'c RemoteTriggerServer \<Rightarrow> os \<Rightarrow> os checked"
  where "RemoteTriggerServer_destroy env ends server s = do {
    server1 \<leftarrow> JoinAsyncThread ends (RequestStop server);
    s1 \<leftarrow> (if ms_value (rts_response_futex server1) \<noteq> 0
          then map_option snd (on_futex (\<lambda>f. Some ((), BinaryFutex_Close f)) (rts_response_futex server1) s)
          else Some s);
    s2 \<leftarrow> CleanUpSharedMemory env (rts_response_futex server1) s1;
    CleanUpSharedMemory env (rts_request_futex server1) s2
  }"

text \<open>Answering one request: the callback, then the response.\<close>

definition answer_request ::
    "('c \<Rightarrow> 'u \<times> os \<Rightarrow> ('u \<times> os) checked) \<Rightarrow> 'c \<Rightarrow> 'c RemoteTriggerServer \<Rightarrow> 'u \<times> os \<Rightarrow> (bool \<times> 'u \<times> os) checked"
  where "answer_request call callback server w = do {
    (u, s) \<leftarrow> call callback w;
    (post_status, s1) \<leftarrow> on_futex (\<lambda>f. Some (BinaryFutex_Post f)) (rts_response_futex server) s;
    Some (post_status = kOk, u, s1)
  }"

definition Query ::
    "('c \<Rightarrow> 'u \<times> os \<Rightarrow> ('u \<times> os) checked) \<Rightarrow> wait_env \<Rightarrow> int \<Rightarrow> 'c RemoteTriggerServer \<Rightarrow> 'u \<times> os \<Rightarrow> (bool \<times> 'u \<times> os) checked"
  where "Query call wenv now server w =
    (if rts_is_running server then Some (False, w)
     else do {
       (wait_status, s1) \<leftarrow> on_futex (BinaryFutex_WaitFor wenv now kRequestTimeout) (rts_request_futex server) (snd w);
       if wait_status = kDeadlineExceeded then Some (False, fst w, s1)
       else if wait_status \<noteq> kOk then Some (False, fst w, s1)
       else (case rts_callback server of
               None \<Rightarrow> Some (False, fst w, s1)
             | Some callback \<Rightarrow> answer_request call callback server (fst w, s1))
     })"

text \<open>
  The loop of \<open>Run\<close>.  Other threads act between the accesses of the loop: \<open>te_stop k\<close> says that a request
  to stop has arrived before the \<open>k\<close>-th look at \<open>is_running_\<close>, \<open>te_peer k\<close> is what others do to the memory before
  the \<open>k\<close>-th wait, and \<open>te_wait k\<close> and \<open>te_now k\<close> are what that wait meets.
\<close>

record trigger_env =
  te_stop :: "nat \<Rightarrow> bool"
  te_peer :: "nat \<Rightarrow> os \<Rightarrow> os"
  te_wait :: "nat \<Rightarrow> wait_env"
  te_now :: "nat \<Rightarrow> int"

definition look :: "trigger_env \<Rightarrow> nat \<Rightarrow> 'c RemoteTriggerServer \<Rightarrow> 'c RemoteTriggerServer"
  where "look tenv k server = (if te_stop tenv k then RequestStop server else server)"

partial_function (option) Run_loop ::
    "('c \<Rightarrow> 'u \<times> os \<Rightarrow> ('u \<times> os) option) \<Rightarrow> trigger_env \<Rightarrow> nat \<Rightarrow> 'c RemoteTriggerServer \<Rightarrow> 'u \<times> os \<Rightarrow>
     ('c RemoteTriggerServer \<times> 'u \<times> os) option"
  where "Run_loop call tenv k server w =
    (let server1 = look tenv (2 * k) server
     in if \<not> rts_is_running server1 then Some (server1, w)
        else Option.bind (on_futex (BinaryFutex_WaitFor (te_wait tenv k) (te_now tenv k) kRequestTimeout)
                            (rts_request_futex server1) (te_peer tenv k (snd w)))
          (\<lambda>(wait_status, s1).
             if wait_status = kDeadlineExceeded then Run_loop call tenv (Suc k) server1 (fst w, s1)
             else if wait_status \<noteq> kOk then Some (RequestStop server1, fst w, s1)
             else let server2 = look tenv (2 * k + 1) server1
                  in if \<not> rts_is_running server2 then Some (server2, fst w, s1)
                     else (case rts_callback server2 of
                             None \<Rightarrow> Some (RequestStop server2, fst w, s1)
                           | Some callback \<Rightarrow>
                               Option.bind (answer_request call callback server2 (fst w, s1))
                                 (\<lambda>(posted, w2).
                                    if posted then Run_loop call tenv (Suc k) server2 w2
                                    else Some (RequestStop server2, w2)))))"

declare Run_loop.simps [code]

text \<open>\<open>Run\<close> with the answer of the prelude, \<open>None\<close> if there is none\<close>

definition RemoteTriggerServer_Run ::
    "('c \<Rightarrow> 'u \<times> os \<Rightarrow> ('u \<times> os) checked) \<Rightarrow> trigger_env \<Rightarrow> StatusCode option \<Rightarrow> 'c RemoteTriggerServer \<Rightarrow> 'u \<times> os \<Rightarrow>
     ('c RemoteTriggerServer \<times> 'u \<times> os) checked"
  where "RemoteTriggerServer_Run call tenv prelude server w =
    (case prelude of
       Some status \<Rightarrow> if status \<noteq> kOk then Some (server\<lparr>rts_is_running := False\<rparr>, w) else Run_loop call tenv 0 server w
     | None \<Rightarrow> Run_loop call tenv 0 server w)"

definition Start ::
    "('c \<Rightarrow> 'u \<times> os \<Rightarrow> ('u \<times> os) checked) \<Rightarrow> trigger_env \<Rightarrow> 'c RemoteTriggerServer \<Rightarrow> 'u \<times> os \<Rightarrow>
     ('c RemoteTriggerServer \<times> 'u \<times> os) checked"
  where "Start call tenv server w =
    (if rts_is_running server then Some (server, w)
     else RemoteTriggerServer_Run call tenv None (server\<lparr>rts_is_running := True\<rparr>) w)"

text \<open>
  \<open>StartAsync\<close> up to the start of the thread, which runs \<open>RemoteTriggerServer_Run\<close>.  A thread that was
  constructed is joinable; if the system cannot start one, the constructor throws.
\<close>

definition StartAsync :: "bool \<Rightarrow> 'c RemoteTriggerServer \<Rightarrow> (StatusCode \<times> 'c RemoteTriggerServer) checked"
  where "StartAsync thread_starts server =
    (if \<not> rts_is_running server \<and> rts_joinable server then Some (kFailedPrecondition, server)
     else if rts_is_running server then Some (kOk, server)
     else if thread_starts then Some (kOk, server\<lparr>rts_is_running := True, rts_joinable := True\<rparr>)
     else None)"

subsection \<open>A server and a client\<close>

text \<open>
  The server thread, one client and a thread that stops the server, as an interleaving at the accesses to the
  two futexes and to \<open>is_running_\<close>.  The client posts a request and waits for the response, one at a time.
  The server is at the head of its loop, has taken a request (before and after it looks at \<open>is_running_\<close>), has
  finished the callback, or has left the loop.  The counters are not in the program: requests posted,
  callbacks run, responses received.
\<close>

datatype server_pc = SHead | SWaiting | STaken | SCalling | SCalled | SDone

record trigger_sys =
  ts_request :: BinaryFutex
  ts_response :: BinaryFutex
  ts_is_running :: bool
  ts_server :: server_pc
  ts_client_waits :: bool
  ts_requests :: nat
  ts_calls :: nat
  ts_responses :: nat

definition trigger_init :: "trigger_sys \<Rightarrow> bool"
  where "trigger_init s \<longleftrightarrow>
    s = \<lparr>ts_request = BinaryFutex_new False False, ts_response = BinaryFutex_new False False, ts_is_running = True,
         ts_server = SHead, ts_client_waits = False, ts_requests = 0, ts_calls = 0, ts_responses = 0\<rparr>"

inductive trigger_step :: "trigger_sys \<Rightarrow> trigger_sys \<Rightarrow> bool"
  where
    client_post: "\<not> ts_client_waits s \<Longrightarrow> BinaryFutex_Post (ts_request s) = (kOk, f) \<Longrightarrow>
      trigger_step s (s\<lparr>ts_request := f, ts_client_waits := True, ts_requests := Suc (ts_requests s)\<rparr>)"
  | client_wait: "ts_client_waits s \<Longrightarrow> BinaryFutex_TryWait (ts_response s) = (Some True, f) \<Longrightarrow>
      trigger_step s (s\<lparr>ts_response := f, ts_client_waits := False, ts_responses := Suc (ts_responses s)\<rparr>)"
  | stop: "trigger_step s (s\<lparr>ts_is_running := False\<rparr>)"
  | head_running: "ts_server s = SHead \<Longrightarrow> ts_is_running s \<Longrightarrow> trigger_step s (s\<lparr>ts_server := SWaiting\<rparr>)"
  | head_stopped: "ts_server s = SHead \<Longrightarrow> \<not> ts_is_running s \<Longrightarrow> trigger_step s (s\<lparr>ts_server := SDone\<rparr>)"
  | wait_timeout: "ts_server s = SWaiting \<Longrightarrow> trigger_step s (s\<lparr>ts_server := SHead\<rparr>)"
  | wait_taken: "ts_server s = SWaiting \<Longrightarrow> BinaryFutex_TryWait (ts_request s) = (Some True, f) \<Longrightarrow>
      trigger_step s (s\<lparr>ts_request := f, ts_server := STaken\<rparr>)"
  | taken_running: "ts_server s = STaken \<Longrightarrow> ts_is_running s \<Longrightarrow> trigger_step s (s\<lparr>ts_server := SCalling\<rparr>)"
  | taken_stopped: "ts_server s = STaken \<Longrightarrow> \<not> ts_is_running s \<Longrightarrow> trigger_step s (s\<lparr>ts_server := SDone\<rparr>)"
  | call: "ts_server s = SCalling \<Longrightarrow> trigger_step s (s\<lparr>ts_server := SCalled, ts_calls := Suc (ts_calls s)\<rparr>)"
  | respond: "ts_server s = SCalled \<Longrightarrow> BinaryFutex_Post (ts_response s) = (kOk, f) \<Longrightarrow>
      trigger_step s (s\<lparr>ts_response := f, ts_server := SHead\<rparr>)"

definition trigger_inv :: "trigger_sys \<Rightarrow> bool"
  where "trigger_inv s \<longleftrightarrow>
    (let req = bf_val (ts_request s); res = bf_val (ts_response s); pc = ts_server s; n = ts_responses s
     in if \<not> ts_client_waits s
        then req = kReady \<and> res = kReady \<and> pc \<in> {SHead, SWaiting, SDone} \<and> ts_requests s = n \<and> ts_calls s = n
        else ts_requests s = Suc n \<and>
         (req = kPosted \<and> res = kReady \<and> pc \<in> {SHead, SWaiting, SDone} \<and> ts_calls s = n
          \<or> req = kReady \<and> res = kReady \<and> pc \<in> {STaken, SCalling, SDone} \<and> ts_calls s = n
          \<or> req = kReady \<and> res = kReady \<and> pc = SCalled \<and> ts_calls s = Suc n
          \<or> req = kReady \<and> res = kPosted \<and> pc \<in> {SHead, SWaiting, SDone} \<and> ts_calls s = Suc n))"

end
