(* ===== verification/Transition_Guard.thy ===== *)
theory Transition_Guard
  imports Fixed_String
begin

text \<open>
  The state machine of a hardware module: \<open>icon/hal/hardware_module_util.cc\<close> and
  \<open>icon/hal/hardware_module_util.h\<close> (the transition guard, the graph of its allowed transitions, the
  exit codes and the promise the exit code is reported through).
\<close>

datatype TransitionGuardResult = kNoOp | kAllowed | kProhibited

definition HardwareModuleTransitionGuard :: "StateCode \<Rightarrow> StateCode \<Rightarrow> TransitionGuardResult"
  where "HardwareModuleTransitionGuard from to =
    (if from = to then kNoOp
     else if to = kFatallyFaulted then kAllowed
     else case from of
       kPreparing \<Rightarrow> if to \<in> {kPrepared, kFaulted, kFatallyFaulted} then kAllowed else kProhibited
     | kPrepared \<Rightarrow> if to \<in> {kActivating, kDeactivating} then kAllowed else kProhibited
     | kDeactivating \<Rightarrow> if to = kDeactivated then kAllowed else kProhibited
     | kDeactivated \<Rightarrow>
         if to = kDeactivating then kNoOp
         else if to \<in> {kPreparing, kInitFailed} then kAllowed else kProhibited
     | kActivating \<Rightarrow> if to = kActivated then kAllowed else kProhibited
     | kActivated \<Rightarrow>
         if to \<in> {kMotionDisabling, kClearingFaults} then kNoOp
         else if to \<in> {kMotionEnabling, kDeactivating, kFaulted} then kAllowed else kProhibited
     | kMotionEnabling \<Rightarrow>
         if to \<in> {kDeactivating, kMotionEnabled, kFaulted} then kAllowed else kProhibited
     | kMotionEnabled \<Rightarrow>
         if to \<in> {kMotionEnabling, kClearingFaults} then kNoOp
         else if to \<in> {kMotionDisabling, kFaulted, kDeactivating} then kAllowed else kProhibited
     | kMotionDisabling \<Rightarrow>
         if to \<in> {kFaulted, kActivated, kDeactivating} then kAllowed else kProhibited
     | kFaulted \<Rightarrow>
         if to \<in> {kClearingFaults, kDeactivating, kFaulted} then kAllowed else kProhibited
     | kClearingFaults \<Rightarrow>
         if to \<in> {kDeactivating, kFaulted, kActivated} then kAllowed else kProhibited
     | kInitFailed \<Rightarrow> kProhibited
     | kFatallyFaulted \<Rightarrow> kProhibited)"

text \<open>
  \<open>EnumValuesStateCode\<close> and \<open>EnumNameStateCode\<close> are generated by the flatbuffers compiler: the
  parameters \<open>enum_values\<close> and \<open>enum_name\<close>.
\<close>

definition transitions_dot :: "StateCode list \<Rightarrow> (StateCode \<Rightarrow> string) \<Rightarrow> (StateCode \<times> StateCode) list \<Rightarrow> string"
  where "transitions_dot enum_values enum_name transitions =
    ''digraph StateMachine {'' @ [CHR 0x0A]
    @ concat (map (\<lambda>s. ''  '' @ enum_name s @ '' [label='' @ [CHR 0x22] @ enum_name s @ [CHR 0x22]
        @ ''];'' @ [CHR 0x0A]) enum_values)
    @ concat (map (\<lambda>(from, to). ''  '' @ enum_name from @ '' -> '' @ enum_name to @ '';''
        @ [CHR 0x0A]) transitions)
    @ ''}'' @ [CHR 0x0A]"

definition allowed_transitions :: "StateCode list \<Rightarrow> (StateCode \<times> StateCode) list"
  where "allowed_transitions enum_values =
    concat (map (\<lambda>from. map (\<lambda>to. (from, to))
      (filter (\<lambda>to. HardwareModuleTransitionGuard from to = kAllowed) enum_values)) enum_values)"

definition CreateDotGraphvizStateMachineString :: "StateCode list \<Rightarrow> (StateCode \<Rightarrow> string) \<Rightarrow> string"
  where "CreateDotGraphvizStateMachineString enum_values enum_name =
    transitions_dot enum_values enum_name (allowed_transitions enum_values)"

datatype HardwareModuleExitCode =
  kNormalShutdown | kRestartRequested | kFatalFaultDuringInit | kFatalFaultDuringExec

definition exit_code_value :: "HardwareModuleExitCode \<Rightarrow> int"
  where "exit_code_value c =
    (case c of kNormalShutdown \<Rightarrow> 0 | kRestartRequested \<Rightarrow> 110
     | kFatalFaultDuringInit \<Rightarrow> 111 | kFatalFaultDuringExec \<Rightarrow> 112)"

text \<open>
  \<open>SharedPromiseWrapper\<close>: \<open>spw_promise\<close> tells that the optional promise is engaged, \<open>spw_future\<close> is the
  shared state the futures read.  Setting a promise whose shared state has a value throws
  (\<^term>\<open>None\<close>).
\<close>

record 'a SharedPromiseWrapper =
  spw_promise :: bool
  spw_future :: "'a option"

definition SharedPromiseWrapper_new :: "'a SharedPromiseWrapper"
  where "SharedPromiseWrapper_new = \<lparr>spw_promise = True, spw_future = None\<rparr>"

definition SetValue :: "'a \<Rightarrow> 'a SharedPromiseWrapper \<Rightarrow> (StatusCode \<times> 'a SharedPromiseWrapper) checked"
  where "SetValue v w =
    (if \<not> spw_promise w then Some (kFailedPrecondition, w)
     else if spw_future w \<noteq> None then None
     else Some (kOk, w\<lparr>spw_future := Some v, spw_promise := False\<rparr>))"

definition GetSharedFuture :: "'a SharedPromiseWrapper \<Rightarrow> 'a option"
  where "GetSharedFuture w = spw_future w"

definition HasBeenSet :: "'a SharedPromiseWrapper \<Rightarrow> bool"
  where "HasBeenSet w = (\<not> spw_promise w)"

primrec set_values :: "'a list \<Rightarrow> 'a SharedPromiseWrapper \<Rightarrow> (StatusCode list \<times> 'a SharedPromiseWrapper) checked"
  where
    "set_values [] w = Some ([], w)"
  | "set_values (v # vs) w =
      (case SetValue v w of
         None \<Rightarrow> None
       | Some (c, w') \<Rightarrow> map_option (\<lambda>(cs, w''). (c # cs, w'')) (set_values vs w'))"

subsection \<open>Paths of allowed transitions\<close>

definition allowed :: "StateCode \<Rightarrow> StateCode \<Rightarrow> bool"
  where "allowed from to \<longleftrightarrow> HardwareModuleTransitionGuard from to = kAllowed"

fun allowed_path :: "StateCode list \<Rightarrow> bool"
  where
    "allowed_path (s # t # ss) \<longleftrightarrow> allowed s t \<and> allowed_path (t # ss)"
  | "allowed_path _ \<longleftrightarrow> True"

lemmas guard_defs = HardwareModuleTransitionGuard_def allowed_def

lemma guard_refl [simp]: "HardwareModuleTransitionGuard s s = kNoOp"
  by (simp add: HardwareModuleTransitionGuard_def)

lemma allowed_irrefl [simp]: "\<not> allowed s s"
  by (simp add: guard_defs)

lemma allowed_MotionEnabled_iff [simp]: "allowed s kMotionEnabled \<longleftrightarrow> s = kMotionEnabling"
  by (cases s) (simp_all add: guard_defs)

lemma allowed_MotionEnabling_iff: "allowed s kMotionEnabling \<longleftrightarrow> s = kActivated"
  by (cases s) (simp_all add: guard_defs)

lemma allowed_Activated_iff:
  "allowed s kActivated \<longleftrightarrow> s \<in> {kActivating, kMotionDisabling, kClearingFaults}"
  by (cases s) (simp_all add: guard_defs)

lemma allowed_MotionDisabling_iff: "allowed s kMotionDisabling \<longleftrightarrow> s = kMotionEnabled"
  by (cases s) (simp_all add: guard_defs)

lemma allowed_from_final [simp]:
  "\<not> allowed kFatallyFaulted s" "allowed kInitFailed s \<longleftrightarrow> s = kFatallyFaulted"
  by (cases s; simp add: guard_defs)+

lemma allowed_Activating_iff: "allowed s kActivating \<longleftrightarrow> s = kPrepared"
  by (cases s) (simp_all add: guard_defs)

lemma allowed_Prepared_iff: "allowed s kPrepared \<longleftrightarrow> s = kPreparing"
  by (cases s) (simp_all add: guard_defs)

lemma allowed_Preparing_iff: "allowed s kPreparing \<longleftrightarrow> s = kDeactivated"
  by (cases s) (simp_all add: guard_defs)

lemma allowed_fault: "allowed kMotionEnabled kFaulted" "s \<noteq> kFatallyFaulted \<Longrightarrow> allowed s kFatallyFaulted"
  by (simp_all add: guard_defs)

lemmas allowed_into = allowed_MotionEnabling_iff allowed_Activated_iff allowed_MotionDisabling_iff
  allowed_Activating_iff allowed_Prepared_iff allowed_Preparing_iff

text \<open>
  The states from which motion can be enabled again without clearing a fault or deactivating the
  module: a path that avoids \<open>kClearingFaults\<close> and \<open>kDeactivating\<close> never enters them from outside.
\<close>

definition healthy :: "StateCode set"
  where "healthy = {kPreparing, kPrepared, kActivating, kActivated, kMotionEnabling,
    kMotionEnabled, kMotionDisabling, kDeactivated, kClearingFaults, kDeactivating}"

lemma allowed_stays_unhealthy:
  "allowed s t \<Longrightarrow> s \<notin> healthy \<Longrightarrow> t \<notin> {kClearingFaults, kDeactivating} \<Longrightarrow> t \<notin> healthy"
  by (cases s; cases t; simp add: guard_defs healthy_def)

lemma path_stays_unhealthy:
  assumes "allowed_path (s # ss)" "s \<notin> healthy" "kClearingFaults \<notin> set ss" "kDeactivating \<notin> set ss"
  shows "set ss \<inter> healthy = {}"
  using assms
proof (induction ss arbitrary: s)
  case (Cons t ss)
  then show ?case using allowed_stays_unhealthy[of s t] by auto
qed simp

lemma path_into_final:
  "allowed_path (ss @ [s, kMotionEnabled]) \<Longrightarrow> s = kMotionEnabling"
  by (induction ss rule: allowed_path.induct) auto

lemma allowed_path_append_singleton:
  "allowed_path (ss @ [s]) \<longleftrightarrow> allowed_path ss \<and> (ss = [] \<or> allowed (last ss) s)"
  by (induction ss rule: allowed_path.induct) auto

text \<open>The transition guard is safe.  A fatal fault is final and a failed initialisation can only
  become a fatal fault; motion becomes enabled only from \<open>kMotionEnabling\<close>, which is entered only
  from \<open>kActivated\<close>; and any sequence of allowed transitions that leads from a fault to enabled motion
  passes through \<open>kClearingFaults\<close> or \<open>kDeactivating\<close>.\<close>
theorem transition_guard_safety:
  "(\<forall>path. allowed_path (kFaulted # path) \<and> kMotionEnabled \<in> set path \<longrightarrow>
      kClearingFaults \<in> set path \<or> kDeactivating \<in> set path)
    \<and> (\<forall>t. HardwareModuleTransitionGuard kFatallyFaulted t \<noteq> kAllowed)
    \<and> (\<forall>t. HardwareModuleTransitionGuard kInitFailed t = kAllowed \<longleftrightarrow> t = kFatallyFaulted)
    \<and> (\<forall>f. HardwareModuleTransitionGuard f kMotionEnabled = kAllowed \<longleftrightarrow> f = kMotionEnabling)
    \<and> (\<forall>f. HardwareModuleTransitionGuard f kMotionEnabling = kAllowed \<longleftrightarrow> f = kActivated)"
proof -
  have "kMotionEnabled \<in> healthy" "kFaulted \<notin> healthy" by (simp_all add: healthy_def)
  then have "kClearingFaults \<in> set path \<or> kDeactivating \<in> set path"
    if "allowed_path (kFaulted # path)" "kMotionEnabled \<in> set path" for path
    using path_stays_unhealthy[OF that(1)] that(2) by blast
  then show ?thesis
    using allowed_from_final allowed_MotionEnabled_iff allowed_MotionEnabling_iff
    by (simp add: allowed_def)
qed

theorem transition_guard_safety_witness:
  "allowed_path [kFaulted, kClearingFaults, kActivated, kMotionEnabling, kMotionEnabled]
    \<and> kClearingFaults \<in> set [kClearingFaults, kActivated, kMotionEnabling, kMotionEnabled]"
  using conjunct1[OF transition_guard_safety, THEN spec,
      of "[kClearingFaults, kActivated, kMotionEnabling, kMotionEnabled]"]
  by (simp add: guard_defs)

text \<open>Shortest ways back to \<open>kDeactivated\<close> and on to enabled motion.\<close>

definition deactivate_path :: "StateCode \<Rightarrow> StateCode list"
  where "deactivate_path s =
    (case s of
       kDeactivated \<Rightarrow> [kDeactivated]
     | kDeactivating \<Rightarrow> [kDeactivating, kDeactivated]
     | kPreparing \<Rightarrow> [kPreparing, kPrepared, kDeactivating, kDeactivated]
     | kActivating \<Rightarrow> [kActivating, kActivated, kDeactivating, kDeactivated]
     | _ \<Rightarrow> [s, kDeactivating, kDeactivated])"

definition enable_path :: "StateCode list"
  where "enable_path =
    [kDeactivated, kPreparing, kPrepared, kActivating, kActivated, kMotionEnabling, kMotionEnabled]"

lemma allowed_path_join:
  "allowed_path (xs @ [s]) \<Longrightarrow> allowed_path (s # ys) \<Longrightarrow> allowed_path (xs @ s # ys)"
  by (induction xs rule: allowed_path.induct) auto

lemma deactivate_path_allowed:
  "s \<notin> {kFatallyFaulted, kInitFailed} \<Longrightarrow> allowed_path (deactivate_path s)
    \<and> hd (deactivate_path s) = s \<and> deactivate_path s = butlast (deactivate_path s) @ [kDeactivated]"
  by (cases s) (simp_all add: deactivate_path_def guard_defs)

text \<open>The guard never locks a module up: from every state other than the two final ones there is
  a sequence of allowed transitions to enabled motion (and it is a path of the guard from that state).\<close>
theorem motion_always_reachable:
  assumes "s \<notin> {kFatallyFaulted, kInitFailed}"
  shows "\<exists>path. allowed_path (s # path) \<and> last (s # path) = kMotionEnabled"
proof -
  obtain xs where p: "allowed_path (xs @ [kDeactivated])" "hd (xs @ [kDeactivated]) = s"
    using deactivate_path_allowed[OF assms] that[of "butlast (deactivate_path s)"] by simp
  have "allowed_path (xs @ enable_path)"
    using allowed_path_join[OF p(1), of "tl enable_path"] by (simp add: enable_path_def guard_defs)
  moreover have "hd (xs @ enable_path) = s" using p(2) by (cases xs) (simp_all add: enable_path_def)
  ultimately have "allowed_path (s # tl (xs @ enable_path)) \<and> last (s # tl (xs @ enable_path)) = kMotionEnabled"
    by (cases xs) (simp_all add: enable_path_def)
  then show ?thesis by blast
qed

theorem motion_always_reachable_witness:
  "\<exists>path. allowed_path (kFaulted # path) \<and> last (kFaulted # path) = kMotionEnabled"
  using motion_always_reachable[of kFaulted] by simp

lemma set_values_closed:
  "\<not> spw_promise w \<Longrightarrow> set_values vs w = Some (replicate (length vs) kFailedPrecondition, w)"
  by (induction vs) (simp_all add: SetValue_def)

text \<open>Of all values reported through a shared promise (the exit code of a hardware module) the
  first one wins: it is accepted, every later one is answered \<open>kFailedPrecondition\<close>, no report
  throws, and the futures read the first value.\<close>
theorem shared_promise_first_wins:
  "\<exists>w. set_values (v # vs) SharedPromiseWrapper_new
      = Some (kOk # replicate (length vs) kFailedPrecondition, w)
    \<and> GetSharedFuture w = Some v \<and> HasBeenSet w"
  by (simp add: SharedPromiseWrapper_new_def SetValue_def set_values_closed GetSharedFuture_def
      HasBeenSet_def)

end
