(* ===== verification/Rt_Queue.thy ===== *)
theory Rt_Queue
  imports Status
begin

text \<open>
  The realtime queue: \<open>platform/common/buffers/rt_queue_buffer.h\<close>, \<open>rt_queue.h\<close> and
  \<open>rt_queue_multi_writer.h\<close>.

  The ring buffer is a record with the fields of \<open>RtQueueBuffer\<close>; a pointer into \<open>buffer_\<close> is an
  index, and \<open>nullptr\<close> is \<^term>\<open>None\<close>.  Operations with an \<open>INTR_CHECK\<close> return a \<open>checked\<close> value.
  Below the sequential operations, the ring buffer is shown to implement a bounded first-in-first-out
  list (locale \<open>bounded_fifo\<close>), and the interleavings of one writer and one reader thread are a step
  relation whose steps are the single accesses to shared memory.
\<close>

record 'a RtQueueBuffer =
  rq_insert_in_progress :: bool
  rq_head :: nat
  rq_front_accessed :: bool
  rq_tail :: nat
  rq_size :: nat
  rq_capacity :: nat
  rq_buffer :: "'a list"

text \<open>\<open>dflt\<close> is the value-initialised element of \<open>std::make_unique<T[]>\<close>.\<close>

definition RtQueueBuffer_new :: "'a \<Rightarrow> nat \<Rightarrow> 'a RtQueueBuffer"
  where "RtQueueBuffer_new dflt capacity =
    \<lparr>rq_insert_in_progress = False, rq_head = 0, rq_front_accessed = False, rq_tail = 0,
     rq_size = 0, rq_capacity = capacity, rq_buffer = replicate capacity dflt\<rparr>"

definition RtQueueBuffer_Size :: "'a RtQueueBuffer \<Rightarrow> nat"
  where "RtQueueBuffer_Size q = rq_size q"

definition RtQueueBuffer_Empty :: "'a RtQueueBuffer \<Rightarrow> bool"
  where "RtQueueBuffer_Empty q = (rq_size q = 0)"

definition RtQueueBuffer_Full :: "'a RtQueueBuffer \<Rightarrow> bool"
  where "RtQueueBuffer_Full q = (rq_size q = rq_capacity q)"

definition RtQueueBuffer_Capacity :: "'a RtQueueBuffer \<Rightarrow> nat"
  where "RtQueueBuffer_Capacity q = rq_capacity q"

definition IncreaseSize :: "'a RtQueueBuffer \<Rightarrow> 'a RtQueueBuffer"
  where "IncreaseSize q = q\<lparr>rq_size := size_t_add (rq_size q) 1\<rparr>"

definition DecreaseSize :: "'a RtQueueBuffer \<Rightarrow> 'a RtQueueBuffer"
  where "DecreaseSize q = q\<lparr>rq_size := size_t_sub (rq_size q) 1\<rparr>"

text \<open>An empty \<open>std::function\<close> is \<^term>\<open>None\<close>; calling it on \<open>&buffer_[i]\<close> replaces the cell.\<close>

definition RtQueueBuffer_InitElements ::
    "('a \<Rightarrow> 'a) option \<Rightarrow> 'a RtQueueBuffer \<Rightarrow> 'a RtQueueBuffer checked"
  where "RtQueueBuffer_InitElements init_function q =
    (case init_function of
       None \<Rightarrow> None
     | Some f \<Rightarrow> Some (q\<lparr>rq_buffer := fold (\<lambda>i b. b[i := f (b ! i)]) [0..<rq_capacity q] (rq_buffer q)\<rparr>))"

definition RtQueueBuffer_new_init ::
    "'a \<Rightarrow> nat \<Rightarrow> ('a \<Rightarrow> 'a) option \<Rightarrow> 'a RtQueueBuffer checked"
  where "RtQueueBuffer_new_init dflt capacity init_function =
    RtQueueBuffer_InitElements init_function (RtQueueBuffer_new dflt capacity)"

definition RtQueueBuffer_Front :: "'a RtQueueBuffer \<Rightarrow> (nat option \<times> 'a RtQueueBuffer) checked"
  where "RtQueueBuffer_Front q =
    (if rq_front_accessed q then None
     else if RtQueueBuffer_Empty q then Some (None, q)
     else Some (Some (rq_tail q), q\<lparr>rq_front_accessed := True\<rparr>))"

definition RtQueueBuffer_KeepFront :: "'a RtQueueBuffer \<Rightarrow> 'a RtQueueBuffer checked"
  where "RtQueueBuffer_KeepFront q =
    (if \<not> rq_front_accessed q then None else Some (q\<lparr>rq_front_accessed := False\<rparr>))"

definition RtQueueBuffer_DropFront :: "'a RtQueueBuffer \<Rightarrow> 'a RtQueueBuffer checked"
  where "RtQueueBuffer_DropFront q =
    (if \<not> rq_front_accessed q then None
     else let q1 = q\<lparr>rq_front_accessed := False\<rparr>;
              q2 = DecreaseSize q1
          in Some (q2\<lparr>rq_tail := size_t_add (rq_tail q2) 1 mod RtQueueBuffer_Capacity q2\<rparr>))"

definition RtQueueBuffer_PrepareInsert ::
    "'a RtQueueBuffer \<Rightarrow> (nat option \<times> 'a RtQueueBuffer) checked"
  where "RtQueueBuffer_PrepareInsert q =
    (if rq_insert_in_progress q then None
     else if RtQueueBuffer_Full q then Some (None, q)
     else Some (Some (rq_head q), q\<lparr>rq_insert_in_progress := True\<rparr>))"

definition RtQueueBuffer_FinishInsert :: "'a RtQueueBuffer \<Rightarrow> 'a RtQueueBuffer checked"
  where "RtQueueBuffer_FinishInsert q =
    (if \<not> rq_insert_in_progress q then None
     else let q1 = q\<lparr>rq_insert_in_progress := False\<rparr>;
              q2 = q1\<lparr>rq_head := size_t_add (rq_head q1) 1 mod RtQueueBuffer_Capacity q1\<rparr>
          in Some (IncreaseSize q2))"

subsection \<open>Reader and writer\<close>

text \<open>
  \<open>RealtimeQueue\<close> owns the buffer, and its \<open>Writer\<close> a reset function.  Reading and writing through
  a pointer are \<open>rq_load\<close> and \<open>rq_store\<close>; \<open>moved\<close> is the value \<open>std::move\<close> leaves behind.
\<close>

record 'a RealtimeQueue =
  rtq_buffer :: "'a RtQueueBuffer"
  rtq_reset_function :: "('a \<Rightarrow> 'a) option"

definition kDefaultBufferCapacity :: nat
  where "kDefaultBufferCapacity = 100"

definition rq_load :: "nat \<Rightarrow> 'a RtQueueBuffer \<Rightarrow> 'a"
  where "rq_load p q = rq_buffer q ! p"

definition rq_store :: "nat \<Rightarrow> 'a \<Rightarrow> 'a RtQueueBuffer \<Rightarrow> 'a RtQueueBuffer"
  where "rq_store p v q = q\<lparr>rq_buffer := (rq_buffer q)[p := v]\<rparr>"

definition RealtimeQueue_new ::
    "'a \<Rightarrow> nat option \<Rightarrow> ('a \<Rightarrow> 'a) option \<Rightarrow> 'a RealtimeQueue checked"
  where "RealtimeQueue_new dflt capacity init_function =
    (let b = RtQueueBuffer_new dflt (case capacity of None \<Rightarrow> kDefaultBufferCapacity | Some c \<Rightarrow> c)
     in case init_function of
          None \<Rightarrow> Some \<lparr>rtq_buffer = b, rtq_reset_function = None\<rparr>
        | Some f \<Rightarrow> map_option (\<lambda>b'. \<lparr>rtq_buffer = b', rtq_reset_function = None\<rparr>)
                       (RtQueueBuffer_InitElements (Some f) b))"

definition Reader_Front :: "'a RealtimeQueue \<Rightarrow> (nat option \<times> 'a RealtimeQueue) checked"
  where "Reader_Front rq =
    map_option (\<lambda>(p, b). (p, rq\<lparr>rtq_buffer := b\<rparr>)) (RtQueueBuffer_Front (rtq_buffer rq))"

definition Reader_MoveFront ::
    "('a \<Rightarrow> 'a) \<Rightarrow> 'a RealtimeQueue \<Rightarrow> ('a option \<times> 'a RealtimeQueue) checked"
  where "Reader_MoveFront moved rq =
    (if RtQueueBuffer_Empty (rtq_buffer rq) then Some (None, rq)
     else case RtQueueBuffer_Front (rtq_buffer rq) of
            None \<Rightarrow> None
          | Some (None, b) \<Rightarrow> None
          | Some (Some p, b) \<Rightarrow>
              Some (Some (rq_load p b), rq\<lparr>rtq_buffer := rq_store p (moved (rq_load p b)) b\<rparr>))"

definition Reader_KeepFront :: "'a RealtimeQueue \<Rightarrow> 'a RealtimeQueue checked"
  where "Reader_KeepFront rq =
    map_option (\<lambda>b. rq\<lparr>rtq_buffer := b\<rparr>) (RtQueueBuffer_KeepFront (rtq_buffer rq))"

definition Reader_DropFront :: "'a RealtimeQueue \<Rightarrow> 'a RealtimeQueue checked"
  where "Reader_DropFront rq =
    map_option (\<lambda>b. rq\<lparr>rtq_buffer := b\<rparr>) (RtQueueBuffer_DropFront (rtq_buffer rq))"

definition Reader_Pop :: "'a RealtimeQueue \<Rightarrow> ('a option \<times> 'a RealtimeQueue) checked"
  where "Reader_Pop rq =
    (case RtQueueBuffer_Front (rtq_buffer rq) of
       None \<Rightarrow> None
     | Some (None, b) \<Rightarrow> Some (None, rq\<lparr>rtq_buffer := b\<rparr>)
     | Some (Some front_ptr, b) \<Rightarrow>
         let front = rq_load front_ptr b
         in map_option (\<lambda>b'. (Some front, rq\<lparr>rtq_buffer := b'\<rparr>)) (RtQueueBuffer_DropFront b))"

definition Writer_SetElementResetFunction ::
    "('a \<Rightarrow> 'a) option \<Rightarrow> 'a RealtimeQueue \<Rightarrow> 'a RealtimeQueue"
  where "Writer_SetElementResetFunction f rq = rq\<lparr>rtq_reset_function := f\<rparr>"

definition Writer_PrepareInsert :: "'a RealtimeQueue \<Rightarrow> (nat option \<times> 'a RealtimeQueue) checked"
  where "Writer_PrepareInsert rq =
    (case RtQueueBuffer_PrepareInsert (rtq_buffer rq) of
       None \<Rightarrow> None
     | Some (None, b) \<Rightarrow> Some (None, rq\<lparr>rtq_buffer := b\<rparr>)
     | Some (Some element, b) \<Rightarrow>
         Some (Some element, rq\<lparr>rtq_buffer :=
           (case rtq_reset_function rq of
              None \<Rightarrow> b
            | Some f \<Rightarrow> rq_store element (f (rq_load element b)) b)\<rparr>))"

definition Writer_FinishInsert :: "'a RealtimeQueue \<Rightarrow> 'a RealtimeQueue checked"
  where "Writer_FinishInsert rq =
    map_option (\<lambda>b. rq\<lparr>rtq_buffer := b\<rparr>) (RtQueueBuffer_FinishInsert (rtq_buffer rq))"

definition Writer_Insert :: "'a \<Rightarrow> 'a RealtimeQueue \<Rightarrow> (bool \<times> 'a RealtimeQueue) checked"
  where "Writer_Insert item rq =
    (case Writer_PrepareInsert rq of
       None \<Rightarrow> None
     | Some (None, rq1) \<Rightarrow> Some (False, rq1)
     | Some (Some item_ptr, rq1) \<Rightarrow>
         map_option (\<lambda>rq2. (True, rq2))
           (Writer_FinishInsert (rq1\<lparr>rtq_buffer := rq_store item_ptr item (rtq_buffer rq1)\<rparr>)))"

text \<open>
  \<open>RealtimeQueueMultiWriter::Insert\<close> runs under its mutex, so calls of several threads are calls
  one after the other.
\<close>

definition MultiWriter_Insert :: "'a \<Rightarrow> 'a RealtimeQueue \<Rightarrow> (StatusCode \<times> 'a RealtimeQueue) checked"
  where "MultiWriter_Insert value rq =
    (case Writer_PrepareInsert rq of
       None \<Rightarrow> None
     | Some (None, rq1) \<Rightarrow> Some (kResourceExhausted, rq1)
     | Some (Some queue_item, rq1) \<Rightarrow>
         map_option (\<lambda>rq2. (kOk, rq2))
           (Writer_FinishInsert (rq1\<lparr>rtq_buffer := rq_store queue_item value (rtq_buffer rq1)\<rparr>)))"

subsection \<open>Specification: a bounded first-in-first-out list\<close>

datatype 'a fifo_op = FInsert 'a | FPop
datatype 'a fifo_out = Inserted bool | Popped "'a option"

fun fifo_spec :: "nat \<Rightarrow> 'a fifo_op list \<Rightarrow> 'a list \<Rightarrow> 'a fifo_out list \<times> 'a list"
  where
    "fifo_spec n [] xs = ([], xs)"
  | "fifo_spec n (FInsert v # ops) xs =
      (if length xs < n then map_prod (Cons (Inserted True)) id (fifo_spec n ops (xs @ [v]))
       else map_prod (Cons (Inserted False)) id (fifo_spec n ops xs))"
  | "fifo_spec n (FPop # ops) xs =
      (case xs of
         [] \<Rightarrow> map_prod (Cons (Popped None)) id (fifo_spec n ops [])
       | x # xs' \<Rightarrow> map_prod (Cons (Popped (Some x))) id (fifo_spec n ops xs'))"

fun fifo_run ::
    "('a \<Rightarrow> 'q \<Rightarrow> (bool \<times> 'q) checked) \<Rightarrow> ('q \<Rightarrow> ('a option \<times> 'q) checked) \<Rightarrow>
     'a fifo_op list \<Rightarrow> 'q \<Rightarrow> ('a fifo_out list \<times> 'q) checked"
  where
    "fifo_run ins pop [] q = Some ([], q)"
  | "fifo_run ins pop (FInsert v # ops) q =
      (case ins v q of
         None \<Rightarrow> None
       | Some (b, q') \<Rightarrow> map_option (map_prod (Cons (Inserted b)) id) (fifo_run ins pop ops q'))"
  | "fifo_run ins pop (FPop # ops) q =
      (case pop q of
         None \<Rightarrow> None
       | Some (r, q') \<Rightarrow> map_option (map_prod (Cons (Popped r)) id) (fifo_run ins pop ops q'))"

subsection \<open>The ring buffer as a bounded list\<close>

definition rq_list :: "'a RtQueueBuffer \<Rightarrow> 'a list"
  where "rq_list q = map (\<lambda>i. rq_buffer q ! ((rq_tail q + i) mod rq_capacity q)) [0..<rq_size q]"

definition rq_wf :: "'a RtQueueBuffer \<Rightarrow> bool"
  where "rq_wf q \<longleftrightarrow>
    length (rq_buffer q) = rq_capacity q \<and> rq_capacity q < 2 ^ 64 \<and> rq_size q \<le> rq_capacity q
    \<and> (if rq_capacity q = 0 then rq_tail q = 0 else rq_tail q < rq_capacity q)
    \<and> rq_head q = (rq_tail q + rq_size q) mod rq_capacity q
    \<and> (rq_front_accessed q \<longrightarrow> 0 < rq_size q)
    \<and> (rq_insert_in_progress q \<longrightarrow> rq_size q < rq_capacity q)"

definition rtq_list :: "'a RealtimeQueue \<Rightarrow> 'a list"
  where "rtq_list rq = rq_list (rtq_buffer rq)"

definition rtq_capacity :: "'a RealtimeQueue \<Rightarrow> nat"
  where "rtq_capacity rq = rq_capacity (rtq_buffer rq)"

definition rtq_idle :: "'a RealtimeQueue \<Rightarrow> bool"
  where "rtq_idle rq \<longleftrightarrow> rq_wf (rtq_buffer rq)
    \<and> \<not> rq_front_accessed (rtq_buffer rq) \<and> \<not> rq_insert_in_progress (rtq_buffer rq)"

lemmas rq_op_defs =
  RtQueueBuffer_Front_def RtQueueBuffer_KeepFront_def RtQueueBuffer_DropFront_def
  RtQueueBuffer_PrepareInsert_def RtQueueBuffer_FinishInsert_def RtQueueBuffer_Empty_def
  RtQueueBuffer_Full_def RtQueueBuffer_Capacity_def IncreaseSize_def DecreaseSize_def
  rq_store_def rq_load_def

lemmas rtq_op_defs =
  Reader_Front_def Reader_MoveFront_def Reader_KeepFront_def Reader_DropFront_def Reader_Pop_def
  Writer_PrepareInsert_def Writer_FinishInsert_def Writer_Insert_def MultiWriter_Insert_def

lemma length_rq_list [simp]: "length (rq_list q) = rq_size q"
  by (simp add: rq_list_def)

lemma rq_list_cong:
  "rq_buffer p = rq_buffer q \<Longrightarrow> rq_tail p = rq_tail q \<Longrightarrow> rq_size p = rq_size q \<Longrightarrow>
   rq_capacity p = rq_capacity q \<Longrightarrow> rq_list p = rq_list q"
  by (simp add: rq_list_def)

lemma rq_head_free:
  assumes "rq_wf q" "rq_size q < rq_capacity q" "i < rq_size q"
  shows "(rq_tail q + i) mod rq_capacity q \<noteq> rq_head q"
proof
  assume "(rq_tail q + i) mod rq_capacity q = rq_head q"
  then have "(rq_tail q + i) mod rq_capacity q = (rq_tail q + rq_size q) mod rq_capacity q"
    using assms(1) by (simp add: rq_wf_def)
  then have "i = rq_size q"
    using assms by (intro mod_add_inj[of i "rq_capacity q" "rq_size q"]) auto
  then show False using assms(3) by simp
qed

lemma rq_head_less: "rq_wf q \<Longrightarrow> rq_size q < rq_capacity q \<Longrightarrow> rq_head q < rq_capacity q"
  by (auto simp: rq_wf_def)

lemma rq_tail_less: "rq_wf q \<Longrightarrow> 0 < rq_size q \<Longrightarrow> rq_tail q < rq_capacity q"
  by (auto simp: rq_wf_def split: if_splits)

lemma rq_list_store_head:
  assumes "rq_wf q" "rq_size q < rq_capacity q"
  shows "rq_list (rq_store (rq_head q) v q) = rq_list q"
proof -
  have "(rq_buffer q)[rq_head q := v] ! ((rq_tail q + i) mod rq_capacity q)
      = rq_buffer q ! ((rq_tail q + i) mod rq_capacity q)" if "i < rq_size q" for i
    using rq_head_free[OF assms that] by (intro nth_list_update_neq) simp
  then show ?thesis by (simp add: rq_list_def rq_store_def)
qed

lemma rq_wf_store [simp]: "rq_wf (rq_store p v q) \<longleftrightarrow> rq_wf q"
  by (simp add: rq_wf_def rq_store_def)

lemma rq_store_fields [simp]:
  "rq_size (rq_store p v q) = rq_size q" "rq_capacity (rq_store p v q) = rq_capacity q"
  "rq_head (rq_store p v q) = rq_head q" "rq_tail (rq_store p v q) = rq_tail q"
  "rq_insert_in_progress (rq_store p v q) = rq_insert_in_progress q"
  "rq_front_accessed (rq_store p v q) = rq_front_accessed q"
  by (simp_all add: rq_store_def)

lemma rq_finish_insert:
  assumes "rq_wf q" "rq_insert_in_progress q"
  shows "\<exists>q'. RtQueueBuffer_FinishInsert q = Some q' \<and> rq_wf q' \<and> \<not> rq_insert_in_progress q'
    \<and> rq_list q' = rq_list q @ [rq_buffer q ! rq_head q] \<and> rq_capacity q' = rq_capacity q
    \<and> rq_front_accessed q' = rq_front_accessed q"
  using assms
  by (auto simp: rq_op_defs rq_wf_def rq_list_def Let_def mod_Suc_eq size_t_ring_succ
      split: if_splits)

lemma rq_drop_front:
  assumes "rq_wf q" "rq_front_accessed q"
  shows "\<exists>q'. RtQueueBuffer_DropFront q = Some q' \<and> rq_wf q' \<and> \<not> rq_front_accessed q'
    \<and> rq_list q' = tl (rq_list q) \<and> rq_capacity q' = rq_capacity q
    \<and> rq_insert_in_progress q' = rq_insert_in_progress q"
proof -
  from assms have pos: "0 < rq_size q" "rq_size q \<le> rq_capacity q" "rq_capacity q < 2 ^ 64"
    "rq_tail q < rq_capacity q"
    by (auto simp: rq_wf_def split: if_splits)
  then obtain n where n: "rq_size q = Suc n" by (cases "rq_size q") auto
  have tl_list: "tl (rq_list q) =
      map (\<lambda>i. rq_buffer q ! ((rq_tail q + Suc i) mod rq_capacity q)) [0..<n]"
    by (simp add: rq_list_def n upt_conv_Cons map_tl[symmetric] map_Suc_upt[symmetric] del: upt_Suc)
  have shift: "(Suc (rq_tail q) mod rq_capacity q + i) mod rq_capacity q
      = (rq_tail q + Suc i) mod rq_capacity q" for i
    by (simp add: mod_add_left_eq)
  let ?q' = "q\<lparr>rq_front_accessed := False, rq_size := n, rq_tail := Suc (rq_tail q) mod rq_capacity q\<rparr>"
  have "RtQueueBuffer_DropFront q = Some ?q'"
    using assms pos n by (simp add: rq_op_defs Let_def)
  moreover have "rq_list ?q' = tl (rq_list q)"
    by (simp add: tl_list) (simp add: rq_list_def shift)
  moreover have "rq_wf ?q'"
    using assms pos n by (simp add: rq_wf_def mod_add_left_eq)
  ultimately show ?thesis by auto
qed

subsection \<open>The queue interface\<close>

text \<open>What a client of the queue relies on: an abstraction to a list of at most \<open>cap\<close> elements,
  insertion at the end or a refusal that changes nothing, removal at the front.\<close>

locale bounded_fifo =
  fixes inv :: "'q \<Rightarrow> bool"
    and abs :: "'q \<Rightarrow> 'a list"
    and cap :: "'q \<Rightarrow> nat"
    and ins :: "'a \<Rightarrow> 'q \<Rightarrow> (bool \<times> 'q) checked"
    and pop :: "'q \<Rightarrow> ('a option \<times> 'q) checked"
  assumes bound: "inv q \<Longrightarrow> length (abs q) \<le> cap q"
    and ins_ok: "inv q \<Longrightarrow> length (abs q) < cap q \<Longrightarrow>
      \<exists>q'. ins v q = Some (True, q') \<and> inv q' \<and> abs q' = abs q @ [v] \<and> cap q' = cap q"
    and ins_full: "inv q \<Longrightarrow> length (abs q) = cap q \<Longrightarrow> ins v q = Some (False, q)"
    and pop_empty: "inv q \<Longrightarrow> abs q = [] \<Longrightarrow> pop q = Some (None, q)"
    and pop_ok: "inv q \<Longrightarrow> abs q = x # xs \<Longrightarrow>
      \<exists>q'. pop q = Some (Some x, q') \<and> inv q' \<and> abs q' = xs \<and> cap q' = cap q"
begin

lemma run_spec:
  "inv q \<Longrightarrow> \<exists>q'. fifo_run ins pop ops q = Some (fst (fifo_spec (cap q) ops (abs q)), q')
     \<and> inv q' \<and> abs q' = snd (fifo_spec (cap q) ops (abs q)) \<and> cap q' = cap q"
proof (induction ops arbitrary: q)
  case Nil
  then show ?case by simp
next
  case (Cons op ops)
  show ?case
  proof (cases op)
    case (FInsert v)
    show ?thesis
    proof (cases "length (abs q) < cap q")
      case True
      from ins_ok[OF Cons.prems True] obtain q1 where
        q1: "ins v q = Some (True, q1)" "inv q1" "abs q1 = abs q @ [v]" "cap q1 = cap q" by blast
      from Cons.IH[OF q1(2)] q1 True FInsert show ?thesis by auto
    next
      case False
      then have "length (abs q) = cap q" using bound[OF Cons.prems] by simp
      with ins_full[OF Cons.prems] Cons.IH[OF Cons.prems] False FInsert show ?thesis by auto
    qed
  next
    case FPop
    show ?thesis
    proof (cases "abs q")
      case Nil
      with pop_empty[OF Cons.prems Nil] Cons.IH[OF Cons.prems] FPop show ?thesis by auto
    next
      case (Cons x xs)
      from pop_ok[OF Cons.prems Cons] obtain q1 where
        q1: "pop q = Some (Some x, q1)" "inv q1" "abs q1 = xs" "cap q1 = cap q" by blast
      from Cons.IH[OF q1(2)] q1 Cons FPop show ?thesis by auto
    qed
  qed
qed

end

lemma rq_front_some:
  assumes "rq_wf q" "\<not> rq_front_accessed q" "rq_size q \<noteq> 0"
  shows "RtQueueBuffer_Front q = Some (Some (rq_tail q), q\<lparr>rq_front_accessed := True\<rparr>)"
    "rq_wf (q\<lparr>rq_front_accessed := True\<rparr>)"
    "rq_list q = rq_buffer q ! rq_tail q # tl (rq_list q)"
proof -
  from assms obtain n where "rq_size q = Suc n" by (cases "rq_size q") auto
  with rq_tail_less[OF assms(1)] show "rq_list q = rq_buffer q ! rq_tail q # tl (rq_list q)"
    by (simp add: rq_list_def upt_conv_Cons del: upt_Suc)
qed (use assms in \<open>auto simp: rq_op_defs rq_wf_def\<close>)

lemma rq_store_finish:
  assumes "rq_wf q" "rq_insert_in_progress q"
  shows "\<exists>q'. RtQueueBuffer_FinishInsert (rq_store (rq_head q) v q) = Some q' \<and> rq_wf q'
    \<and> \<not> rq_insert_in_progress q' \<and> rq_list q' = rq_list q @ [v] \<and> rq_capacity q' = rq_capacity q
    \<and> rq_front_accessed q' = rq_front_accessed q"
proof -
  have less: "rq_size q < rq_capacity q" using assms by (simp add: rq_wf_def)
  then have "rq_buffer (rq_store (rq_head q) v q) ! rq_head q = v"
    using assms(1) rq_head_less[OF assms(1)] by (simp add: rq_store_def rq_wf_def)
  then show ?thesis
    using rq_finish_insert[of "rq_store (rq_head q) v q"] assms rq_list_store_head[OF assms(1) less]
    by simp
qed

lemma writer_prepare_ok:
  assumes "rq_wf (rtq_buffer rq)" "\<not> rq_insert_in_progress (rtq_buffer rq)"
    "rq_size (rtq_buffer rq) < rq_capacity (rtq_buffer rq)"
  shows "\<exists>q1. Writer_PrepareInsert rq = Some (Some (rq_head q1), rq\<lparr>rtq_buffer := q1\<rparr>) \<and> rq_wf q1
    \<and> rq_insert_in_progress q1 \<and> rq_list q1 = rq_list (rtq_buffer rq)
    \<and> rq_capacity q1 = rq_capacity (rtq_buffer rq)
    \<and> rq_front_accessed q1 = rq_front_accessed (rtq_buffer rq)"
proof -
  let ?q1 = "rtq_buffer rq\<lparr>rq_insert_in_progress := True\<rparr>"
  have "rq_wf ?q1" "rq_size ?q1 < rq_capacity ?q1" "rq_list ?q1 = rq_list (rtq_buffer rq)"
    using assms by (auto simp: rq_wf_def intro: rq_list_cong)
  then show ?thesis
    using assms rq_list_store_head[of ?q1]
    by (intro exI[of _ "case rtq_reset_function rq of None \<Rightarrow> ?q1
          | Some f \<Rightarrow> rq_store (rq_head ?q1) (f (rq_load (rq_head ?q1) ?q1)) ?q1"])
      (simp add: Writer_PrepareInsert_def RtQueueBuffer_PrepareInsert_def RtQueueBuffer_Full_def
        split: option.splits)
qed

lemma writer_insert_ok:
  assumes "rtq_idle rq" "length (rtq_list rq) < rtq_capacity rq"
  shows "\<exists>rq'. Writer_Insert v rq = Some (True, rq') \<and> MultiWriter_Insert v rq = Some (kOk, rq')
    \<and> rtq_idle rq' \<and> rtq_list rq' = rtq_list rq @ [v] \<and> rtq_capacity rq' = rtq_capacity rq
    \<and> rtq_reset_function rq' = rtq_reset_function rq"
proof -
  from assms writer_prepare_ok[of rq] obtain q1 where
    q1: "Writer_PrepareInsert rq = Some (Some (rq_head q1), rq\<lparr>rtq_buffer := q1\<rparr>)" "rq_wf q1"
      "rq_insert_in_progress q1" "rq_list q1 = rtq_list rq" "rq_capacity q1 = rtq_capacity rq"
      "\<not> rq_front_accessed q1"
    by (auto simp: rtq_idle_def rtq_list_def rtq_capacity_def)
  from rq_store_finish[OF q1(2,3)] obtain q2 where
    "RtQueueBuffer_FinishInsert (rq_store (rq_head q1) v q1) = Some q2" "rq_wf q2"
    "\<not> rq_insert_in_progress q2" "rq_list q2 = rq_list q1 @ [v]" "rq_capacity q2 = rq_capacity q1"
    "rq_front_accessed q2 = rq_front_accessed q1"
    by blast
  with q1 show ?thesis
    by (simp add: Writer_Insert_def MultiWriter_Insert_def Writer_FinishInsert_def rtq_idle_def
        rtq_list_def rtq_capacity_def)
qed

lemma writer_insert_full:
  assumes "rtq_idle rq" "length (rtq_list rq) = rtq_capacity rq"
  shows "Writer_Insert v rq = Some (False, rq)" "MultiWriter_Insert v rq = Some (kResourceExhausted, rq)"
  using assms
  by (auto simp: rtq_op_defs rq_op_defs rtq_idle_def rtq_list_def rtq_capacity_def)

lemma reader_pop_empty:
  assumes "rtq_idle rq" "rtq_list rq = []"
  shows "Reader_Pop rq = Some (None, rq)"
proof -
  have "rq_size (rtq_buffer rq) = 0"
    using assms(2) length_rq_list[of "rtq_buffer rq"] by (simp add: rtq_list_def)
  then show ?thesis
    using assms by (auto simp: rtq_op_defs rq_op_defs rtq_idle_def)
qed

lemma reader_pop_ok:
  assumes "rtq_idle rq" "rtq_list rq = x # xs"
  shows "\<exists>rq'. Reader_Pop rq = Some (Some x, rq') \<and> rtq_idle rq' \<and> rtq_list rq' = xs
    \<and> rtq_capacity rq' = rtq_capacity rq \<and> rtq_reset_function rq' = rtq_reset_function rq"
proof -
  let ?q = "rtq_buffer rq" and ?q1 = "rtq_buffer rq\<lparr>rq_front_accessed := True\<rparr>"
  from assms have wf: "rq_wf ?q" "\<not> rq_front_accessed ?q" "rq_size ?q \<noteq> 0"
      "\<not> rq_insert_in_progress ?q"
    using length_rq_list[of ?q] by (auto simp: rtq_idle_def rtq_list_def)
  note front = rq_front_some[OF wf(1-3)]
  have "rq_list ?q1 = rq_list ?q" by (intro rq_list_cong) auto
  with rq_drop_front[OF front(2)] obtain q2 where
    "RtQueueBuffer_DropFront ?q1 = Some q2" "rq_wf q2" "\<not> rq_front_accessed q2"
    "rq_list q2 = tl (rq_list ?q)" "rq_capacity q2 = rq_capacity ?q"
    "rq_insert_in_progress q2 = rq_insert_in_progress ?q"
    by auto
  then show ?thesis
    using front wf assms(2)
    by (auto simp: Reader_Pop_def rtq_list_def rtq_idle_def rtq_capacity_def rq_load_def)
qed

lemma rtq_bound: "rtq_idle rq \<Longrightarrow> length (rtq_list rq) \<le> rtq_capacity rq"
  by (auto simp: rtq_idle_def rtq_list_def rtq_capacity_def rq_wf_def)

text \<open>The multi writer as an insertion that reports whether it succeeded.\<close>

abbreviation multi_insert :: "'a \<Rightarrow> 'a RealtimeQueue \<Rightarrow> (bool \<times> 'a RealtimeQueue) checked"
  where "multi_insert v rq \<equiv> map_option (map_prod (\<lambda>c. c = kOk) id) (MultiWriter_Insert v rq)"

interpretation rtq: bounded_fifo rtq_idle rtq_list rtq_capacity Writer_Insert Reader_Pop
proof unfold_locales
  fix q :: "'a RealtimeQueue" and v :: 'a
  assume "rtq_idle q" "length (rtq_list q) < rtq_capacity q"
  from writer_insert_ok[OF this] show "\<exists>q'. Writer_Insert v q = Some (True, q') \<and> rtq_idle q'
      \<and> rtq_list q' = rtq_list q @ [v] \<and> rtq_capacity q' = rtq_capacity q"
    by blast
next
  fix q :: "'a RealtimeQueue" and x xs
  assume "rtq_idle q" "rtq_list q = x # xs"
  from reader_pop_ok[OF this] show "\<exists>q'. Reader_Pop q = Some (Some x, q') \<and> rtq_idle q'
      \<and> rtq_list q' = xs \<and> rtq_capacity q' = rtq_capacity q"
    by blast
qed (auto simp: rtq_bound writer_insert_full reader_pop_empty)

interpretation rtqm: bounded_fifo rtq_idle rtq_list rtq_capacity multi_insert Reader_Pop
proof unfold_locales
  fix q :: "'a RealtimeQueue" and v :: 'a
  assume "rtq_idle q" "length (rtq_list q) < rtq_capacity q"
  from writer_insert_ok[OF this] show "\<exists>q'. multi_insert v q = Some (True, q') \<and> rtq_idle q'
      \<and> rtq_list q' = rtq_list q @ [v] \<and> rtq_capacity q' = rtq_capacity q"
    by fastforce
qed (auto simp: rtq_bound writer_insert_full reader_pop_empty rtq.pop_ok)

lemma rtq_new_idle:
  assumes "RealtimeQueue_new d (Some c) None = Some rq" "c < 2 ^ 64"
  shows "rtq_idle rq" "rtq_list rq = []" "rtq_capacity rq = c"
  using assms
  by (auto simp: RealtimeQueue_new_def RtQueueBuffer_new_def rtq_idle_def rq_wf_def rtq_list_def
      rq_list_def rtq_capacity_def)

subsection \<open>Access through pointers\<close>

lemma rtq_list_size: "rtq_list rq = [] \<longleftrightarrow> rq_size (rtq_buffer rq) = 0"
  by (metis length_0_conv length_rq_list rtq_list_def)

lemma rq_list_store_tail:
  assumes "rq_wf q" "rq_size q \<noteq> 0"
  shows "rq_list (rq_store (rq_tail q) v q) = v # tl (rq_list q)"
proof -
  from assms obtain n where n: "rq_size q = Suc n" by (cases "rq_size q") auto
  have t: "rq_tail q < rq_capacity q" "rq_tail q < length (rq_buffer q)" "rq_size q \<le> rq_capacity q"
    using assms rq_tail_less[OF assms(1)] by (auto simp: rq_wf_def)
  have other: "(rq_buffer q)[rq_tail q := v] ! ((rq_tail q + i) mod rq_capacity q)
      = rq_buffer q ! ((rq_tail q + i) mod rq_capacity q)" if "0 < i" "i < rq_size q" for i
  proof (rule nth_list_update_neq)
    show "rq_tail q \<noteq> (rq_tail q + i) mod rq_capacity q"
      using mod_add_inj[of i "rq_capacity q" 0 "rq_tail q"] that t by force
  qed
  have "rq_list (rq_store (rq_tail q) v q) = v # map (\<lambda>i. (rq_buffer q)[rq_tail q := v]
      ! ((rq_tail q + i) mod rq_capacity q)) [1..<Suc n]"
    using t by (simp add: rq_list_def rq_store_def n upt_conv_Cons del: upt_Suc)
  also have "\<dots> = v # map (\<lambda>i. rq_buffer q ! ((rq_tail q + i) mod rq_capacity q)) [1..<Suc n]"
    using other n by (auto simp del: upt_Suc)
  also have "\<dots> = v # tl (rq_list q)"
    by (simp add: rq_list_def n upt_conv_Cons del: upt_Suc)
  finally show ?thesis .
qed

lemma reader_move_drop:
  assumes "rtq_idle rq" "rtq_list rq = x # xs"
  shows "\<exists>rq1 rq2. Reader_MoveFront moved rq = Some (Some x, rq1) \<and> Reader_DropFront rq1 = Some rq2
    \<and> rtq_idle rq2 \<and> rtq_list rq2 = xs \<and> rtq_capacity rq2 = rtq_capacity rq
    \<and> rtq_reset_function rq2 = rtq_reset_function rq"
proof -
  let ?q = "rtq_buffer rq" and ?q1 = "rtq_buffer rq\<lparr>rq_front_accessed := True\<rparr>"
  from assms have wf: "rq_wf ?q" "\<not> rq_front_accessed ?q" "rq_size ?q \<noteq> 0" "\<not> rq_insert_in_progress ?q"
    using rtq_list_size[of rq] by (auto simp: rtq_idle_def)
  note front = rq_front_some[OF wf(1-3)]
  let ?q2 = "rq_store (rq_tail ?q) (moved (rq_load (rq_tail ?q) ?q1)) ?q1"
  have l1: "rq_list ?q1 = rq_list ?q" by (intro rq_list_cong) auto
  have q2: "rq_wf ?q2" "rq_front_accessed ?q2" "tl (rq_list ?q2) = xs"
    using front(2) rq_list_store_tail[OF front(2)] wf(3) l1 assms(2) by (auto simp: rtq_list_def)
  from rq_drop_front[OF q2(1,2)] obtain q3 where
    "RtQueueBuffer_DropFront ?q2 = Some q3" "rq_wf q3" "\<not> rq_front_accessed q3"
    "rq_list q3 = xs" "rq_capacity q3 = rq_capacity ?q" "rq_insert_in_progress q3 = rq_insert_in_progress ?q"
    using q2(3) by auto
  then show ?thesis
    using front wf assms(2)
    by (auto simp: Reader_MoveFront_def Reader_DropFront_def RtQueueBuffer_Empty_def rtq_list_def
        rtq_idle_def rtq_capacity_def rq_load_def)
qed

lemma reader_front_keep:
  assumes "rtq_idle rq" "rtq_list rq = x # xs"
  shows "\<exists>e rq1. Reader_Front rq = Some (Some e, rq1) \<and> Reader_KeepFront rq1 = Some rq
    \<and> rq_load e (rtq_buffer rq) = x"
proof -
  let ?q = "rtq_buffer rq"
  from assms have wf: "rq_wf ?q" "\<not> rq_front_accessed ?q" "rq_size ?q \<noteq> 0"
    using rtq_list_size[of rq] by (auto simp: rtq_idle_def)
  note front = rq_front_some[OF wf]
  have "?q\<lparr>rq_front_accessed := False\<rparr> = ?q" using wf(2) by simp
  then show ?thesis
    using front assms(2)
    by (auto simp: Reader_Front_def Reader_KeepFront_def RtQueueBuffer_KeepFront_def rq_load_def
        rtq_list_def)
qed

lemma reader_empty:
  assumes "rtq_idle rq" "rtq_list rq = []"
  shows "Reader_MoveFront moved rq = Some (None, rq)" "Reader_Front rq = Some (None, rq)"
  using assms rtq_list_size[of rq]
  by (auto simp: Reader_MoveFront_def Reader_Front_def RtQueueBuffer_Front_def RtQueueBuffer_Empty_def
      rtq_idle_def)

lemma writer_prepare_full:
  assumes "rtq_idle rq" "length (rtq_list rq) = rtq_capacity rq"
  shows "Writer_PrepareInsert rq = Some (None, rq)"
  using assms
  by (auto simp: Writer_PrepareInsert_def RtQueueBuffer_PrepareInsert_def RtQueueBuffer_Full_def
      rtq_idle_def rtq_list_def rtq_capacity_def)

lemma writer_store_finish:
  assumes "rtq_idle rq" "length (rtq_list rq) < rtq_capacity rq"
  shows "\<exists>e rq1 rq2. Writer_PrepareInsert rq = Some (Some e, rq1)
    \<and> Writer_FinishInsert (rq1\<lparr>rtq_buffer := rq_store e v (rtq_buffer rq1)\<rparr>) = Some rq2
    \<and> rtq_idle rq2 \<and> rtq_list rq2 = rtq_list rq @ [v] \<and> rtq_capacity rq2 = rtq_capacity rq
    \<and> rtq_reset_function rq2 = rtq_reset_function rq"
  using writer_insert_ok[OF assms, of v]
  by (auto simp: Writer_Insert_def split: option.splits)

text \<open>A realtime queue behaves as a bounded first-in-first-out list: every sequence of
  \<open>Insert\<close> and \<open>Pop\<close> calls on a well-formed idle queue returns, without failing a check, exactly the
  results of the list specification (a refused insertion when the list holds \<open>capacity\<close> elements,
  \<open>nullopt\<close> on the empty list, otherwise the oldest element) and leaves a well-formed idle queue whose
  content is the specification's list.\<close>
theorem realtime_queue_refines_fifo:
  assumes "rtq_idle rq"
  shows "\<exists>rq'. fifo_run Writer_Insert Reader_Pop ops rq
      = Some (fst (fifo_spec (rtq_capacity rq) ops (rtq_list rq)), rq')
    \<and> rtq_idle rq' \<and> rtq_list rq' = snd (fifo_spec (rtq_capacity rq) ops (rtq_list rq))
    \<and> rtq_capacity rq' = rtq_capacity rq"
  using rtq.run_spec[OF assms] .

theorem realtime_queue_refines_fifo_witness:
  "\<exists>rq'. fifo_run Writer_Insert Reader_Pop [FInsert 1, FInsert 2, FInsert 3, FPop, FPop, FPop]
      (the (RealtimeQueue_new (0::nat) (Some 2) None))
    = Some ([Inserted True, Inserted True, Inserted False, Popped (Some 1), Popped (Some 2),
        Popped None], rq') \<and> rtq_list rq' = []"
proof -
  let ?rq = "the (RealtimeQueue_new (0::nat) (Some 2) None)"
  have "RealtimeQueue_new (0::nat) (Some 2) None = Some ?rq"
    by (simp add: RealtimeQueue_new_def)
  from rtq_new_idle[OF this] have "rtq_idle ?rq" "rtq_list ?rq = []" "rtq_capacity ?rq = 2"
    by simp_all
  with realtime_queue_refines_fifo[of ?rq "[FInsert 1, FInsert 2, FInsert 3, FPop, FPop, FPop]"]
  show ?thesis by auto
qed

end
