(* ===== verification/Rt_Promise.thy ===== *)
theory Rt_Promise
  imports Rt_Queue Binary_Futex "HOL-Library.Monad_Syntax"
begin

text \<open>
  Promise and future: \<open>platform/common/buffers/rt_promise.h\<close>.

  A promise and a future share a \<open>FuturePromiseContext\<close> by pointer, so the contexts live in an explicit
  store \<open>ctx_heap\<close> from addresses to contexts.  An operation that uses a pointer to a context that no
  longer exists, fails a check, logs a fatal error or waits without end has the value \<^term>\<open>None\<close>; a
  theorem that gives a \<^term>\<open>Some\<close> result excludes all four.  The operations of this theory run without
  interruption by another thread, except inside the waits, whose environment is a parameter (theory
  Binary\_Futex).  Error messages are not modelled.  \<open>moved\<close> is the value \<open>std::move\<close> leaves behind,
  \<open>dflt\<close> a value-initialised element.
\<close>

record 'a Context =
  cx_buffer :: "'a RealtimeQueue"
  cx_promise_attached :: bool
  cx_future_attached :: bool
  cx_is_cancelled :: bool
  cx_read_value_futex :: LockableBinaryFutex
  cx_write_value_futex :: LockableBinaryFutex
  cx_cancel_futex :: LockableBinaryFutex
  cx_get_future_futex :: LockableBinaryFutex
  cx_get_promise_futex :: LockableBinaryFutex
  cx_has_value :: BinaryFutex
  cx_future_detached :: BinaryFutex
  cx_promise_detached :: BinaryFutex
  cx_detach_timeout :: int

type_synonym ptr = nat
type_synonym 'a ctx_heap = "ptr \<Rightarrow> 'a Context option"

record RealtimePromise =
  pr_context :: "ptr option"
  pr_internal_context :: "ptr option"
  pr_is_reusable :: bool

record RealtimeFuture =
  fu_context :: "ptr option"
  fu_internal_context :: "ptr option"
  fu_is_reusable :: bool

subsection \<open>The context\<close>

definition Context_new :: "'a \<Rightarrow> int \<Rightarrow> 'a Context"
  where "Context_new dflt detach_timeout =
    \<lparr>cx_buffer = \<lparr>rtq_buffer = RtQueueBuffer_new dflt 1, rtq_reset_function = None\<rparr>,
     cx_promise_attached = False, cx_future_attached = False, cx_is_cancelled = False,
     cx_read_value_futex = LockableBinaryFutex_new True,
     cx_write_value_futex = LockableBinaryFutex_new True,
     cx_cancel_futex = LockableBinaryFutex_new True,
     cx_get_future_futex = LockableBinaryFutex_new True,
     cx_get_promise_futex = LockableBinaryFutex_new True,
     cx_has_value = BinaryFutex_new False True,
     cx_future_detached = BinaryFutex_new False True,
     cx_promise_detached = BinaryFutex_new False True,
     cx_detach_timeout = detach_timeout\<rparr>"

text \<open>\<open>a\<close> is the address of the context (\<open>this\<close>).\<close>

definition Context_GetPromise ::
    "ptr \<Rightarrow> bool \<Rightarrow> 'a Context \<Rightarrow> (StatusCode + RealtimePromise) \<times> 'a Context"
  where "Context_GetPromise a is_reusable ctx =
    (let (locked, m) = TryLock (cx_get_promise_futex ctx);
         ctx1 = ctx\<lparr>cx_get_promise_futex := m\<rparr>
     in if \<not> locked then (Inl kUnavailable, ctx1)
        else if cx_promise_attached ctx1
        then (Inl kAlreadyExists, ctx1\<lparr>cx_get_promise_futex := snd (Unlock (cx_get_promise_futex ctx1))\<rparr>)
        else let ctx2 = ctx1\<lparr>cx_promise_attached := True\<rparr>;
                 (status, m') = Unlock (cx_get_promise_futex ctx2);
                 ctx3 = ctx2\<lparr>cx_get_promise_futex := m'\<rparr>
             in if status \<noteq> kOk then (Inl status, ctx3)
                else (Inr \<lparr>pr_context = Some a, pr_internal_context = None,
                           pr_is_reusable = is_reusable\<rparr>, ctx3))"

definition Context_GetFuture ::
    "ptr \<Rightarrow> bool \<Rightarrow> 'a Context \<Rightarrow> (StatusCode + RealtimeFuture) \<times> 'a Context"
  where "Context_GetFuture a is_reusable ctx =
    (let (locked, m) = TryLock (cx_get_future_futex ctx);
         ctx1 = ctx\<lparr>cx_get_future_futex := m\<rparr>
     in if \<not> locked then (Inl kUnavailable, ctx1)
        else if cx_future_attached ctx1
        then (Inl kAlreadyExists, ctx1\<lparr>cx_get_future_futex := snd (Unlock (cx_get_future_futex ctx1))\<rparr>)
        else let ctx2 = ctx1\<lparr>cx_future_attached := True\<rparr>;
                 (status, m') = Unlock (cx_get_future_futex ctx2);
                 ctx3 = ctx2\<lparr>cx_get_future_futex := m'\<rparr>
             in if status \<noteq> kOk then (Inl status, ctx3)
                else (Inr \<lparr>fu_context = Some a, fu_internal_context = None,
                           fu_is_reusable = is_reusable\<rparr>, ctx3))"

definition Context_IsCancelled :: "'a Context \<Rightarrow> bool"
  where "Context_IsCancelled ctx = cx_is_cancelled ctx"

definition Context_Cancel :: "'a Context \<Rightarrow> StatusCode \<times> 'a Context"
  where "Context_Cancel ctx =
    (let (locked, m) = TryLock (cx_cancel_futex ctx);
         ctx1 = ctx\<lparr>cx_cancel_futex := m\<rparr>
     in if \<not> locked then (kResourceExhausted, ctx1)
        else let ctx2 = ctx1\<lparr>cx_is_cancelled := True\<rparr>;
                 (status, m') = Unlock (cx_cancel_futex ctx2);
                 ctx3 = ctx2\<lparr>cx_cancel_futex := m'\<rparr>
             in if status \<noteq> kOk then (status, ctx3)
                else let (posted, f) = BinaryFutex_Post (cx_has_value ctx3)
                     in (posted, ctx3\<lparr>cx_has_value := f\<rparr>))"

definition Context_HasValue :: "'a Context \<Rightarrow> StatusCode + bool"
  where "Context_HasValue ctx =
    (if Context_IsCancelled ctx then Inl kCancelled
     else Inr (\<not> RtQueueBuffer_Empty (rtq_buffer (cx_buffer ctx))))"

definition Context_DetachPromise :: "'a Context \<Rightarrow> StatusCode \<times> 'a Context"
  where "Context_DetachPromise ctx =
    (let previously_attached = cx_promise_attached ctx;
         ctx1 = ctx\<lparr>cx_promise_attached := False\<rparr>
     in if previously_attached
        then let (status, f) = BinaryFutex_Post (cx_promise_detached ctx1)
             in (status, ctx1\<lparr>cx_promise_detached := f\<rparr>)
        else (kInternal, ctx1))"

definition Context_DetachFuture :: "'a Context \<Rightarrow> StatusCode \<times> 'a Context"
  where "Context_DetachFuture ctx =
    (let previously_attached = cx_future_attached ctx;
         ctx1 = ctx\<lparr>cx_future_attached := False\<rparr>
     in if previously_attached
        then let (status, f) = BinaryFutex_Post (cx_future_detached ctx1)
             in (status, ctx1\<lparr>cx_future_detached := f\<rparr>)
        else (kInternal, ctx1))"

definition Context_ReadUnlock :: "'a Context \<Rightarrow> StatusCode \<times> 'a Context"
  where "Context_ReadUnlock ctx =
    (let (status, m) = Unlock (cx_read_value_futex ctx) in (status, ctx\<lparr>cx_read_value_futex := m\<rparr>))"

definition Context_WriteUnlock :: "'a Context \<Rightarrow> StatusCode \<times> 'a Context"
  where "Context_WriteUnlock ctx =
    (let (status, m) = Unlock (cx_write_value_futex ctx) in (status, ctx\<lparr>cx_write_value_futex := m\<rparr>))"

definition Context_TestOnlyResetLock ::
    "(nat \<Rightarrow> wait_env) \<Rightarrow> 'a Context \<Rightarrow> (StatusCode \<times> 'a Context) checked"
  where "Context_TestOnlyResetLock env ctx = do {
    (s1, m1) \<leftarrow> Lock (env 0) (cx_get_future_futex ctx);
    (s2, m2) \<leftarrow> Lock (env 1) (cx_get_promise_futex ctx);
    (s3, m3) \<leftarrow> Lock (env 2) (cx_read_value_futex ctx);
    (s4, m4) \<leftarrow> Lock (env 3) (cx_write_value_futex ctx);
    (s5, m5) \<leftarrow> Lock (env 4) (cx_cancel_futex ctx);
    Some (foldl overwrite_if_not_error s1 [s2, s3, s4, s5],
      ctx\<lparr>cx_get_future_futex := m1, cx_get_promise_futex := m2, cx_read_value_futex := m3,
          cx_write_value_futex := m4, cx_cancel_futex := m5\<rparr>)
  }"

definition Context_TestOnlyResetUnlock :: "'a Context \<Rightarrow> StatusCode \<times> 'a Context"
  where "Context_TestOnlyResetUnlock ctx =
    (let (s1, m1) = Unlock (cx_cancel_futex ctx);
         (s2, m2) = Unlock (cx_write_value_futex ctx);
         (s3, m3) = Unlock (cx_read_value_futex ctx);
         (s4, m4) = Unlock (cx_get_promise_futex ctx);
         (s5, m5) = Unlock (cx_get_future_futex ctx)
     in (foldl overwrite_if_not_error s1 [s2, s3, s4, s5],
         ctx\<lparr>cx_cancel_futex := m1, cx_write_value_futex := m2, cx_read_value_futex := m3,
             cx_get_promise_futex := m4, cx_get_future_futex := m5\<rparr>))"

text \<open>The loop in \<open>Reset\<close> that empties the buffer.\<close>

partial_function (option) Reset_drain :: "('a \<Rightarrow> 'a) \<Rightarrow> 'a RealtimeQueue \<Rightarrow> 'a RealtimeQueue option"
  where "Reset_drain moved q =
    (if RtQueueBuffer_Empty (rtq_buffer q) then Some q
     else do {
       (element, q1) \<leftarrow> Reader_MoveFront moved q;
       (case element of
          None \<Rightarrow> Reset_drain moved q1
        | Some _ \<Rightarrow> do { q2 \<leftarrow> Reader_DropFront q1; Reset_drain moved q2 })
     })"

text \<open>A scoped lock around the rest of a function body: taken on entry, released when the body
  returns.  \<open>BinaryFutexLock_new\<close> and \<open>BinaryFutexLock_destroy\<close> are the constructor and destructor.\<close>

definition scoped_lock ::
    "wait_env \<Rightarrow> ('a Context \<Rightarrow> LockableBinaryFutex) \<Rightarrow>
     ((LockableBinaryFutex \<Rightarrow> LockableBinaryFutex) \<Rightarrow> 'a Context \<Rightarrow> 'a Context) \<Rightarrow>
     ('a Context \<Rightarrow> (StatusCode \<times> 'a Context) checked) \<Rightarrow> 'a Context \<Rightarrow> (StatusCode \<times> 'a Context) checked"
  where "scoped_lock env get upd body ctx = do {
    locked \<leftarrow> BinaryFutexLock_new env (get ctx);
    m \<leftarrow> locked;
    (status, ctx1) \<leftarrow> body (upd (\<lambda>_. m) ctx);
    m' \<leftarrow> BinaryFutexLock_destroy (get ctx1);
    Some (status, upd (\<lambda>_. m') ctx1)
  }"

definition Reset_clear ::
    "('a \<Rightarrow> 'a) \<Rightarrow> 'a Context \<Rightarrow> (StatusCode \<times> 'a Context) checked"
  where "Reset_clear moved ctx = do {
    q \<leftarrow> Reset_drain moved (cx_buffer ctx);
    Some (kOk, ctx\<lparr>cx_buffer := q,
        cx_has_value := snd (BinaryFutex_TryWait (cx_has_value ctx)),
        cx_future_detached := snd (BinaryFutex_TryWait (cx_future_detached ctx)),
        cx_promise_detached := snd (BinaryFutex_TryWait (cx_promise_detached ctx)),
        cx_is_cancelled := False\<rparr>)
  }"

definition Reset_wait_detached ::
    "(nat \<Rightarrow> wait_env) \<Rightarrow> int \<Rightarrow> 'a Context \<Rightarrow> (StatusCode \<times> 'a Context) checked"
  where "Reset_wait_detached env timeout ctx = do {
    (s1, ctx1) \<leftarrow> (if cx_future_attached ctx
      then map_option (map_prod id (\<lambda>f. ctx\<lparr>cx_future_detached := f\<rparr>))
             (BinaryFutex_WaitFor (env 3) (we_now (env 3)) timeout (cx_future_detached ctx))
      else Some (kOk, ctx));
    if s1 \<noteq> kOk then Some (s1, ctx1)
    else if cx_promise_attached ctx1
    then map_option (map_prod id (\<lambda>f. ctx1\<lparr>cx_promise_detached := f\<rparr>))
           (BinaryFutex_WaitFor (env 4) (we_now (env 4)) timeout (cx_promise_detached ctx1))
    else Some (kOk, ctx1)
  }"

definition Context_Reset ::
    "('a \<Rightarrow> 'a) \<Rightarrow> (nat \<Rightarrow> wait_env) \<Rightarrow> int \<Rightarrow> 'a Context \<Rightarrow> (StatusCode \<times> 'a Context) checked"
  where "Context_Reset moved env timeout =
    scoped_lock (env 0) cx_get_future_futex cx_get_future_futex_update
      (scoped_lock (env 1) cx_get_promise_futex cx_get_promise_futex_update
        (scoped_lock (env 2) cx_cancel_futex cx_cancel_futex_update
          (\<lambda>ctx. do {
             (status, ctx1) \<leftarrow> Reset_wait_detached env timeout ctx;
             if status \<noteq> kOk then Some (status, ctx1)
             else scoped_lock (env 5) cx_read_value_futex cx_read_value_futex_update
                    (scoped_lock (env 6) cx_write_value_futex cx_write_value_futex_update
                      (Reset_clear moved)) ctx1
           })))"

text \<open>The destructor, with the destructors of its members (a held lock is a failed check).\<close>

definition Context_destroy ::
    "(nat \<Rightarrow> wait_env) \<Rightarrow> ptr \<Rightarrow> 'a ctx_heap \<Rightarrow> 'a ctx_heap checked"
  where "Context_destroy env a h = do {
    ctx \<leftarrow> h a;
    let ctx1 = ctx\<lparr>cx_is_cancelled := True, cx_has_value := snd (BinaryFutex_Post (cx_has_value ctx))\<rparr>;
    (s1, f) \<leftarrow> (if cx_future_attached ctx1
      then BinaryFutex_WaitFor (env 0) (we_now (env 0)) (cx_detach_timeout ctx1) (cx_future_detached ctx1)
      else Some (kOk, cx_future_detached ctx1));
    if s1 \<noteq> kOk then None else do {
    (s2, p) \<leftarrow> (if cx_promise_attached ctx1
      then BinaryFutex_WaitFor (env 1) (we_now (env 1)) (cx_detach_timeout ctx1) (cx_promise_detached ctx1)
      else Some (kOk, cx_promise_detached ctx1));
    if s2 \<noteq> kOk then None else do {
    _ \<leftarrow> LockableBinaryFutex_destroy (cx_get_promise_futex ctx1);
    _ \<leftarrow> LockableBinaryFutex_destroy (cx_get_future_futex ctx1);
    _ \<leftarrow> LockableBinaryFutex_destroy (cx_cancel_futex ctx1);
    _ \<leftarrow> LockableBinaryFutex_destroy (cx_write_value_futex ctx1);
    _ \<leftarrow> LockableBinaryFutex_destroy (cx_read_value_futex ctx1);
    Some (h(a := None))
  }}}"

subsection \<open>The promise\<close>

text \<open>\<open>a\<close> is the address \<open>std::make_unique\<close> returns.\<close>

definition Promise_new :: "'a \<Rightarrow> int \<Rightarrow> ptr \<Rightarrow> 'a ctx_heap \<Rightarrow> RealtimePromise \<times> 'a ctx_heap"
  where "Promise_new dflt detach_timeout a h =
    (\<lparr>pr_context = Some a, pr_internal_context = Some a, pr_is_reusable = True\<rparr>,
     h(a \<mapsto> (Context_new dflt detach_timeout)\<lparr>cx_promise_attached := True\<rparr>))"

definition GetDetachedPromise :: RealtimePromise
  where "GetDetachedPromise = \<lparr>pr_context = None, pr_internal_context = None, pr_is_reusable = False\<rparr>"

definition Promise_Detach ::
    "RealtimePromise \<Rightarrow> 'a ctx_heap \<Rightarrow> (StatusCode \<times> RealtimePromise \<times> 'a ctx_heap) checked"
  where "Promise_Detach p h =
    (case pr_context p of
       None \<Rightarrow> Some (kFailedPrecondition, p, h)
     | Some a \<Rightarrow> do {
         ctx \<leftarrow> h a;
         let (status, ctx') = Context_DetachPromise ctx;
         Some (status, p\<lparr>pr_context := None\<rparr>, h(a \<mapsto> ctx'))
       })"

definition Promise_destroy ::
    "(nat \<Rightarrow> wait_env) \<Rightarrow> RealtimePromise \<Rightarrow> 'a ctx_heap \<Rightarrow> 'a ctx_heap checked"
  where "Promise_destroy env p h = do {
    (p1, h1) \<leftarrow> (if pr_context p \<noteq> None then map_option snd (Promise_Detach p h) else Some (p, h));
    (case pr_internal_context p1 of
       None \<Rightarrow> Some h1
     | Some a \<Rightarrow> Context_destroy env a h1)
  }"

definition Promise_move_assign ::
    "RealtimePromise \<Rightarrow> RealtimePromise \<Rightarrow> 'a ctx_heap \<Rightarrow>
     (RealtimePromise \<times> RealtimePromise \<times> 'a ctx_heap) checked"
  where "Promise_move_assign this other h = do {
    (this1, h1) \<leftarrow> (if pr_context this \<noteq> None then map_option snd (Promise_Detach this h)
                    else Some (this, h));
    Some (other, this1, h1)
  }"

definition Promise_move ::
    "RealtimePromise \<Rightarrow> 'a ctx_heap \<Rightarrow> (RealtimePromise \<times> RealtimePromise \<times> 'a ctx_heap) checked"
  where "Promise_move other h = Promise_move_assign GetDetachedPromise other h"

definition Promise_Set ::
    "'a \<Rightarrow> RealtimePromise \<Rightarrow> 'a ctx_heap \<Rightarrow> (StatusCode \<times> RealtimePromise \<times> 'a ctx_heap) checked"
  where "Promise_Set value p h =
    (case pr_context p of
       None \<Rightarrow> Some (kFailedPrecondition, p, h)
     | Some a \<Rightarrow> do {
         ctx \<leftarrow> h a;
         let (locked, m) = TryLock (cx_write_value_futex ctx);
         let ctx1 = ctx\<lparr>cx_write_value_futex := m\<rparr>;
         if \<not> locked then Some (kCancelled, p, h(a \<mapsto> ctx1))
         else if Context_IsCancelled ctx1 then do {
           let (unlocked, ctx2) = Context_WriteUnlock ctx1;
           Some (overwrite_if_not_error unlocked kCancelled, p, h(a \<mapsto> ctx2))
         } else do {
           (element, q) \<leftarrow> Writer_PrepareInsert (cx_buffer ctx1);
           (case element of
              None \<Rightarrow> do {
                let (unlocked, ctx2) = Context_WriteUnlock (ctx1\<lparr>cx_buffer := q\<rparr>);
                Some (overwrite_if_not_error unlocked kResourceExhausted, p, h(a \<mapsto> ctx2))
              }
            | Some e \<Rightarrow> do {
                q1 \<leftarrow> Writer_FinishInsert (q\<lparr>rtq_buffer := rq_store e value (rtq_buffer q)\<rparr>);
                let (status, f) = BinaryFutex_Post (cx_has_value ctx1);
                let (unlocked, ctx2) = Context_WriteUnlock (ctx1\<lparr>cx_buffer := q1, cx_has_value := f\<rparr>);
                if unlocked \<noteq> kOk then Some (unlocked, p, h(a \<mapsto> ctx2))
                else if \<not> pr_is_reusable p then do {
                  (detached, p1, h1) \<leftarrow> Promise_Detach p (h(a \<mapsto> ctx2));
                  Some (overwrite_if_not_error status detached, p1, h1)
                } else Some (status, p, h(a \<mapsto> ctx2))
              })
         }
       })"

definition Promise_Cancel ::
    "RealtimePromise \<Rightarrow> 'a ctx_heap \<Rightarrow> (StatusCode \<times> 'a ctx_heap) checked"
  where "Promise_Cancel p h =
    (case pr_context p of
       None \<Rightarrow> Some (kFailedPrecondition, h)
     | Some a \<Rightarrow> do {
         ctx \<leftarrow> h a;
         let (status, ctx') = Context_Cancel ctx;
         Some (status, h(a \<mapsto> ctx'))
       })"

definition Promise_IsCancelled :: "RealtimePromise \<Rightarrow> 'a ctx_heap \<Rightarrow> (StatusCode + bool) checked"
  where "Promise_IsCancelled p h =
    (case pr_context p of
       None \<Rightarrow> Some (Inl kFailedPrecondition)
     | Some a \<Rightarrow> map_option (\<lambda>ctx. Inr (Context_IsCancelled ctx)) (h a))"

definition Promise_HasValue :: "RealtimePromise \<Rightarrow> 'a ctx_heap \<Rightarrow> (StatusCode + bool) checked"
  where "Promise_HasValue p h =
    (case pr_context p of
       None \<Rightarrow> Some (Inl kFailedPrecondition)
     | Some a \<Rightarrow> map_option Context_HasValue (h a))"

definition Promise_GetFuture ::
    "bool \<Rightarrow> RealtimePromise \<Rightarrow> 'a ctx_heap \<Rightarrow> ((StatusCode + RealtimeFuture) \<times> 'a ctx_heap) checked"
  where "Promise_GetFuture is_reusable p h =
    (case pr_context p of
       None \<Rightarrow> Some (Inl kFailedPrecondition, h)
     | Some a \<Rightarrow> do {
         ctx \<leftarrow> h a;
         let (r, ctx') = Context_GetFuture a is_reusable ctx;
         Some (r, h(a \<mapsto> ctx'))
       })"

definition Promise_IsWaitFreeDestructible :: "RealtimePromise \<Rightarrow> 'a ctx_heap \<Rightarrow> bool checked"
  where "Promise_IsWaitFreeDestructible p h =
    (case pr_context p of
       None \<Rightarrow> Some True
     | Some a \<Rightarrow> if pr_internal_context p = None then Some True
                else map_option (\<lambda>ctx. \<not> cx_future_attached ctx) (h a))"

subsection \<open>The future\<close>

definition Future_new :: "'a \<Rightarrow> int \<Rightarrow> ptr \<Rightarrow> 'a ctx_heap \<Rightarrow> RealtimeFuture \<times> 'a ctx_heap"
  where "Future_new dflt detach_timeout a h =
    (\<lparr>fu_context = Some a, fu_internal_context = Some a, fu_is_reusable = True\<rparr>,
     h(a \<mapsto> (Context_new dflt detach_timeout)\<lparr>cx_future_attached := True\<rparr>))"

definition GetDetachedFuture :: RealtimeFuture
  where "GetDetachedFuture = \<lparr>fu_context = None, fu_internal_context = None, fu_is_reusable = False\<rparr>"

definition Future_Detach ::
    "RealtimeFuture \<Rightarrow> 'a ctx_heap \<Rightarrow> (StatusCode \<times> RealtimeFuture \<times> 'a ctx_heap) checked"
  where "Future_Detach f h =
    (case fu_context f of
       None \<Rightarrow> Some (kFailedPrecondition, f, h)
     | Some a \<Rightarrow> do {
         ctx \<leftarrow> h a;
         let (status, ctx') = Context_DetachFuture ctx;
         Some (status, f\<lparr>fu_context := None\<rparr>, h(a \<mapsto> ctx'))
       })"

definition Future_destroy ::
    "(nat \<Rightarrow> wait_env) \<Rightarrow> RealtimeFuture \<Rightarrow> 'a ctx_heap \<Rightarrow> 'a ctx_heap checked"
  where "Future_destroy env f h = do {
    (f1, h1) \<leftarrow> (if fu_context f \<noteq> None then map_option snd (Future_Detach f h) else Some (f, h));
    (case fu_internal_context f1 of
       None \<Rightarrow> Some h1
     | Some a \<Rightarrow> Context_destroy env a h1)
  }"

definition Future_move_assign ::
    "RealtimeFuture \<Rightarrow> RealtimeFuture \<Rightarrow> 'a ctx_heap \<Rightarrow>
     (RealtimeFuture \<times> RealtimeFuture \<times> 'a ctx_heap) checked"
  where "Future_move_assign this other h = do {
    (this1, h1) \<leftarrow> (if fu_context this \<noteq> None then map_option snd (Future_Detach this h)
                    else Some (this, h));
    Some (other, this1, h1)
  }"

definition Future_move ::
    "RealtimeFuture \<Rightarrow> 'a ctx_heap \<Rightarrow> (RealtimeFuture \<times> RealtimeFuture \<times> 'a ctx_heap) checked"
  where "Future_move other h = Future_move_assign GetDetachedFuture other h"

definition Future_Get ::
    "('a \<Rightarrow> 'a) \<Rightarrow> RealtimeFuture \<Rightarrow> 'a ctx_heap \<Rightarrow>
     ((StatusCode + 'a) \<times> RealtimeFuture \<times> 'a ctx_heap) checked"
  where "Future_Get moved f h =
    (case fu_context f of
       None \<Rightarrow> Some (Inl kFailedPrecondition, f, h)
     | Some a \<Rightarrow> do {
         ctx \<leftarrow> h a;
         let (locked, m) = TryLock (cx_read_value_futex ctx);
         let ctx1 = ctx\<lparr>cx_read_value_futex := m\<rparr>;
         if \<not> locked then Some (Inl kCancelled, f, h(a \<mapsto> ctx1))
         else if Context_IsCancelled ctx1 then do {
           let (unlocked, ctx2) = Context_ReadUnlock ctx1;
           Some (Inl (overwrite_if_not_error unlocked kCancelled), f, h(a \<mapsto> ctx2))
         } else do {
           (element, q) \<leftarrow> Reader_MoveFront moved (cx_buffer ctx1);
           (case element of
              Some value \<Rightarrow> do {
                q1 \<leftarrow> Reader_DropFront q;
                let (unlocked, ctx2) = Context_ReadUnlock (ctx1\<lparr>cx_buffer := q1,
                      cx_has_value := snd (BinaryFutex_TryWait (cx_has_value ctx1))\<rparr>);
                if unlocked \<noteq> kOk then Some (Inl unlocked, f, h(a \<mapsto> ctx2))
                else if \<not> fu_is_reusable f then do {
                  (detached, f1, h1) \<leftarrow> Future_Detach f (h(a \<mapsto> ctx2));
                  Some (if detached \<noteq> kOk then Inl detached else Inr value, f1, h1)
                } else Some (Inr value, f, h(a \<mapsto> ctx2))
              }
            | None \<Rightarrow> do {
                let (unlocked, ctx2) = Context_ReadUnlock (ctx1\<lparr>cx_buffer := q\<rparr>);
                Some (Inl (overwrite_if_not_error unlocked kUnavailable), f, h(a \<mapsto> ctx2))
              })
         }
       })"

text \<open>\<open>copy_fn\<close> is the copy function; the default one is \<^term>\<open>\<lambda>t. t\<close>.\<close>

definition Future_Peek ::
    "('a \<Rightarrow> 'a) \<Rightarrow> RealtimeFuture \<Rightarrow> 'a ctx_heap \<Rightarrow> ((StatusCode + 'a) \<times> 'a ctx_heap) checked"
  where "Future_Peek copy_fn f h =
    (case fu_context f of
       None \<Rightarrow> Some (Inl kFailedPrecondition, h)
     | Some a \<Rightarrow> do {
         ctx \<leftarrow> h a;
         if Context_IsCancelled ctx then Some (Inl kCancelled, h)
         else do {
           (front, q) \<leftarrow> Reader_Front (cx_buffer ctx);
           (case front of
              None \<Rightarrow> Some (Inl kUnavailable, h(a \<mapsto> ctx\<lparr>cx_buffer := q\<rparr>))
            | Some e \<Rightarrow> do {
                q1 \<leftarrow> Reader_KeepFront q;
                Some (Inr (copy_fn (rq_load e (rtq_buffer q1))), h(a \<mapsto> ctx\<lparr>cx_buffer := q1\<rparr>))
              })
         }
       })"

definition Future_WaitUntil ::
    "wait_env \<Rightarrow> int \<Rightarrow> RealtimeFuture \<Rightarrow> 'a ctx_heap \<Rightarrow> (StatusCode \<times> 'a ctx_heap) checked"
  where "Future_WaitUntil env deadline f h =
    (case fu_context f of
       None \<Rightarrow> Some (kFailedPrecondition, h)
     | Some a \<Rightarrow> do {
         ctx \<leftarrow> h a;
         (case Context_HasValue ctx of
            Inl e \<Rightarrow> Some (e, h)
          | Inr True \<Rightarrow> Some (kOk, h)
          | Inr False \<Rightarrow> do {
              (status, fx) \<leftarrow> BinaryFutex_WaitUntil env deadline (cx_has_value ctx);
              let ctx1 = ctx\<lparr>cx_has_value := fx\<rparr>;
              if status \<noteq> kOk then Some (status, h(a \<mapsto> ctx1))
              else if Context_IsCancelled ctx1 then Some (kCancelled, h(a \<mapsto> ctx1))
              else Some (kOk, h(a \<mapsto> ctx1))
            })
       })"

text \<open>\<open>now\<close> is the clock when the function starts, \<open>duration\<close> is in nanoseconds.\<close>

definition Future_WaitFor ::
    "wait_env \<Rightarrow> int \<Rightarrow> int \<Rightarrow> RealtimeFuture \<Rightarrow> 'a ctx_heap \<Rightarrow> (StatusCode \<times> 'a ctx_heap) checked"
  where "Future_WaitFor env now duration f h = Future_WaitUntil env (now + duration) f h"

definition Future_WaitUntilAndGet ::
    "('a \<Rightarrow> 'a) \<Rightarrow> wait_env \<Rightarrow> int \<Rightarrow> RealtimeFuture \<Rightarrow> 'a ctx_heap \<Rightarrow>
     ((StatusCode + 'a) \<times> RealtimeFuture \<times> 'a ctx_heap) checked"
  where "Future_WaitUntilAndGet moved env deadline f h = do {
    (status, h1) \<leftarrow> Future_WaitUntil env deadline f h;
    if status \<noteq> kOk then Some (Inl status, f, h1) else Future_Get moved f h1
  }"

definition Future_WaitForAndGet ::
    "('a \<Rightarrow> 'a) \<Rightarrow> wait_env \<Rightarrow> int \<Rightarrow> int \<Rightarrow> RealtimeFuture \<Rightarrow> 'a ctx_heap \<Rightarrow>
     ((StatusCode + 'a) \<times> RealtimeFuture \<times> 'a ctx_heap) checked"
  where "Future_WaitForAndGet moved env now duration f h = do {
    (status, h1) \<leftarrow> Future_WaitFor env now duration f h;
    if status \<noteq> kOk then Some (Inl status, f, h1) else Future_Get moved f h1
  }"

definition Future_WaitUntilAndPeek ::
    "('a \<Rightarrow> 'a) \<Rightarrow> wait_env \<Rightarrow> int \<Rightarrow> RealtimeFuture \<Rightarrow> 'a ctx_heap \<Rightarrow>
     ((StatusCode + 'a) \<times> 'a ctx_heap) checked"
  where "Future_WaitUntilAndPeek copy_fn env deadline f h = do {
    (status, h1) \<leftarrow> Future_WaitUntil env deadline f h;
    if status \<noteq> kOk then Some (Inl status, h1) else Future_Peek copy_fn f h1
  }"

definition Future_WaitForAndPeek ::
    "('a \<Rightarrow> 'a) \<Rightarrow> wait_env \<Rightarrow> int \<Rightarrow> int \<Rightarrow> RealtimeFuture \<Rightarrow> 'a ctx_heap \<Rightarrow>
     ((StatusCode + 'a) \<times> 'a ctx_heap) checked"
  where "Future_WaitForAndPeek copy_fn env now duration f h = do {
    (status, h1) \<leftarrow> Future_WaitFor env now duration f h;
    if status \<noteq> kOk then Some (Inl status, h1) else Future_Peek copy_fn f h1
  }"

definition Future_Cancel ::
    "RealtimeFuture \<Rightarrow> 'a ctx_heap \<Rightarrow> (StatusCode \<times> 'a ctx_heap) checked"
  where "Future_Cancel f h =
    (case fu_context f of
       None \<Rightarrow> Some (kFailedPrecondition, h)
     | Some a \<Rightarrow> do {
         ctx \<leftarrow> h a;
         let (status, ctx') = Context_Cancel ctx;
         Some (status, h(a \<mapsto> ctx'))
       })"

definition Future_IsCancelled :: "RealtimeFuture \<Rightarrow> 'a ctx_heap \<Rightarrow> (StatusCode + bool) checked"
  where "Future_IsCancelled f h =
    (case fu_context f of
       None \<Rightarrow> Some (Inl kFailedPrecondition)
     | Some a \<Rightarrow> map_option (\<lambda>ctx. Inr (Context_IsCancelled ctx)) (h a))"

definition Future_HasValue :: "RealtimeFuture \<Rightarrow> 'a ctx_heap \<Rightarrow> (StatusCode + bool) checked"
  where "Future_HasValue f h =
    (case fu_context f of
       None \<Rightarrow> Some (Inl kFailedPrecondition)
     | Some a \<Rightarrow> map_option Context_HasValue (h a))"

definition Future_GetPromise ::
    "bool \<Rightarrow> RealtimeFuture \<Rightarrow> 'a ctx_heap \<Rightarrow> ((StatusCode + RealtimePromise) \<times> 'a ctx_heap) checked"
  where "Future_GetPromise is_reusable f h =
    (case fu_context f of
       None \<Rightarrow> Some (Inl kFailedPrecondition, h)
     | Some a \<Rightarrow> do {
         ctx \<leftarrow> h a;
         let (r, ctx') = Context_GetPromise a is_reusable ctx;
         Some (r, h(a \<mapsto> ctx'))
       })"

definition Future_IsWaitFreeDestructible :: "RealtimeFuture \<Rightarrow> 'a ctx_heap \<Rightarrow> bool checked"
  where "Future_IsWaitFreeDestructible f h =
    (case fu_context f of
       None \<Rightarrow> Some True
     | Some a \<Rightarrow> if fu_internal_context f = None then Some True
                else map_option (\<lambda>ctx. \<not> cx_promise_attached ctx) (h a))"

subsection \<open>Specification: a cell that can be cancelled\<close>

text \<open>
  What a promise and a future that stay attached promise together: a cell that holds at most one
  value until it is cancelled.
\<close>

datatype 'a cell_op = OSet 'a | OGet | OPeek | OHasValue | OCancel
datatype 'a cell_out = Code StatusCode | Value 'a | Flag bool

type_synonym 'a cell = "bool \<times> 'a option"

fun cell_step :: "'a cell_op \<Rightarrow> 'a cell \<Rightarrow> 'a cell_out \<times> 'a cell"
  where
    "cell_step OCancel (c, v) = (Code kOk, (True, v))"
  | "cell_step (OSet x) (True, v) = (Code kCancelled, (True, v))"
  | "cell_step (OSet x) (False, None) = (Code kOk, (False, Some x))"
  | "cell_step (OSet x) (False, Some v) = (Code kResourceExhausted, (False, Some v))"
  | "cell_step OGet (True, v) = (Code kCancelled, (True, v))"
  | "cell_step OGet (False, None) = (Code kUnavailable, (False, None))"
  | "cell_step OGet (False, Some v) = (Value v, (False, None))"
  | "cell_step OPeek (True, v) = (Code kCancelled, (True, v))"
  | "cell_step OPeek (False, None) = (Code kUnavailable, (False, None))"
  | "cell_step OPeek (False, Some v) = (Value v, (False, Some v))"
  | "cell_step OHasValue (True, v) = (Code kCancelled, (True, v))"
  | "cell_step OHasValue (False, v) = (Flag (v \<noteq> None), (False, v))"

fun cell_run :: "'a cell_op list \<Rightarrow> 'a cell \<Rightarrow> 'a cell_out list \<times> 'a cell"
  where
    "cell_run [] c = ([], c)"
  | "cell_run (op # ops) c =
      (case cell_step op c of (out, c') \<Rightarrow> map_prod (Cons out) id (cell_run ops c'))"

definition out_of :: "StatusCode + 'a \<Rightarrow> 'a cell_out"
  where "out_of r = (case r of Inl e \<Rightarrow> Code e | Inr v \<Rightarrow> Value v)"

definition flag_of :: "StatusCode + bool \<Rightarrow> 'a cell_out"
  where "flag_of r = (case r of Inl e \<Rightarrow> Code e | Inr b \<Rightarrow> Flag b)"

fun handle_step ::
    "('a \<Rightarrow> 'a) \<Rightarrow> 'a cell_op \<Rightarrow> RealtimePromise \<times> RealtimeFuture \<times> 'a ctx_heap \<Rightarrow>
     ('a cell_out \<times> RealtimePromise \<times> RealtimeFuture \<times> 'a ctx_heap) checked"
  where
    "handle_step moved (OSet v) (p, f, h) =
      map_option (\<lambda>(c, p', h'). (Code c, p', f, h')) (Promise_Set v p h)"
  | "handle_step moved OGet (p, f, h) =
      map_option (\<lambda>(r, f', h'). (out_of r, p, f', h')) (Future_Get moved f h)"
  | "handle_step moved OPeek (p, f, h) =
      map_option (\<lambda>(r, h'). (out_of r, p, f, h')) (Future_Peek (\<lambda>t. t) f h)"
  | "handle_step moved OHasValue (p, f, h) =
      map_option (\<lambda>r. (flag_of r, p, f, h)) (Future_HasValue f h)"
  | "handle_step moved OCancel (p, f, h) =
      map_option (\<lambda>(c, h'). (Code c, p, f, h')) (Promise_Cancel p h)"

fun handle_run ::
    "('a \<Rightarrow> 'a) \<Rightarrow> 'a cell_op list \<Rightarrow> RealtimePromise \<times> RealtimeFuture \<times> 'a ctx_heap \<Rightarrow>
     ('a cell_out list \<times> RealtimePromise \<times> RealtimeFuture \<times> 'a ctx_heap) checked"
  where
    "handle_run moved [] s = Some ([], s)"
  | "handle_run moved (op # ops) s = do {
      (out, s') \<leftarrow> handle_step moved op s;
      (outs, s'') \<leftarrow> handle_run moved ops s';
      Some (out # outs, s'')
    }"

definition cx_locks_free :: "'a Context \<Rightarrow> bool"
  where "cx_locks_free ctx \<longleftrightarrow>
    bf_val (cx_read_value_futex ctx) = kPosted \<and> bf_val (cx_write_value_futex ctx) = kPosted
    \<and> bf_val (cx_cancel_futex ctx) = kPosted \<and> bf_val (cx_get_future_futex ctx) = kPosted
    \<and> bf_val (cx_get_promise_futex ctx) = kPosted"

definition bf_open :: "BinaryFutex \<Rightarrow> bool"
  where "bf_open f \<longleftrightarrow> bf_val f = kReady \<or> bf_val f = kPosted"

text \<open>Between operations all locks are free, the buffer is a queue of capacity one with no access in
  progress, and, unless the context is cancelled, \<open>has_value_\<close> is posted exactly when there is a
  value.\<close>

definition cx_wf :: "'a Context \<Rightarrow> bool"
  where "cx_wf ctx \<longleftrightarrow>
    cx_locks_free ctx \<and> rtq_idle (cx_buffer ctx) \<and> rtq_capacity (cx_buffer ctx) = 1
    \<and> bf_open (cx_has_value ctx) \<and> bf_open (cx_future_detached ctx) \<and> bf_open (cx_promise_detached ctx)
    \<and> (\<not> cx_is_cancelled ctx \<longrightarrow>
        (bf_val (cx_has_value ctx) = kPosted \<longleftrightarrow> rtq_list (cx_buffer ctx) \<noteq> []))"

definition cell_of :: "'a Context \<Rightarrow> 'a cell"
  where "cell_of ctx = (cx_is_cancelled ctx,
    case rtq_list (cx_buffer ctx) of [] \<Rightarrow> None | x # _ \<Rightarrow> Some x)"

definition both_attached :: "ptr \<Rightarrow> RealtimePromise \<Rightarrow> RealtimeFuture \<Rightarrow> bool"
  where "both_attached a p f \<longleftrightarrow> pr_context p = Some a \<and> fu_context f = Some a
    \<and> pr_is_reusable p \<and> fu_is_reusable f"

subsection \<open>Locks and signals\<close>

lemma TryLock_free: "bf_val m = kPosted \<Longrightarrow> TryLock m = (True, m\<lparr>bf_val := kReady\<rparr>)"
  by (simp add: TryLock_def BinaryFutex_TryWait_def TryWait_val_def)

lemma Unlock_held: "Unlock (m\<lparr>bf_val := kReady\<rparr>) = (kOk, m\<lparr>bf_val := kPosted\<rparr>)"
  by (simp add: Unlock_def IsHeld_def BinaryFutex_Value_def BinaryFutex_Post_def)
    (simp add: futex_values)

lemma futex_same: "bf_val m = v \<Longrightarrow> m\<lparr>bf_val := v\<rparr> = m"
  by simp

lemma Post_open: "bf_open f \<Longrightarrow> BinaryFutex_Post f = (kOk, f\<lparr>bf_val := kPosted\<rparr>)"
  by (auto simp: bf_open_def BinaryFutex_Post_def)

lemma TryWait_open: "bf_open f \<Longrightarrow> snd (BinaryFutex_TryWait f) = f\<lparr>bf_val := kReady\<rparr>"
  by (auto simp: bf_open_def BinaryFutex_TryWait_def TryWait_val_def)

lemma bf_open_upd [simp]: "bf_open (f\<lparr>bf_val := kReady\<rparr>)" "bf_open (f\<lparr>bf_val := kPosted\<rparr>)"
  by (simp_all add: bf_open_def)

lemmas lock_simps = TryLock_free Unlock_held Post_open TryWait_open Context_ReadUnlock_def
  Context_WriteUnlock_def Context_IsCancelled_def overwrite_if_not_error_def

lemma cx_wf_new: "cx_wf (Context_new d t)"
  by (simp add: cx_wf_def Context_new_def cx_locks_free_def LockableBinaryFutex_new_def
      BinaryFutex_new_def rtq_idle_def rq_wf_def RtQueueBuffer_new_def rtq_capacity_def bf_open_def
      rtq_list_def rq_list_def)

lemma cx_wf_list:
  assumes "cx_wf ctx"
  obtains "rtq_list (cx_buffer ctx) = []" | x where "rtq_list (cx_buffer ctx) = [x]"
proof -
  have "length (rtq_list (cx_buffer ctx)) \<le> 1"
    using assms rtq_bound[of "cx_buffer ctx"] by (simp add: cx_wf_def)
  then show thesis using that by (cases "rtq_list (cx_buffer ctx)") auto
qed

subsection \<open>The operations on an attached pair\<close>

lemma Promise_Set_attached:
  assumes wf: "cx_wf ctx" and p: "pr_context p = Some a" "pr_is_reusable p" and h: "h a = Some ctx"
  shows "\<exists>c ctx'. Promise_Set v p h = Some (c, p, h(a \<mapsto> ctx')) \<and> cx_wf ctx'
    \<and> cell_step (OSet v) (cell_of ctx) = (Code c, cell_of ctx')
    \<and> cx_promise_attached ctx' = cx_promise_attached ctx \<and> cx_future_attached ctx' = cx_future_attached ctx"
proof -
  from wf have w: "bf_val (cx_write_value_futex ctx) = kPosted" and q: "rtq_idle (cx_buffer ctx)"
    "rtq_capacity (cx_buffer ctx) = 1" and hv: "bf_open (cx_has_value ctx)"
    by (auto simp: cx_wf_def cx_locks_free_def)
  note step = Promise_Set_def p h lock_simps w futex_same[OF w]
  show ?thesis
  proof (cases "cx_is_cancelled ctx")
    case True
    then show ?thesis using wf by (auto simp: step cell_of_def intro!: exI[of _ ctx])
  next
    case False
    show ?thesis
    proof (cases "rtq_list (cx_buffer ctx)")
      case Nil
      with writer_store_finish[OF q(1), of v] q(2) obtain e rq1 rq2 where
        ins: "Writer_PrepareInsert (cx_buffer ctx) = Some (Some e, rq1)"
          "Writer_FinishInsert (rq1\<lparr>rtq_buffer := rq_store e v (rtq_buffer rq1)\<rparr>) = Some rq2"
          "rtq_idle rq2" "rtq_list rq2 = [v]" "rtq_capacity rq2 = 1"
        by auto
      let ?ctx = "ctx\<lparr>cx_buffer := rq2, cx_has_value := (cx_has_value ctx)\<lparr>bf_val := kPosted\<rparr>\<rparr>"
      have "Promise_Set v p h = Some (kOk, p, h(a \<mapsto> ?ctx))"
        using False ins hv by (simp add: step)
      moreover have "cx_wf ?ctx" using wf ins by (simp add: cx_wf_def cx_locks_free_def)
      ultimately show ?thesis using False Nil ins(4) by (auto simp: cell_of_def)
    next
      case (Cons x xs)
      then have "length (rtq_list (cx_buffer ctx)) = 1"
        using wf by (auto elim: cx_wf_list)
      then have "Promise_Set v p h = Some (kResourceExhausted, p, h(a \<mapsto> ctx))"
        using False writer_prepare_full[OF q(1)] q(2) by (simp add: step)
      then show ?thesis using wf False Cons by (auto simp: cell_of_def)
    qed
  qed
qed

lemma Future_Get_attached:
  assumes wf: "cx_wf ctx" and f: "fu_context f = Some a" "fu_is_reusable f" and h: "h a = Some ctx"
  shows "\<exists>r ctx'. Future_Get moved f h = Some (r, f, h(a \<mapsto> ctx')) \<and> cx_wf ctx'
    \<and> cell_step OGet (cell_of ctx) = (out_of r, cell_of ctx')
    \<and> cx_promise_attached ctx' = cx_promise_attached ctx \<and> cx_future_attached ctx' = cx_future_attached ctx"
proof -
  from wf have w: "bf_val (cx_read_value_futex ctx) = kPosted" and q: "rtq_idle (cx_buffer ctx)"
    "rtq_capacity (cx_buffer ctx) = 1" and hv: "bf_open (cx_has_value ctx)"
    by (auto simp: cx_wf_def cx_locks_free_def)
  note step = Future_Get_def f h lock_simps w futex_same[OF w]
  show ?thesis
  proof (cases "cx_is_cancelled ctx")
    case True
    then show ?thesis using wf by (auto simp: step cell_of_def out_of_def intro!: exI[of _ ctx])
  next
    case False
    show ?thesis
    proof (cases "rtq_list (cx_buffer ctx)")
      case Nil
      then have "Future_Get moved f h = Some (Inl kUnavailable, f, h(a \<mapsto> ctx))"
        using False reader_empty[OF q(1)] by (simp add: step)
      then show ?thesis using wf False Nil by (auto simp: cell_of_def out_of_def)
    next
      case (Cons x xs)
      then have "rtq_list (cx_buffer ctx) = [x]" using wf by (auto elim: cx_wf_list)
      from reader_move_drop[OF q(1) this, of moved] obtain rq1 rq2 where
        r: "Reader_MoveFront moved (cx_buffer ctx) = Some (Some x, rq1)" "Reader_DropFront rq1 = Some rq2"
          "rtq_idle rq2" "rtq_list rq2 = []" "rtq_capacity rq2 = 1"
        using q(2) by auto
      let ?ctx = "ctx\<lparr>cx_buffer := rq2, cx_has_value := (cx_has_value ctx)\<lparr>bf_val := kReady\<rparr>\<rparr>"
      have "Future_Get moved f h = Some (Inr x, f, h(a \<mapsto> ?ctx))"
        using False r hv by (simp add: step)
      moreover have "cx_wf ?ctx" using wf r by (simp add: cx_wf_def cx_locks_free_def)
      ultimately show ?thesis using False Cons r(4) by (auto simp: cell_of_def out_of_def)
    qed
  qed
qed

lemma Future_Peek_attached:
  assumes wf: "cx_wf ctx" and f: "fu_context f = Some a" and h: "h a = Some ctx"
  shows "\<exists>r. Future_Peek (\<lambda>t. t) f h = Some (r, h) \<and> cell_step OPeek (cell_of ctx) = (out_of r, cell_of ctx)"
proof -
  from wf have q: "rtq_idle (cx_buffer ctx)" by (auto simp: cx_wf_def)
  have same: "h(a \<mapsto> ctx) = h" using h by auto
  show ?thesis
  proof (cases "rtq_list (cx_buffer ctx)")
    case Nil
    then show ?thesis
      using reader_empty[OF q] f h same
      by (auto simp: Future_Peek_def cell_of_def out_of_def Context_IsCancelled_def)
  next
    case (Cons x xs)
    from reader_front_keep[OF q Cons] f h same show ?thesis
      by (auto simp: Future_Peek_def cell_of_def out_of_def Context_IsCancelled_def Cons)
  qed
qed

lemma Future_HasValue_attached:
  assumes "fu_context f = Some a" "h a = Some ctx"
  shows "\<exists>r. Future_HasValue f h = Some r \<and> cell_step OHasValue (cell_of ctx) = (flag_of r, cell_of ctx)"
  using assms rtq_list_size[of "cx_buffer ctx"]
  by (auto simp: Future_HasValue_def Context_HasValue_def Context_IsCancelled_def cell_of_def flag_of_def
      RtQueueBuffer_Empty_def split: list.splits)

lemma Context_Cancel_wf:
  assumes "cx_wf ctx"
  shows "Context_Cancel ctx = (kOk, ctx\<lparr>cx_is_cancelled := True,
      cx_has_value := (cx_has_value ctx)\<lparr>bf_val := kPosted\<rparr>\<rparr>)"
    and "cx_wf (ctx\<lparr>cx_is_cancelled := True, cx_has_value := (cx_has_value ctx)\<lparr>bf_val := kPosted\<rparr>\<rparr>)"
proof -
  have w: "bf_val (cx_cancel_futex ctx) = kPosted" using assms by (simp add: cx_wf_def cx_locks_free_def)
  show "Context_Cancel ctx = (kOk, ctx\<lparr>cx_is_cancelled := True,
      cx_has_value := (cx_has_value ctx)\<lparr>bf_val := kPosted\<rparr>\<rparr>)"
    using assms by (simp add: Context_Cancel_def lock_simps w futex_same[OF w] cx_wf_def)
  show "cx_wf (ctx\<lparr>cx_is_cancelled := True, cx_has_value := (cx_has_value ctx)\<lparr>bf_val := kPosted\<rparr>\<rparr>)"
    using assms by (simp add: cx_wf_def cx_locks_free_def)
qed

lemma Promise_Cancel_attached:
  assumes wf: "cx_wf ctx" and p: "pr_context p = Some a" and h: "h a = Some ctx"
  shows "\<exists>ctx'. Promise_Cancel p h = Some (kOk, h(a \<mapsto> ctx')) \<and> cx_wf ctx'
    \<and> cell_step OCancel (cell_of ctx) = (Code kOk, cell_of ctx')
    \<and> cx_promise_attached ctx' = cx_promise_attached ctx \<and> cx_future_attached ctx' = cx_future_attached ctx"
  using p h Context_Cancel_wf[OF wf] by (auto simp: Promise_Cancel_def cell_of_def)

lemma handle_step_refines:
  assumes wf: "cx_wf ctx" and att: "both_attached a p f" and h: "h a = Some ctx"
  shows "\<exists>out ctx'. handle_step moved op (p, f, h) = Some (out, p, f, h(a \<mapsto> ctx')) \<and> cx_wf ctx'
    \<and> cell_step op (cell_of ctx) = (out, cell_of ctx')
    \<and> cx_promise_attached ctx' = cx_promise_attached ctx \<and> cx_future_attached ctx' = cx_future_attached ctx"
proof -
  from att have p: "pr_context p = Some a" "pr_is_reusable p"
    and f: "fu_context f = Some a" "fu_is_reusable f"
    by (auto simp: both_attached_def)
  have same: "h(a \<mapsto> ctx) = h" using h by auto
  show ?thesis
  proof (cases op)
    case (OSet v)
    with Promise_Set_attached[OF wf p, of h, OF h, of v] show ?thesis by auto
  next
    case OGet
    with Future_Get_attached[OF wf f, of h, OF h, of moved] show ?thesis by auto
  next
    case OPeek
    with Future_Peek_attached[OF wf f(1), of h, OF h] same wf show ?thesis
      by (intro exI[of _ "fst (cell_step op (cell_of ctx))"] exI[of _ ctx]) auto
  next
    case OHasValue
    with Future_HasValue_attached[of f a h, OF f(1) h] same wf show ?thesis
      by (intro exI[of _ "fst (cell_step op (cell_of ctx))"] exI[of _ ctx]) auto
  next
    case OCancel
    with Promise_Cancel_attached[OF wf p(1), of h, OF h] show ?thesis by auto
  qed
qed

lemma handle_run_refines:
  assumes "cx_wf ctx" "both_attached a p f" "h a = Some ctx"
  shows "\<exists>ctx'. handle_run moved ops (p, f, h)
      = Some (fst (cell_run ops (cell_of ctx)), p, f, h(a \<mapsto> ctx')) \<and> cx_wf ctx'
    \<and> cell_of ctx' = snd (cell_run ops (cell_of ctx))"
  using assms
proof (induction ops arbitrary: h ctx)
  case Nil
  then show ?case by (auto intro!: exI[of _ ctx])
next
  case (Cons op ops)
  from handle_step_refines[where h = h, OF Cons.prems, of moved op] obtain out ctx1 where
    s: "handle_step moved op (p, f, h) = Some (out, p, f, h(a \<mapsto> ctx1))" "cx_wf ctx1"
      "cell_step op (cell_of ctx) = (out, cell_of ctx1)"
    by blast
  from Cons.IH[OF s(2) Cons.prems(2), of "h(a \<mapsto> ctx1)"] obtain ctx2 where
    "handle_run moved ops (p, f, h(a \<mapsto> ctx1))
      = Some (fst (cell_run ops (cell_of ctx1)), p, f, h(a \<mapsto> ctx2))" "cx_wf ctx2"
    "cell_of ctx2 = snd (cell_run ops (cell_of ctx1))"
    by (metis fun_upd_same fun_upd_upd)
  with s show ?case by (intro exI[of _ ctx2]) (simp add: fun_upd_def)
qed



subsection \<open>Waiting for a value\<close>

text \<open>\<open>WaitUntil\<close> of an attached future never lies: if it returns OK at once there is a value to get,
  it reports \<open>kCancelled\<close> without waiting if the context is cancelled, and otherwise it sleeps on
  \<open>has_value_\<close>, so with a system call that times out it reports \<open>kDeadlineExceeded\<close> and changes
  nothing.\<close>
theorem future_wait_until:
  assumes "cx_wf ctx" "fu_context f = Some a" "h a = Some ctx"
  shows "Future_WaitUntil env deadline f h =
    (if cx_is_cancelled ctx then Some (kCancelled, h)
     else if rtq_list (cx_buffer ctx) \<noteq> [] then Some (kOk, h)
     else map_option (\<lambda>(status, fx). (status, h(a \<mapsto> ctx\<lparr>cx_has_value := fx\<rparr>)))
            (BinaryFutex_WaitUntil env deadline (cx_has_value ctx)))
   \<and> (\<not> cx_is_cancelled ctx \<and> rtq_list (cx_buffer ctx) = [] \<longrightarrow>
       Future_WaitUntil expired_env deadline f h = Some (kDeadlineExceeded, h))"
proof -
  have empty: "RtQueueBuffer_Empty (rtq_buffer (cx_buffer ctx)) \<longleftrightarrow> rtq_list (cx_buffer ctx) = []"
    by (simp add: rtq_list_size RtQueueBuffer_Empty_def)
  have gen: "Future_WaitUntil env deadline f h =
    (if cx_is_cancelled ctx then Some (kCancelled, h)
     else if rtq_list (cx_buffer ctx) \<noteq> [] then Some (kOk, h)
     else map_option (\<lambda>(status, fx). (status, h(a \<mapsto> ctx\<lparr>cx_has_value := fx\<rparr>)))
            (BinaryFutex_WaitUntil env deadline (cx_has_value ctx)))" for env
    using assms(2,3) empty
    by (cases "BinaryFutex_WaitUntil env deadline (cx_has_value ctx)")
      (auto simp: Future_WaitUntil_def Context_HasValue_def Context_IsCancelled_def Let_def
        split: bool.splits)
  moreover have "Future_WaitUntil expired_env deadline f h = Some (kDeadlineExceeded, h)"
    if "\<not> cx_is_cancelled ctx" "rtq_list (cx_buffer ctx) = []"
  proof -
    have ready: "bf_val (cx_has_value ctx) = kReady"
      using assms(1) that by (auto simp: cx_wf_def bf_open_def)
    have "Wait expired_env kReady ts = Some (kDeadlineExceeded, kReady)" for ts
      by (simp add: Wait_def expired_env_def Wait_loop_ready wait_stops_def wait_result_def)
    then have "BinaryFutex_WaitUntil expired_env deadline (cx_has_value ctx)
        = Some (kDeadlineExceeded, cx_has_value ctx)"
      using ready by (simp add: BinaryFutex_WaitUntil_def expired_env_def[symmetric] futex_same split: option.splits)
        (simp add: expired_env_def)
    then show ?thesis using gen that assms(3) by (auto simp: map_upd_triv)
  qed
  ultimately show ?thesis by blast
qed

theorem future_wait_until_witness:
  "Future_WaitUntil expired_env 5 \<lparr>fu_context = Some 7, fu_internal_context = None, fu_is_reusable = True\<rparr>
      [7 \<mapsto> Context_new (0::int) 1000] = Some (kDeadlineExceeded, [7 \<mapsto> Context_new 0 1000])"
proof -
  have "\<not> cx_is_cancelled (Context_new (0::int) 1000)" "rtq_list (cx_buffer (Context_new (0::int) 1000)) = []"
    by (simp_all add: Context_new_def rtq_list_def rq_list_def RtQueueBuffer_new_def)
  with future_wait_until[OF cx_wf_new[of "0::int" 1000],
      of "\<lparr>fu_context = Some 7, fu_internal_context = None, fu_is_reusable = True\<rparr>" 7
        "[7 \<mapsto> Context_new (0::int) 1000]" expired_env 5, THEN conjunct2]
  show ?thesis by simp
qed

subsection \<open>Reset\<close>

lemma lock_new_free: "bf_val m = kPosted \<Longrightarrow> BinaryFutexLock_new env m = Some (Some (m\<lparr>bf_val := kReady\<rparr>))"
  by (simp add: BinaryFutexLock_new_def Lock_def futex_wait_until_immediate)

lemma lock_destroy_held: "BinaryFutexLock_destroy (m\<lparr>bf_val := kReady\<rparr>) = Some (m\<lparr>bf_val := kPosted\<rparr>)"
  by (simp add: BinaryFutexLock_destroy_def Unlock_held)

lemma Reset_drain_empties:
  assumes "rtq_idle q"
  shows "\<exists>q'. Reset_drain moved q = Some q' \<and> rtq_idle q' \<and> rtq_list q' = [] \<and> rtq_capacity q' = rtq_capacity q"
  using assms
proof (induction "rtq_list q" arbitrary: q)
  case Nil
  then show ?case
    by (subst Reset_drain.simps) (simp add: RtQueueBuffer_Empty_def rtq_list_size[symmetric])
next
  case (Cons x xs)
  from reader_move_drop[OF Cons.prems Cons.hyps(2)[symmetric], of moved] obtain q1 q2 where
    q: "Reader_MoveFront moved q = Some (Some x, q1)" "Reader_DropFront q1 = Some q2" "rtq_idle q2"
      "rtq_list q2 = xs" "rtq_capacity q2 = rtq_capacity q"
    by blast
  have "\<not> RtQueueBuffer_Empty (rtq_buffer q)"
    using Cons.hyps(2) rtq_list_size[of q] by (auto simp: RtQueueBuffer_Empty_def)
  then have "Reset_drain moved q = Reset_drain moved q2"
    using q by (subst Reset_drain.simps) simp
  with Cons.hyps(1)[OF q(4)[symmetric] q(3)] q(5) show ?case by simp
qed

lemma Context_Reset_unfold:
  assumes "cx_locks_free ctx"
    and body: "\<And>c. c = ctx\<lparr>cx_get_future_futex := (cx_get_future_futex ctx)\<lparr>bf_val := kReady\<rparr>,
        cx_get_promise_futex := (cx_get_promise_futex ctx)\<lparr>bf_val := kReady\<rparr>,
        cx_cancel_futex := (cx_cancel_futex ctx)\<lparr>bf_val := kReady\<rparr>\<rparr> \<Longrightarrow>
      Reset_wait_detached env timeout c = Some (kOk, c\<lparr>cx_future_detached := fd, cx_promise_detached := pd\<rparr>)"
  shows "Context_Reset moved env timeout ctx = map_option (Pair kOk)
    (do { q \<leftarrow> Reset_drain moved (cx_buffer ctx);
      Some (ctx\<lparr>cx_buffer := q,
        cx_has_value := snd (BinaryFutex_TryWait (cx_has_value ctx)),
        cx_future_detached := snd (BinaryFutex_TryWait fd),
        cx_promise_detached := snd (BinaryFutex_TryWait pd),
        cx_is_cancelled := False\<rparr>) })"
proof -
  from assms(1) have v: "bf_val (cx_read_value_futex ctx) = kPosted" "bf_val (cx_write_value_futex ctx) = kPosted"
    "bf_val (cx_cancel_futex ctx) = kPosted" "bf_val (cx_get_future_futex ctx) = kPosted"
    "bf_val (cx_get_promise_futex ctx) = kPosted"
    by (auto simp: cx_locks_free_def)
  note same = v[THEN futex_same]
  show ?thesis
    using v
    by (cases "Reset_drain moved (cx_buffer ctx)")
      (simp_all add: Context_Reset_def scoped_lock_def lock_new_free lock_destroy_held body
        Reset_clear_def same)
qed

text \<open>\<open>Reset\<close> on a context without attached handles always succeeds and brings it back to the
  state of a new one: no value, not cancelled, no pending signal, all locks free.\<close>
theorem context_reset_detached:
  assumes "cx_wf ctx" "\<not> cx_promise_attached ctx" "\<not> cx_future_attached ctx"
  shows "\<exists>ctx'. Context_Reset moved env timeout ctx = Some (kOk, ctx') \<and> cx_wf ctx'
    \<and> cell_of ctx' = (False, None) \<and> bf_val (cx_has_value ctx') = kReady
    \<and> bf_val (cx_future_detached ctx') = kReady \<and> bf_val (cx_promise_detached ctx') = kReady
    \<and> \<not> cx_promise_attached ctx' \<and> \<not> cx_future_attached ctx'"
proof -
  from assms(1) have wf: "cx_locks_free ctx" "rtq_idle (cx_buffer ctx)" "rtq_capacity (cx_buffer ctx) = 1"
    "bf_open (cx_has_value ctx)" "bf_open (cx_future_detached ctx)" "bf_open (cx_promise_detached ctx)"
    by (auto simp: cx_wf_def)
  from Reset_drain_empties[OF wf(2), of moved] obtain q where
    "Reset_drain moved (cx_buffer ctx) = Some q" "rtq_idle q" "rtq_list q = []" "rtq_capacity q = 1"
    using wf(3) by auto
  then show ?thesis
    using wf assms(2,3)
    by (subst Context_Reset_unfold[OF wf(1), where fd = "cx_future_detached ctx"
          and pd = "cx_promise_detached ctx"])
      (auto simp: Reset_wait_detached_def TryWait_open cx_wf_def cell_of_def cx_locks_free_def)
qed

theorem context_reset_detached_witness:
  "\<exists>ctx'. Context_Reset id (\<lambda>_. expired_env) 1000
      (snd (Context_Cancel (Context_new (0::int) 1000))) = Some (kOk, ctx') \<and> cell_of ctx' = (False, None)"
  using context_reset_detached[OF Context_Cancel_wf(2)[OF cx_wf_new[of "0::int" 1000]], of id "\<lambda>_. expired_env" 1000]
  by (auto simp: Context_Cancel_wf(1)[OF cx_wf_new]) (auto simp: Context_new_def)

subsection \<open>Attaching and detaching\<close>

lemma Context_GetFuture_wf:
  assumes "cx_locks_free ctx"
  shows "Context_GetFuture a r ctx =
    (if cx_future_attached ctx then (Inl kAlreadyExists, ctx)
     else (Inr \<lparr>fu_context = Some a, fu_internal_context = None, fu_is_reusable = r\<rparr>,
           ctx\<lparr>cx_future_attached := True\<rparr>))"
proof -
  have w: "bf_val (cx_get_future_futex ctx) = kPosted" using assms by (simp add: cx_locks_free_def)
  show ?thesis by (simp add: Context_GetFuture_def lock_simps w futex_same[OF w])
qed

lemma Context_GetPromise_wf:
  assumes "cx_locks_free ctx"
  shows "Context_GetPromise a r ctx =
    (if cx_promise_attached ctx then (Inl kAlreadyExists, ctx)
     else (Inr \<lparr>pr_context = Some a, pr_internal_context = None, pr_is_reusable = r\<rparr>,
           ctx\<lparr>cx_promise_attached := True\<rparr>))"
proof -
  have w: "bf_val (cx_get_promise_futex ctx) = kPosted" using assms by (simp add: cx_locks_free_def)
  show ?thesis by (simp add: Context_GetPromise_def lock_simps w futex_same[OF w])
qed

text \<open>A context hands out at most one promise and one future at a time: while a handle is
  attached, asking for another one reports \<open>kAlreadyExists\<close> and changes nothing; detaching frees the
  place, signals it, and a new handle can be attached.\<close>
theorem context_single_handles:
  assumes "cx_wf ctx" "\<not> cx_promise_attached ctx" "\<not> cx_future_attached ctx"
  shows "\<exists>p f c1 c2 c3. Context_GetPromise a rp ctx = (Inr p, c1) \<and> Context_GetFuture a rf c1 = (Inr f, c2)
    \<and> Context_GetPromise a rp' c2 = (Inl kAlreadyExists, c2) \<and> Context_GetFuture a rf' c2 = (Inl kAlreadyExists, c2)
    \<and> cx_wf c2 \<and> Context_DetachPromise c2 = (kOk, c3) \<and> cx_wf c3 \<and> cx_future_attached c3
    \<and> bf_val (cx_promise_detached c3) = kPosted
    \<and> (\<exists>p' c4. Context_GetPromise a rp' c3 = (Inr p', c4) \<and> cell_of c4 = cell_of ctx)"
proof -
  let ?c1 = "ctx\<lparr>cx_promise_attached := True\<rparr>"
  let ?c2 = "?c1\<lparr>cx_future_attached := True\<rparr>"
  let ?c3 = "?c2\<lparr>cx_promise_attached := False,
    cx_promise_detached := (cx_promise_detached ctx)\<lparr>bf_val := kPosted\<rparr>\<rparr>"
  have free: "cx_locks_free c" if "c = ctx \<or> c = ?c1 \<or> c = ?c2 \<or> c = ?c3" for c
    using assms(1) that by (auto simp: cx_wf_def cx_locks_free_def)
  have "bf_open (cx_promise_detached ctx)" using assms(1) by (simp add: cx_wf_def)
  then have "Context_DetachPromise ?c2 = (kOk, ?c3)"
    by (simp add: Context_DetachPromise_def Post_open)
  moreover have "cx_wf ?c2" "cx_wf ?c3" using assms(1) by (simp_all add: cx_wf_def cx_locks_free_def)
  ultimately show ?thesis
    using assms free by (simp add: Context_GetPromise_wf Context_GetFuture_wf cell_of_def)
qed

theorem context_single_handles_witness:
  "\<exists>p c1. Context_GetPromise 7 True (Context_new (0::int) 1000) = (Inr p, c1)
    \<and> Context_GetPromise 7 True (snd (Context_GetFuture 7 True c1)) = (Inl kAlreadyExists, snd (Context_GetFuture 7 True c1))"
proof -
  have "\<not> cx_promise_attached (Context_new (0::int) 1000)" "\<not> cx_future_attached (Context_new (0::int) 1000)"
    by (simp_all add: Context_new_def)
  from context_single_handles[OF cx_wf_new this, of 7 True True True True] show ?thesis by auto
qed

lemma expired_WaitFor:
  "bf_val f = kReady \<Longrightarrow> BinaryFutex_WaitFor expired_env now t f = Some (kDeadlineExceeded, f)"
  "bf_val f = kPosted \<Longrightarrow> BinaryFutex_WaitFor expired_env now t f = Some (kOk, f\<lparr>bf_val := kReady\<rparr>)"
proof -
  have ready: "Wait expired_env kReady ts = Some (kDeadlineExceeded, kReady)" for ts
    by (simp add: Wait_def expired_env_def Wait_loop_ready wait_stops_def wait_result_def)
  have clock: "we_clock_gettime expired_env \<noteq> None" by (simp add: expired_env_def)
  show "bf_val f = kReady \<Longrightarrow> BinaryFutex_WaitFor expired_env now t f = Some (kDeadlineExceeded, f)"
    using clock by (auto simp: BinaryFutex_WaitFor_def BinaryFutex_WaitUntil_def ready futex_same)
  show "bf_val f = kPosted \<Longrightarrow> BinaryFutex_WaitFor expired_env now t f = Some (kOk, f\<lparr>bf_val := kReady\<rparr>)"
    using clock by (simp add: BinaryFutex_WaitFor_def futex_wait_until_immediate futex_wait_unfold)
qed

lemma locks_new_destroy: "LockableBinaryFutex_destroy (LockableBinaryFutex_new b) \<noteq> None"
  by (simp add: LockableBinaryFutex_destroy_def LockableBinaryFutex_new_def BinaryFutex_new_def
      BinaryFutex_Value_def) (simp add: futex_values)

text \<open>C38: The signal of an earlier detachment is mistaken for a later one.  With one future attached,
  destroying the context while the future lives ends in the fatal error that protects it.  But after a
  future was attached and detached and another one attached, nothing has taken the first one's signal:
  the destructor returns at once although the second future is attached, whose next use follows a
  dangling pointer, and \<open>Reset\<close> reports success in the same situation.\<close>
theorem context_outlived_by_second_future:
  "\<exists>f1 c1 c2 f2 c3 h' c4. Context_GetFuture a r (Context_new d t) = (Inr f1, c1)
    \<and> Context_destroy (\<lambda>_. expired_env) a [a \<mapsto> c1] = None
    \<and> Context_DetachFuture c1 = (kOk, c2)
    \<and> Context_GetFuture a r c2 = (Inr f2, c3) \<and> cx_future_attached c3
    \<and> Context_destroy (\<lambda>_. expired_env) a [a \<mapsto> c3] = Some h' \<and> Future_Get moved f2 h' = None
    \<and> Context_Reset moved (\<lambda>_. expired_env) t c3 = Some (kOk, c4) \<and> cx_future_attached c4"
proof -
  let ?c0 = "Context_new d t"
  let ?c1 = "?c0\<lparr>cx_future_attached := True\<rparr>"
  let ?c2 = "?c0\<lparr>cx_future_detached := (cx_future_detached ?c0)\<lparr>bf_val := kPosted\<rparr>\<rparr>"
  let ?c3 = "?c2\<lparr>cx_future_attached := True\<rparr>"
  let ?f = "\<lparr>fu_context = Some a, fu_internal_context = None, fu_is_reusable = r\<rparr>"
  have c0: "\<not> cx_future_attached ?c0" "\<not> cx_promise_attached ?c0" "bf_val (cx_future_detached ?c0) = kReady"
    "cx_locks_free ?c0" "cx_locks_free ?c2" "bf_open (cx_future_detached ?c0)"
    using cx_wf_new[of d t] by (auto simp: cx_wf_def cx_locks_free_def Context_new_def BinaryFutex_new_def)
  have get1: "Context_GetFuture a r ?c0 = (Inr ?f, ?c1)" and get2: "Context_GetFuture a r ?c2 = (Inr ?f, ?c3)"
    using c0 by (simp_all add: Context_GetFuture_wf)
  have fatal: "Context_destroy (\<lambda>_. expired_env) a [a \<mapsto> ?c1] = None"
    using c0 by (simp add: Context_destroy_def expired_WaitFor)
  have detach: "Context_DetachFuture ?c1 = (kOk, ?c2)"
    using c0 by (simp add: Context_DetachFuture_def Post_open)
  have "Context_destroy (\<lambda>_. expired_env) a [a \<mapsto> ?c3] \<noteq> None"
    using locks_new_destroy[of True]
    by (auto simp: Context_destroy_def expired_WaitFor c0(2)) (auto simp: Context_new_def)
  then obtain h' where destroy: "Context_destroy (\<lambda>_. expired_env) a [a \<mapsto> ?c3] = Some h'" "h' a = None"
    by (auto simp: Context_destroy_def expired_WaitFor c0(2) split: if_splits bind_splits)
  have "\<exists>c4. Context_Reset moved (\<lambda>_. expired_env) t ?c3 = Some (kOk, c4) \<and> cx_future_attached c4"
  proof -
    have "cx_locks_free ?c3" "rtq_idle (cx_buffer ?c3)"
      using cx_wf_new[of d t] by (simp_all add: cx_wf_def cx_locks_free_def)
    moreover from Reset_drain_empties[OF this(2), of moved] obtain q where
      "Reset_drain moved (cx_buffer ?c3) = Some q" by blast
    ultimately show ?thesis
      by (subst Context_Reset_unfold[where fd = "(cx_future_detached ?c0)\<lparr>bf_val := kReady\<rparr>"
            and pd = "cx_promise_detached ?c0"])
        (simp_all add: Reset_wait_detached_def expired_WaitFor c0(2))
  qed
  with get1 get2 fatal detach destroy show ?thesis by (auto simp: Future_Get_def)
qed

end
