(* ===== verification/Async_Request.thy ===== *)
theory Async_Request
  imports Rt_Promise
begin

text \<open>
  \<open>icon/utils/async_request.h\<close>: a request to the realtime thread, with an optional promise for the
  reply.  The heap holds the contexts the promises point to.
\<close>

record 'q AsyncRequest =
  ar_request :: 'q
  ar_promise :: "RealtimePromise option"

definition AsyncRequest_new :: "'q \<Rightarrow> 'q AsyncRequest"
  where "AsyncRequest_new request = \<lparr>ar_request = request, ar_promise = None\<rparr>"

text \<open>The promise is moved into the request; the second component is what the caller keeps.\<close>

definition AsyncRequest_with_promise ::
    "'q \<Rightarrow> RealtimePromise \<Rightarrow> 'a ctx_heap \<Rightarrow> ('q AsyncRequest \<times> RealtimePromise \<times> 'a ctx_heap) checked"
  where "AsyncRequest_with_promise request promise h =
    map_option (\<lambda>(mine, rest, h1). (\<lparr>ar_request = request, ar_promise = Some mine\<rparr>, rest, h1))
      (Promise_move promise h)"

text \<open>The move constructor: an engaged optional stays engaged, with the moved-from promise.\<close>

definition AsyncRequest_move ::
    "'q AsyncRequest \<Rightarrow> 'a ctx_heap \<Rightarrow> ('q AsyncRequest \<times> 'q AsyncRequest \<times> 'a ctx_heap) checked"
  where "AsyncRequest_move other h =
    (case ar_promise other of
       None \<Rightarrow> Some (other, other, h)
     | Some p \<Rightarrow>
         map_option (\<lambda>(mine, rest, h1).
             (other\<lparr>ar_promise := Some mine\<rparr>, other\<lparr>ar_promise := Some rest\<rparr>, h1))
           (Promise_move p h))"

definition GetRequest :: "'q AsyncRequest \<Rightarrow> 'q"
  where "GetRequest r = ar_request r"

text \<open>\<open>moved\<close> is what \<open>std::move\<close> leaves of the request data.\<close>

definition GetMovedRequest :: "('q \<Rightarrow> 'q) \<Rightarrow> 'q AsyncRequest \<Rightarrow> 'q \<times> 'q AsyncRequest"
  where "GetMovedRequest moved r = (ar_request r, r\<lparr>ar_request := moved (ar_request r)\<rparr>)"

definition AsyncRequest_IsCancelled :: "'q AsyncRequest \<Rightarrow> 'a ctx_heap \<Rightarrow> bool checked"
  where "AsyncRequest_IsCancelled r h =
    (case ar_promise r of
       None \<Rightarrow> Some False
     | Some p \<Rightarrow> map_option (\<lambda>is_cancelled. case is_cancelled of Inl _ \<Rightarrow> False | Inr b \<Rightarrow> b)
                   (Promise_IsCancelled p h))"

definition SetResponse ::
    "'a \<Rightarrow> 'q AsyncRequest \<Rightarrow> 'a ctx_heap \<Rightarrow> (StatusCode \<times> 'q AsyncRequest \<times> 'a ctx_heap) checked"
  where "SetResponse reply r h =
    (case ar_promise r of
       None \<Rightarrow> Some (kOk, r, h)
     | Some p \<Rightarrow> map_option (\<lambda>(s, p1, h1). (s, r\<lparr>ar_promise := Some p1\<rparr>, h1)) (Promise_Set reply p h))"

definition AsyncRequest_Cancel ::
    "'q AsyncRequest \<Rightarrow> 'a ctx_heap \<Rightarrow> (StatusCode \<times> 'a ctx_heap) checked"
  where "AsyncRequest_Cancel r h =
    (case ar_promise r of None \<Rightarrow> Some (kOk, h) | Some p \<Rightarrow> Promise_Cancel p h)"

definition AsyncRequest_destroy ::
    "(nat \<Rightarrow> wait_env) \<Rightarrow> 'q AsyncRequest \<Rightarrow> 'a ctx_heap \<Rightarrow> 'a ctx_heap checked"
  where "AsyncRequest_destroy env r h =
    (case ar_promise r of None \<Rightarrow> Some h | Some p \<Rightarrow> Promise_destroy env p h)"

subsection \<open>One request, one reply\<close>

text \<open>
  A request waits for its reply: its promise is the one-shot promise of the context at \<open>a\<close>, and the
  context is not cancelled and has no value.  An answered request has the value and no promise.
\<close>

definition one_shot :: "ptr \<Rightarrow> RealtimePromise"
  where "one_shot a = \<lparr>pr_context = Some a, pr_internal_context = None, pr_is_reusable = False\<rparr>"

definition ctx_waiting :: "'a Context \<Rightarrow> bool"
  where "ctx_waiting ctx \<longleftrightarrow> cx_wf ctx \<and> cx_promise_attached ctx \<and> cx_future_attached ctx
    \<and> \<not> cx_is_cancelled ctx \<and> rtq_list (cx_buffer ctx) = []"

definition ctx_answered :: "'a \<Rightarrow> 'a Context \<Rightarrow> bool"
  where "ctx_answered v ctx \<longleftrightarrow> cx_wf ctx \<and> \<not> cx_promise_attached ctx \<and> cx_future_attached ctx
    \<and> \<not> cx_is_cancelled ctx \<and> rtq_list (cx_buffer ctx) = [v]"

lemma Promise_move_one_shot:
  "Promise_move p h = Some (p, GetDetachedPromise, h)"
  by (simp add: Promise_move_def Promise_move_assign_def GetDetachedPromise_def)

lemma Promise_destroy_detached [simp]:
  "Promise_destroy env \<lparr>pr_context = None, pr_internal_context = None, pr_is_reusable = b\<rparr> h = Some h"
  by (simp add: Promise_destroy_def)

lemma Context_DetachPromise_wf:
  assumes "cx_wf ctx" "cx_promise_attached ctx"
  shows "Context_DetachPromise ctx = (kOk, ctx\<lparr>cx_promise_attached := False,
      cx_promise_detached := (cx_promise_detached ctx)\<lparr>bf_val := kPosted\<rparr>\<rparr>)"
  using assms by (simp add: Context_DetachPromise_def Post_open cx_wf_def)

lemma Promise_Set_one_shot:
  assumes ctx: "ctx_waiting ctx" and h: "h a = Some ctx"
  shows "\<exists>ctx'. Promise_Set v (one_shot a) h = Some (kOk, (one_shot a)\<lparr>pr_context := None\<rparr>, h(a \<mapsto> ctx'))
    \<and> ctx_answered v ctx' \<and> cx_detach_timeout ctx' = cx_detach_timeout ctx"
proof -
  from ctx have wf: "cx_wf ctx" and nc: "\<not> cx_is_cancelled ctx" and nil: "rtq_list (cx_buffer ctx) = []"
    by (auto simp: ctx_waiting_def)
  from wf have w: "bf_val (cx_write_value_futex ctx) = kPosted" and q: "rtq_idle (cx_buffer ctx)"
    "rtq_capacity (cx_buffer ctx) = 1" and hv: "bf_open (cx_has_value ctx)"
    by (auto simp: cx_wf_def cx_locks_free_def)
  from writer_store_finish[OF q(1), of v] q(2) nil obtain e rq1 rq2 where
    ins: "Writer_PrepareInsert (cx_buffer ctx) = Some (Some e, rq1)"
      "Writer_FinishInsert (rq1\<lparr>rtq_buffer := rq_store e v (rtq_buffer rq1)\<rparr>) = Some rq2"
      "rtq_idle rq2" "rtq_list rq2 = [v]" "rtq_capacity rq2 = 1"
    by auto
  let ?set = "ctx\<lparr>cx_buffer := rq2, cx_has_value := (cx_has_value ctx)\<lparr>bf_val := kPosted\<rparr>\<rparr>"
  let ?ctx = "?set\<lparr>cx_promise_attached := False,
      cx_promise_detached := (cx_promise_detached ctx)\<lparr>bf_val := kPosted\<rparr>\<rparr>"
  have "cx_wf ?set" using wf ins by (simp add: cx_wf_def cx_locks_free_def)
  then have "Context_DetachPromise ?set = (kOk, ?ctx)"
    using ctx Context_DetachPromise_wf[of ?set] by (simp add: ctx_waiting_def)
  then have "Promise_Set v (one_shot a) h = Some (kOk, (one_shot a)\<lparr>pr_context := None\<rparr>, h(a \<mapsto> ?ctx))"
    using nc ins hv
    by (simp add: Promise_Set_def one_shot_def h lock_simps w futex_same[OF w] Promise_Detach_def)
  moreover have "ctx_answered v ?ctx"
    using wf ins ctx by (simp add: ctx_answered_def cx_wf_def cx_locks_free_def ctx_waiting_def)
  ultimately show ?thesis by (intro exI[of _ ?ctx]) simp
qed

lemma SetResponse_one_shot:
  assumes "ctx_waiting ctx" "(h :: 'a ctx_heap) a = Some ctx" "ar_promise r = Some (one_shot a)"
  shows "\<exists>ctx' r'. SetResponse v r h = Some (kOk, r', h(a \<mapsto> ctx')) \<and> ctx_answered v ctx'
    \<and> cx_detach_timeout ctx' = cx_detach_timeout ctx
    \<and> (\<forall>env g. AsyncRequest_destroy env r' (g :: 'a ctx_heap) = Some g)"
  using Promise_Set_one_shot[where h = h, OF assms(1,2), of v] assms(3)
  by (auto simp: SetResponse_def AsyncRequest_destroy_def one_shot_def)

lemma AsyncRequest_move_one_shot:
  assumes "ar_promise r = Some (one_shot a)"
  shows "AsyncRequest_move r h = Some (r, r\<lparr>ar_promise := Some GetDetachedPromise\<rparr>, h)"
  using assms by (cases r) (simp add: AsyncRequest_move_def Promise_move_one_shot)

lemma AsyncRequest_destroy_waiting:
  assumes "ctx_waiting ctx" "h a = Some ctx" "ar_promise r = Some (one_shot a)"
  shows "\<exists>ctx'. AsyncRequest_destroy env r h = Some (h(a \<mapsto> ctx')) \<and> cx_wf ctx'
    \<and> \<not> cx_promise_attached ctx' \<and> cx_future_attached ctx'
    \<and> \<not> cx_is_cancelled ctx' \<and> rtq_list (cx_buffer ctx') = []"
  using assms Context_DetachPromise_wf[of ctx]
  by (auto simp: AsyncRequest_destroy_def Promise_destroy_def one_shot_def Promise_Detach_def ctx_waiting_def
      cx_wf_def cx_locks_free_def)

subsection \<open>The future of a request\<close>

definition own_future :: "ptr \<Rightarrow> RealtimeFuture"
  where "own_future a = \<lparr>fu_context = Some a, fu_internal_context = Some a, fu_is_reusable = True\<rparr>"

lemma Future_new_own: "Future_new d t a h =
    (own_future a, h(a \<mapsto> (Context_new d t)\<lparr>cx_future_attached := True\<rparr>))"
  by (simp add: Future_new_def own_future_def)

lemma Future_GetPromise_new:
  "\<exists>ctx. Future_GetPromise False (own_future a) (h(a \<mapsto> (Context_new d t)\<lparr>cx_future_attached := True\<rparr>))
      = Some (Inr (one_shot a), h(a \<mapsto> ctx))
    \<and> ctx_waiting ctx \<and> cx_detach_timeout ctx = t"
proof -
  let ?c = "(Context_new d t)\<lparr>cx_future_attached := True, cx_promise_attached := True\<rparr>"
  have "cx_wf ?c" using cx_wf_new[of d t] by (simp add: cx_wf_def cx_locks_free_def)
  then have "ctx_waiting ?c"
    using cx_wf_new[of d t]
    by (simp add: ctx_waiting_def Context_new_def rtq_list_def rq_list_def RtQueueBuffer_new_def)
  moreover have "Future_GetPromise False (own_future a) (h(a \<mapsto> (Context_new d t)\<lparr>cx_future_attached := True\<rparr>))
      = Some (Inr (one_shot a), h(a \<mapsto> ?c))"
    by (simp add: Future_GetPromise_def own_future_def one_shot_def Context_GetPromise_def Context_new_def
        LockableBinaryFutex_new_def BinaryFutex_new_def lock_simps Unlock_held[of "\<lparr>bf_val = kPosted, bf_private_futex = p\<rparr>" for p, simplified])
  ultimately show ?thesis by (intro exI[of _ ?c]) (simp add: Context_new_def)
qed


lemma Future_WaitForAndGet_answered:
  assumes "ctx_answered v ctx" "h a = Some ctx"
  shows "\<exists>ctx'. Future_WaitForAndGet moved env now d (own_future a) h
      = Some (Inr v, own_future a, h(a \<mapsto> ctx')) \<and> cx_wf ctx' \<and> \<not> cx_promise_attached ctx'"
proof -
  from assms(1) have wf: "cx_wf ctx" and l: "rtq_list (cx_buffer ctx) = [v]" "\<not> cx_is_cancelled ctx"
    "\<not> cx_promise_attached ctx"
    by (auto simp: ctx_answered_def)
  have "Future_WaitFor env now d (own_future a) h = Some (kOk, h)"
    using l assms(2) rtq_list_size[of "cx_buffer ctx"]
    by (simp add: Future_WaitFor_def Future_WaitUntil_def own_future_def Context_HasValue_def
        Context_IsCancelled_def RtQueueBuffer_Empty_def)
  moreover obtain r ctx' where "Future_Get moved (own_future a) h = Some (r, own_future a, h(a \<mapsto> ctx'))"
    "cx_wf ctx'" "cell_step OGet (cell_of ctx) = (out_of r, cell_of ctx')" "\<not> cx_promise_attached ctx'"
    using Future_Get_attached[where h = h and f = "own_future a" and a = a and moved = moved,
        OF wf _ _ assms(2)] l(3)
    by (auto simp: own_future_def)
  moreover from this(3) have "r = Inr v"
    using l by (cases r) (auto simp: cell_of_def out_of_def)
  ultimately show ?thesis by (auto simp: Future_WaitForAndGet_def)
qed

lemma LockableBinaryFutex_destroy_free: "bf_val m = kPosted \<Longrightarrow> \<exists>x. LockableBinaryFutex_destroy m = Some x"
  by (simp add: LockableBinaryFutex_destroy_def IsHeld_def BinaryFutex_Value_def futex_values)

lemma Future_destroy_detached:
  assumes "cx_wf ctx" "\<not> cx_promise_attached ctx" "h a = Some ctx"
  shows "Future_destroy env (own_future a) h = Some (h(a := None))"
proof -
  obtain c ctx1 where d: "Context_DetachFuture ctx = (c, ctx1)" by (cases "Context_DetachFuture ctx")
  then have c1: "\<not> cx_future_attached ctx1" "\<not> cx_promise_attached ctx1"
    "cx_get_promise_futex ctx1 = cx_get_promise_futex ctx" "cx_get_future_futex ctx1 = cx_get_future_futex ctx"
    "cx_cancel_futex ctx1 = cx_cancel_futex ctx" "cx_write_value_futex ctx1 = cx_write_value_futex ctx"
    "cx_read_value_futex ctx1 = cx_read_value_futex ctx"
    using assms(2) by (auto simp: Context_DetachFuture_def Let_def split: if_splits prod.splits)
  have free: "bf_val (cx_get_promise_futex ctx) = kPosted" "bf_val (cx_get_future_futex ctx) = kPosted"
    "bf_val (cx_cancel_futex ctx) = kPosted" "bf_val (cx_write_value_futex ctx) = kPosted"
    "bf_val (cx_read_value_futex ctx) = kPosted"
    using assms(1) by (auto simp: cx_wf_def cx_locks_free_def)
  note ld = free[THEN LockableBinaryFutex_destroy_free]
  have "Context_destroy env a (h(a \<mapsto> ctx1)) = Some (h(a := None))"
    using c1 ld by (auto simp: Context_destroy_def)
  then show ?thesis
    using assms(3) d by (simp add: Future_destroy_def own_future_def Future_Detach_def)
qed

text \<open>The life of a request: a future is created, its promise is put into a request, the request
  is moved into and out of a queue slot, answered and destroyed; then the waiting side gets exactly
  the reply whatever the clock and the futex do, nothing of the exchange aborts or waits, and
  destroying the future frees the shared context and touches nothing else.\<close>
theorem async_request_reply:
  assumes "h a = None"
  shows "\<exists>ctx r r' slot h1 h2. 
      Future_GetPromise False (fst (Future_new d t a h)) (snd (Future_new d t a h)) = Some (Inr (one_shot a), h1)
    \<and> AsyncRequest_with_promise q (one_shot a) h1 = Some (r, GetDetachedPromise, h1)
    \<and> AsyncRequest_move r h1 = Some (r, slot, h1)
    \<and> SetResponse v r h1 = Some (kOk, r', h2)
    \<and> AsyncRequest_destroy env r' h2 = Some h2
    \<and> Future_WaitForAndGet moved wenv now duration (own_future a) h2 = Some (Inr v, own_future a, h2(a \<mapsto> ctx))
    \<and> Future_destroy env (own_future a) (h2(a \<mapsto> ctx)) = Some h"
proof -
  from Future_GetPromise_new[of a h d t] obtain c1 where
    gp: "Future_GetPromise False (own_future a) (h(a \<mapsto> (Context_new d t)\<lparr>cx_future_attached := True\<rparr>))
      = Some (Inr (one_shot a), h(a \<mapsto> c1))" and w: "ctx_waiting c1" by auto
  let ?r = "\<lparr>ar_request = q, ar_promise = Some (one_shot a)\<rparr>"
  from SetResponse_one_shot[where h = "h(a \<mapsto> c1)" and a = a and r = ?r and v = v, OF w] obtain c2 r' where
    s: "SetResponse v ?r (h(a \<mapsto> c1)) = Some (kOk, r', h(a \<mapsto> c2))" "ctx_answered v c2"
      "\<And>env. AsyncRequest_destroy env r' (h(a \<mapsto> c2)) = Some (h(a \<mapsto> c2))" by auto
  from Future_WaitForAndGet_answered[where h = "h(a \<mapsto> c2)" and a = a and moved = moved and env = wenv
      and now = now and d = duration, OF s(2)] obtain c3 where
    g: "Future_WaitForAndGet moved wenv now duration (own_future a) (h(a \<mapsto> c2))
      = Some (Inr v, own_future a, h(a \<mapsto> c3))" "cx_wf c3" "\<not> cx_promise_attached c3" by auto
  have "Future_destroy env (own_future a) (h(a \<mapsto> c3)) = Some h"
    using Future_destroy_detached[OF g(2,3), of "h(a \<mapsto> c3)" a env] assms by (auto simp: fun_upd_idem)
  then show ?thesis
    using gp s g AsyncRequest_move_one_shot[of ?r a "h(a \<mapsto> c1)"]
    by (rule_tac x = c3 in exI, rule_tac x = ?r in exI, rule_tac x = r' in exI,
        rule_tac x = "?r\<lparr>ar_promise := Some GetDetachedPromise\<rparr>" in exI,
        rule_tac x = "h(a \<mapsto> c1)" in exI, rule_tac x = "h(a \<mapsto> c2)" in exI)
      (simp add: Future_new_own AsyncRequest_with_promise_def Promise_move_one_shot)
qed

theorem async_request_reply_witness:
  "\<exists>ctx r' h2. SetResponse (7::int) \<lparr>ar_request = (), ar_promise = Some (one_shot 3)\<rparr>
        (snd (the (Future_GetPromise False (own_future 3) (snd (Future_new 0 1000 3 (\<lambda>_. None)))))) = Some (kOk, r', h2)
    \<and> Future_WaitForAndGet id expired_env 0 10 (own_future 3) h2 = Some (Inr 7, own_future 3, h2(3 \<mapsto> ctx))"
  using async_request_reply[where h = "\<lambda>_. None" and a = 3 and d = "0::int" and t = 1000 and q = "()" and v = 7
      and env = "\<lambda>_. expired_env" and moved = id and wenv = expired_env and now = 0 and duration = 10]
  by (auto simp: Future_new_own AsyncRequest_with_promise_def Promise_move_one_shot)

end
