(* ===== verification/Async_Buffer.thy ===== *)
theory Async_Buffer
  imports Prelude
begin

text \<open>
  The triple buffer of \<open>icon/utils/async_buffer.h\<close>: one producer, one consumer, three buffers whose
  roles (active, mailbox, free) are one atomic word.

  The first part holds the operations as the code of one thread executes them when no other thread
  interferes.  The second part is the interleaving of a producer and a consumer whose steps are the
  single accesses to \<open>state_\<close> and to the buffers, with failing and succeeding
  \<open>compare_exchange_strong\<close>.
\<close>

record AsyncBuffer_State =
  active_index :: nat
  mailbox_index :: nat
  free_index :: nat
  mailbox_full :: bool

definition IsConsistent :: "AsyncBuffer_State \<Rightarrow> bool"
  where "IsConsistent st \<longleftrightarrow>
    active_index st < 3 \<and> mailbox_index st < 3 \<and> free_index st < 3
    \<and> active_index st \<noteq> mailbox_index st \<and> mailbox_index st \<noteq> free_index st
    \<and> free_index st \<noteq> active_index st"

definition State_default :: AsyncBuffer_State
  where "State_default =
    \<lparr>active_index = 0, mailbox_index = 1, free_index = 2, mailbox_full = False\<rparr>"

record 'a AsyncBuffer =
  ab_state :: AsyncBuffer_State
  ab_free_buffer_checked_out :: bool
  ab_buffers :: "'a list"

text \<open>\<open>made\<close> is the value of \<open>std::make_unique<T>(args...)\<close>.\<close>

definition AsyncBuffer_new :: "'a \<Rightarrow> 'a AsyncBuffer"
  where "AsyncBuffer_new made =
    \<lparr>ab_state = State_default, ab_free_buffer_checked_out = False, ab_buffers = [made, made, made]\<rparr>"

text \<open>A pointer to a buffer is its index in \<open>buffers_\<close>.\<close>

definition GetFreeBuffer :: "'a AsyncBuffer \<Rightarrow> nat \<times> 'a AsyncBuffer"
  where "GetFreeBuffer ab =
    (free_index (ab_state ab), ab\<lparr>ab_free_buffer_checked_out := True\<rparr>)"

text \<open>The bodies of the two compare-and-exchange loops: the state to exchange for \<open>current\<close>.\<close>

definition next_active :: "AsyncBuffer_State \<Rightarrow> AsyncBuffer_State"
  where "next_active current =
    (if mailbox_full current
     then current\<lparr>active_index := mailbox_index current, mailbox_index := active_index current,
                  mailbox_full := False\<rparr>
     else current)"

definition next_commit :: "AsyncBuffer_State \<Rightarrow> AsyncBuffer_State"
  where "next_commit current =
    \<lparr>active_index = active_index current, mailbox_index = free_index current,
     free_index = mailbox_index current, mailbox_full = True\<rparr>"

definition active_checks :: "AsyncBuffer_State \<Rightarrow> AsyncBuffer_State \<Rightarrow> bool"
  where "active_checks current next \<longleftrightarrow>
    free_index current = free_index next \<and> \<not> mailbox_full next \<and> IsConsistent next"

definition commit_checks :: "AsyncBuffer_State \<Rightarrow> AsyncBuffer_State \<Rightarrow> bool"
  where "commit_checks current next \<longleftrightarrow>
    active_index current = active_index next \<and> mailbox_full next \<and> IsConsistent next"

text \<open>
  \<open>want\<close> is false for a call with a null \<open>buffer\<close>; the result is the return value and the pointer
  stored through \<open>buffer\<close>.
\<close>

definition GetActiveBuffer ::
    "bool \<Rightarrow> 'a AsyncBuffer \<Rightarrow> (bool \<times> nat option \<times> 'a AsyncBuffer) checked"
  where "GetActiveBuffer want ab =
    (let current = ab_state ab;
         next = next_active current;
         ab' = ab\<lparr>ab_state := next\<rparr>
     in if \<not> active_checks current next then None
        else if \<not> want then Some (False, None, ab')
        else Some (mailbox_full current, Some (active_index next), ab'))"

definition CommitFreeBuffer :: "'a AsyncBuffer \<Rightarrow> (bool \<times> 'a AsyncBuffer) checked"
  where "CommitFreeBuffer ab =
    (if \<not> ab_free_buffer_checked_out ab then Some (False, ab)
     else let current = ab_state ab;
              next = next_commit current
          in if \<not> commit_checks current next then None
             else Some (True, ab\<lparr>ab_state := next, ab_free_buffer_checked_out := False\<rparr>))"

definition ab_write :: "nat \<Rightarrow> 'a \<Rightarrow> 'a AsyncBuffer \<Rightarrow> 'a AsyncBuffer"
  where "ab_write p v ab = ab\<lparr>ab_buffers := (ab_buffers ab)[p := v]\<rparr>"

definition ab_read :: "nat \<Rightarrow> 'a AsyncBuffer \<Rightarrow> 'a"
  where "ab_read p ab = ab_buffers ab ! p"

subsection \<open>Producer and consumer, interleaved\<close>

text \<open>
  \<open>PLoaded\<close> and \<open>CLoaded\<close> carry the value of \<open>current\<close> between the load and the exchange.  A failing
  exchange goes back to the load.  \<open>t_history\<close> is the sequence of committed values and \<open>t_fetched\<close>
  the length it had when the consumer last exchanged the state; the program does not have them.
\<close>

datatype producer_pc = PIdle | PWriting nat | PLoaded AsyncBuffer_State | PRetry
datatype consumer_pc = CIdle | CReading nat bool | CLoaded AsyncBuffer_State | CRetry

record 'a triple =
  t_ab :: "'a AsyncBuffer"
  t_ppc :: producer_pc
  t_cpc :: consumer_pc
  t_history :: "'a list"
  t_fetched :: nat

definition triple_init :: "'a \<Rightarrow> 'a triple \<Rightarrow> bool"
  where "triple_init made s \<longleftrightarrow> s =
    \<lparr>t_ab = AsyncBuffer_new made, t_ppc = PIdle, t_cpc = CIdle, t_history = [], t_fetched = 0\<rparr>"

inductive triple_step :: "'a triple \<Rightarrow> 'a triple \<Rightarrow> bool"
  where
    get_free: "t_ppc s = PIdle \<or> t_ppc s = PWriting q \<Longrightarrow> GetFreeBuffer (t_ab s) = (p, ab) \<Longrightarrow>
      triple_step s (s\<lparr>t_ab := ab, t_ppc := PWriting p\<rparr>)"
  | modify: "t_ppc s = PWriting p \<Longrightarrow> triple_step s (s\<lparr>t_ab := ab_write p v (t_ab s)\<rparr>)"
  | commit_load: "(\<exists>p. t_ppc s = PWriting p) \<or> t_ppc s = PRetry \<Longrightarrow>
      ab_free_buffer_checked_out (t_ab s) \<Longrightarrow>
      triple_step s (s\<lparr>t_ppc := PLoaded (ab_state (t_ab s))\<rparr>)"
  | commit_fail: "t_ppc s = PLoaded current \<Longrightarrow> ab_state (t_ab s) \<noteq> current \<Longrightarrow>
      triple_step s (s\<lparr>t_ppc := PRetry\<rparr>)"
  | commit_cas: "t_ppc s = PLoaded current \<Longrightarrow> ab_state (t_ab s) = current \<Longrightarrow>
      triple_step s (s\<lparr>t_ab := (t_ab s)\<lparr>ab_state := next_commit current,
            ab_free_buffer_checked_out := False\<rparr>,
          t_ppc := PIdle, t_history := t_history s @ [ab_read (free_index current) (t_ab s)]\<rparr>)"
  | fetch_load: "t_cpc s = CIdle \<or> (\<exists>p r. t_cpc s = CReading p r) \<or> t_cpc s = CRetry \<Longrightarrow>
      triple_step s (s\<lparr>t_cpc := CLoaded (ab_state (t_ab s))\<rparr>)"
  | fetch_fail: "t_cpc s = CLoaded current \<Longrightarrow> ab_state (t_ab s) \<noteq> current \<Longrightarrow>
      triple_step s (s\<lparr>t_cpc := CRetry\<rparr>)"
  | fetch_cas: "t_cpc s = CLoaded current \<Longrightarrow> ab_state (t_ab s) = current \<Longrightarrow>
      triple_step s (s\<lparr>t_ab := (t_ab s)\<lparr>ab_state := next_active current\<rparr>,
          t_cpc := CReading (active_index (next_active current)) (mailbox_full current),
          t_fetched := length (t_history s)\<rparr>)"

text \<open>The value the consumer holds after \<open>n\<close> commits were fetched.\<close>

definition fetched_value :: "'a \<Rightarrow> 'a list \<Rightarrow> nat \<Rightarrow> 'a"
  where "fetched_value made h n = (if n = 0 then made else h ! (n - 1))"

definition triple_inv :: "'a \<Rightarrow> 'a triple \<Rightarrow> bool"
  where "triple_inv made s \<longleftrightarrow>
    (let st = ab_state (t_ab s); bs = ab_buffers (t_ab s); h = t_history s in
      IsConsistent st \<and> length bs = 3
      \<and> (case t_ppc s of
           PIdle \<Rightarrow> \<not> ab_free_buffer_checked_out (t_ab s)
         | PWriting p \<Rightarrow> ab_free_buffer_checked_out (t_ab s) \<and> p = free_index st
         | PLoaded _ \<Rightarrow> ab_free_buffer_checked_out (t_ab s)
         | PRetry \<Rightarrow> ab_free_buffer_checked_out (t_ab s))
      \<and> (case t_cpc s of CReading p r \<Rightarrow> p = active_index st | _ \<Rightarrow> True)
      \<and> t_fetched s \<le> length h
      \<and> bs ! active_index st = fetched_value made h (t_fetched s)
      \<and> (if mailbox_full st then t_fetched s < length h \<and> bs ! mailbox_index st = last h
         else t_fetched s = length h))"

subsection \<open>Sequential behaviour\<close>

lemma next_consistent:
  "IsConsistent st \<Longrightarrow> active_checks st (next_active st)"
  "IsConsistent st \<Longrightarrow> commit_checks st (next_commit st)"
  by (auto simp: IsConsistent_def next_active_def next_commit_def active_checks_def commit_checks_def)

lemma fetched_value_append:
  "n \<le> length h \<Longrightarrow> fetched_value made (h @ xs) n = fetched_value made h n"
  by (auto simp: fetched_value_def nth_append)

lemma fetched_value_last: "n < length h \<Longrightarrow> fetched_value made h (length h) = last h"
  by (cases h) (simp_all add: fetched_value_def last_conv_nth)

text \<open>Without interference, a value written to the buffer of \<open>GetFreeBuffer\<close> and committed is
  what the next \<open>GetActiveBuffer\<close> returns, with the return value \<open>true\<close> and an empty mailbox
  afterwards; no consistency check fails, and the role indices stay a permutation of 0, 1, 2.\<close>
theorem async_buffer_commit_then_get:
  assumes "IsConsistent (ab_state ab)" "length (ab_buffers ab) = 3" "GetFreeBuffer ab = (p, ab1)"
  shows "\<exists>ab2 q ab3. CommitFreeBuffer (ab_write p v ab1) = Some (True, ab2)
    \<and> GetActiveBuffer True ab2 = Some (True, Some q, ab3)
    \<and> ab_read q ab3 = v \<and> IsConsistent (ab_state ab3) \<and> \<not> mailbox_full (ab_state ab3)
    \<and> CommitFreeBuffer ab3 = Some (False, ab3)"
  using assms
  by (auto simp: GetFreeBuffer_def CommitFreeBuffer_def GetActiveBuffer_def next_active_def
      next_commit_def active_checks_def commit_checks_def IsConsistent_def ab_write_def ab_read_def
      Let_def)

theorem async_buffer_commit_then_get_witness:
  "\<exists>ab2 q ab3. CommitFreeBuffer (ab_write 2 (5::nat) (snd (GetFreeBuffer (AsyncBuffer_new 0)))) = Some (True, ab2)
    \<and> GetActiveBuffer True ab2 = Some (True, Some q, ab3) \<and> ab_read q ab3 = 5"
  using async_buffer_commit_then_get[of "AsyncBuffer_new (0::nat)" 2
      "snd (GetFreeBuffer (AsyncBuffer_new 0))" 5]
  by (auto simp: AsyncBuffer_new_def State_default_def IsConsistent_def GetFreeBuffer_def)

subsection \<open>Every interleaved step keeps the invariant\<close>

lemma triple_inv_init: "triple_init made s \<Longrightarrow> triple_inv made s"
  by (auto simp: triple_init_def triple_inv_def AsyncBuffer_new_def State_default_def
      IsConsistent_def fetched_value_def)

lemma triple_inv_modify:
  assumes "triple_inv made s" "t_ppc s = PWriting p"
  shows "triple_inv made (s\<lparr>t_ab := ab_write p v (t_ab s)\<rparr>)"
  using assms by (auto simp: triple_inv_def ab_write_def IsConsistent_def Let_def)

lemma triple_inv_commit:
  assumes "triple_inv made s" "t_ppc s = PLoaded current" "ab_state (t_ab s) = current"
  shows "triple_inv made (s\<lparr>t_ab := (t_ab s)\<lparr>ab_state := next_commit current,
        ab_free_buffer_checked_out := False\<rparr>,
      t_ppc := PIdle, t_history := t_history s @ [ab_read (free_index current) (t_ab s)]\<rparr>)"
  using assms
  by (auto simp: triple_inv_def next_commit_def IsConsistent_def Let_def ab_read_def
      fetched_value_append split: consumer_pc.splits)

lemma triple_inv_fetch:
  assumes "triple_inv made s" "ab_state (t_ab s) = current"
  shows "triple_inv made (s\<lparr>t_ab := (t_ab s)\<lparr>ab_state := next_active current\<rparr>,
      t_cpc := CReading (active_index (next_active current)) (mailbox_full current),
      t_fetched := length (t_history s)\<rparr>)"
  using assms fetched_value_last[of "t_fetched s" "t_history s" made]
  by (auto simp: triple_inv_def next_active_def IsConsistent_def Let_def
      split: producer_pc.splits if_splits)

lemma triple_inv_step:
  assumes "triple_inv made s" "triple_step s t"
  shows "triple_inv made t"
  using assms(2)
proof (cases rule: triple_step.cases)
  case (get_free q p ab)
  with assms(1) show ?thesis
    by (auto simp: triple_inv_def GetFreeBuffer_def Let_def split: producer_pc.splits
        consumer_pc.splits)
next
  case (modify p v)
  with assms(1) show ?thesis by (simp add: triple_inv_modify)
next
  case (commit_cas current)
  with assms(1) show ?thesis by (simp add: triple_inv_commit)
next
  case (fetch_cas current)
  with assms(1) show ?thesis by (simp add: triple_inv_fetch)
qed (use assms(1) in \<open>auto simp: triple_inv_def Let_def
    split: consumer_pc.splits producer_pc.splits\<close>)

interpretation triple: inductive_invariant "triple_init made" triple_step "triple_inv made" for made
  by unfold_locales (rule triple_inv_init, assumption, rule triple_inv_step)

text \<open>C23: In every interleaving of a producer and a consumer, with failed and repeated exchanges:
  the three roles stay three different buffers, so no consistency check of the code can fail; the
  buffer the producer may modify is never the one the consumer reads; and the consumer reads the last
  value committed before its last exchange (the initial value if there was none), unchanged until its
  next call.\<close>
theorem triple_buffer_isolation:
  assumes "reach (triple_init made) triple_step s"
  shows "active_checks (ab_state (t_ab s)) (next_active (ab_state (t_ab s)))
    \<and> commit_checks (ab_state (t_ab s)) (next_commit (ab_state (t_ab s)))
    \<and> (\<forall>p r. t_cpc s = CReading p r \<longrightarrow>
          t_ppc s \<noteq> PWriting p
          \<and> ab_read p (t_ab s) = fetched_value made (t_history s) (t_fetched s)
          \<and> t_fetched s \<le> length (t_history s))"
proof -
  have inv: "triple_inv made s" using assms by (rule triple.reach_inv)
  then have "IsConsistent (ab_state (t_ab s))" by (simp add: triple_inv_def Let_def)
  with inv show ?thesis
    by (auto simp: next_consistent triple_inv_def Let_def ab_read_def IsConsistent_def)
qed

text \<open>C24: A successful exchange of the consumer gives it the latest committed value, and the return
  value of \<open>GetActiveBuffer\<close> tells exactly whether a commit happened since its previous exchange.\<close>
theorem triple_buffer_freshness:
  assumes "reach (triple_init made) triple_step s" "triple_step s t"
    "t_cpc s = CLoaded current" "t_cpc t = CReading p fresh"
  shows "ab_read p (t_ab t) = fetched_value made (t_history t) (length (t_history t))
    \<and> (fresh \<longleftrightarrow> t_fetched s < length (t_history s)) \<and> t_history t = t_history s"
proof -
  have inv: "triple_inv made s" "triple_inv made t"
    using assms(1,2) by (auto intro: triple.reach_inv reach_step)
  from assms(2-4) have "t_fetched t = length (t_history t)" "t_history t = t_history s"
    "fresh = mailbox_full (ab_state (t_ab s))"
    by (auto elim!: triple_step.cases)
  with inv assms(4) show ?thesis
    by (auto simp: triple_inv_def Let_def ab_read_def split: if_splits)
qed

text \<open>The loops of the two threads are lock-free: if the exchange of one thread fails, the state
  changed between its load and its exchange, and only a successful exchange of the other thread
  changes it.\<close>
theorem triple_buffer_lock_free:
  assumes "triple_step s t" "ab_state (t_ab t) \<noteq> ab_state (t_ab s)"
  shows "(\<exists>current. t_ppc s = PLoaded current \<and> t_ppc t = PIdle \<and> t_cpc t = t_cpc s)
    \<or> (\<exists>current p r. t_cpc s = CLoaded current \<and> t_cpc t = CReading p r \<and> t_ppc t = t_ppc s)"
  using assms
  by (auto elim!: triple_step.cases simp: GetFreeBuffer_def ab_write_def)

text \<open>A run that commits the value 5 and fetches it, used by the witnesses.\<close>

lemma triple_example_run:
  "\<exists>s t. reach (triple_init (0::nat)) triple_step s \<and> triple_step s t
     \<and> (\<exists>c. t_cpc s = CLoaded c) \<and> t_cpc t = CReading 2 True \<and> t_history t = [5] \<and> t_fetched s = 0
     \<and> ab_state (t_ab t) \<noteq> ab_state (t_ab s)"
proof -
  let ?R = "reach (triple_init (0::nat)) triple_step"
  let ?st = State_default
  let ?s0 = "\<lparr>t_ab = AsyncBuffer_new (0::nat), t_ppc = PIdle, t_cpc = CIdle, t_history = [], t_fetched = 0\<rparr>"
  let ?ab1 = "\<lparr>ab_state = ?st, ab_free_buffer_checked_out = True, ab_buffers = [0, 0, 0::nat]\<rparr>"
  let ?ab2 = "\<lparr>ab_state = ?st, ab_free_buffer_checked_out = True, ab_buffers = [0, 0, 5::nat]\<rparr>"
  let ?ab3 = "\<lparr>ab_state = next_commit ?st, ab_free_buffer_checked_out = False, ab_buffers = [0, 0, 5::nat]\<rparr>"
  note defs = AsyncBuffer_new_def State_default_def GetFreeBuffer_def ab_write_def ab_read_def
    next_commit_def next_active_def
  have "?R ?s0" by (rule reach_init) (simp add: triple_init_def)
  from reach_step[OF this get_free[of _ 2 2 ?ab1]]
  have "?R (?s0\<lparr>t_ab := ?ab1, t_ppc := PWriting 2\<rparr>)" by (simp add: defs)
  from reach_step[OF this modify[of _ 2 5]]
  have "?R (?s0\<lparr>t_ab := ?ab2, t_ppc := PWriting 2\<rparr>)" by (simp add: defs)
  from reach_step[OF this commit_load]
  have "?R (?s0\<lparr>t_ab := ?ab2, t_ppc := PLoaded ?st\<rparr>)" by (simp add: defs)
  from reach_step[OF this commit_cas[of _ ?st]]
  have "?R (?s0\<lparr>t_ab := ?ab3, t_history := [5]\<rparr>)" by (simp add: defs)
  from reach_step[OF this fetch_load]
  have "?R (?s0\<lparr>t_ab := ?ab3, t_history := [5], t_cpc := CLoaded (next_commit ?st)\<rparr>)"
    by (simp add: defs)
  moreover from fetch_cas[of "?s0\<lparr>t_ab := ?ab3, t_history := [5], t_cpc := CLoaded (next_commit ?st)\<rparr>"
      "next_commit ?st"]
  have "triple_step (?s0\<lparr>t_ab := ?ab3, t_history := [5], t_cpc := CLoaded (next_commit ?st)\<rparr>)
      (?s0\<lparr>t_ab := ?ab3\<lparr>ab_state := next_active (next_commit ?st)\<rparr>, t_history := [5],
        t_cpc := CReading 2 True, t_fetched := 1\<rparr>)"
    by (simp add: defs)
  ultimately show ?thesis
    by (intro exI conjI) (assumption | simp add: defs)+
qed

theorem triple_buffer_isolation_witness:
  "\<exists>t. reach (triple_init (0::nat)) triple_step t \<and> t_cpc t = CReading 2 True \<and> t_ppc t \<noteq> PWriting 2"
proof -
  from triple_example_run obtain s t where
    "reach (triple_init (0::nat)) triple_step s" "triple_step s t" "t_cpc t = CReading 2 True"
    by blast
  then have "reach (triple_init (0::nat)) triple_step t" "t_cpc t = CReading 2 True"
    by (auto intro: reach_step)
  with triple_buffer_isolation[OF this(1)] show ?thesis by auto
qed

theorem triple_buffer_freshness_witness:
  "\<exists>t. reach (triple_init (0::nat)) triple_step t \<and> ab_read 2 (t_ab t) = 5"
proof -
  from triple_example_run obtain s t c where
    st: "reach (triple_init (0::nat)) triple_step s" "triple_step s t" "t_cpc s = CLoaded c"
      "t_cpc t = CReading 2 True" "t_history t = [5]"
    by blast
  from triple_buffer_freshness[OF st(1-4)] st reach_step[OF st(1,2)] show ?thesis
    by (auto simp: fetched_value_def)
qed

theorem triple_buffer_lock_free_witness:
  "\<exists>s t. triple_step (s :: nat triple) t \<and> t_ppc t = t_ppc s \<and> t_cpc t \<noteq> t_cpc s"
proof -
  from triple_example_run obtain s t :: "nat triple" where
    "triple_step s t" "ab_state (t_ab t) \<noteq> ab_state (t_ab s)" "t_cpc t = CReading 2 True"
    "\<exists>c. t_cpc s = CLoaded c"
    by blast
  with triple_buffer_lock_free[OF this(1,2)] show ?thesis by force
qed

end
