(* ===== verification/Callback_Handler.thy ===== *)
theory Callback_Handler
  imports Transition_Guard Async_Request Async_Buffer
begin

text \<open>
  \<open>HardwareModuleRuntime::CallbackHandler\<close> of \<open>icon/hal/hardware_module_runtime.cc\<close>: the state machine
  of a hardware module, driven by the realtime cycle (\<open>OnReadStatus\<close>, \<open>OnApplyCommand\<close>) and by
  non-realtime actions that hand their state changes to the realtime thread through a queue of
  requests and wait for the replies.

  The hardware module and the clock are code the handler calls: the functions of \<open>module_env\<close>, on a
  state \<open>'w\<close> of their own.  \<open>ch_heap\<close> holds the contexts shared by the promises and futures of the
  requests, \<open>ch_next_ptr\<close> is the address of the next allocation.  \<open>ch_log\<close> records the callbacks (with
  the state they were called in) and the state changes; the program does not have it.  Writing log
  messages, and with it the argument \<open>silent\<close>, is left out; \<open>EnumNameStateCode\<close> is generated code.
\<close>

subsection \<open>State\<close>

record AsyncRequestData =
  rd_from :: StateCode
  rd_to :: StateCode
  rd_message :: string
  rd_timestamp :: int

definition AsyncRequestData_default :: AsyncRequestData
  where "AsyncRequestData_default =
    \<lparr>rd_from = kDeactivated, rd_to = kDeactivated,
     rd_message = replicate kMaxFaultReasonLength (CHR 0x00), rd_timestamp = 0\<rparr>"

definition kMaxPendingRequests :: nat
  where "kMaxPendingRequests = 10"

datatype callback =
    CbPrepare | CbActivate | CbDeactivate | CbEnableMotion | CbDisableMotion | CbClearFaults
  | CbEnabled | CbDisabled | CbReadStatus | CbApplyCommand

datatype event = Called callback StateCode | Switched StateCode StateCode

record 'w module_env =
  me_Prepare :: "'w \<Rightarrow> Status \<times> 'w"
  me_Activate :: "'w \<Rightarrow> RealtimeStatus \<times> 'w"
  me_Deactivate :: "'w \<Rightarrow> RealtimeStatus \<times> 'w"
  me_EnableMotion :: "'w \<Rightarrow> Status \<times> 'w"
  me_DisableMotion :: "'w \<Rightarrow> Status \<times> 'w"
  me_ClearFaults :: "'w \<Rightarrow> Status \<times> 'w"
  me_Enabled :: "'w \<Rightarrow> RealtimeStatus \<times> 'w"
  me_Disabled :: "'w \<Rightarrow> RealtimeStatus \<times> 'w"
  me_ReadStatus :: "'w \<Rightarrow> RealtimeStatus \<times> 'w"
  me_ApplyCommand :: "'w \<Rightarrow> RealtimeStatus \<times> 'w"
  me_Now :: "'w \<Rightarrow> int \<times> 'w"
  me_wait :: "nat \<Rightarrow> wait_env"
  me_EnumNameStateCode :: "StateCode \<Rightarrow> string"

record 'w CallbackHandler =
  ch_action_lock :: bool
  ch_shm_state :: HardwareModuleState
  ch_state_code :: StateCode
  ch_previous_state_code :: StateCode
  ch_state_buffer :: "HardwareModuleState AsyncBuffer"
  ch_request_queue :: "AsyncRequestData AsyncRequest RealtimeQueue"
  ch_reject_new_requests :: bool
  ch_update_time :: int
  ch_future_hospice :: "RealtimeFuture list"
  ch_heap :: "RealtimeStatus ctx_heap"
  ch_next_ptr :: ptr
  ch_world :: 'w
  ch_log :: "event list"

definition invoke ::
    "callback \<Rightarrow> ('w \<Rightarrow> 'r \<times> 'w) \<Rightarrow> 'w CallbackHandler \<Rightarrow> 'r \<times> 'w CallbackHandler"
  where "invoke cb f h =
    (let (r, w) = f (ch_world h)
     in (r, h\<lparr>ch_world := w, ch_log := ch_log h @ [Called cb (ch_state_code h)]\<rparr>))"

definition now :: "'w module_env \<Rightarrow> 'w CallbackHandler \<Rightarrow> int \<times> 'w CallbackHandler"
  where "now env h = (let (t, w) = me_Now env (ch_world h) in (t, h\<lparr>ch_world := w\<rparr>))"

subsection \<open>Setting the state\<close>

definition CheckAndTriggerDisabledTransitionHook ::
    "'w module_env \<Rightarrow> StateCode \<Rightarrow> 'w CallbackHandler \<Rightarrow> RealtimeStatus \<times> 'w CallbackHandler"
  where "CheckAndTriggerDisabledTransitionHook env from h =
    (if from = kMotionEnabled
     then let (status, h1) = invoke CbDisabled (me_Disabled env) h
          in if \<not> rt_ok status then (status, h1) else (RtOkStatus, h1)
     else (RtOkStatus, h))"

text \<open>The state and the status to store: a failing \<open>Disabled()\<close> turns the target into a fault.\<close>

definition resolve_hook ::
    "StateCode \<Rightarrow> RealtimeStatus \<Rightarrow> RealtimeStatus \<Rightarrow> StateCode \<times> RealtimeStatus"
  where "resolve_hook state status hook_status =
    (if \<not> rt_ok hook_status \<and> state \<noteq> kInitFailed \<and> state \<noteq> kFatallyFaulted \<and> state \<noteq> kFaulted
     then (kFaulted, FormatRealtimeStatus (rt_code hook_status)
             (''Disabled() failed: '' @ GetMessage hook_status))
     else (state, status))"

text \<open>The stores at the end of \<open>SetStateDirectly\<close>; the result is that of \<open>CommitFreeBuffer\<close>.\<close>

definition publish_state ::
    "'w module_env \<Rightarrow> StateCode \<Rightarrow> string \<Rightarrow> 'w CallbackHandler \<Rightarrow> (bool \<times> 'w CallbackHandler) checked"
  where "publish_state env state msg h = do {
    let h1 = h\<lparr>ch_state_code := state,
      ch_log := ch_log h @ (if ch_state_code h = state then [] else [Switched (ch_state_code h) state])\<rparr>;
    let (t, h2) = now env h1;
    let h3 = h2\<lparr>ch_update_time := t, ch_shm_state := SetState state msg (ch_shm_state h2)\<rparr>;
    let (free_buffer, b) = GetFreeBuffer (ch_state_buffer h3);
    (committed, b') \<leftarrow> CommitFreeBuffer (ab_write free_buffer (SetState state msg (ab_read free_buffer b)) b);
    Some (committed, h3\<lparr>ch_state_buffer := b'\<rparr>)
  }"

definition SetStateDirectly ::
    "'w module_env \<Rightarrow> StateCode \<Rightarrow> RealtimeStatus \<Rightarrow> bool \<Rightarrow> 'w CallbackHandler \<Rightarrow>
     (bool \<times> 'w CallbackHandler) checked"
  where "SetStateDirectly env state status force h =
    (let current_state = ch_state_code h;
         result = HardwareModuleTransitionGuard current_state state
     in if \<not> force \<and> result \<noteq> kAllowed then Some (False, h)
        else if current_state = state \<and>
                HardwareModuleState_GetMessage (ch_shm_state h) = GetMessage status
        then Some (False, h)
        else let state_changed = (current_state \<noteq> state);
                 (hook_status, h1) =
                   (if state_changed then CheckAndTriggerDisabledTransitionHook env current_state h
                    else (RtOkStatus, h));
                 (new_state, current_status) = resolve_hook state status hook_status
             in map_option (\<lambda>(committed, h2). (committed \<and> state_changed, h2))
                  (publish_state env new_state (GetMessage current_status) h1))"

definition CheckAndTriggerEnabledTransitionHook ::
    "'w module_env \<Rightarrow> StateCode \<Rightarrow> StateCode \<Rightarrow> 'w CallbackHandler \<Rightarrow> 'w CallbackHandler checked"
  where "CheckAndTriggerEnabledTransitionHook env from to h =
    (if from = kMotionEnabling \<and> to = kMotionEnabled
     then let (status, h1) = invoke CbEnabled (me_Enabled env) h
          in if \<not> rt_ok status
             then map_option snd (SetStateDirectly env kFaulted
                    (FormatRealtimeStatus (rt_code status)
                      (''Enabled() callback failed: '' @ GetMessage status)) False h1)
             else Some h1
     else Some h)"

subsection \<open>Requests\<close>

text \<open>
  \<open>std::move(*request_queue_.reader()->Front())\<close>: the front element is moved out and its slot keeps
  the moved-from request.  Dereferencing a null front is \<^term>\<open>None\<close>.
\<close>

definition take_front ::
    "'q AsyncRequest RealtimeQueue \<Rightarrow> 'a ctx_heap \<Rightarrow>
     ('q AsyncRequest \<times> 'q AsyncRequest RealtimeQueue \<times> 'a ctx_heap) checked"
  where "take_front q heap = do {
    (front, q1) \<leftarrow> Reader_Front q;
    e \<leftarrow> front;
    (item, rest, heap1) \<leftarrow> AsyncRequest_move (rq_load e (rtq_buffer q1)) heap;
    Some (item, q1\<lparr>rtq_buffer := rq_store e rest (rtq_buffer q1)\<rparr>, heap1)
  }"

partial_function (option) CancelPendingRequests ::
    "'w module_env \<Rightarrow> string \<Rightarrow> 'w CallbackHandler \<Rightarrow> 'w CallbackHandler option"
  where "CancelPendingRequests env cancel_reason h =
    (if RtQueueBuffer_Empty (rtq_buffer (ch_request_queue h)) then Some h
     else do {
       (async_request, q1, heap1) \<leftarrow> take_front (ch_request_queue h) (ch_heap h);
       (status, async_request1, heap2) \<leftarrow>
         SetResponse (FormatRealtimeStatus kCancelled cancel_reason) async_request heap1;
       q2 \<leftarrow> Reader_DropFront q1;
       heap3 \<leftarrow> AsyncRequest_destroy (me_wait env) async_request1 heap2;
       CancelPendingRequests env cancel_reason (h\<lparr>ch_request_queue := q2, ch_heap := heap3\<rparr>)
     })"

definition Shutdown :: "'w module_env \<Rightarrow> 'w CallbackHandler \<Rightarrow> 'w CallbackHandler checked"
  where "Shutdown env h =
    CancelPendingRequests env ''Request cancelled due to shutdown''
      (h\<lparr>ch_reject_new_requests := True\<rparr>)"

text \<open>The reply to a request that is processed, and the change of the state it asks for.\<close>

definition process_request ::
    "'w module_env \<Rightarrow> AsyncRequestData \<Rightarrow> 'w CallbackHandler \<Rightarrow> (RealtimeStatus \<times> 'w CallbackHandler) checked"
  where "process_request env data h =
    (if rd_timestamp data \<ge> ch_update_time h \<and> rd_from data = ch_state_code h
     then map_option (\<lambda>(allowed, h1).
            (if allowed then RtOkStatus
             else FormatRealtimeStatus kFailedPrecondition
               (''Transition from '' @ me_EnumNameStateCode env (ch_state_code h) @ '' to ''
                @ me_EnumNameStateCode env (rd_to data) @ '' is prohibited!''), h1))
          (SetStateDirectly env (rd_to data)
            (FormatRealtimeStatus kUnknown (takeWhile (\<lambda>c. c \<noteq> CHR 0x00) (rd_message data))) False h)
     else Some (FormatRealtimeStatus kCancelled ''Request cancelled due to newer request'', h))"

definition ProcessNextPendingRequest ::
    "'w module_env \<Rightarrow> 'w CallbackHandler \<Rightarrow> 'w CallbackHandler checked"
  where "ProcessNextPendingRequest env h =
    (let h0 = h\<lparr>ch_previous_state_code := ch_state_code h\<rparr>
     in if RtQueueBuffer_Empty (rtq_buffer (ch_request_queue h0)) then Some h0
        else do {
          (item, q1, heap1) \<leftarrow> take_front (ch_request_queue h0) (ch_heap h0);
          q2 \<leftarrow> Reader_DropFront q1;
          (reply, h1) \<leftarrow> process_request env (GetRequest item)
            (h0\<lparr>ch_request_queue := q2, ch_heap := heap1\<rparr>);
          (status, item1, heap2) \<leftarrow> SetResponse reply item (ch_heap h1);
          heap3 \<leftarrow> AsyncRequest_destroy (me_wait env) item1 heap2;
          Some (h1\<lparr>ch_heap := heap3\<rparr>)
        })"

text \<open>\<open>std::erase_if\<close> on the abandoned futures, destroying the erased ones.\<close>

fun erase_hospice ::
    "'w module_env \<Rightarrow> RealtimeFuture list \<Rightarrow> RealtimeStatus ctx_heap \<Rightarrow>
     (RealtimeFuture list \<times> RealtimeStatus ctx_heap) checked"
  where
    "erase_hospice env [] heap = Some ([], heap)"
  | "erase_hospice env (f # fs) heap = do {
      destructible \<leftarrow> Future_IsWaitFreeDestructible f heap;
      if destructible then do {
        heap1 \<leftarrow> Future_destroy (me_wait env) f heap;
        erase_hospice env fs heap1
      } else do {
        (fs', heap1) \<leftarrow> erase_hospice env fs heap;
        Some (f # fs', heap1)
      }
    }"

definition request_message :: "string \<Rightarrow> string"
  where "request_message fault_reason =
    (let copy_len = min (kMaxFaultReasonLength - 1) (length fault_reason)
     in (memcpy_prefix (replicate kMaxFaultReasonLength (CHR 0x00)) fault_reason copy_len)
          [copy_len := CHR 0x00])"

definition kStatechangeRequestTimeout :: int
  where "kStatechangeRequestTimeout = 10 * 1000000000"

definition kDefaultDetachTimeout :: int
  where "kDefaultDetachTimeout = 1000 * 1000000"

text \<open>
  The first half of the lambda in \<open>SetStateAndWait\<close>: a future and its promise are made and the request
  is put into the queue.  An early return destroys the promise and the future.
\<close>

definition queue_request ::
    "'w module_env \<Rightarrow> StateCode \<Rightarrow> StateCode \<Rightarrow> string \<Rightarrow> 'w CallbackHandler \<Rightarrow>
     ((StatusCode + RealtimeFuture) \<times> 'w CallbackHandler) checked"
  where "queue_request env from to fault_reason h = do {
    let (future, heap) = Future_new RtOkStatus kDefaultDetachTimeout (ch_next_ptr h) (ch_heap h);
    (promise_res, heap1) \<leftarrow> Future_GetPromise False future heap;
    let h1 = h\<lparr>ch_heap := heap1, ch_next_ptr := Suc (ch_next_ptr h)\<rparr>;
    (case promise_res of
       Inl e \<Rightarrow> do {
         heap2 \<leftarrow> Future_destroy (me_wait env) future heap1;
         Some (Inl e, h1\<lparr>ch_heap := heap2\<rparr>)
       }
     | Inr promise \<Rightarrow>
         if ch_reject_new_requests h1 then do {
           heap2 \<leftarrow> Promise_destroy (me_wait env) promise heap1;
           heap3 \<leftarrow> Future_destroy (me_wait env) future heap2;
           Some (Inl kFailedPrecondition, h1\<lparr>ch_heap := heap3\<rparr>)
         } else do {
           let (t, h2) = now env h1;
           let req_data = \<lparr>rd_from = from, rd_to = to, rd_message = request_message fault_reason,
             rd_timestamp = t\<rparr>;
           (request, promise1, heap2) \<leftarrow> AsyncRequest_with_promise req_data promise heap1;
           (inserted, q) \<leftarrow> MultiWriter_Insert request (ch_request_queue h2);
           if inserted \<noteq> kOk then do {
             heap3 \<leftarrow> AsyncRequest_destroy (me_wait env) request heap2;
             heap4 \<leftarrow> Future_destroy (me_wait env) future heap3;
             Some (Inl inserted, h2\<lparr>ch_request_queue := q, ch_heap := heap4\<rparr>)
           } else Some (Inr future, h2\<lparr>ch_request_queue := q, ch_heap := heap2\<rparr>)
         })
  }"

text \<open>The second half: wait for the reply, then destroy the future or keep it in the hospice.\<close>

definition await_reply ::
    "'w module_env \<Rightarrow> RealtimeFuture \<Rightarrow> 'w CallbackHandler \<Rightarrow> (StatusCode \<times> 'w CallbackHandler) checked"
  where "await_reply env future h = do {
    let (t, h1) = now env h;
    (status, future1, heap1) \<leftarrow>
      Future_WaitForAndGet id (me_wait env 0) t kStatechangeRequestTimeout future (ch_heap h1);
    destructible \<leftarrow> Future_IsWaitFreeDestructible future1 heap1;
    let code = (case status of Inl e \<Rightarrow> e | Inr s \<Rightarrow> rt_code s);
    if destructible then do {
      heap2 \<leftarrow> Future_destroy (me_wait env) future1 heap1;
      Some (code, h1\<lparr>ch_heap := heap2\<rparr>)
    } else Some (code, h1\<lparr>ch_heap := heap1, ch_future_hospice := ch_future_hospice h1 @ [future1]\<rparr>)
  }"

text \<open>
  \<open>others\<close> is what the other threads do between the insertion of the request and the return of the
  wait: above all the realtime cycles.
\<close>

definition SetStateAndWait ::
    "'w module_env \<Rightarrow> ('w CallbackHandler \<Rightarrow> 'w CallbackHandler checked) \<Rightarrow> StateCode \<Rightarrow> StateCode \<Rightarrow>
     string \<Rightarrow> 'w CallbackHandler \<Rightarrow> (bool \<times> 'w CallbackHandler) checked"
  where "SetStateAndWait env others from to fault_reason h =
    (if HardwareModuleTransitionGuard from to \<noteq> kAllowed then Some (False, h)
     else do {
       (hospice, heap) \<leftarrow> erase_hospice env (ch_future_hospice h) (ch_heap h);
       (queued, h1) \<leftarrow> queue_request env from to fault_reason
         (h\<lparr>ch_future_hospice := hospice, ch_heap := heap\<rparr>);
       (case queued of
          Inl e \<Rightarrow> Some (False, h1)
        | Inr future \<Rightarrow> do {
            h2 \<leftarrow> others h1;
            (status, h3) \<leftarrow> await_reply env future h2;
            Some (status = kOk, h3)
          })
     })"

subsection \<open>The server callbacks\<close>

text \<open>\<open>fault_state c\<close> is the choice \<open>ret.code == StatusCode::kAborted ? kFatallyFaulted : kFaulted\<close>.\<close>

definition fault_state :: "StatusCode \<Rightarrow> StateCode"
  where "fault_state c = (if c = kAborted then kFatallyFaulted else kFaulted)"

definition OnDeactivate :: "'w module_env \<Rightarrow> 'w CallbackHandler \<Rightarrow> 'w CallbackHandler checked"
  where "OnDeactivate env h = do {
    (changed, h1) \<leftarrow> SetStateDirectly env kDeactivating RtOkStatus False h;
    if \<not> changed then Some h1
    else do {
      h2 \<leftarrow> CancelPendingRequests env ''Request cancelled due to deactivation''
        (h1\<lparr>ch_reject_new_requests := True\<rparr>);
      let (ret, h3) = invoke CbDeactivate (me_Deactivate env) h2;
      map_option snd
        (if \<not> rt_ok ret then SetStateDirectly env kFatallyFaulted ret False h3
         else SetStateDirectly env kDeactivated RtOkStatus False h3)
    }
  }"

text \<open>\<open>OnPrepare\<close> first deactivates an active module; \<open>prepare_deactivated\<close> is the rest of it.\<close>

definition prepare_deactivated :: "'w module_env \<Rightarrow> 'w CallbackHandler \<Rightarrow> 'w CallbackHandler checked"
  where "prepare_deactivated env h = do {
    (changed, h1) \<leftarrow> SetStateDirectly env kPreparing RtOkStatus False h;
    if \<not> changed then Some h1
    else do {
      h2 \<leftarrow> CancelPendingRequests env ''Request cancelled by a call to Prepare()'' h1;
      let (ret, h3) = invoke CbPrepare (me_Prepare env) h2;
      map_option snd
        (if \<not> status_ok ret
         then SetStateDirectly env kFatallyFaulted (FormatRealtimeStatus (code ret) (message ret)) False h3
         else SetStateDirectly env kPrepared RtOkStatus False h3)
    }
  }"

definition OnPrepare :: "'w module_env \<Rightarrow> 'w CallbackHandler \<Rightarrow> 'w CallbackHandler checked"
  where "OnPrepare env h = do {
    h0 \<leftarrow> (if ch_state_code h \<in> {kActivated, kMotionEnabled, kMotionEnabling, kMotionDisabling,
                                  kFaulted, kClearingFaults, kPreparing}
          then OnDeactivate env h else Some h);
    prepare_deactivated env h0
  }"

definition OnActivate :: "'w module_env \<Rightarrow> 'w CallbackHandler \<Rightarrow> 'w CallbackHandler checked"
  where "OnActivate env h = do {
    (changed, h1) \<leftarrow> SetStateDirectly env kActivating RtOkStatus False h;
    if \<not> changed then Some h1
    else do {
      h2 \<leftarrow> CancelPendingRequests env ''Request cancelled due to activation'' h1;
      let (ret, h3) = invoke CbActivate (me_Activate env) h2;
      (_, h4) \<leftarrow>
        (if \<not> rt_ok ret then SetStateDirectly env kFatallyFaulted ret False h3
         else SetStateDirectly env kActivated RtOkStatus False h3);
      Some (h4\<lparr>ch_reject_new_requests := False\<rparr>)
    }
  }"

text \<open>
  The three non-realtime actions have one body: the callback \<open>f\<close> runs in the state \<open>via\<close> and success
  leads to the state \<open>target\<close>.  \<open>others 0\<close> and \<open>others 2\<close> run during the two waits, \<open>others 1\<close> while the
  callback runs.  The body holds \<open>action_lock_\<close>; taking it again inside would wait forever.
\<close>

definition action_body ::
    "'w module_env \<Rightarrow> (nat \<Rightarrow> 'w CallbackHandler \<Rightarrow> 'w CallbackHandler checked) \<Rightarrow> callback \<Rightarrow>
     ('w \<Rightarrow> Status \<times> 'w) \<Rightarrow> StateCode \<Rightarrow> StateCode \<Rightarrow> 'w CallbackHandler \<Rightarrow> 'w CallbackHandler checked"
  where "action_body env others cb f via target h = do {
    (entered, h1) \<leftarrow> SetStateAndWait env (others 0) (ch_state_code h) via [] h;
    if \<not> entered then Some h1
    else do {
      let (ret, h2) = invoke cb f h1;
      h3 \<leftarrow> others 1 h2;
      map_option snd
        (if \<not> status_ok ret
         then SetStateAndWait env (others 2) via (fault_state (code ret)) (message ret) h3
         else SetStateAndWait env (others 2) via target [] h3)
    }
  }"

definition locked_action ::
    "'w module_env \<Rightarrow> (nat \<Rightarrow> 'w CallbackHandler \<Rightarrow> 'w CallbackHandler checked) \<Rightarrow> callback \<Rightarrow>
     ('w \<Rightarrow> Status \<times> 'w) \<Rightarrow> StateCode \<Rightarrow> StateCode \<Rightarrow> 'w CallbackHandler \<Rightarrow> 'w CallbackHandler checked"
  where "locked_action env others cb f via target h =
    (if ch_action_lock h then None
     else map_option (\<lambda>h'. h'\<lparr>ch_action_lock := False\<rparr>)
            (action_body env others cb f via target (h\<lparr>ch_action_lock := True\<rparr>)))"

definition OnEnableMotion ::
    "'w module_env \<Rightarrow> (nat \<Rightarrow> 'w CallbackHandler \<Rightarrow> 'w CallbackHandler checked) \<Rightarrow>
     'w CallbackHandler \<Rightarrow> 'w CallbackHandler checked"
  where "OnEnableMotion env others =
    locked_action env others CbEnableMotion (me_EnableMotion env) kMotionEnabling kMotionEnabled"

definition OnDisableMotion ::
    "'w module_env \<Rightarrow> (nat \<Rightarrow> 'w CallbackHandler \<Rightarrow> 'w CallbackHandler checked) \<Rightarrow>
     'w CallbackHandler \<Rightarrow> 'w CallbackHandler checked"
  where "OnDisableMotion env others =
    locked_action env others CbDisableMotion (me_DisableMotion env) kMotionDisabling kActivated"

definition OnClearFaults ::
    "'w module_env \<Rightarrow> (nat \<Rightarrow> 'w CallbackHandler \<Rightarrow> 'w CallbackHandler checked) \<Rightarrow>
     'w CallbackHandler \<Rightarrow> 'w CallbackHandler checked"
  where "OnClearFaults env others =
    locked_action env others CbClearFaults (me_ClearFaults env) kClearingFaults kActivated"

text \<open>A new error of a realtime callback: enter the fault state and cancel the pending requests.\<close>

definition raise_fault ::
    "'w module_env \<Rightarrow> StateCode \<Rightarrow> RealtimeStatus \<Rightarrow> string \<Rightarrow> 'w CallbackHandler \<Rightarrow> 'w CallbackHandler checked"
  where "raise_fault env state status reason h = do {
    (changed, h1) \<leftarrow> SetStateDirectly env state status False h;
    if changed then CancelPendingRequests env reason h1 else Some h1
  }"

definition OnReadStatus :: "'w module_env \<Rightarrow> 'w CallbackHandler \<Rightarrow> 'w CallbackHandler checked"
  where "OnReadStatus env h = do {
    h1 \<leftarrow> ProcessNextPendingRequest env h;
    h2 \<leftarrow> CheckAndTriggerEnabledTransitionHook env (ch_previous_state_code h1) (ch_state_code h1) h1;
    let (ret, h3) = invoke CbReadStatus (me_ReadStatus env) h2;
    if \<not> rt_ok ret \<and> ch_state_code h3 \<noteq> kClearingFaults
    then raise_fault env (fault_state (rt_code ret)) ret
           ''Request cancelled due to error in ReadStatus'' h3
    else Some h3
  }"

definition OnApplyCommand :: "'w module_env \<Rightarrow> 'w CallbackHandler \<Rightarrow> 'w CallbackHandler checked"
  where "OnApplyCommand env h =
    (if ch_state_code h = kMotionDisabling then Some h
     else if ch_state_code h \<noteq> kMotionEnabled
     then raise_fault env kFaulted
            (FormatRealtimeStatus kFailedPrecondition ''PUBLIC: 'ApplyCommand' called while not enabled.'')
            ''Request cancelled due to error in ApplyCommand'' h
     else let (ret, h1) = invoke CbApplyCommand (me_ApplyCommand env) h
          in if \<not> rt_ok ret
             then raise_fault env (fault_state (rt_code ret)) ret
                    ''Request cancelled due to error in ApplyCommand'' h1
             else Some h1)"

definition GetHardwareModuleState ::
    "'w CallbackHandler \<Rightarrow> (HardwareModuleState \<times> 'w CallbackHandler) checked"
  where "GetHardwareModuleState h = do {
    (fresh, state, b) \<leftarrow> GetActiveBuffer True (ch_state_buffer h);
    (case state of
       None \<Rightarrow> Some (HardwareModuleState_default, h\<lparr>ch_state_buffer := b\<rparr>)
     | Some p \<Rightarrow>
         Some (if fresh then ab_read p b else HardwareModuleState_default, h\<lparr>ch_state_buffer := b\<rparr>))
  }"

text \<open>The constructor on the state found in shared memory, and the destructor.\<close>

definition CallbackHandler_new ::
    "'w module_env \<Rightarrow> HardwareModuleState \<Rightarrow> 'w \<Rightarrow> 'w CallbackHandler checked"
  where "CallbackHandler_new env shm w = do {
    q \<leftarrow> RealtimeQueue_new (AsyncRequest_new AsyncRequestData_default) (Some kMaxPendingRequests) None;
    let (t, h) = now env
      \<lparr>ch_action_lock = False, ch_shm_state = shm, ch_state_code = kDeactivated,
       ch_previous_state_code = kDeactivated,
       ch_state_buffer = AsyncBuffer_new HardwareModuleState_default, ch_request_queue = q,
       ch_reject_new_requests = False, ch_update_time = 0, ch_future_hospice = [],
       ch_heap = (\<lambda>_. None), ch_next_ptr = 0, ch_world = w, ch_log = []\<rparr>;
    map_option snd (SetStateDirectly env kDeactivated RtOkStatus True (h\<lparr>ch_update_time := t\<rparr>))
  }"

fun destroy_futures ::
    "'w module_env \<Rightarrow> RealtimeFuture list \<Rightarrow> RealtimeStatus ctx_heap \<Rightarrow> RealtimeStatus ctx_heap checked"
  where
    "destroy_futures env [] heap = Some heap"
  | "destroy_futures env (f # fs) heap = do {
      heap1 \<leftarrow> Future_destroy (me_wait env) f heap;
      destroy_futures env fs heap1
    }"

definition CallbackHandler_destroy ::
    "'w module_env \<Rightarrow> 'w CallbackHandler \<Rightarrow> RealtimeStatus ctx_heap checked"
  where "CallbackHandler_destroy env h = do {
    h1 \<leftarrow> Shutdown env h;
    if ch_action_lock h1 then None
    else destroy_futures env (ch_future_hospice h1) (ch_heap h1)
  }"

subsection \<open>Sequences of calls\<close>

text \<open>
  A history of the handler: calls of the server callbacks in any order; a non-realtime action carries
  the calls other threads make during its two waits and during the module's callback.
\<close>

datatype op =
    OpReadStatus | OpApplyCommand | OpPrepare | OpActivate | OpDeactivate | OpShutdown | OpGetState
  | OpEnableMotion "op list" "op list" "op list"
  | OpDisableMotion "op list" "op list" "op list"
  | OpClearFaults "op list" "op list" "op list"

primrec run_calls :: "('w CallbackHandler \<Rightarrow> 'w CallbackHandler checked) list \<Rightarrow> 'w CallbackHandler \<Rightarrow> 'w CallbackHandler checked"
  where
    "run_calls [] h = Some h"
  | "run_calls (f # fs) h = do { h' \<leftarrow> f h; run_calls fs h' }"

definition during ::
    "('w CallbackHandler \<Rightarrow> 'w CallbackHandler checked) list \<Rightarrow>
     ('w CallbackHandler \<Rightarrow> 'w CallbackHandler checked) list \<Rightarrow>
     ('w CallbackHandler \<Rightarrow> 'w CallbackHandler checked) list \<Rightarrow>
     nat \<Rightarrow> 'w CallbackHandler \<Rightarrow> 'w CallbackHandler checked"
  where "during as bs cs i = run_calls (if i = 0 then as else if i = 1 then bs else cs)"

primrec exec :: "'w module_env \<Rightarrow> op \<Rightarrow> 'w CallbackHandler \<Rightarrow> 'w CallbackHandler checked"
  where
    "exec env OpReadStatus = OnReadStatus env"
  | "exec env OpApplyCommand = OnApplyCommand env"
  | "exec env OpPrepare = OnPrepare env"
  | "exec env OpActivate = OnActivate env"
  | "exec env OpDeactivate = OnDeactivate env"
  | "exec env OpShutdown = Shutdown env"
  | "exec env OpGetState = (\<lambda>h. map_option snd (GetHardwareModuleState h))"
  | "exec env (OpEnableMotion as bs cs) =
      OnEnableMotion env (during (map (exec env) as) (map (exec env) bs) (map (exec env) cs))"
  | "exec env (OpDisableMotion as bs cs) =
      OnDisableMotion env (during (map (exec env) as) (map (exec env) bs) (map (exec env) cs))"
  | "exec env (OpClearFaults as bs cs) =
      OnClearFaults env (during (map (exec env) as) (map (exec env) bs) (map (exec env) cs))"

abbreviation exec_all :: "'w module_env \<Rightarrow> op list \<Rightarrow> 'w CallbackHandler \<Rightarrow> 'w CallbackHandler checked"
  where "exec_all env ops \<equiv> run_calls (map (exec env) ops)"

text \<open>
  What a log must look like, as a monitor that reads it event by event.  Its state is the state of the
  module and whether motion is active: \<open>Enabled()\<close> was called and \<open>Disabled()\<close> was not.  Every change
  of the state starts where the last one ended, is allowed by the guard, and happens with motion
  inactive; \<open>Enabled()\<close>, \<open>Disabled()\<close> and \<open>ApplyCommand()\<close> are called in \<open>kMotionEnabled\<close> only;
  \<open>Prepare()\<close>, \<open>Activate()\<close> and \<open>Deactivate()\<close> run in the states named after them, or, for
  \<open>Deactivate()\<close>, in \<open>kFaulted\<close>.
\<close>

definition call_ok :: "callback \<Rightarrow> StateCode \<Rightarrow> bool \<Rightarrow> bool"
  where "call_ok cb s active =
    (case cb of
       CbEnabled \<Rightarrow> s = kMotionEnabled \<and> \<not> active
     | CbDisabled \<Rightarrow> s = kMotionEnabled \<and> active
     | CbApplyCommand \<Rightarrow> s = kMotionEnabled \<and> active
     | CbPrepare \<Rightarrow> s = kPreparing
     | CbActivate \<Rightarrow> s = kActivating
     | CbDeactivate \<Rightarrow> s = kDeactivating \<or> s = kFaulted
     | _ \<Rightarrow> True)"

fun monitor :: "StateCode \<Rightarrow> bool \<Rightarrow> event list \<Rightarrow> (StateCode \<times> bool) option"
  where
    "monitor s active [] = Some (s, active)"
  | "monitor s active (Called cb t # es) =
      (if t = s \<and> call_ok cb s active
       then monitor s (if cb = CbEnabled then True else if cb = CbDisabled then False else active) es
       else None)"
  | "monitor s active (Switched f t # es) =
      (if f = s \<and> allowed f t \<and> \<not> active then monitor t False es else None)"

subsection \<open>The log of a history\<close>

lemma monitor_append:
  "monitor s a (xs @ ys) = Option.bind (monitor s a xs) (\<lambda>(s', a'). monitor s' a' ys)"
  by (induction s a xs rule: monitor.induct) auto

definition traced :: "bool \<Rightarrow> 'w CallbackHandler \<Rightarrow> bool"
  where "traced active h \<longleftrightarrow> monitor kDeactivated False (ch_log h) = Some (ch_state_code h, active)"

abbreviation balanced :: "'w CallbackHandler \<Rightarrow> bool"
  where "balanced h \<equiv> traced (ch_state_code h = kMotionEnabled) h"

lemma invoke_traced:
  assumes "traced a h" "invoke cb f h = (r, h')" "call_ok cb (ch_state_code h) a"
  shows "traced (if cb = CbEnabled then True else if cb = CbDisabled then False else a) h'
    \<and> ch_state_code h' = ch_state_code h"
  using assms by (auto simp: invoke_def traced_def monitor_append split: prod.splits)

lemma now_fields [simp]:
  "now env h = (t, h') \<Longrightarrow> ch_log h' = ch_log h"
  "now env h = (t, h') \<Longrightarrow> ch_state_code h' = ch_state_code h"
  by (auto simp: now_def split: prod.splits)

lemma publish_traced:
  assumes "traced a h" "publish_state env s msg h = Some (c, h')"
    and "s = ch_state_code h \<or> allowed (ch_state_code h) s \<and> \<not> a"
  shows "traced a h' \<and> ch_state_code h' = s"
  using assms
  by (auto simp: publish_state_def traced_def monitor_append Let_def split: prod.splits bind_splits if_splits)

lemma resolve_hook_target:
  "resolve_hook s st hook = (s', st') \<Longrightarrow> s' = s \<or> s' = kFaulted \<and> \<not> rt_ok hook"
  by (auto simp: resolve_hook_def split: if_splits)

lemma SetStateDirectly_traced:
  assumes "balanced h" "SetStateDirectly env s st False h = Some (r, h')"
  shows "traced (ch_state_code h' = kMotionEnabled \<and> ch_state_code h' = ch_state_code h) h'
    \<and> (r \<longrightarrow> ch_state_code h' = s \<or> ch_state_code h = kMotionEnabled \<and> ch_state_code h' = kFaulted)
    \<and> (r \<longrightarrow> allowed (ch_state_code h) s)
    \<and> (ch_state_code h' = ch_state_code h \<or> allowed (ch_state_code h) (ch_state_code h'))
    \<and> (ch_state_code h' = ch_state_code h \<or> ch_state_code h' = s \<or> ch_state_code h' = kFaulted)"
proof (cases "allowed (ch_state_code h) s")
  case False
  then show ?thesis using assms by (auto simp: SetStateDirectly_def allowed_def Let_def)
next
  case True
  then have ne: "ch_state_code h \<noteq> s" by auto
  obtain hook h1 where hk: "CheckAndTriggerDisabledTransitionHook env (ch_state_code h) h = (hook, h1)"
    by (cases "CheckAndTriggerDisabledTransitionHook env (ch_state_code h) h")
  obtain s1 st1 where rs: "resolve_hook s st hook = (s1, st1)" by (cases "resolve_hook s st hook")
  from assms(2) True ne hk rs obtain c h2 where
    pub: "publish_state env s1 (GetMessage st1) h1 = Some (c, h2)" and h': "h' = h2" and r: "r = c"
    by (auto simp: SetStateDirectly_def allowed_def Let_def)
  have h1: "traced False h1 \<and> ch_state_code h1 = ch_state_code h
      \<and> (\<not> rt_ok hook \<longrightarrow> ch_state_code h = kMotionEnabled)"
    using assms(1) hk invoke_traced[of True h CbDisabled "me_Disabled env"]
    by (auto simp: CheckAndTriggerDisabledTransitionHook_def call_ok_def RtOkStatus_def rt_ok_def
        split: if_splits prod.splits)
  have "allowed (ch_state_code h) s1"
    using resolve_hook_target[OF rs] True h1 by (auto simp: allowed_fault)
  then have "traced False h2 \<and> ch_state_code h2 = s1" "s1 \<noteq> ch_state_code h" "allowed (ch_state_code h) s1"
    using publish_traced[of False h1 env s1, OF _ pub] h1 by auto
  then show ?thesis using h' r True resolve_hook_target[OF rs] h1 by auto
qed

lemma SetStateDirectly_balanced:
  assumes "balanced h" "SetStateDirectly env s st False h = Some (r, h')" "s \<noteq> kMotionEnabled"
  shows "balanced h'"
proof -
  have "ch_state_code h' = kMotionEnabled \<Longrightarrow> ch_state_code h' = ch_state_code h"
    using SetStateDirectly_traced[OF assms(1,2)] assms(3) by auto
  then have "(ch_state_code h' = kMotionEnabled \<and> ch_state_code h' = ch_state_code h)
      = (ch_state_code h' = kMotionEnabled)"
    by auto
  then show ?thesis using SetStateDirectly_traced[OF assms(1,2)] by simp
qed

text \<open>Cancelling touches the queue and the contexts only.\<close>

definition same_but_requests :: "'w CallbackHandler \<Rightarrow> 'w CallbackHandler \<Rightarrow> bool"
  where "same_but_requests h h' \<longleftrightarrow>
    h' = h\<lparr>ch_request_queue := ch_request_queue h', ch_heap := ch_heap h'\<rparr>"

lemma CancelPendingRequests_same:
  assumes "CancelPendingRequests env reason h = Some h'"
  shows "same_but_requests h h'"
proof (rule CancelPendingRequests.raw_induct[of "\<lambda>env reason h h'. same_but_requests h h'", OF _ assms])
  fix rec env reason h h'
  assume ih: "\<And>env reason h h'. rec env reason h = Some h' \<Longrightarrow> same_but_requests (h :: 'a CallbackHandler) h'"
    and eq: "(if RtQueueBuffer_Empty (rtq_buffer (ch_request_queue h)) then Some h
      else do {
       (async_request, q1, heap1) \<leftarrow> take_front (ch_request_queue h) (ch_heap h);
       (status, async_request1, heap2) \<leftarrow>
         SetResponse (FormatRealtimeStatus kCancelled reason) async_request heap1;
       q2 \<leftarrow> Reader_DropFront q1;
       heap3 \<leftarrow> AsyncRequest_destroy (me_wait env) async_request1 heap2;
       rec env reason (h\<lparr>ch_request_queue := q2, ch_heap := heap3\<rparr>)
     }) = Some h'"
  show "same_but_requests h h'"
  proof (cases "RtQueueBuffer_Empty (rtq_buffer (ch_request_queue h))")
    case True
    then show ?thesis using eq by (simp add: same_but_requests_def)
  next
    case False
    with eq obtain q2 heap3 where "rec env reason (h\<lparr>ch_request_queue := q2, ch_heap := heap3\<rparr>) = Some h'"
      by (auto split: bind_splits)
    from ih[OF this] show ?thesis by (simp add: same_but_requests_def)
  qed
qed

lemma same_but_requests_fields:
  assumes "same_but_requests h h'"
  shows "ch_state_code h' = ch_state_code h" "ch_log h' = ch_log h" "ch_world h' = ch_world h"
    "ch_shm_state h' = ch_shm_state h" "ch_state_buffer h' = ch_state_buffer h"
    "ch_previous_state_code h' = ch_previous_state_code h" "ch_update_time h' = ch_update_time h"
    "ch_reject_new_requests h' = ch_reject_new_requests h" "ch_action_lock h' = ch_action_lock h"
    "ch_future_hospice h' = ch_future_hospice h" "ch_next_ptr h' = ch_next_ptr h"
  by (subst assms[unfolded same_but_requests_def], simp)+

lemma traced_cong:
  "ch_state_code h' = ch_state_code h \<Longrightarrow> ch_log h' = ch_log h \<Longrightarrow> traced a h' = traced a h"
  by (simp add: traced_def)

lemma Cancel_traced:
  "CancelPendingRequests env reason h = Some h' \<Longrightarrow>
    (\<forall>a. traced a h' = traced a h) \<and> ch_state_code h' = ch_state_code h"
  using same_but_requests_fields[OF CancelPendingRequests_same[of env reason h h']] by (simp add: traced_def)

lemma raise_fault_balanced:
  assumes "balanced h" "raise_fault env s st reason h = Some h'" "s \<noteq> kMotionEnabled"
  shows "balanced h'"
proof -
  from assms(2) obtain b h1 where set: "SetStateDirectly env s st False h = Some (b, h1)"
    and rest: "(if b then CancelPendingRequests env reason h1 else Some h1) = Some h'"
    by (auto simp: raise_fault_def split: bind_splits)
  show ?thesis
    using SetStateDirectly_balanced[OF assms(1) set assms(3)] rest Cancel_traced[of env reason h1 h']
    by (cases b) auto
qed

lemma fault_state_neq [simp]: "fault_state c \<noteq> kMotionEnabled"
  by (simp add: fault_state_def)

lemma publish_previous:
  "publish_state env s msg h = Some (c, h') \<Longrightarrow> ch_previous_state_code h' = ch_previous_state_code h"
  by (cases "me_Now env (ch_world h)")
    (auto simp: publish_state_def now_def GetFreeBuffer_def Let_def split: bind_splits)

lemma DisabledHook_fields:
  assumes "CheckAndTriggerDisabledTransitionHook env from h = (st, h')"
  shows "h' = h\<lparr>ch_world := ch_world h', ch_log := ch_log h'\<rparr>"
  using assms
  by (cases "me_Disabled env (ch_world h)")
    (auto simp: CheckAndTriggerDisabledTransitionHook_def invoke_def Let_def split: if_splits)

lemma SetStateDirectly_cases:
  assumes "SetStateDirectly env s st force h = Some (r, h')"
  obtains "h' = h" "\<not> r"
  | h1 s1 msg c where "publish_state env s1 msg h1 = Some (c, h')" "r = (c \<and> ch_state_code h \<noteq> s)"
      "h1 = h\<lparr>ch_world := ch_world h1, ch_log := ch_log h1\<rparr>"
proof -
  let ?hook = "if ch_state_code h \<noteq> s then CheckAndTriggerDisabledTransitionHook env (ch_state_code h) h
    else (RtOkStatus, h)"
  obtain hook h1 where hk: "?hook = (hook, h1)" by (cases ?hook)
  obtain s1 st1 where rs: "resolve_hook s st hook = (s1, st1)" by (cases "resolve_hook s st hook")
  have h1: "h1 = h\<lparr>ch_world := ch_world h1, ch_log := ch_log h1\<rparr>"
    using hk DisabledHook_fields[of env "ch_state_code h" h hook h1] by (auto split: if_splits)
  from assms hk rs consider "h' = h" "\<not> r"
    | c where "publish_state env s1 (GetMessage st1) h1 = Some (c, h')" "r = (c \<and> ch_state_code h \<noteq> s)"
    by (auto simp: SetStateDirectly_def Let_def split: if_splits)
  then show thesis by cases (use that h1 in blast)+
qed

lemma SetStateDirectly_previous:
  assumes "SetStateDirectly env s st force h = Some (r, h')"
  shows "ch_previous_state_code h' = ch_previous_state_code h"
  using assms
proof (cases rule: SetStateDirectly_cases)
  case (2 h1 s1 msg c)
  have "ch_previous_state_code h1 = ch_previous_state_code h" by (subst 2(3)) simp
  then show ?thesis using publish_previous[OF 2(1)] by simp
qed simp

lemma process_request_traced:
  assumes "balanced h" "process_request env d h = Some (r, h')"
  shows "traced (ch_state_code h' = kMotionEnabled \<and> ch_state_code h' = ch_state_code h) h'
    \<and> (ch_state_code h' = kMotionEnabled \<longrightarrow> ch_state_code h \<in> {kMotionEnabled, kMotionEnabling})
    \<and> ch_previous_state_code h' = ch_previous_state_code h"
proof (cases "rd_timestamp d \<ge> ch_update_time h \<and> rd_from d = ch_state_code h")
  case False
  then show ?thesis using assms by (auto simp: process_request_def)
next
  case True
  with assms(2) obtain b where
    set: "SetStateDirectly env (rd_to d) (FormatRealtimeStatus kUnknown
      (takeWhile (\<lambda>c. c \<noteq> CHR 0x00) (rd_message d))) False h = Some (b, h')"
    by (auto simp: process_request_def)
  have "ch_state_code h' = kMotionEnabled \<Longrightarrow> ch_state_code h \<in> {kMotionEnabled, kMotionEnabling}"
    using SetStateDirectly_traced[OF assms(1) set] by auto
  then show ?thesis
    using SetStateDirectly_traced[OF assms(1) set] SetStateDirectly_previous[OF set] by auto
qed

text \<open>
  After \<open>ProcessNextPendingRequest\<close> the hooks are balanced, or the request has just enabled motion and
  \<open>Enabled()\<close> is still to be called.
\<close>

lemma ProcessNext_traced:
  assumes "balanced h" "ProcessNextPendingRequest env h = Some h'"
  shows "ch_previous_state_code h' = ch_state_code h \<and>
    traced (ch_state_code h' = kMotionEnabled \<and> ch_state_code h' = ch_state_code h) h'
    \<and> (ch_state_code h' = kMotionEnabled \<longrightarrow> ch_state_code h \<in> {kMotionEnabled, kMotionEnabling})"
proof (cases "RtQueueBuffer_Empty (rtq_buffer (ch_request_queue h))")
  case True
  then show ?thesis using assms by (auto simp: ProcessNextPendingRequest_def traced_def)
next
  case False
  with assms(2) obtain d q heap r h1 heap3 where
    p: "process_request env d (h\<lparr>ch_previous_state_code := ch_state_code h, ch_request_queue := q,
      ch_heap := heap\<rparr>) = Some (r, h1)" and h': "h' = h1\<lparr>ch_heap := heap3\<rparr>"
    by (auto simp: ProcessNextPendingRequest_def Let_def split: bind_splits)
  from process_request_traced[OF _ p] assms(1) show ?thesis
    by (auto simp: h' traced_def)
qed

lemma EnabledHook_balanced:
  assumes "ProcessNextPendingRequest env h = Some h1" "balanced h"
    and "CheckAndTriggerEnabledTransitionHook env (ch_previous_state_code h1) (ch_state_code h1) h1 = Some h2"
  shows "balanced h2"
proof (cases "ch_state_code h = kMotionEnabling \<and> ch_state_code h1 = kMotionEnabled")
  case False
  with ProcessNext_traced[OF assms(2,1)] assms(3) show ?thesis
    by (auto simp: CheckAndTriggerEnabledTransitionHook_def)
next
  case True
  obtain st h3 where inv: "invoke CbEnabled (me_Enabled env) h1 = (st, h3)"
    by (cases "invoke CbEnabled (me_Enabled env) h1")
  have "balanced h3"
    using ProcessNext_traced[OF assms(2,1)] invoke_traced[OF _ inv, of False] True
    by (auto simp: call_ok_def)
  then show ?thesis
    using assms(3) ProcessNext_traced[OF assms(2,1)] True inv SetStateDirectly_balanced[of h3]
    by (auto simp: CheckAndTriggerEnabledTransitionHook_def split: if_splits)
qed

lemma OnReadStatus_balanced:
  assumes "balanced h" "OnReadStatus env h = Some h'"
  shows "balanced h'"
proof -
  from assms(2) obtain h1 h2 where p: "ProcessNextPendingRequest env h = Some h1"
    "CheckAndTriggerEnabledTransitionHook env (ch_previous_state_code h1) (ch_state_code h1) h1 = Some h2"
    by (auto simp: OnReadStatus_def split: bind_splits)
  obtain ret h3 where inv: "invoke CbReadStatus (me_ReadStatus env) h2 = (ret, h3)"
    by (cases "invoke CbReadStatus (me_ReadStatus env) h2")
  have "balanced h3"
    using invoke_traced[OF EnabledHook_balanced[OF p(1) assms(1) p(2)] inv] by (simp add: call_ok_def)
  then show ?thesis
    using assms(2) p inv raise_fault_balanced[of h3] by (auto simp: OnReadStatus_def split: if_splits)
qed

lemma OnApplyCommand_balanced:
  assumes "balanced h" "OnApplyCommand env h = Some h'"
  shows "balanced h'"
proof (cases "ch_state_code h = kMotionEnabled")
  case False
  then show ?thesis
    using assms raise_fault_balanced[OF assms(1)] by (auto simp: OnApplyCommand_def split: if_splits)
next
  case True
  obtain ret h1 where inv: "invoke CbApplyCommand (me_ApplyCommand env) h = (ret, h1)"
    by (cases "invoke CbApplyCommand (me_ApplyCommand env) h")
  have "balanced h1"
    using invoke_traced[OF assms(1) inv] True by (simp add: call_ok_def)
  then show ?thesis
    using assms(2) True inv raise_fault_balanced[of h1]
    by (auto simp: OnApplyCommand_def split: if_splits)
qed

lemma OnDeactivate_balanced:
  assumes "balanced h" "OnDeactivate env h = Some h'"
  shows "balanced h'"
proof -
  from assms(2) obtain b h1 where set: "SetStateDirectly env kDeactivating RtOkStatus False h = Some (b, h1)"
    by (auto simp: OnDeactivate_def split: bind_splits)
  note h1 = SetStateDirectly_balanced[OF assms(1) set, simplified]
  show ?thesis
  proof (cases b)
    case False
    then show ?thesis using h1 assms(2) set by (simp add: OnDeactivate_def)
  next
    case True
    with assms(2) set obtain h2 where
      cancel: "CancelPendingRequests env ''Request cancelled due to deactivation''
        (h1\<lparr>ch_reject_new_requests := True\<rparr>) = Some h2"
      by (auto simp: OnDeactivate_def split: bind_splits)
    obtain ret h3 where inv: "invoke CbDeactivate (me_Deactivate env) h2 = (ret, h3)"
      by (cases "invoke CbDeactivate (me_Deactivate env) h2")
    have "balanced (h1\<lparr>ch_reject_new_requests := True\<rparr>)" using h1 by (simp add: traced_def)
    then have h2: "balanced h2" "ch_state_code h2 = ch_state_code h1"
      using Cancel_traced[OF cancel] by simp_all
    have "ch_state_code h1 = kDeactivating \<or> ch_state_code h1 = kFaulted"
      using SetStateDirectly_traced[OF assms(1) set] True by auto
    then have "balanced h3"
      using invoke_traced[OF h2(1) inv] h2(2) by (auto simp: call_ok_def)
    then show ?thesis
      using assms(2) set True cancel inv SetStateDirectly_balanced[of h3]
      by (auto simp: OnDeactivate_def split: if_splits)
  qed
qed

lemma prepare_balanced:
  assumes "balanced h" "prepare_deactivated env h = Some h'"
  shows "balanced h'"
proof -
  from assms(2) obtain b h1 where set: "SetStateDirectly env kPreparing RtOkStatus False h = Some (b, h1)"
    by (auto simp: prepare_deactivated_def bind_eq_Some_conv)
  note h1 = SetStateDirectly_balanced[OF assms(1) set, simplified]
  show ?thesis
  proof (cases b)
    case False
    then show ?thesis using h1 assms(2) set by (simp add: prepare_deactivated_def)
  next
    case True
    with assms(2) set obtain h2 where
      cancel: "CancelPendingRequests env ''Request cancelled by a call to Prepare()'' h1 = Some h2"
      by (auto simp: prepare_deactivated_def bind_eq_Some_conv)
    obtain ret h3 where inv: "invoke CbPrepare (me_Prepare env) h2 = (ret, h3)"
      by (cases "invoke CbPrepare (me_Prepare env) h2")
    have h2: "balanced h2" "ch_state_code h2 = ch_state_code h1"
      using Cancel_traced[OF cancel] h1 by auto
    have "ch_state_code h1 = kPreparing"
      using SetStateDirectly_traced[OF assms(1) set] True by (auto simp: allowed_Preparing_iff)
    then have "balanced h3" using invoke_traced[OF h2(1) inv] h2(2) by (auto simp: call_ok_def)
    then show ?thesis
      using assms(2) set True cancel inv SetStateDirectly_balanced[of h3]
      by (auto simp: prepare_deactivated_def split: if_splits)
  qed
qed

lemma OnPrepare_balanced:
  assumes "balanced h" "OnPrepare env h = Some h'"
  shows "balanced h'"
proof -
  from assms(2) obtain h0 where "h0 = h \<or> OnDeactivate env h = Some h0" "prepare_deactivated env h0 = Some h'"
    by (auto simp: OnPrepare_def bind_eq_Some_conv split: if_splits)
  then show ?thesis using OnDeactivate_balanced[OF assms(1)] prepare_balanced assms(1) by blast
qed

lemma OnActivate_balanced:
  assumes "balanced h" "OnActivate env h = Some h'"
  shows "balanced h'"
proof -
  from assms(2) obtain b h1 where set: "SetStateDirectly env kActivating RtOkStatus False h = Some (b, h1)"
    by (auto simp: OnActivate_def split: bind_splits)
  note h1 = SetStateDirectly_balanced[OF assms(1) set, simplified]
  show ?thesis
  proof (cases b)
    case False
    then show ?thesis using h1 assms(2) set by (simp add: OnActivate_def)
  next
    case True
    with assms(2) set obtain h2 where
      cancel: "CancelPendingRequests env ''Request cancelled due to activation'' h1 = Some h2"
      by (auto simp: OnActivate_def split: bind_splits)
    obtain ret h3 where inv: "invoke CbActivate (me_Activate env) h2 = (ret, h3)"
      by (cases "invoke CbActivate (me_Activate env) h2")
    have h2: "balanced h2" "ch_state_code h2 = ch_state_code h1"
      using Cancel_traced[OF cancel] h1 by auto
    have "ch_state_code h1 = kActivating"
      using SetStateDirectly_traced[OF assms(1) set] True by (auto simp: allowed_Activating_iff)
    then have h3: "balanced h3" using invoke_traced[OF h2(1) inv] h2(2) by (auto simp: call_ok_def)
    from assms(2) set True cancel inv obtain c h4 where
      "(if \<not> rt_ok ret then SetStateDirectly env kFatallyFaulted ret False h3
        else SetStateDirectly env kActivated RtOkStatus False h3) = Some (c, h4)"
      "h' = h4\<lparr>ch_reject_new_requests := False\<rparr>"
      by (auto simp: OnActivate_def split: bind_splits)
    then show ?thesis
      using SetStateDirectly_balanced[OF h3] by (auto simp: traced_def split: if_splits)
  qed
qed

text \<open>
  The promise of a fresh future is always to be had, and an early return leaves no context behind, so
  \<open>queue_request\<close> comes down to the insertion.
\<close>

lemma own_future_waiting_destroy:
  assumes "ctx_waiting ctx" "h a = Some ctx"
  shows "\<exists>h'. Promise_destroy env (one_shot a) h = Some h' \<and> Future_destroy env' (own_future a) h' = Some (h(a := None))"
proof -
  from AsyncRequest_destroy_waiting[where h = h and r = "\<lparr>ar_request = (), ar_promise = Some (one_shot a)\<rparr>"
      and env = env, OF assms] obtain ctx' where
    "Promise_destroy env (one_shot a) h = Some (h(a \<mapsto> ctx'))" "cx_wf ctx'" "\<not> cx_promise_attached ctx'"
    by (auto simp: AsyncRequest_destroy_def)
  then show ?thesis using Future_destroy_detached[of ctx' "h(a \<mapsto> ctx')" a env'] by simp
qed

definition request_for :: "StateCode \<Rightarrow> StateCode \<Rightarrow> string \<Rightarrow> int \<Rightarrow> ptr \<Rightarrow> AsyncRequestData AsyncRequest"
  where "request_for from to msg t a =
    \<lparr>ar_request = \<lparr>rd_from = from, rd_to = to, rd_message = request_message msg, rd_timestamp = t\<rparr>,
     ar_promise = Some (one_shot a)\<rparr>"

lemma queue_request_unfold:
  assumes "me_Now env (ch_world h) = (t, w)"
  shows "\<exists>ctx. ctx_waiting ctx \<and> queue_request env from to msg h =
    (let a = ch_next_ptr h;
         failed = h\<lparr>ch_heap := (ch_heap h)(a := None), ch_next_ptr := Suc a\<rparr>
     in if ch_reject_new_requests h then Some (Inl kFailedPrecondition, failed)
        else case MultiWriter_Insert (request_for from to msg t a) (ch_request_queue h) of
          None \<Rightarrow> None
        | Some (c, q) \<Rightarrow>
            if c \<noteq> kOk then Some (Inl c, failed\<lparr>ch_world := w, ch_request_queue := q\<rparr>)
            else Some (Inr (own_future a), failed\<lparr>ch_world := w, ch_request_queue := q,
                         ch_heap := (ch_heap h)(a \<mapsto> ctx)\<rparr>))"
proof -
  let ?a = "ch_next_ptr h"
  from Future_GetPromise_new[of ?a "ch_heap h" RtOkStatus kDefaultDetachTimeout] obtain ctx where
    gp: "Future_GetPromise False (own_future ?a)
        ((ch_heap h)(?a \<mapsto> (Context_new RtOkStatus kDefaultDetachTimeout)\<lparr>cx_future_attached := True\<rparr>))
      = Some (Inr (one_shot ?a), (ch_heap h)(?a \<mapsto> ctx))" and w: "ctx_waiting ctx" by auto
  from own_future_waiting_destroy[where h = "(ch_heap h)(?a \<mapsto> ctx)" and a = ?a and env = "me_wait env"
      and env' = "me_wait env", OF w] obtain h1 where
    d: "Promise_destroy (me_wait env) (one_shot ?a) ((ch_heap h)(?a \<mapsto> ctx)) = Some h1"
      "Future_destroy (me_wait env) (own_future ?a) h1 = Some ((ch_heap h)(?a := None))"
    by auto
  show ?thesis
    using w gp d assms
    by (intro exI[of _ ctx] conjI w)
      (simp add: queue_request_def Future_new_own now_def AsyncRequest_with_promise_def
        Promise_move_one_shot AsyncRequest_destroy_def request_for_def Let_def split: option.splits)
qed

lemma queue_request_same:
  assumes "queue_request env from to msg h = Some (r, h')"
  shows "ch_log h' = ch_log h \<and> ch_state_code h' = ch_state_code h"
proof -
  obtain t w where "me_Now env (ch_world h) = (t, w)" by (cases "me_Now env (ch_world h)")
  from queue_request_unfold[OF this, of "from" to msg] assms show ?thesis
    by (auto simp: Let_def split: if_splits option.splits)
qed

lemma await_reply_same:
  assumes "await_reply env f h = Some (r, h')"
  shows "ch_log h' = ch_log h \<and> ch_state_code h' = ch_state_code h"
proof -
  obtain t h1 where n: "now env h = (t, h1)" by (cases "now env h")
  from assms n obtain heap hs where "h' = h1\<lparr>ch_heap := heap\<rparr> \<or> h' = h1\<lparr>ch_heap := heap, ch_future_hospice := hs\<rparr>"
    by (auto simp: await_reply_def bind_eq_Some_conv Let_def split: if_splits)
  then show ?thesis using now_fields[OF n] by auto
qed

lemma SetStateAndWait_balanced:
  assumes "balanced h" "SetStateAndWait env others from to msg h = Some (r, h')"
    and others: "\<And>h h'. balanced h \<Longrightarrow> others h = Some h' \<Longrightarrow> balanced h'"
  shows "balanced h'"
proof (cases "HardwareModuleTransitionGuard from to = kAllowed")
  case False
  then show ?thesis using assms by (simp add: SetStateAndWait_def)
next
  case True
  with assms(2) obtain hospice heap queued h1 where
    q: "queue_request env from to msg (h\<lparr>ch_future_hospice := hospice, ch_heap := heap\<rparr>) = Some (queued, h1)"
    and rest: "(case queued of Inl e \<Rightarrow> Some (False, h1)
      | Inr future \<Rightarrow> do { h2 \<leftarrow> others h1; (status, h3) \<leftarrow> await_reply env future h2;
            Some (status = kOk, h3) }) = Some (r, h')"
    by (auto simp: SetStateAndWait_def split: bind_splits)
  have h1: "balanced h1" using queue_request_same[OF q] assms(1) by (simp add: traced_def)
  show ?thesis
  proof (cases queued)
    case (Inr future)
    with rest obtain h2 s where "others h1 = Some h2" "await_reply env future h2 = Some (s, h')"
      by (auto split: bind_splits)
    then show ?thesis using others[OF h1] await_reply_same by (fastforce simp: traced_def)
  qed (use h1 rest in simp)
qed

lemma locked_action_balanced:
  assumes "balanced h" "locked_action env others cb f via target h = Some h'"
    and others: "\<And>i h h'. balanced h \<Longrightarrow> others i h = Some h' \<Longrightarrow> balanced h'"
    and cb: "cb \<in> {CbEnableMotion, CbDisableMotion, CbClearFaults}"
  shows "balanced h'"
proof -
  from assms(2) obtain h0 where body: "action_body env others cb f via target (h\<lparr>ch_action_lock := True\<rparr>) = Some h0"
    and h': "h' = h0\<lparr>ch_action_lock := False\<rparr>"
    by (auto simp: locked_action_def split: if_splits)
  from body obtain b h1 where
    enter: "SetStateAndWait env (others 0) (ch_state_code h) via [] (h\<lparr>ch_action_lock := True\<rparr>) = Some (b, h1)"
    by (auto simp: action_body_def bind_eq_Some_conv)
  have h1: "balanced h1"
    by (rule SetStateAndWait_balanced[OF _ enter others]) (use assms(1) in \<open>simp add: traced_def\<close>)
  have "balanced h0"
  proof (cases b)
    case False
    then show ?thesis using h1 body enter by (simp add: action_body_def)
  next
    case True
    obtain ret h2 where inv: "invoke cb f h1 = (ret, h2)" by (cases "invoke cb f h1")
    have h2: "balanced h2" using invoke_traced[OF h1 inv] cb by (auto simp: call_ok_def)
    from body enter True inv obtain h3 to msg r where "others 1 h2 = Some h3"
      "SetStateAndWait env (others 2) via to msg h3 = Some (r, h0)"
      by (auto simp: action_body_def bind_eq_Some_conv split: if_splits)
    then show ?thesis
      using SetStateAndWait_balanced[where others = "others 2" and h = h3 and h' = h0] others h2 by blast
  qed
  then show ?thesis by (simp add: h' traced_def)
qed

lemma run_calls_preserve:
  assumes "run_calls fs h = Some h'" "P h" "\<And>f h h'. f \<in> set fs \<Longrightarrow> P h \<Longrightarrow> f h = Some h' \<Longrightarrow> P h'"
  shows "P h'"
  using assms by (induction fs arbitrary: h) (auto simp: bind_eq_Some_conv)

lemma GetHardwareModuleState_fields:
  "GetHardwareModuleState h = Some (s, h') \<Longrightarrow> h' = h\<lparr>ch_state_buffer := ch_state_buffer h'\<rparr>"
  by (auto simp: GetHardwareModuleState_def bind_eq_Some_conv split: option.splits)

lemma during_balanced:
  assumes "\<And>o' h h'. o' \<in> set as \<union> set bs \<union> set cs \<Longrightarrow> balanced h \<Longrightarrow> exec env o' h = Some h' \<Longrightarrow> balanced h'"
    and "balanced h" "during (map (exec env) as) (map (exec env) bs) (map (exec env) cs) i h = Some h'"
  shows "balanced h'"
  using assms(3)[unfolded during_def] assms(2)
  by (rule run_calls_preserve[where P = balanced]) (use assms(1) in \<open>auto split: if_splits\<close>)

lemma exec_balanced:
  assumes "balanced h" "exec env op h = Some h'"
  shows "balanced h'"
  using assms
proof (induction op arbitrary: h h')
  case OpShutdown
  then have "balanced (h\<lparr>ch_reject_new_requests := True\<rparr>)" by (simp add: traced_def)
  then show ?case
    using OpShutdown(2) Cancel_traced[of env _ "h\<lparr>ch_reject_new_requests := True\<rparr>" h']
    by (simp add: Shutdown_def)
next
  case OpGetState
  then obtain s where "GetHardwareModuleState h = Some (s, h')" by auto
  then obtain b where "h' = h\<lparr>ch_state_buffer := b\<rparr>" using GetHardwareModuleState_fields by blast
  then show ?case using OpGetState(1) by (simp add: traced_def)
next
  case (OpEnableMotion as bs cs)
  show ?case
    using OpEnableMotion(5)[simplified, unfolded OnEnableMotion_def]
    by (rule locked_action_balanced[OF OpEnableMotion(4)])
      (use OpEnableMotion(1-3) in \<open>auto intro: during_balanced[of as bs cs env]\<close>)
next
  case (OpDisableMotion as bs cs)
  show ?case
    using OpDisableMotion(5)[simplified, unfolded OnDisableMotion_def]
    by (rule locked_action_balanced[OF OpDisableMotion(4)])
      (use OpDisableMotion(1-3) in \<open>auto intro: during_balanced[of as bs cs env]\<close>)
next
  case (OpClearFaults as bs cs)
  show ?case
    using OpClearFaults(5)[simplified, unfolded OnClearFaults_def]
    by (rule locked_action_balanced[OF OpClearFaults(4)])
      (use OpClearFaults(1-3) in \<open>auto intro: during_balanced[of as bs cs env]\<close>)
qed (auto intro: OnReadStatus_balanced OnApplyCommand_balanced OnPrepare_balanced OnActivate_balanced
      OnDeactivate_balanced)

end
