(* ===== verification/Hardware_Module_Runtime.thy ===== *)
theory Hardware_Module_Runtime
  imports Remote_Trigger Hardware_Interface_Props Callback_Handler
begin

text \<open>
  The runtime of a hardware module, \<open>HardwareModuleRuntime\<close> of \<open>icon/hal/hardware_module_runtime.{h,cc}\<close>, and the
  options of its threads (\<open>util/thread/thread_options.h\<close>): creation, the connection of its interfaces and of its nine
  remote trigger servers to the callback handler, running and stopping its threads, and destruction.

  What the runtime calls is the record \<open>runtime_env\<close>.  The message of the interface for the state of the module is the
  field \<open>ch_shm_state\<close> of the callback handler.  The threads that \<open>Run\<close> starts are \<open>RemoteTriggerServer_Run\<close> for
  the asynchronous servers and \<open>state_change_loop\<close> for the four servers that are queried in turn.
\<close>

subsection \<open>Thread options\<close>

text \<open>The two scheduling policies the code names, as on Linux\<close>

definition SCHED_OTHER :: int where "SCHED_OTHER = 0"
definition SCHED_FIFO :: int where "SCHED_FIFO = 1"

definition kLowRealtimePriority :: int where "kLowRealtimePriority = 40"
definition kHighRealtimePriority :: int where "kHighRealtimePriority = 45"
definition kDefaultRealtimePriority :: int where "kDefaultRealtimePriority = kLowRealtimePriority"
definition kDefaultRealtimeScheduler :: int where "kDefaultRealtimeScheduler = SCHED_FIFO"
definition kDefaultNonRealtimePriority :: int where "kDefaultNonRealtimePriority = 0"
definition kDefaultNonRealtimeScheduler :: int where "kDefaultNonRealtimeScheduler = SCHED_OTHER"

record ThreadOptions =
  to_name :: string
  to_is_realtime :: bool
  to_priority :: "int option"
  to_schedule_policy :: "int option"
  to_cpu_affinity :: "int list"

definition ThreadOptions_default :: ThreadOptions
  where "ThreadOptions_default = \<lparr>to_name = [], to_is_realtime = False, to_priority = None, to_schedule_policy = None, to_cpu_affinity = []\<rparr>"

definition SetName :: "string \<Rightarrow> ThreadOptions \<Rightarrow> ThreadOptions"
  where "SetName n o' = o'\<lparr>to_name := n\<rparr>"

definition SetPriority :: "int \<Rightarrow> ThreadOptions \<Rightarrow> ThreadOptions"
  where "SetPriority p o' = o'\<lparr>to_priority := Some p\<rparr>"

definition SetScheduler :: "int \<Rightarrow> ThreadOptions \<Rightarrow> ThreadOptions"
  where "SetScheduler p o' = o'\<lparr>to_schedule_policy := Some p\<rparr>"

definition SetIsRealtime :: "bool \<Rightarrow> ThreadOptions \<Rightarrow> ThreadOptions"
  where "SetIsRealtime b o' = o'\<lparr>to_is_realtime := b\<rparr>"

definition SetAffinity :: "int list \<Rightarrow> ThreadOptions \<Rightarrow> ThreadOptions"
  where "SetAffinity cpus o' = o'\<lparr>to_cpu_affinity := cpus\<rparr>"

definition SetLowRealtimePriorityAndScheduler :: "ThreadOptions \<Rightarrow> ThreadOptions"
  where "SetLowRealtimePriorityAndScheduler o' = o'\<lparr>to_is_realtime := True,
    to_schedule_policy := Some kDefaultRealtimeScheduler, to_priority := Some kLowRealtimePriority\<rparr>"

definition SetHighRealtimePriorityAndScheduler :: "ThreadOptions \<Rightarrow> ThreadOptions"
  where "SetHighRealtimePriorityAndScheduler o' = o'\<lparr>to_is_realtime := True,
    to_schedule_policy := Some kDefaultRealtimeScheduler, to_priority := Some kHighRealtimePriority\<rparr>"

text \<open>
  The prelude.  The calls of the thread library are a parameter that gives the error code of each, 0 for
  success; the result has the calls that were made.  \<open>CPU_SET\<close> ignores processors outside of the mask.
\<close>

datatype pthread_call = Pthread_setname string | Pthread_setschedparam int int | Pthread_setaffinity "int list"

definition EPERM :: int where "EPERM = 1"

definition kMaxThreadNameLength :: nat
  where "kMaxThreadNameLength = 15"

definition CPU_SETSIZE :: int where "CPU_SETSIZE = 1024"

definition schedule :: "ThreadOptions \<Rightarrow> (int \<times> int) option"
  where "schedule options =
    (let policy = (if to_is_realtime options
                   then Some (case to_schedule_policy options of None \<Rightarrow> kDefaultRealtimeScheduler | Some p \<Rightarrow> p) else None);
         priority = (if to_is_realtime options
                     then Some (case to_priority options of None \<Rightarrow> kDefaultRealtimePriority | Some p \<Rightarrow> p) else None)
     in if priority \<noteq> None \<or> policy \<noteq> None
        then Some (case policy of None \<Rightarrow> kDefaultNonRealtimeScheduler | Some p \<Rightarrow> p,
                   case priority of None \<Rightarrow> kDefaultNonRealtimePriority | Some p \<Rightarrow> p)
        else None)"

definition thread_prelude :: "(pthread_call \<Rightarrow> int) \<Rightarrow> ThreadOptions \<Rightarrow> StatusCode \<times> pthread_call list"
  where "thread_prelude pthread options =
    (let c1 = (if to_name options \<noteq> [] then [Pthread_setname (take kMaxThreadNameLength (to_name options))] else []);
         c2 = (case schedule options of None \<Rightarrow> [] | Some (policy, priority) \<Rightarrow> [Pthread_setschedparam policy priority]);
         c3 = (if to_cpu_affinity options \<noteq> []
               then [Pthread_setaffinity (filter (\<lambda>cpu. 0 \<le> cpu \<and> cpu < CPU_SETSIZE) (to_cpu_affinity options))] else [])
     in if \<exists>c \<in> set c1. pthread c \<noteq> 0 then (kInternal, c1)
        else if \<exists>c \<in> set c2. pthread c = EPERM then (kPermissionDenied, c1 @ c2)
        else if \<exists>c \<in> set c2. pthread c \<noteq> 0 then (kInternal, c1 @ c2)
        else if \<exists>c \<in> set c3. pthread c \<noteq> 0 then (kInternal, c1 @ c2 @ c3)
        else (kOk, c1 @ c2 @ c3))"

subsection \<open>The runtime\<close>

datatype server_id =
    Srv_restart | Srv_activate | Srv_deactivate | Srv_prepare | Srv_enable_motion | Srv_disable_motion
  | Srv_clear_faults | Srv_read_status | Srv_apply_command

fun server_name :: "server_id \<Rightarrow> string"
  where
    "server_name Srv_restart = ''restart''"
  | "server_name Srv_activate = ''activate''"
  | "server_name Srv_deactivate = ''deactivate''"
  | "server_name Srv_prepare = ''prepare''"
  | "server_name Srv_enable_motion = ''enable_motion''"
  | "server_name Srv_disable_motion = ''disable_motion''"
  | "server_name Srv_clear_faults = ''clear_faults''"
  | "server_name Srv_read_status = ''read_status''"
  | "server_name Srv_apply_command = ''apply_command''"

definition all_servers :: "server_id list"
  where "all_servers = [Srv_restart, Srv_activate, Srv_deactivate, Srv_prepare, Srv_enable_motion, Srv_disable_motion,
    Srv_clear_faults, Srv_read_status, Srv_apply_command]"

datatype thread_id = Th_server server_id | Th_state_change

text \<open>
  The runtime.  The callback of a server is the name of the server; \<open>server_callback\<close> says what it does.
  \<open>hmr_threads\<close> records the threads that were started, with their options; the program does not have it.
\<close>

record 'w HardwareModuleRuntime =
  hmr_has_stopped :: bool
  hmr_shared_memory_manager :: SharedMemoryManager
  hmr_domain_socket_server :: "DomainSocketServer option"
  hmr_callback_handler :: "'w CallbackHandler option"
  hmr_servers :: "server_id \<Rightarrow> server_id RemoteTriggerServer option"
  hmr_state_interface :: MemorySegment
  hmr_icon_state_interface :: MemorySegment
  hmr_control_period_interface :: MemorySegment
  hmr_state_change_thread :: bool
  hmr_threads :: "(thread_id \<times> ThreadOptions) list"

text \<open>
  What the runtime calls: the operating system, the hardware module, the flatbuffers library (the three
  interfaces and their builders), the order of the hash maps, and whether threads start and end.
\<close>

record 'w runtime_env =
  re_sys :: sys_env
  re_module :: "'w module_env"
  re_Init :: "'w \<Rightarrow> SharedMemoryManager \<Rightarrow> os \<Rightarrow> (Status \<times> 'w \<times> SharedMemoryManager \<times> os) checked"
  re_Shutdown :: "'w \<Rightarrow> Status \<times> 'w"
  re_state_type :: "HardwareModuleState interface_type"
  re_icon_type :: "IconState interface_type"
  re_period_type :: "int interface_type"
  re_state_buffer :: "u8 list"
  re_icon_finish :: "IconState \<Rightarrow> u8 list"
  re_period_finish :: "int \<Rightarrow> u8 list"
  re_cycle :: u64
  re_now :: int
  re_order :: "(string \<times> MemorySegmentInfo) list \<Rightarrow> (string \<times> MemorySegmentInfo) list"
  re_fd_order :: "fd_map \<Rightarrow> fd_map"
  re_rlim_cur :: nat
  re_serving :: bool
  re_thread_starts :: "thread_id \<Rightarrow> bool"
  re_thread_ends :: "thread_id \<Rightarrow> bool"

definition HardwareModuleRuntime_new :: "SharedMemoryManager \<Rightarrow> DomainSocketServer \<Rightarrow> 'w HardwareModuleRuntime"
  where "HardwareModuleRuntime_new manager server =
    \<lparr>hmr_has_stopped = False, hmr_shared_memory_manager = manager, hmr_domain_socket_server = Some server,
     hmr_callback_handler = None, hmr_servers = (\<lambda>_. None), hmr_state_interface = MemorySegment_default,
     hmr_icon_state_interface = MemorySegment_default, hmr_control_period_interface = MemorySegment_default,
     hmr_state_change_thread = False, hmr_threads = []\<rparr>"

text \<open>The servers: each is created, moved to the heap, and assigned; the moved-from object has nothing left to give back.\<close>

fun connect_servers ::
    "sys_env \<Rightarrow> server_id list \<Rightarrow> 'w HardwareModuleRuntime \<Rightarrow> os \<Rightarrow> (StatusCode \<times> 'w HardwareModuleRuntime \<times> os) checked"
  where
    "connect_servers env [] rt s = Some (kOk, rt, s)"
  | "connect_servers env (i # is) rt s = do {
      (server, m, s1) \<leftarrow> RemoteTriggerServer_Create env (server_name i) i (hmr_shared_memory_manager rt) s;
      let rt1 = rt\<lparr>hmr_shared_memory_manager := m\<rparr>;
      (case server of
         Inl e \<Rightarrow> Some (e, rt1, s1)
       | Inr sv \<Rightarrow> do {
           (moved, rest) \<leftarrow> RemoteTriggerServer_move True sv;
           s2 \<leftarrow> RemoteTriggerServer_destroy env True rest s1;
           connect_servers env is (rt1\<lparr>hmr_servers := (hmr_servers rt1)(i := Some moved)\<rparr>) s2
         })
    }"

definition kHardwareModuleStateName :: string
  where "kHardwareModuleStateName = ''hardware_module_state''"

definition kControlPeriodInterfaceName :: string
  where "kControlPeriodInterfaceName = ''control_period''"

definition Connect ::
    "'w runtime_env \<Rightarrow> int \<Rightarrow> 'w \<Rightarrow> 'w HardwareModuleRuntime \<Rightarrow> os \<Rightarrow> (StatusCode \<times> 'w HardwareModuleRuntime \<times> os) checked"
  where "Connect env control_period w rt s = do {
    (r, m, s) \<leftarrow> AdvertiseMutableInterface (re_sys env) (re_state_type env) kHardwareModuleStateName (re_state_buffer env)
                  (hmr_shared_memory_manager rt) s;
    let rt = rt\<lparr>hmr_shared_memory_manager := m\<rparr>;
    (case r of Inl e \<Rightarrow> Some (e, rt, s) | Inr state_interface \<Rightarrow> do {
    let rt = rt\<lparr>hmr_state_interface := state_interface\<rparr>;
    shm_state \<leftarrow> handle_read (re_state_type env) state_interface s;
    h \<leftarrow> CallbackHandler_new (re_module env) shm_state w;
    let rt = rt\<lparr>hmr_callback_handler := Some h\<rparr>;
    (r, m, s) \<leftarrow> AdvertiseInterface (re_sys env) (re_icon_type env) kIconStateInterfaceName (BuildIconState (re_icon_finish env))
                  (hmr_shared_memory_manager rt) s;
    let rt = rt\<lparr>hmr_shared_memory_manager := m\<rparr>;
    (case r of Inl e \<Rightarrow> Some (e, rt, s) | Inr icon_interface \<Rightarrow> do {
    let rt = rt\<lparr>hmr_icon_state_interface := icon_interface\<rparr>;
    (r, m, s) \<leftarrow> AdvertiseMutableInterface (re_sys env) (re_period_type env) kControlPeriodInterfaceName
                  (BuildControlPeriod (re_period_finish env)) (hmr_shared_memory_manager rt) s;
    let rt = rt\<lparr>hmr_shared_memory_manager := m\<rparr>;
    (case r of Inl e \<Rightarrow> Some (e, rt, s) | Inr period_interface \<Rightarrow> do {
    let rt = rt\<lparr>hmr_control_period_interface := period_interface\<rparr>;
    if control_period \<le> 0 then Some (kInvalidArgument, rt, s) else do {
    (status, s) \<leftarrow> UpdateControlPeriod (re_period_type env) (re_cycle env) (re_now env) control_period period_interface s;
    if status \<noteq> kOk then Some (status, rt, s)
    else connect_servers (re_sys env) all_servers rt s
    }})})})
  }"

subsection \<open>Start and stop\<close>

definition start_async_message :: string
  where "start_async_message = ''RemoteTriggerServer is not running, but its async thread is active. ''
    @ ''Did you call `RequestStop()` and *not* call `JoinAsyncThread()` afterwards?''"

text \<open>A call through the pointer to a server; a null pointer cannot be followed.\<close>

definition start_server ::
    "'w runtime_env \<Rightarrow> server_id \<Rightarrow> ThreadOptions \<Rightarrow> 'w HardwareModuleRuntime \<Rightarrow> (Status \<times> 'w HardwareModuleRuntime) checked"
  where "start_server env i options rt = do {
    server \<leftarrow> hmr_servers rt i;
    (status, server1) \<leftarrow> StartAsync (re_thread_starts env (Th_server i)) server;
    Some (\<lparr>code = status, message = if status = kOk then [] else start_async_message\<rparr>,
          rt\<lparr>hmr_servers := (hmr_servers rt)(i := Some server1),
             hmr_threads := hmr_threads rt @ (if rts_joinable server1 \<and> \<not> rts_joinable server then [(Th_server i, options)] else [])\<rparr>)
  }"

fun request_stops :: "server_id list \<Rightarrow> 'w HardwareModuleRuntime \<Rightarrow> 'w HardwareModuleRuntime checked"
  where
    "request_stops [] rt = Some rt"
  | "request_stops (i # is) rt = do {
      server \<leftarrow> hmr_servers rt i;
      request_stops is (rt\<lparr>hmr_servers := (hmr_servers rt)(i := Some (RequestStop server))\<rparr>)
    }"

fun join_servers :: "'w runtime_env \<Rightarrow> server_id list \<Rightarrow> 'w HardwareModuleRuntime \<Rightarrow> 'w HardwareModuleRuntime checked"
  where
    "join_servers env [] rt = Some rt"
  | "join_servers env (i # is) rt = do {
      server \<leftarrow> hmr_servers rt i;
      server1 \<leftarrow> JoinAsyncThread (re_thread_ends env (Th_server i)) server;
      join_servers env is (rt\<lparr>hmr_servers := (hmr_servers rt)(i := Some server1)\<rparr>)
    }"

definition join_state_change :: "'w runtime_env \<Rightarrow> 'w HardwareModuleRuntime \<Rightarrow> 'w HardwareModuleRuntime checked"
  where "join_state_change env rt =
    (if hmr_state_change_thread rt
     then if re_thread_ends env Th_state_change then Some (rt\<lparr>hmr_state_change_thread := False\<rparr>) else None
     else Some rt)"

definition stop_order :: "server_id list"
  where "stop_order = [Srv_apply_command, Srv_read_status, Srv_deactivate, Srv_enable_motion, Srv_clear_faults,
    Srv_prepare, Srv_activate, Srv_restart]"

definition join_order :: "server_id list"
  where "join_order = [Srv_apply_command, Srv_read_status, Srv_deactivate, Srv_activate, Srv_restart]"

definition Stop :: "'w runtime_env \<Rightarrow> 'w HardwareModuleRuntime \<Rightarrow> (Status \<times> 'w HardwareModuleRuntime) checked"
  where "Stop env rt = do {
    h \<leftarrow> hmr_callback_handler rt;
    h1 \<leftarrow> Shutdown (re_module env) h;
    rt1 \<leftarrow> request_stops stop_order (rt\<lparr>hmr_callback_handler := Some h1\<rparr>);
    let (status, w) = re_Shutdown env (ch_world h1);
    rt2 \<leftarrow> join_servers env join_order (rt1\<lparr>hmr_callback_handler := Some (h1\<lparr>ch_world := w\<rparr>)\<rparr>);
    rt3 \<leftarrow> join_state_change env rt2;
    Some (status, rt3\<lparr>hmr_has_stopped := True\<rparr>)
  }"

definition set_init_failed_on_error ::
    "'w runtime_env \<Rightarrow> Status \<Rightarrow> 'w HardwareModuleRuntime \<Rightarrow> 'w HardwareModuleRuntime checked"
  where "set_init_failed_on_error env status rt =
    (if status_ok status then Some rt
     else do {
       h \<leftarrow> hmr_callback_handler rt;
       (changed, h1) \<leftarrow> SetStateDirectly (re_module env) kInitFailed (FormatRealtimeStatus (code status) (message status)) False h;
       Some (rt\<lparr>hmr_callback_handler := Some h1\<rparr>)
     })"

definition thread_options :: "string \<Rightarrow> (ThreadOptions \<Rightarrow> ThreadOptions) \<Rightarrow> bool \<Rightarrow> int list \<Rightarrow> ThreadOptions"
  where "thread_options name realtime is_realtime cpu_affinity =
    (let options = SetName name ThreadOptions_default
     in if is_realtime then SetAffinity cpu_affinity (realtime options) else options)"

fun start_servers ::
    "'w runtime_env \<Rightarrow> (server_id \<times> ThreadOptions) list \<Rightarrow> 'w HardwareModuleRuntime \<Rightarrow> (StatusCode \<times> 'w HardwareModuleRuntime) checked"
  where
    "start_servers env [] rt = Some (kOk, rt)"
  | "start_servers env ((i, options) # is) rt = do {
      (status, rt1) \<leftarrow> start_server env i options rt;
      rt2 \<leftarrow> set_init_failed_on_error env status rt1;
      if \<not> status_ok status then Some (code status, rt2) else start_servers env is rt2
    }"

definition run_threads ::
    "'w runtime_env \<Rightarrow> bool \<Rightarrow> int list \<Rightarrow> 'w HardwareModuleRuntime \<Rightarrow> (StatusCode \<times> 'w HardwareModuleRuntime) checked"
  where "run_threads env is_realtime cpu_affinity rt = do {
    let low = SetLowRealtimePriorityAndScheduler;
    let high = SetHighRealtimePriorityAndScheduler;
    let activate = thread_options ''Activate'' low is_realtime cpu_affinity;
    rt1 \<leftarrow> join_state_change env rt;
    if \<not> re_thread_starts env Th_state_change then None
    else start_servers env
      [(Srv_activate, activate), (Srv_deactivate, SetName ''Deactivate'' activate),
       (Srv_read_status, thread_options ''ReadStatus'' high is_realtime cpu_affinity),
       (Srv_apply_command, thread_options ''ApplyCommand'' high is_realtime cpu_affinity)]
      (rt1\<lparr>hmr_state_change_thread := True,
           hmr_threads := hmr_threads rt1 @ [(Th_state_change, thread_options ''StateChange'' low is_realtime cpu_affinity)]\<rparr>)
  }"

text \<open>\<open>others\<close> is what the restart server does to the runtime while the module is initialized.\<close>

definition Run_body ::
    "'w runtime_env \<Rightarrow> ('w HardwareModuleRuntime \<Rightarrow> os \<Rightarrow> ('w HardwareModuleRuntime \<times> os) checked) \<Rightarrow> bool \<Rightarrow> int list \<Rightarrow>
     'w HardwareModuleRuntime \<Rightarrow> os \<Rightarrow> (StatusCode \<times> 'w HardwareModuleRuntime \<times> os) checked"
  where "Run_body env others is_realtime cpu_affinity rt s =
    (if hmr_servers rt Srv_activate = None then Some (kInternal, rt, s) else do {
    (status, rt1) \<leftarrow> start_server env Srv_restart (thread_options ''Restart'' SetLowRealtimePriorityAndScheduler is_realtime cpu_affinity) rt;
    if \<not> status_ok status then Some (code status, rt1, s) else do {
    h \<leftarrow> hmr_callback_handler rt1;
    (init_status, w, m, s1) \<leftarrow> re_Init env (ch_world h) (hmr_shared_memory_manager rt1) s;
    rt2 \<leftarrow> set_init_failed_on_error env init_status
      (rt1\<lparr>hmr_callback_handler := Some (h\<lparr>ch_world := w\<rparr>), hmr_shared_memory_manager := m\<rparr>);
    (rt3, s2) \<leftarrow> others rt2 s1;
    (case hmr_domain_socket_server rt3 of
       None \<Rightarrow> Some (kInternal, rt3, s2)
     | Some d \<Rightarrow> do {
         (status, m1, d1, s3) \<leftarrow> AddSegmentInfoServeShmDescriptors (re_order env) (re_fd_order env) (re_sys env)
            (re_rlim_cur env) (re_serving env) (hmr_shared_memory_manager rt3) d s2;
         let rt4 = rt3\<lparr>hmr_shared_memory_manager := m1, hmr_domain_socket_server := Some d1\<rparr>;
         if status \<noteq> kOk then Some (status, rt4, s3)
         else if \<not> status_ok init_status then Some (code init_status, rt4, s3)
         else map_option (\<lambda>(st, rt5). (st, rt5, s3)) (run_threads env is_realtime cpu_affinity rt4)
       })
    }})"

text \<open>
  The scope guard \<open>Cleanup\<close> of \<open>icon/utils/cleanup.h\<close>.  Every return of the body of \<open>Run\<close> but the last one leaves it
  active, so that it stops the runtime.
\<close>

record 'f Cleanup =
  cu_callback :: 'f
  cu_active :: bool

definition Cleanup_new :: "'f \<Rightarrow> 'f Cleanup"
  where "Cleanup_new cb = \<lparr>cu_callback = cb, cu_active = True\<rparr>"

definition Cleanup_Cancel :: "'f Cleanup \<Rightarrow> 'f Cleanup"
  where "Cleanup_Cancel guard = guard\<lparr>cu_active := False\<rparr>"

definition Cleanup_destroy :: "('x \<Rightarrow> 'x checked) Cleanup \<Rightarrow> 'x \<Rightarrow> 'x checked"
  where "Cleanup_destroy guard x = (if cu_active guard then cu_callback guard x else Some x)"

definition Run ::
    "'w runtime_env \<Rightarrow> ('w HardwareModuleRuntime \<Rightarrow> os \<Rightarrow> ('w HardwareModuleRuntime \<times> os) checked) \<Rightarrow> bool \<Rightarrow> int list \<Rightarrow>
     'w HardwareModuleRuntime \<Rightarrow> os \<Rightarrow> (StatusCode \<times> 'w HardwareModuleRuntime \<times> os) checked"
  where "Run env others is_realtime cpu_affinity rt s =
    (if hmr_has_stopped rt then Some (kFailedPrecondition, rt, s)
     else do {
       let stop_on_error = Cleanup_new (\<lambda>rt. map_option snd (Stop env rt));
       (status, rt1, s1) \<leftarrow> Run_body env others is_realtime cpu_affinity rt s;
       rt2 \<leftarrow> Cleanup_destroy (if status = kOk then Cleanup_Cancel stop_on_error else stop_on_error) rt1;
       Some (status, rt2, s1)
     })"

lemmas cleanup_defs = Cleanup_new_def Cleanup_Cancel_def Cleanup_destroy_def

definition IsStarted :: "'w HardwareModuleRuntime \<Rightarrow> bool"
  where "IsStarted rt \<longleftrightarrow> hmr_state_change_thread rt
    \<and> (case hmr_servers rt Srv_read_status of None \<Rightarrow> True | Some server \<Rightarrow> RemoteTriggerServer_IsStarted server)
    \<and> (case hmr_servers rt Srv_apply_command of None \<Rightarrow> True | Some server \<Rightarrow> RemoteTriggerServer_IsStarted server)"

definition GetHardwareModuleState_runtime ::
    "'w HardwareModuleRuntime \<Rightarrow> ((StatusCode + HardwareModuleState) \<times> 'w HardwareModuleRuntime) checked"
  where "GetHardwareModuleState_runtime rt =
    (case hmr_callback_handler rt of
       None \<Rightarrow> Some (Inl kInternal, rt)
     | Some h \<Rightarrow> map_option (\<lambda>(state, h1). (Inr state, rt\<lparr>hmr_callback_handler := Some h1\<rparr>)) (GetHardwareModuleState h))"

definition SetStateTestOnly ::
    "'w runtime_env \<Rightarrow> StateCode \<Rightarrow> RealtimeStatus \<Rightarrow> 'w HardwareModuleRuntime \<Rightarrow> 'w HardwareModuleRuntime checked"
  where "SetStateTestOnly env state status rt = do {
    h \<leftarrow> hmr_callback_handler rt;
    (changed, h1) \<leftarrow> SetStateDirectly (re_module env) state status True h;
    Some (rt\<lparr>hmr_callback_handler := Some h1\<rparr>)
  }"

definition SetStateTestOnly_reason ::
    "'w runtime_env \<Rightarrow> StateCode \<Rightarrow> string \<Rightarrow> 'w HardwareModuleRuntime \<Rightarrow> 'w HardwareModuleRuntime checked"
  where "SetStateTestOnly_reason env state fault_reason rt =
    SetStateTestOnly env state (if fault_reason = [] then RtOkStatus else FormatRealtimeStatus kUnknown fault_reason) rt"

subsection \<open>The callbacks\<close>

text \<open>The callback of the restart server; the promise is gone if its owner is.\<close>

definition restart_exit_code :: "StateCode \<Rightarrow> HardwareModuleExitCode option"
  where "restart_exit_code state =
    (case state of
       kMotionEnabled \<Rightarrow> None
     | kInitFailed \<Rightarrow> Some kFatalFaultDuringInit
     | kFatallyFaulted \<Rightarrow> Some kFatalFaultDuringExec
     | _ \<Rightarrow> Some kRestartRequested)"

definition restart_callback ::
    "'w runtime_env \<Rightarrow> HardwareModuleExitCode SharedPromiseWrapper option \<Rightarrow> 'w HardwareModuleRuntime \<Rightarrow> os \<Rightarrow>
     (HardwareModuleExitCode SharedPromiseWrapper option \<times> 'w HardwareModuleRuntime \<times> os) checked"
  where "restart_callback env promise rt s =
    (case promise of
       None \<Rightarrow> Some (promise, rt, s)
     | Some p \<Rightarrow>
         if HasBeenSet p then Some (promise, rt, s)
         else do {
           h \<leftarrow> hmr_callback_handler rt;
           (state, h1) \<leftarrow> GetHardwareModuleState h;
           let rt1 = rt\<lparr>hmr_callback_handler := Some h1\<rparr>;
           (case restart_exit_code (hms_code state) of
              None \<Rightarrow> Some (promise, rt1, s)
            | Some exit_code \<Rightarrow> do {
                s1 \<leftarrow> (case hmr_domain_socket_server rt1 of None \<Rightarrow> Some s | Some d \<Rightarrow> DomainSocketServer_destroy (re_sys env) d s);
                (status, p1) \<leftarrow> SetValue exit_code p;
                Some (Some p1, rt1\<lparr>hmr_domain_socket_server := None\<rparr>, s1)
              })
         })"

text \<open>The callbacks of the other servers; \<open>others\<close> is what other threads do during an action that waits.\<close>

fun server_callback ::
    "'w module_env \<Rightarrow> (nat \<Rightarrow> 'w CallbackHandler \<Rightarrow> 'w CallbackHandler checked) \<Rightarrow> server_id \<Rightarrow> 'w CallbackHandler \<Rightarrow> 'w CallbackHandler checked"
  where
    "server_callback env others Srv_restart h = Some h"
  | "server_callback env others Srv_activate h = OnActivate env h"
  | "server_callback env others Srv_deactivate h = OnDeactivate env h"
  | "server_callback env others Srv_prepare h = OnPrepare env h"
  | "server_callback env others Srv_enable_motion h = OnEnableMotion env others h"
  | "server_callback env others Srv_disable_motion h = OnDisableMotion env others h"
  | "server_callback env others Srv_clear_faults h = OnClearFaults env others h"
  | "server_callback env others Srv_read_status h = OnReadStatus env h"
  | "server_callback env others Srv_apply_command h = OnApplyCommand env h"

text \<open>
  One round of the state change thread: four queries, then it looks for a request to stop.  \<open>wenv i\<close> is what the wait of
  a query meets, \<open>peer i\<close> what other threads and clients do before it.
\<close>

fun query_servers ::
    "(server_id \<Rightarrow> 'u \<times> os \<Rightarrow> ('u \<times> os) checked) \<Rightarrow> (server_id \<Rightarrow> 'u \<times> os \<Rightarrow> ('u \<times> os) checked) \<Rightarrow> (server_id \<Rightarrow> wait_env) \<Rightarrow> int \<Rightarrow>
     server_id list \<Rightarrow> (server_id \<Rightarrow> server_id RemoteTriggerServer option) \<Rightarrow> 'u \<times> os \<Rightarrow> ('u \<times> os) checked"
  where
    "query_servers call peer wenv time [] servers w = Some w"
  | "query_servers call peer wenv time (i # is) servers w = do {
      w1 \<leftarrow> peer i w;
      server \<leftarrow> servers i;
      (ignored, w2) \<leftarrow> Query call (wenv i) time server w1;
      query_servers call peer wenv time is servers w2
    }"

definition query_order :: "server_id list"
  where "query_order = [Srv_prepare, Srv_enable_motion, Srv_disable_motion, Srv_clear_faults]"

partial_function (option) state_change_loop ::
    "(server_id \<Rightarrow> 'u \<times> os \<Rightarrow> ('u \<times> os) option) \<Rightarrow> (nat \<Rightarrow> bool) \<Rightarrow> (nat \<Rightarrow> server_id \<Rightarrow> 'u \<times> os \<Rightarrow> ('u \<times> os) option) \<Rightarrow>
     (nat \<Rightarrow> server_id \<Rightarrow> wait_env) \<Rightarrow> (nat \<Rightarrow> int) \<Rightarrow> nat \<Rightarrow> (server_id \<Rightarrow> server_id RemoteTriggerServer option) \<Rightarrow> 'u \<times> os \<Rightarrow> ('u \<times> os) option"
  where "state_change_loop call stop peer wenv time k servers w =
    (if stop k then Some w
     else Option.bind (query_servers call (peer k) (wenv k) (time k) query_order servers w)
       (state_change_loop call stop peer wenv time (Suc k) servers))"

declare state_change_loop.simps [code]

subsection \<open>Construction and destruction\<close>

text \<open>The members are destroyed in the reverse order of their declaration.\<close>

definition destroy_handles :: "'w runtime_env \<Rightarrow> 'w HardwareModuleRuntime \<Rightarrow> os \<Rightarrow> os checked"
  where "destroy_handles env rt s = do {
    s1 \<leftarrow> CleanUpSharedMemory (re_sys env) (hmr_control_period_interface rt) s;
    s2 \<leftarrow> CleanUpSharedMemory (re_sys env) (hmr_icon_state_interface rt) s1;
    CleanUpSharedMemory (re_sys env) (hmr_state_interface rt) s2
  }"

fun destroy_servers ::
    "'w runtime_env \<Rightarrow> server_id list \<Rightarrow> (server_id \<Rightarrow> server_id RemoteTriggerServer option) \<Rightarrow> os \<Rightarrow> os checked"
  where
    "destroy_servers env [] servers s = Some s"
  | "destroy_servers env (i # is) servers s = do {
      s1 \<leftarrow> (case servers i of
               None \<Rightarrow> Some s
             | Some server \<Rightarrow> RemoteTriggerServer_destroy (re_sys env) (re_thread_ends env (Th_server i)) server s);
      destroy_servers env is servers s1
    }"

definition HardwareModuleRuntime_destroy :: "'w runtime_env \<Rightarrow> 'w HardwareModuleRuntime \<Rightarrow> os \<Rightarrow> os checked"
  where "HardwareModuleRuntime_destroy env rt s = do {
    rt1 \<leftarrow> (case hmr_callback_handler rt of
              None \<Rightarrow> Some rt
            | Some h \<Rightarrow> map_option (\<lambda>h1. rt\<lparr>hmr_callback_handler := Some h1\<rparr>) (Shutdown (re_module env) h));
    rt2 \<leftarrow> join_state_change env rt1;
    s1 \<leftarrow> destroy_handles env rt2 s;
    s2 \<leftarrow> destroy_servers env (rev all_servers) (hmr_servers rt2) s1;
    handler_heap \<leftarrow> (case hmr_callback_handler rt2 of
                   None \<Rightarrow> Some None | Some h \<Rightarrow> map_option Some (CallbackHandler_destroy (re_module env) h));
    s3 \<leftarrow> (case hmr_domain_socket_server rt2 of None \<Rightarrow> Some s2 | Some d \<Rightarrow> DomainSocketServer_destroy (re_sys env) d s2);
    SharedMemoryManager_destroy (re_order env) (re_sys env) (hmr_shared_memory_manager rt2) s3
  }"

definition kDefaultLockAcquireTimeout :: int
  where "kDefaultLockAcquireTimeout = 0"

definition HardwareModuleRuntime_Create ::
    "'w runtime_env \<Rightarrow> int \<Rightarrow> SharedMemoryManager option \<Rightarrow> 'w option \<Rightarrow> os \<Rightarrow> ((StatusCode + 'w HardwareModuleRuntime) \<times> os) checked"
  where "HardwareModuleRuntime_Create env control_period shared_memory_manager hardware_module s =
    (case shared_memory_manager of
       None \<Rightarrow> Some (Inl kInvalidArgument, s)
     | Some m \<Rightarrow>
         (case hardware_module of
            None \<Rightarrow> map_option (\<lambda>s1. (Inl kInvalidArgument, s1)) (SharedMemoryManager_destroy (re_order env) (re_sys env) m s)
          | Some w \<Rightarrow>
              if control_period \<le> 0
              then map_option (\<lambda>s1. (Inl kInvalidArgument, s1)) (SharedMemoryManager_destroy (re_order env) (re_sys env) m s)
              else do {
                (r, s1) \<leftarrow> DomainSocketServer_Create (re_sys env) (SocketDirectoryFromNamespace (smm_namespace m)) (smm_module_name m)
                            kDefaultLockAcquireTimeout kDomainSocketProtocolVersion s;
                (case r of
                   Inl e \<Rightarrow> map_option (\<lambda>s2. (Inl e, s2)) (SharedMemoryManager_destroy (re_order env) (re_sys env) m s1)
                 | Inr d \<Rightarrow> do {
                     (status, rt, s2) \<leftarrow> Connect env control_period w (HardwareModuleRuntime_new m d) s1;
                     if status \<noteq> kOk
                     then map_option (\<lambda>s3. (Inl status, s3)) (HardwareModuleRuntime_destroy env rt s2)
                     else Some (Inr rt, s2)
                   })
              }))"

end
