(* ===== verification/Remote_Trigger_Props.thy ===== *)
theory Remote_Trigger_Props
  imports Remote_Trigger
begin

text \<open>
  Properties of the remote trigger: one query on every branch, that the server loop ends after a request
  to stop, that a client gets one response per request and only after its callback ran, and a server that is
  created in a manager and answers a client that opened its segments by name.
\<close>

text \<open>The server has its two futexes in the files \<open>i\<close> and \<open>j\<close>.\<close>

definition server_at :: "'c RemoteTriggerServer \<Rightarrow> nat \<Rightarrow> nat \<Rightarrow> BinaryFutex \<Rightarrow> BinaryFutex \<Rightarrow> os \<Rightarrow> bool"
  where "server_at server i j f g s \<longleftrightarrow> i \<noteq> j
    \<and> mapped_file (ms_value (rts_request_futex server) - sizeof_SegmentHeader) s = Some i
    \<and> mapped_file (ms_value (rts_response_futex server) - sizeof_SegmentHeader) s = Some j
    \<and> take sizeof_BinaryFutex (f_payload (os_files s ! i)) = encode_BinaryFutex f
    \<and> take sizeof_BinaryFutex (f_payload (os_files s ! j)) = encode_BinaryFutex g"

lemma on_futex_at:
  assumes "mapped_file (ms_value segment - sizeof_SegmentHeader) s = Some i"
    and "take sizeof_BinaryFutex (f_payload (os_files s ! i)) = encode_BinaryFutex f"
  shows "on_futex h segment s = map_option (\<lambda>(r, f'). (r, s\<lparr>os_files := (os_files s)[i := (os_files s ! i)\<lparr>f_payload :=
      encode_BinaryFutex f' @ drop sizeof_BinaryFutex (f_payload (os_files s ! i))\<rparr>]\<rparr>)) (h f)"
  using futex_object.load_file[OF assms]
    futex_object.store_file[OF assms(1) take_encode_length[OF assms(2) futex_object.length_encode]]
  by (cases "h f") (auto simp: on_futex_def)

text \<open>A call on one of the two futexes changes this futex alone.\<close>

lemma request_call:
  assumes "server_at (server :: 'c RemoteTriggerServer) i j f g s"
  obtains s' where "on_futex h (rts_request_futex server) s = map_option (\<lambda>(r, f'). (r, s' f')) (h f)"
    "\<And>server' f'. server_at (server' :: 'c RemoteTriggerServer) i j f g s \<Longrightarrow> server_at server' i j f' g (s' f')" "\<And>f'. payload_only s (s' f')"
proof -
  have i: "i < length (os_files s)" using assms mapped_file_less[of _ s i] by (auto simp: server_at_def)
  let ?s = "\<lambda>f'. s\<lparr>os_files := (os_files s)[i := (os_files s ! i)\<lparr>f_payload :=
      encode_BinaryFutex f' @ drop sizeof_BinaryFutex (f_payload (os_files s ! i))\<rparr>]\<rparr>"
  have "on_futex h (rts_request_futex server) s = map_option (\<lambda>(r, f'). (r, ?s f')) (h f)"
    using assms by (intro on_futex_at) (simp_all add: server_at_def)
  moreover have "server_at server' i j f' g (?s f')" if "server_at (server' :: 'c RemoteTriggerServer) i j f g s" for server' f'
    using that i by (auto simp: server_at_def)
  moreover have "payload_only s (?s f')" for f' using i by (rule payload_only_store)
  ultimately show thesis by (rule that)
qed

lemma response_call:
  assumes "server_at (server :: 'c RemoteTriggerServer) i j f g s"
  obtains s' where "on_futex h (rts_response_futex server) s = map_option (\<lambda>(r, g'). (r, s' g')) (h g)"
    "\<And>server' g'. server_at (server' :: 'c RemoteTriggerServer) i j f g s \<Longrightarrow> server_at server' i j f g' (s' g')" "\<And>g'. payload_only s (s' g')"
proof -
  have j: "j < length (os_files s)" using assms mapped_file_less[of _ s j] by (auto simp: server_at_def)
  let ?s = "\<lambda>g'. s\<lparr>os_files := (os_files s)[j := (os_files s ! j)\<lparr>f_payload :=
      encode_BinaryFutex g' @ drop sizeof_BinaryFutex (f_payload (os_files s ! j))\<rparr>]\<rparr>"
  have "on_futex h (rts_response_futex server) s = map_option (\<lambda>(r, g'). (r, ?s g')) (h g)"
    using assms by (intro on_futex_at) (simp_all add: server_at_def)
  moreover have "server_at server' i j f g' (?s g')" if "server_at (server' :: 'c RemoteTriggerServer) i j f g s" for server' g'
    using that j by (auto simp: server_at_def)
  moreover have "payload_only s (?s g')" for g' using j by (rule payload_only_store)
  ultimately show thesis by (rule that)
qed

text \<open>A callback runs, returns and leaves the segments of the server in place.\<close>

lemma answer_at:
  assumes "call c (u, s) = Some (u1, s1)" "server_at (server :: 'c RemoteTriggerServer) i j f1 g1 s1"
  obtains s2 where "answer_request call c server (u, s) = Some (bf_val g1 \<noteq> kClosed, u1, s2)"
    "\<And>server'. server_at (server' :: 'c RemoteTriggerServer) i j f1 g1 s1 \<Longrightarrow> server_at server' i j f1 (snd (BinaryFutex_Post g1)) s2" "payload_only s1 s2"
proof -
  let ?h = "\<lambda>f. Some (BinaryFutex_Post f)"
  obtain s2 where s2: "on_futex ?h (rts_response_futex server) s1 = map_option (\<lambda>(r, g'). (r, s2 g')) (?h g1)"
    "\<And>server' g'. server_at (server' :: 'c RemoteTriggerServer) i j f1 g1 s1 \<Longrightarrow> server_at server' i j f1 g' (s2 g')" "\<And>g'. payload_only s1 (s2 g')"
    by (rule response_call[OF assms(2), of ?h]) blast
  obtain r g2 where p: "BinaryFutex_Post g1 = (r, g2)" by force
  have "r = kOk \<longleftrightarrow> bf_val g1 \<noteq> kClosed" using p by (auto simp: BinaryFutex_Post_def split: if_splits)
  then show thesis
    using assms(1) s2(1) p by (intro that[of "s2 g2"]) (auto simp: answer_request_def s2(3) intro: s2(2))
qed

lemma wait_for_posted:
  assumes "bf_val f = kPosted" "we_clock_gettime wenv \<noteq> None"
  shows "BinaryFutex_WaitFor wenv now kRequestTimeout f = Some (kOk, f\<lparr>bf_val := kReady\<rparr>)"
  using assms futex_wait_until_immediate[of f "now + kRequestTimeout" wenv]
  by (simp add: BinaryFutex_WaitFor_def kRequestTimeout_def Time_max_def)


subsection \<open>The server loop\<close>

lemma wait_for_returns:
  assumes "\<And>ts. \<exists>n. wait_stops (we_futex wenv ts n kReady)"
  shows "BinaryFutex_WaitFor wenv now timeout f \<noteq> None"
  using assms by (simp add: BinaryFutex_WaitFor_def BinaryFutex_WaitUntil_def futex_wait_unfold split: option.split)

text \<open>One iteration of the loop either ends it or goes on with the server as it was.\<close>

lemma Run_loop_step:
  assumes at: "server_at server i j f g (snd w)"
    and peer: "\<forall>f g s. server_at server i j f g s \<longrightarrow> (\<exists>f' g'. server_at server i j f' g' (te_peer tenv k s))"
    and wait: "\<forall>f. BinaryFutex_WaitFor (te_wait tenv k) (te_now tenv k) kRequestTimeout f \<noteq> None"
    and callback: "\<forall>c f g u s. server_at server i j f g s \<longrightarrow> (\<exists>u' s' f' g'. call c (u, s) = Some (u', s') \<and> server_at server i j f' g' s')"
  shows "(\<exists>w'. Run_loop call tenv k server w = Some (server\<lparr>rts_is_running := False\<rparr>, w'))
    \<or> \<not> te_stop tenv (2 * k) \<and> (\<exists>w' f' g'. Run_loop call tenv k server w = Run_loop call tenv (Suc k) server w'
        \<and> server_at server i j f' g' (snd w'))"
proof (cases "te_stop tenv (2 * k) \<or> \<not> rts_is_running server")
  case True
  then show ?thesis by (subst (1) Run_loop.simps) (auto simp: look_def RequestStop_def)
next
  case go: False
  then have look: "look tenv (2 * k) server = server" by (simp add: look_def)
  let ?h = "BinaryFutex_WaitFor (te_wait tenv k) (te_now tenv k) kRequestTimeout"
  obtain u s where w: "w = (u, s)" by force
  obtain f0 g0 where at0: "server_at server i j f0 g0 (te_peer tenv k s)" using peer[rule_format, OF at] w by auto
  obtain s1 where s1: "on_futex ?h (rts_request_futex server) (te_peer tenv k s) = map_option (\<lambda>(r, f'). (r, s1 f')) (?h f0)"
    "\<And>f'. server_at server i j f' g0 (s1 f')"
    by (rule request_call[OF at0, of ?h]) (use at0 in blast)
  obtain r f1 where r: "?h f0 = Some (r, f1)" using wait[rule_format, of f0] by auto
  note unfold = Run_loop.simps[of call tenv k server w]
  show ?thesis
  proof (cases "r = kOk")
    case False
    then have "Run_loop call tenv k server w =
        (if r = kDeadlineExceeded then Run_loop call tenv (Suc k) server (u, s1 f1) else Some (RequestStop server, u, s1 f1))"
      using go look s1(1) r w unfolding unfold by simp
    moreover have "server_at server i j f1 g0 (snd (u, s1 f1))" using s1(2) by simp
    ultimately show ?thesis using go unfolding RequestStop_def by (cases "r = kDeadlineExceeded") (metis, metis)
  next
    case ok: True
    show ?thesis
    proof (cases "te_stop tenv (2 * k + 1) \<or> rts_callback server = None")
      case True
      then show ?thesis using go look s1 r w ok unfolding unfold
        by (auto simp: RequestStop_def look_def[of tenv "2 * k + 1"] look_def[of tenv "Suc (2 * k)"])
    next
      case False
      then obtain c where c: "rts_callback server = Some c" by auto
      obtain u2 s2 f2 g2 where s2: "call c (u, s1 f1) = Some (u2, s2)" "server_at server i j f2 g2 s2"
        using callback s1(2) by blast
      obtain s3 where s3: "answer_request call c server (u, s1 f1) = Some (bf_val g2 \<noteq> kClosed, u2, s3)"
        "server_at server i j f2 (snd (BinaryFutex_Post g2)) s3"
        by (rule answer_at[where call = call and s = "s1 f1", OF s2]) (use s2(2) in blast)
      have "look tenv (2 * k + 1) server = server" using False by (simp add: look_def)
      then have "Run_loop call tenv k server w =
          (if bf_val g2 \<noteq> kClosed then Run_loop call tenv (Suc k) server (u2, s3) else Some (RequestStop server, u2, s3))"
        using go look s1(1) r w ok c s3(1) unfolding unfold by simp
      moreover have "server_at server i j f2 (snd (BinaryFutex_Post g2)) (snd (u2, s3))" using s3(2) by simp
      ultimately show ?thesis using go unfolding RequestStop_def by (cases "bf_val g2 = kClosed") (metis, metis)
    qed
  qed
qed

text \<open>C17: The server thread ends after a request to stop, whatever clients do: if waits return (the futex call
  times out), callbacks return, and nobody moves the segments away, \<open>Run\<close> returns with the flag reset and the
  server otherwise as it was, also when the prelude fails, so that joining the thread does not block for ever.\<close>
theorem server_loop_stops:
  assumes at: "server_at server i j f g (snd w)"
    and peer: "\<And>k f g s. server_at server i j f g s \<Longrightarrow> \<exists>f' g'. server_at server i j f' g' (te_peer tenv k s)"
    and wait: "\<And>k ts. \<exists>n. wait_stops (we_futex (te_wait tenv k) ts n kReady)"
    and callback: "\<And>c f g u s. server_at server i j f g s \<Longrightarrow> \<exists>u' s' f' g'. call c (u, s) = Some (u', s') \<and> server_at server i j f' g' s'"
    and stop: "te_stop tenv (2 * n)"
  shows "\<exists>w'. RemoteTriggerServer_Run call tenv prelude server w = Some (server\<lparr>rts_is_running := False\<rparr>, w')
    \<and> JoinAsyncThread True (server\<lparr>rts_is_running := False\<rparr>) = Some (server\<lparr>rts_is_running := False, rts_joinable := False\<rparr>)"
proof -
  have step: "(\<exists>w'. Run_loop call tenv k server w = Some (server\<lparr>rts_is_running := False\<rparr>, w'))
    \<or> \<not> te_stop tenv (2 * k) \<and> (\<exists>w' f' g'. Run_loop call tenv k server w = Run_loop call tenv (Suc k) server w'
        \<and> server_at server i j f' g' (snd w'))" if "server_at server i j f g (snd w)" for k f g w
    using that by (rule Run_loop_step) (use peer callback wait_for_returns[OF wait] in blast)+
  have "\<exists>w'. Run_loop call tenv k server w = Some (server\<lparr>rts_is_running := False\<rparr>, w')"
    if "k \<le> n" "server_at server i j f g (snd w)" for k f g w
    using that
  proof (induction "n - k" arbitrary: k f g w)
    case 0
    then have "te_stop tenv (2 * k)" using stop by simp
    with step[OF 0(3), of k] show ?case by blast
  next
    case (Suc d)
    from step[OF Suc.prems(2), of k] show ?case
    proof
      assume "\<not> te_stop tenv (2 * k) \<and> (\<exists>w' f' g'. Run_loop call tenv k server w = Run_loop call tenv (Suc k) server w'
          \<and> server_at server i j f' g' (snd w'))"
      then obtain w' f' g' where *: "Run_loop call tenv k server w = Run_loop call tenv (Suc k) server w'"
        "server_at server i j f' g' (snd w')" by blast
      have "d = n - Suc k" "Suc k \<le> n" using Suc.hyps(2) by simp_all
      from Suc.hyps(1)[OF this *(2)] *(1) show ?case by simp
    qed
  qed
  from this[OF _ at, of 0] show ?thesis
    by (auto simp: RemoteTriggerServer_Run_def JoinAsyncThread_def split: option.split)
qed

subsection \<open>Server and client\<close>

lemma trigger_inv_init: "trigger_init s \<Longrightarrow> trigger_inv s"
  by (simp add: trigger_init_def trigger_inv_def BinaryFutex_new_def)

lemma trigger_inv_step: "trigger_inv s \<Longrightarrow> trigger_step s t \<Longrightarrow> trigger_inv t"
  by (erule trigger_step.cases)
    (auto simp: trigger_inv_def Let_def BinaryFutex_Post_def BinaryFutex_TryWait_def TryWait_val_def split: if_splits)

interpretation trigger: inductive_invariant trigger_init trigger_step trigger_inv
  by unfold_locales (fact trigger_inv_init, fact trigger_inv_step)


definition trigger_state :: "u32 \<Rightarrow> u32 \<Rightarrow> server_pc \<Rightarrow> bool \<Rightarrow> nat \<Rightarrow> nat \<Rightarrow> nat \<Rightarrow> trigger_sys"
  where "trigger_state req res pc waits a b c =
    \<lparr>ts_request = \<lparr>bf_val = req, bf_private_futex = False\<rparr>, ts_response = \<lparr>bf_val = res, bf_private_futex = False\<rparr>,
     ts_is_running = True, ts_server = pc, ts_client_waits = waits, ts_requests = a, ts_calls = b, ts_responses = c\<rparr>"

lemma trigger_answered: "reach trigger_init trigger_step (trigger_state kReady kPosted SHead True 1 1 0)"
proof -
  let ?r = "reach trigger_init trigger_step"
  note d = trigger_state_def BinaryFutex_Post_def BinaryFutex_TryWait_def TryWait_val_def
  have "?r (trigger_state kReady kReady SHead False 0 0 0)"
    by (rule reach_init) (simp add: trigger_init_def d BinaryFutex_new_def)
  then have "?r (trigger_state kPosted kReady SHead True 1 0 0)"
    by (rule reach_step) (use client_post[of "trigger_state kReady kReady SHead False 0 0 0"] in \<open>simp add: d\<close>)
  then have "?r (trigger_state kPosted kReady SWaiting True 1 0 0)"
    by (rule reach_step) (use head_running[of "trigger_state kPosted kReady SHead True 1 0 0"] in \<open>simp add: d\<close>)
  then have "?r (trigger_state kReady kReady STaken True 1 0 0)"
    by (rule reach_step) (use wait_taken[of "trigger_state kPosted kReady SWaiting True 1 0 0"] in \<open>simp add: d\<close>)
  then have "?r (trigger_state kReady kReady SCalling True 1 0 0)"
    by (rule reach_step) (use taken_running[of "trigger_state kReady kReady STaken True 1 0 0"] in \<open>simp add: d\<close>)
  then have "?r (trigger_state kReady kReady SCalled True 1 1 0)"
    by (rule reach_step) (use call[of "trigger_state kReady kReady SCalling True 1 0 0"] in \<open>simp add: d\<close>)
  then show ?thesis
    by (rule reach_step) (use respond[of "trigger_state kReady kReady SCalled True 1 1 0"] in \<open>simp add: d\<close>)
qed


subsection \<open>A server in a manager\<close>

lemma server_at_opened:
  assumes "server_at server i j f g s" "os_wf s" "os_wf s'" "map f_payload (os_files s') = map f_payload (os_files s)"
    and maps: "\<And>b k. map_of (os_maps s) b = Some k \<Longrightarrow> map_of (os_maps s') b = Some k"
  shows "server_at server i j f g s'"
proof -
  have "f_payload (os_files s' ! k) = f_payload (os_files s ! k)" if "mapped_file b s = Some k" for b k
    using arg_cong[OF assms(4), of "\<lambda>xs. xs ! k"] mapped_file_less[OF that] map_eq_imp_length_eq[OF assms(4)] by simp
  then show ?thesis using assms(1-3) maps by (auto simp: server_at_def mapped_file_wf)
qed

text \<open>A process opens the two futexes, in any modes.\<close>

lemma open_futexes:
  assumes wf: "os_wf s" and inv: "handle_inv (smm_fd_map m) ls s" "length ls < 2 ^ 31 - 2" and env: "never_fails env"
    and n: "names_file m req s i" "names_file m res s j" "i \<noteq> j"
    and size': "f_size (os_files s ! i) = sizeof_SegmentHeader + sizeof_BinaryFutex" "f_size (os_files s ! j) = sizeof_SegmentHeader + sizeof_BinaryFutex"
    and pay: "f_payload (os_files s ! i) = encode_BinaryFutex f" "f_payload (os_files s ! j) = encode_BinaryFutex g"
    and files: "i < length (os_files s)" "j < length (os_files s)"
    and kind: "kind = kReadOnly \<or> kind = kReadWrite" "kind' = kReadOnly \<or> kind' = kReadWrite"
  obtains a s1 b s2 where
    "TypedMemorySegment_Get kind env sizeof_BinaryFutex (smm_fd_map m) req s = Some (Inr a, s1)"
    "TypedMemorySegment_Get kind' env sizeof_BinaryFutex (smm_fd_map m) res s1 = Some (Inr b, s2)"
    "\<And>server :: 'c RemoteTriggerServer. rts_request_futex server = a \<Longrightarrow> rts_response_futex server = b \<Longrightarrow> server_at server i j f g s2"
    "handle_inv (smm_fd_map m) (b # a # ls) s2" "os_fds s2 = os_fds s" "map f_size (os_files s2) = map f_size (os_files s)"
    "map f_payload (os_files s2) = map f_payload (os_files s)" "\<And>b k. map_of (os_maps s) b = Some k \<Longrightarrow> map_of (os_maps s2) b = Some k"
    "ms_value a = ms_header a + sizeof_SegmentHeader" "ms_value b = ms_header b + sizeof_SegmentHeader"
proof -
  have sz: "0 < sizeof_BinaryFutex" by (simp add: sizeof_BinaryFutex_def)
  have len: "length ls < 2 ^ 31 - 1" using inv(2) by simp
  obtain a s1 where a: "TypedMemorySegment_Get kind env sizeof_BinaryFutex (smm_fd_map m) req s = Some (Inr a, s1)"
    "handle_inv (smm_fd_map m) (a # ls) s1" "map_of (os_maps s1) (ms_header a) = Some i"
    "ms_value a = ms_header a + sizeof_SegmentHeader" "map f_payload (os_files s1) = map f_payload (os_files s)"
    "\<And>b j. map_of (os_maps s) b = Some j \<Longrightarrow> map_of (os_maps s1) b = Some j" "os_fds s1 = os_fds s"
    "map f_size (os_files s1) = map f_size (os_files s)"
    by (rule open_again[OF inv(1) len env n(1) sz _ kind(1)]) (simp add: size', blast)
  have size1: "sizeof_SegmentHeader + sizeof_BinaryFutex \<le> f_size (os_files s1 ! j)"
    using arg_cong[OF a(8), of "\<lambda>xs. xs ! j"] map_eq_imp_length_eq[OF a(8)] files(2) size'(2) by simp
  have n1: "names_file m res s1 j" using n(2) a(7) by (simp add: names_file_def)
  have len1: "length (a # ls) < 2 ^ 31 - 1" using inv(2) by simp
  obtain b s2 where b: "TypedMemorySegment_Get kind' env sizeof_BinaryFutex (smm_fd_map m) res s1 = Some (Inr b, s2)"
    "handle_inv (smm_fd_map m) (b # a # ls) s2" "map_of (os_maps s2) (ms_header b) = Some j"
    "ms_value b = ms_header b + sizeof_SegmentHeader" "map f_payload (os_files s2) = map f_payload (os_files s1)"
    "\<And>b j. map_of (os_maps s1) b = Some j \<Longrightarrow> map_of (os_maps s2) b = Some j" "os_fds s2 = os_fds s1"
    "map f_size (os_files s2) = map f_size (os_files s1)"
    by (rule open_again[OF a(2) len1 env n1 sz size1 kind(2)]) blast
  have p: "f_payload (os_files s2 ! k) = f_payload (os_files s ! k)" if "k < length (os_files s)" for k
    using arg_cong[OF b(5)[unfolded a(5)], of "\<lambda>xs. xs ! k"] map_eq_imp_length_eq[OF b(5)[unfolded a(5)]] that by simp
  have wf2: "os_wf s2" using b(2) by (simp add: handle_inv_def)
  have "server_at server i j f g s2" if "rts_request_futex server = a" "rts_response_futex server = b" for server :: "'c RemoteTriggerServer"
    using that n(3) a(4) b(3,4) b(6)[OF a(3)] p files pay
    by (simp add: server_at_def mapped_file_wf[OF wf2])
  then show thesis using a b by (intro that[OF a(1) b(1)]) simp_all
qed

text \<open>Creating a server in a manager that has room for its two segments.\<close>

lemma trigger_create:
  fixes c :: 'c
  assumes wf: "os_wf s" "smm_wf m s" and inv: "handle_inv (smm_fd_map m) ls s" "length ls < 2 ^ 31 - 2"
    and env: "never_fails env" and room: "length (smm_segments m) + 1 < kMaxNumberOfSegments"
    and names: "VerifyName (name @ kSemRequestSuffix) = kOk" "VerifyName (name @ kSemResponseSuffix) = kOk"
    and new: "name @ kSemRequestSuffix \<notin> fst ` set (smm_segments m)" "name @ kSemResponseSuffix \<notin> fst ` set (smm_segments m)"
  obtains server m' s' where "RemoteTriggerServer_Create env name c m s = Some (Inr server, m', s')"
    "server_at server (length (os_files s)) (Suc (length (os_files s))) (BinaryFutex_new False False) (BinaryFutex_new False False) s'"
    "\<not> rts_is_running server" "\<not> rts_joinable server" "rts_callback server = Some c"
    "handle_inv (smm_fd_map m') (rts_response_futex server # rts_request_futex server # ls) s'"
    "names_file m' (name @ kSemRequestSuffix) s' (length (os_files s))"
    "names_file m' (name @ kSemResponseSuffix) s' (Suc (length (os_files s)))"
    "map f_size (os_files s') = map f_size (os_files s)
       @ [sizeof_SegmentHeader + sizeof_BinaryFutex, sizeof_SegmentHeader + sizeof_BinaryFutex]"
    "map f_payload (os_files s') = map f_payload (os_files s)
       @ [encode_BinaryFutex (BinaryFutex_new False False), encode_BinaryFutex (BinaryFutex_new False False)]"
    "\<And>b j. map_of (os_maps s) b = Some j \<Longrightarrow> map_of (os_maps s') b = Some j" "smm_wf m' s'"
    "fst ` set (smm_segments m') = fst ` set (smm_segments m) \<union> {name @ kSemRequestSuffix, name @ kSemResponseSuffix}"
    "length (smm_segments m') = length (smm_segments m) + 2"
    "ms_value (rts_request_futex server) = ms_header (rts_request_futex server) + sizeof_SegmentHeader"
    "ms_value (rts_response_futex server) = ms_header (rts_response_futex server) + sizeof_SegmentHeader"
proof -
  let ?n1 = "name @ kSemRequestSuffix" and ?n2 = "name @ kSemResponseSuffix" and ?i = "length (os_files s)"
  let ?v = "encode_BinaryFutex (BinaryFutex_new False False)"
  have ne: "?n2 \<noteq> ?n1" by (simp add: kSemRequestSuffix_def kSemResponseSuffix_def)
  have id': "length typeid_BinaryFutex \<le> kMaxSize" by (simp add: typeid_BinaryFutex_def kMaxSize_def)
  have ok1: "rejects ?n1 typeid_BinaryFutex m = kOk" using new room names id' by (simp add: rejects_def)
  obtain m1 s1 where a: "AddSegment env ?n1 False ?v typeid_BinaryFutex m s = Some (kOk, m1, s1)"
    "os_wf s1" "smm_wf m1 s1" "handle_inv (smm_fd_map m1) ls s1"
    "fst ` set (smm_segments m1) = insert ?n1 (fst ` set (smm_segments m))"
    "length (smm_segments m1) = Suc (length (smm_segments m))"
    "map f_payload (os_files s1) = map f_payload (os_files s) @ [?v]"
    "map f_size (os_files s1) = map f_size (os_files s) @ [sizeof_SegmentHeader + length ?v]"
    "\<And>b j. map_of (os_maps s) b = Some j \<Longrightarrow> map_of (os_maps s1) b = Some j"
    "names_file m1 ?n1 s1 ?i"
    by (rule add_named[OF wf inv(1) env ok1, of False ?v]) blast
  have l1: "length (os_files s1) = Suc ?i" using arg_cong[OF a(7), of length] by simp
  have ok2: "rejects ?n2 typeid_BinaryFutex m1 = kOk" using new room names id' a(5,6) ne by (simp add: rejects_def)
  obtain m2 s2 where b: "AddSegment env ?n2 False ?v typeid_BinaryFutex m1 s1 = Some (kOk, m2, s2)"
    "os_wf s2" "handle_inv (smm_fd_map m2) ls s2"
    "map f_payload (os_files s2) = map f_payload (os_files s1) @ [?v]"
    "map f_size (os_files s2) = map f_size (os_files s1) @ [sizeof_SegmentHeader + length ?v]"
    "\<And>b j. map_of (os_maps s1) b = Some j \<Longrightarrow> map_of (os_maps s2) b = Some j"
    "names_file m2 ?n2 s2 (length (os_files s1))" "\<And>n i. names_file m1 n s1 i \<Longrightarrow> names_file m2 n s2 i"
    "smm_wf m2 s2" "fst ` set (smm_segments m2) = insert ?n2 (fst ` set (smm_segments m1))"
    "length (smm_segments m2) = Suc (length (smm_segments m1))"
    by (rule add_named[OF a(2-4) env ok2, of False ?v]) blast
  have pay: "map f_payload (os_files s2) = map f_payload (os_files s) @ [?v, ?v]" using a(7) b(4) by simp
  have size': "map f_size (os_files s2) = map f_size (os_files s) @ [sizeof_SegmentHeader + sizeof_BinaryFutex, sizeof_SegmentHeader + sizeof_BinaryFutex]"
    using a(8) b(5) by simp
  have l2: "length (os_files s2) = Suc (Suc ?i)" using arg_cong[OF pay, of length] by simp
  have n2: "names_file m2 ?n2 s2 (Suc ?i)" using b(7) l1 by simp
  have nths: "f_payload (os_files s2 ! ?i) = ?v" "f_payload (os_files s2 ! Suc ?i) = ?v"
    "f_size (os_files s2 ! ?i) = sizeof_SegmentHeader + sizeof_BinaryFutex"
    "f_size (os_files s2 ! Suc ?i) = sizeof_SegmentHeader + sizeof_BinaryFutex"
    using arg_cong[OF pay, of "\<lambda>xs. xs ! ?i"] arg_cong[OF pay, of "\<lambda>xs. xs ! Suc ?i"]
      arg_cong[OF size', of "\<lambda>xs. xs ! ?i"] arg_cong[OF size', of "\<lambda>xs. xs ! Suc ?i"] l2 by (simp_all add: nth_append)
  have lt: "?i < length (os_files s2)" "Suc ?i < length (os_files s2)" using l2 by simp_all
  obtain q s3 p s4 where o: "TypedMemorySegment_Get kReadOnly env sizeof_BinaryFutex (smm_fd_map m2) ?n1 s2 = Some (Inr q, s3)"
    "TypedMemorySegment_Get kReadWrite env sizeof_BinaryFutex (smm_fd_map m2) ?n2 s3 = Some (Inr p, s4)"
    "\<And>server :: 'c RemoteTriggerServer. rts_request_futex server = q \<Longrightarrow> rts_response_futex server = p \<Longrightarrow>
       server_at server ?i (Suc ?i) (BinaryFutex_new False False) (BinaryFutex_new False False) s4"
    "handle_inv (smm_fd_map m2) (p # q # ls) s4" "os_fds s4 = os_fds s2" "map f_size (os_files s4) = map f_size (os_files s2)"
    "map f_payload (os_files s4) = map f_payload (os_files s2)" "\<And>b k. map_of (os_maps s2) b = Some k \<Longrightarrow> map_of (os_maps s4) b = Some k"
    "ms_value q = ms_header q + sizeof_SegmentHeader" "ms_value p = ms_header p + sizeof_SegmentHeader"
    by (rule open_futexes[OF b(2,3) inv(2) env b(8)[OF a(10)] n2 _ nths(3,4,1,2) lt disjI1[OF refl] disjI2[OF refl]]) (simp, blast)
  let ?server = "RemoteTriggerServer_new name q p c"
  have "RemoteTriggerServer_Create env name c m s = Some (Inr ?server, m2, s4)"
    using a(1) b(1) o(1,2)
    by (simp add: RemoteTriggerServer_Create_def Let_def ReadOnlyMemorySegment_Get_def ReadWriteMemorySegment_Get_def)
  then show thesis
  proof (rule that)
    show "smm_wf m2 s4" by (rule smm_wf_opened[OF b(9,2) o(4,8,5,6,7)])
    show "names_file m2 ?n1 s4 ?i" "names_file m2 ?n2 s4 (Suc ?i)" using b(8)[OF a(10)] n2 o(5) by (simp_all add: names_file_def)
    show "map_of (os_maps s4) x = Some y" if "map_of (os_maps s) x = Some y" for x y
      using o(8)[OF b(6)[OF a(9)[OF that]]] .
  qed (use o(3,4,6,7,9,10) pay size' a(5,6) b(10,11) in \<open>auto simp: RemoteTriggerServer_new_def\<close>)
qed

text \<open>A client that shares the futexes of an idle server posts a request, which a query answers.\<close>

lemma request_answered:
  fixes server :: "'c RemoteTriggerServer"
  assumes at: "server_at server i j (BinaryFutex_new False False) (BinaryFutex_new False False) s"
    and client: "server_at (client :: 'c RemoteTriggerServer) i j (BinaryFutex_new False False) (BinaryFutex_new False False) s"
    and idle: "\<not> rts_is_running server" "rts_callback server = Some c" and wenv: "we_clock_gettime wenv \<noteq> None"
    and callback: "\<And>s. call c (u, s) = Some (u', s)"
  shows "\<exists>s1 s2 s3. on_futex (\<lambda>f. Some (BinaryFutex_Post f)) (rts_request_futex client) s = Some (kOk, s1)
    \<and> Query call wenv now server (u, s1) = Some (True, u', s2)
    \<and> on_futex (BinaryFutex_WaitFor wenv now kRequestTimeout) (rts_response_futex client) s2 = Some (kOk, s3)"
proof -
  let ?f = "BinaryFutex_new False False"
  let ?post = "\<lambda>f. Some (BinaryFutex_Post f)" and ?wait = "BinaryFutex_WaitFor wenv now kRequestTimeout"
  let ?g = "?f\<lparr>bf_val := kPosted\<rparr>"
  have post: "BinaryFutex_Post ?f = (kOk, ?g)" by (simp add: BinaryFutex_Post_def BinaryFutex_new_def)
  have wait: "?wait ?g = Some (kOk, ?f)" using wait_for_posted[OF _ wenv, of ?g now] by (simp add: BinaryFutex_new_def)
  obtain s4 where s4: "on_futex ?post (rts_request_futex client) s = map_option (\<lambda>(r, f'). (r, s4 f')) (?post ?f)"
    "\<And>sv f'. server_at (sv :: 'c RemoteTriggerServer) i j ?f ?f s \<Longrightarrow> server_at sv i j f' ?f (s4 f')"
    by (rule request_call[OF client, of ?post]) blast
  obtain s5 where s5: "on_futex ?wait (rts_request_futex server) (s4 ?g) = map_option (\<lambda>(r, f'). (r, s5 f')) (?wait ?g)"
    "\<And>sv f'. server_at (sv :: 'c RemoteTriggerServer) i j ?g ?f (s4 ?g) \<Longrightarrow> server_at sv i j f' ?f (s5 f')"
    by (rule request_call[OF s4(2)[OF at], of ?wait]) blast
  note at5 = s5(2)[OF s4(2)[OF at], of ?f]
  obtain s6 where s6: "answer_request call c server (u, s5 ?f) = Some (bf_val ?f \<noteq> kClosed, u', s6)"
    "\<And>sv. server_at (sv :: 'c RemoteTriggerServer) i j ?f ?f (s5 ?f) \<Longrightarrow> server_at sv i j ?f (snd (BinaryFutex_Post ?f)) s6"
    by (rule answer_at[where call = call and s = "s5 ?f", OF callback[of "s5 ?f"] at5]) blast
  have at6: "server_at client i j ?f ?g s6"
    using s6(2)[OF s5(2)[OF s4(2)[OF client]]] post by simp
  obtain s7 where s7: "on_futex ?wait (rts_response_futex client) s6 = map_option (\<lambda>(r, g'). (r, s7 g')) (?wait ?g)"
    by (rule response_call[OF at6, of ?wait]) blast
  have "Query call wenv now server (u, s4 ?g) = Some (True, u', s6)"
    using idle s5(1) wait s6(1) by (simp add: Query_def BinaryFutex_new_def)
  then show ?thesis using s4(1) s7 post wait by auto
qed

text \<open>C16: A server that is created in a manager with room for two segments can be triggered by a process that
  opens the two segments by name: it posts a request, a query runs the callback exactly once and answers true,
  and the wait of the client for the response succeeds.\<close>
theorem trigger_round_trip:
  fixes c :: 'c
  assumes wf: "os_wf s" "smm_wf m s" and inv: "handle_inv (smm_fd_map m) ls s" "length ls < 2 ^ 31 - 4"
    and env: "never_fails env" and wenv: "we_clock_gettime wenv \<noteq> None"
    and room: "length (smm_segments m) + 1 < kMaxNumberOfSegments"
    and names: "VerifyName (name @ kSemRequestSuffix) = kOk" "VerifyName (name @ kSemResponseSuffix) = kOk"
    and new: "name @ kSemRequestSuffix \<notin> fst ` set (smm_segments m)" "name @ kSemResponseSuffix \<notin> fst ` set (smm_segments m)"
    and callback: "\<And>s. call c (u, s) = Some (u', s)"
  shows "\<exists>server m' s1 q s2 p s3 s4 s5 s6. RemoteTriggerServer_Create env name c m s = Some (Inr server, m', s1)
    \<and> ReadWriteMemorySegment_Get env sizeof_BinaryFutex (smm_fd_map m') (name @ kSemRequestSuffix) s1 = Some (Inr q, s2)
    \<and> ReadWriteMemorySegment_Get env sizeof_BinaryFutex (smm_fd_map m') (name @ kSemResponseSuffix) s2 = Some (Inr p, s3)
    \<and> on_futex (\<lambda>f. Some (BinaryFutex_Post f)) q s3 = Some (kOk, s4)
    \<and> Query call wenv now server (u, s4) = Some (True, u', s5)
    \<and> on_futex (BinaryFutex_WaitFor wenv now kRequestTimeout) p s5 = Some (kOk, s6)"
proof -
  let ?n1 = "name @ kSemRequestSuffix" and ?n2 = "name @ kSemResponseSuffix"
  let ?i = "length (os_files s)" and ?f = "BinaryFutex_new False False"
  have len: "length ls < 2 ^ 31 - 2" using inv(2) by simp
  obtain server m' s1 where k: "RemoteTriggerServer_Create env name c m s = Some (Inr server, m', s1)"
    "server_at server ?i (Suc ?i) ?f ?f s1" "\<not> rts_is_running server" "rts_callback server = Some c"
    "handle_inv (smm_fd_map m') (rts_response_futex server # rts_request_futex server # ls) s1"
    "names_file m' ?n1 s1 ?i" "names_file m' ?n2 s1 (Suc ?i)"
    "map f_size (os_files s1) = map f_size (os_files s) @ [sizeof_SegmentHeader + sizeof_BinaryFutex, sizeof_SegmentHeader + sizeof_BinaryFutex]"
    "map f_payload (os_files s1) = map f_payload (os_files s) @ [encode_BinaryFutex ?f, encode_BinaryFutex ?f]"
    by (rule trigger_create[OF wf inv(1) len env room names new, of c]) blast
  have wf1: "os_wf s1" using k(5) by (simp add: handle_inv_def)
  have l: "length (os_files s1) = Suc (Suc ?i)" using arg_cong[OF k(9), of length] by simp
  have nths: "f_payload (os_files s1 ! ?i) = encode_BinaryFutex ?f" "f_payload (os_files s1 ! Suc ?i) = encode_BinaryFutex ?f"
    "f_size (os_files s1 ! ?i) = sizeof_SegmentHeader + sizeof_BinaryFutex"
    "f_size (os_files s1 ! Suc ?i) = sizeof_SegmentHeader + sizeof_BinaryFutex"
    using arg_cong[OF k(9), of "\<lambda>xs. xs ! ?i"] arg_cong[OF k(9), of "\<lambda>xs. xs ! Suc ?i"]
      arg_cong[OF k(8), of "\<lambda>xs. xs ! ?i"] arg_cong[OF k(8), of "\<lambda>xs. xs ! Suc ?i"] l by (simp_all add: nth_append)
  have lt: "?i < length (os_files s1)" "Suc ?i < length (os_files s1)" using l by simp_all
  have len1: "length (rts_response_futex server # rts_request_futex server # ls) < 2 ^ 31 - 2" using inv(2) by simp
  obtain q s2 p s3 where o: "TypedMemorySegment_Get kReadWrite env sizeof_BinaryFutex (smm_fd_map m') ?n1 s1 = Some (Inr q, s2)"
    "TypedMemorySegment_Get kReadWrite env sizeof_BinaryFutex (smm_fd_map m') ?n2 s2 = Some (Inr p, s3)"
    "\<And>client :: 'c RemoteTriggerServer. rts_request_futex client = q \<Longrightarrow> rts_response_futex client = p \<Longrightarrow> server_at client ?i (Suc ?i) ?f ?f s3"
    "handle_inv (smm_fd_map m') (p # q # rts_response_futex server # rts_request_futex server # ls) s3"
    "map f_payload (os_files s3) = map f_payload (os_files s1)" "\<And>b k. map_of (os_maps s1) b = Some k \<Longrightarrow> map_of (os_maps s3) b = Some k"
    by (rule open_futexes[OF wf1 k(5) len1 env k(6,7) _ nths(3,4,1,2) lt disjI2[OF refl] disjI2[OF refl]]) (simp, blast)
  have wf3: "os_wf s3" using o(4) by (simp add: handle_inv_def)
  have at: "server_at server ?i (Suc ?i) ?f ?f s3" by (rule server_at_opened[OF k(2) wf1 wf3 o(5,6)])
  let ?client = "server\<lparr>rts_request_futex := q, rts_response_futex := p\<rparr>"
  have client: "server_at ?client ?i (Suc ?i) ?f ?f s3" by (rule o(3)) simp_all
  from request_answered[where call = call, OF at client k(3,4) wenv callback, of now] k(1) o(1,2) show ?thesis
    by (auto simp: ReadWriteMemorySegment_Get_def intro!: exI)
qed


definition trigger_demo_os :: "u32 \<Rightarrow> os"
  where "trigger_demo_os v = os_init\<lparr>os_files :=
      [\<lparr>f_size = 264, f_header = Some (SegmentHeader_new typeid_BinaryFutex), f_payload = encode_BinaryFutex \<lparr>bf_val = v, bf_private_futex = False\<rparr>\<rparr>,
       \<lparr>f_size = 264, f_header = Some (SegmentHeader_new typeid_BinaryFutex), f_payload = encode_BinaryFutex (BinaryFutex_new False False)\<rparr>],
    os_maps := [(4096, 0), (16384, 1)], os_next_base := 32768\<rparr>"

definition trigger_demo :: "bool \<Rightarrow> nat RemoteTriggerServer"
  where "trigger_demo running = (RemoteTriggerServer_new ''rpc''
    \<lparr>ms_name = ''rpc.req'', ms_header = 4096, ms_value = 4352, ms_size = 264, ms_kind = kReadOnly\<rparr>
    \<lparr>ms_name = ''rpc.res'', ms_header = 16384, ms_value = 16640, ms_size = 264, ms_kind = kReadWrite\<rparr> 7)
    \<lparr>rts_is_running := running, rts_joinable := running\<rparr>"

lemma trigger_demo_at:
  "server_at (trigger_demo r) 0 1 \<lparr>bf_val = v, bf_private_futex = False\<rparr> (BinaryFutex_new False False) (trigger_demo_os v)"
  by (simp add: server_at_def trigger_demo_def trigger_demo_os_def RemoteTriggerServer_new_def mapped_file_def sizeof_SegmentHeader_def)

text \<open>A callback that counts its calls.\<close>

definition counting :: "nat \<Rightarrow> nat \<times> os \<Rightarrow> (nat \<times> os) checked"
  where "counting c = (\<lambda>(u, s). Some (u + c, s))"


theorem server_loop_stops_witness:
  "\<exists>w'. RemoteTriggerServer_Run counting \<lparr>te_stop = (\<lambda>k. k \<ge> 6), te_peer = (\<lambda>_ s. s), te_wait = (\<lambda>_. expired_env), te_now = int\<rparr>
      (Some kOk) (trigger_demo True) (10, trigger_demo_os kPosted) = Some (trigger_demo True\<lparr>rts_is_running := False\<rparr>, w')"
proof -
  let ?e = "\<lparr>te_stop = (\<lambda>k. k \<ge> 6), te_peer = (\<lambda>_ s. s), te_wait = (\<lambda>_. expired_env), te_now = int\<rparr>"
  have "server_at (trigger_demo True) 0 1 \<lparr>bf_val = kPosted, bf_private_futex = False\<rparr> (BinaryFutex_new False False)
      (snd (10::nat, trigger_demo_os kPosted))" using trigger_demo_at by simp
  from server_loop_stops[OF this, of ?e counting 3 "Some kOk"] show ?thesis
    by (auto simp: counting_def wait_stops_def expired_env_def)
qed

theorem trigger_round_trip_witness:
  "\<exists>server m' s1 q s2 p s3 s4 s5 s6. RemoteTriggerServer_Create ok_env ''rpc'' 7 empty_manager os_init = Some (Inr server, m', s1)
    \<and> ReadWriteMemorySegment_Get ok_env sizeof_BinaryFutex (smm_fd_map m') ''rpc.req'' s1 = Some (Inr q, s2)
    \<and> ReadWriteMemorySegment_Get ok_env sizeof_BinaryFutex (smm_fd_map m') ''rpc.res'' s2 = Some (Inr p, s3)
    \<and> on_futex (\<lambda>f. Some (BinaryFutex_Post f)) q s3 = Some (kOk, s4)
    \<and> Query counting expired_env 0 server (10, s4) = Some (True, 17, s5)
    \<and> on_futex (BinaryFutex_WaitFor expired_env 0 kRequestTimeout) p s5 = Some (kOk, s6)"
proof -
  have inv: "handle_inv (smm_fd_map empty_manager) [] os_init"
    by (simp add: handle_inv_def os_wf_init) (simp add: os_init_def empty_manager_def)
  have pre: "length ([] :: MemorySegment list) < 2 ^ 31 - 4" "we_clock_gettime expired_env \<noteq> None"
    "length (smm_segments empty_manager) + 1 < kMaxNumberOfSegments"
    "VerifyName (''rpc'' @ kSemRequestSuffix) = kOk" "VerifyName (''rpc'' @ kSemResponseSuffix) = kOk"
    "''rpc'' @ kSemRequestSuffix \<notin> fst ` set (smm_segments empty_manager)"
    "''rpc'' @ kSemResponseSuffix \<notin> fst ` set (smm_segments empty_manager)"
    by (simp_all add: expired_env_def empty_manager_def kMaxNumberOfSegments_def VerifyName_def kSemRequestSuffix_def
        kSemResponseSuffix_def kMaxSegmentStringSize_def)
  have c: "counting 7 (10, s) = Some (17, s)" for s by (simp add: counting_def)
  show ?thesis
    using trigger_round_trip[where call = counting, OF os_wf_init empty_manager_wf inv pre(1) ok_env_never_fails pre(2-7) c, of 0]
    by (simp add: kSemRequestSuffix_def kSemResponseSuffix_def)
qed

end
