(* ===== verification/Handler_Wf.thy ===== *)
theory Handler_Wf
  imports Callback_Handler
begin

text \<open>
  No call of the handler aborts, waits forever or touches a freed context: an invariant of the queue
  of requests, the contexts of their promises and the triple buffer of the published state, kept by
  every call; and what the calls do in the states the invariant describes.
\<close>

definition ptr_of :: "'q AsyncRequest \<Rightarrow> ptr"
  where "ptr_of r = the (pr_context (the (ar_promise r)))"

definition queued_ptrs :: "'q AsyncRequest RealtimeQueue \<Rightarrow> ptr list"
  where "queued_ptrs q = map ptr_of (rtq_list q)"

definition queue_ok :: "AsyncRequestData AsyncRequest RealtimeQueue \<Rightarrow> bool"
  where "queue_ok q \<longleftrightarrow> rtq_idle q \<and> rtq_capacity q = kMaxPendingRequests
    \<and> (\<forall>r \<in> set (rtq_list q). ar_promise r = Some (one_shot (ptr_of r))) \<and> distinct (queued_ptrs q)"

text \<open>The context of a request that is still queued, and of one that is not.\<close>

definition ctx_ok :: "bool \<Rightarrow> 'a Context \<Rightarrow> bool"
  where "ctx_ok queued ctx \<longleftrightarrow>
    (if queued then ctx_waiting ctx
     else cx_wf ctx \<and> \<not> cx_promise_attached ctx \<and> cx_future_attached ctx \<and> \<not> cx_is_cancelled ctx)"

definition heap_ok :: "ptr set \<Rightarrow> ptr \<Rightarrow> 'a ctx_heap \<Rightarrow> bool"
  where "heap_ok queued next heap \<longleftrightarrow>
    queued \<subseteq> dom heap \<and> (\<forall>a ctx. heap a = Some ctx \<longrightarrow> a < next \<and> ctx_ok (a \<in> queued) ctx)"

text \<open>\<open>active\<close> are the contexts whose futures are being waited for.\<close>

definition futures_ok :: "ptr set \<Rightarrow> RealtimeFuture list \<Rightarrow> 'a ctx_heap \<Rightarrow> bool"
  where "futures_ok active hospice heap \<longleftrightarrow>
    (\<exists>hs. hospice = map own_future hs \<and> distinct hs \<and> set hs \<inter> active = {} \<and> dom heap = set hs \<union> active)"

definition buffer_ok :: "'a AsyncBuffer \<Rightarrow> bool"
  where "buffer_ok b \<longleftrightarrow> IsConsistent (ab_state b) \<and> length (ab_buffers b) = 3"

definition ch_wf :: "ptr set \<Rightarrow> 'w CallbackHandler \<Rightarrow> bool"
  where "ch_wf active h \<longleftrightarrow>
    queue_ok (ch_request_queue h) \<and> buffer_ok (ch_state_buffer h)
    \<and> heap_ok (set (queued_ptrs (ch_request_queue h))) (ch_next_ptr h) (ch_heap h)
    \<and> futures_ok active (ch_future_hospice h) (ch_heap h)"

subsection \<open>Publishing the state\<close>

lemma commit_consistent: "IsConsistent st \<Longrightarrow> commit_checks st (next_commit st)"
  by (auto simp: commit_checks_def next_commit_def IsConsistent_def)

lemma publish_state_ok:
  assumes "buffer_ok (ch_state_buffer h)" "me_Now env (ch_world h) = (t, w)"
  shows "\<exists>b. publish_state env s msg h = Some (True,
      h\<lparr>ch_state_code := s, ch_world := w, ch_update_time := t, ch_state_buffer := b,
        ch_shm_state := SetState s msg (ch_shm_state h),
        ch_log := ch_log h @ (if ch_state_code h = s then [] else [Switched (ch_state_code h) s])\<rparr>)
    \<and> buffer_ok b \<and> mailbox_full (ab_state b)
    \<and> ab_read (mailbox_index (ab_state b)) b
        = SetState s msg (ab_read (free_index (ab_state (ch_state_buffer h))) (ch_state_buffer h))"
proof -
  let ?b = "ch_state_buffer h"
  let ?p = "free_index (ab_state ?b)"
  let ?b1 = "ab_write ?p (SetState s msg (ab_read ?p ?b)) (?b\<lparr>ab_free_buffer_checked_out := True\<rparr>)"
  let ?b2 = "?b1\<lparr>ab_state := next_commit (ab_state ?b), ab_free_buffer_checked_out := False\<rparr>"
  have c: "IsConsistent (ab_state ?b)" "length (ab_buffers ?b) = 3" using assms(1) by (auto simp: buffer_ok_def)
  have commit: "CommitFreeBuffer ?b1 = Some (True, ?b2)"
    using commit_consistent[OF c(1)] by (simp add: CommitFreeBuffer_def ab_write_def Let_def)
  have ok: "buffer_ok ?b2"
    using commit_consistent[OF c(1)] c(2) by (simp add: buffer_ok_def commit_checks_def ab_write_def)
  have "?p < 3" using c(1) by (simp add: IsConsistent_def)
  then have read: "ab_read (mailbox_index (ab_state ?b2)) ?b2 = SetState s msg (ab_read ?p ?b)"
    using c(2) by (simp add: next_commit_def ab_read_def ab_write_def)
  show ?thesis
    using commit ok read assms(2)
    by (intro exI[of _ ?b2])
      (simp add: publish_state_def now_def GetFreeBuffer_def ab_read_def next_commit_def Let_def)
qed

text \<open>\<open>state_changed h h'\<close>: \<open>h'\<close> differs from \<open>h\<close> in what \<open>SetStateDirectly\<close> writes only.\<close>

definition frame_state :: "'w CallbackHandler \<Rightarrow> 'w CallbackHandler \<Rightarrow> bool"
  where "frame_state h h' \<longleftrightarrow>
    ch_request_queue h' = ch_request_queue h \<and> ch_heap h' = ch_heap h
    \<and> ch_future_hospice h' = ch_future_hospice h \<and> ch_next_ptr h' = ch_next_ptr h
    \<and> ch_action_lock h' = ch_action_lock h \<and> ch_reject_new_requests h' = ch_reject_new_requests h
    \<and> ch_previous_state_code h' = ch_previous_state_code h"

lemma frame_state_refl [simp]: "frame_state h h"
  by (simp add: frame_state_def)

lemma frame_state_trans: "frame_state h1 h2 \<Longrightarrow> frame_state h2 h3 \<Longrightarrow> frame_state h1 h3"
  by (simp add: frame_state_def)

lemma ch_wf_frame: "ch_wf A h \<Longrightarrow> frame_state h h' \<Longrightarrow> buffer_ok (ch_state_buffer h') \<Longrightarrow> ch_wf A h'"
  by (simp add: ch_wf_def frame_state_def)

lemma invoke_frame:
  "invoke cb f h = (r, h') \<Longrightarrow> frame_state h h' \<and> ch_state_buffer h' = ch_state_buffer h
    \<and> ch_state_code h' = ch_state_code h \<and> ch_shm_state h' = ch_shm_state h \<and> ch_update_time h' = ch_update_time h"
  by (cases "f (ch_world h)") (auto simp: invoke_def frame_state_def)

lemma invoke_wf: "ch_wf A h \<Longrightarrow> invoke cb f h = (r, h') \<Longrightarrow> ch_wf A h'"
  using invoke_frame[of cb f h r h'] ch_wf_frame[of A h h'] by (simp add: ch_wf_def)

text \<open>
  \<open>SetStateDirectly\<close> as a case distinction: nothing happens, or the module's \<open>Disabled()\<close> has run if
  motion was enabled and the resulting state is stored in the three places.
\<close>

definition shows_state :: "'w CallbackHandler \<Rightarrow> bool"
  where "shows_state h \<longleftrightarrow> hms_code (ch_shm_state h) = ch_state_code h
    \<and> mailbox_full (ab_state (ch_state_buffer h))
    \<and> hms_code (ab_read (mailbox_index (ab_state (ch_state_buffer h))) (ch_state_buffer h)) = ch_state_code h"

lemma SetStateDirectly_total:
  assumes "buffer_ok (ch_state_buffer h)"
  shows "\<exists>r h'. SetStateDirectly env s st force h = Some (r, h') \<and> frame_state h h' \<and> buffer_ok (ch_state_buffer h')
    \<and> (h' = h \<and> \<not> r \<or> shows_state h' \<and> (r \<longleftrightarrow> ch_state_code h \<noteq> s)
        \<and> (ch_state_code h' = s \<or> ch_state_code h = kMotionEnabled \<and> ch_state_code h' = kFaulted))
    \<and> (HardwareModuleTransitionGuard (ch_state_code h) s = kAllowed \<longrightarrow> r)
    \<and> (HardwareModuleTransitionGuard (ch_state_code h) s \<noteq> kAllowed \<and> \<not> force \<longrightarrow> h' = h)
    \<and> (ch_state_code h = s \<longrightarrow> ch_state_code h' = s \<and> ch_log h' = ch_log h)"
proof (cases "\<not> force \<and> HardwareModuleTransitionGuard (ch_state_code h) s \<noteq> kAllowed
    \<or> ch_state_code h = s \<and> HardwareModuleState_GetMessage (ch_shm_state h) = GetMessage st")
  case True
  then have "SetStateDirectly env s st force h = Some (False, h)"
    by (auto simp: SetStateDirectly_def Let_def)
  moreover have "HardwareModuleTransitionGuard (ch_state_code h) s \<noteq> kAllowed"
    using True by auto
  ultimately show ?thesis using assms by (intro exI[of _ False] exI[of _ h]) simp
next
  case False
  let ?hook = "if ch_state_code h \<noteq> s then CheckAndTriggerDisabledTransitionHook env (ch_state_code h) h
    else (RtOkStatus, h)"
  obtain hook h1 where hk: "?hook = (hook, h1)" by (cases ?hook)
  obtain s1 st1 where rs: "resolve_hook s st hook = (s1, st1)" by (cases "resolve_hook s st hook")
  obtain t w where n: "me_Now env (ch_world h1) = (t, w)" by (cases "me_Now env (ch_world h1)")
  have h1: "frame_state h h1" "ch_state_buffer h1 = ch_state_buffer h" "ch_state_code h1 = ch_state_code h"
    "\<not> rt_ok hook \<Longrightarrow> ch_state_code h = kMotionEnabled"
    using hk invoke_frame[of CbDisabled "me_Disabled env" h]
    by (auto simp: CheckAndTriggerDisabledTransitionHook_def RtOkStatus_def rt_ok_def
        split: if_splits prod.splits)
  from publish_state_ok[of h1 env t w s1 "GetMessage st1"] n assms h1(2) obtain b where
    pub: "publish_state env s1 (GetMessage st1) h1 = Some (True,
      h1\<lparr>ch_state_code := s1, ch_world := w, ch_update_time := t, ch_state_buffer := b,
        ch_shm_state := SetState s1 (GetMessage st1) (ch_shm_state h1),
        ch_log := ch_log h1 @ (if ch_state_code h1 = s1 then [] else [Switched (ch_state_code h1) s1])\<rparr>)"
      (is "_ = Some (True, ?h')")
    and b: "buffer_ok b" "mailbox_full (ab_state b)" "hms_code (ab_read (mailbox_index (ab_state b)) b) = s1"
    by auto
  have "SetStateDirectly env s st force h = Some (ch_state_code h \<noteq> s, ?h')"
    using False hk rs pub by (auto simp: SetStateDirectly_def Let_def)
  moreover have "ch_state_code h = s \<longrightarrow> h1 = h \<and> s1 = s"
    using hk rs by (auto simp: resolve_hook_def RtOkStatus_def rt_ok_def)
  moreover have "frame_state h ?h'" using h1(1) by (simp add: frame_state_def)
  ultimately show ?thesis
    using b False h1(4) resolve_hook_target[OF rs]
    by (intro exI[of _ "ch_state_code h \<noteq> s"] exI[of _ ?h'])
      (auto simp: shows_state_def)
qed

text \<open>What an allowed change does, in full.\<close>

lemma SetStateDirectly_allowed:
  assumes "buffer_ok (ch_state_buffer h)" "allowed (ch_state_code h) s"
    and "resolve_hook s st (if ch_state_code h = kMotionEnabled then fst (me_Disabled env (ch_world h))
      else RtOkStatus) = (s1, st1)"
  shows "\<exists>h'. SetStateDirectly env s st force h = Some (True, h') \<and> frame_state h h'
    \<and> buffer_ok (ch_state_buffer h') \<and> shows_state h' \<and> ch_state_code h' = s1
    \<and> ch_shm_state h' = SetState s1 (GetMessage st1) (ch_shm_state h)
    \<and> ch_log h' = ch_log h @ (if ch_state_code h = kMotionEnabled then [Called CbDisabled kMotionEnabled] else [])
        @ [Switched (ch_state_code h) s1]
    \<and> (ch_update_time h', ch_world h') = me_Now env
        (if ch_state_code h = kMotionEnabled then snd (me_Disabled env (ch_world h)) else ch_world h)"
proof -
  have ne: "ch_state_code h \<noteq> s" using assms(2) by auto
  let ?w = "if ch_state_code h = kMotionEnabled then snd (me_Disabled env (ch_world h)) else ch_world h"
  let ?log = "ch_log h @ (if ch_state_code h = kMotionEnabled then [Called CbDisabled kMotionEnabled] else [])"
  let ?h1 = "h\<lparr>ch_world := ?w, ch_log := ?log\<rparr>"
  let ?st = "fst (me_Disabled env (ch_world h))"
  let ?hook = "if ch_state_code h = kMotionEnabled \<and> \<not> rt_ok ?st then ?st else RtOkStatus"
  have hk: "CheckAndTriggerDisabledTransitionHook env (ch_state_code h) h = (?hook, ?h1)"
    by (cases "me_Disabled env (ch_world h)") (simp add: CheckAndTriggerDisabledTransitionHook_def invoke_def)
  moreover have "resolve_hook s st ?hook = (s1, st1)"
    using assms(3) by (auto simp: resolve_hook_def RtOkStatus_def rt_ok_def split: if_splits)
  ultimately have hk: "CheckAndTriggerDisabledTransitionHook env (ch_state_code h) h = (?hook, ?h1)"
    "resolve_hook s st ?hook = (s1, st1)" by blast+
  have "s1 = s \<or> s1 = kFaulted \<and> ch_state_code h = kMotionEnabled"
    using resolve_hook_target[OF assms(3)] by (auto simp: RtOkStatus_def rt_ok_def split: if_splits)
  then have ne1: "ch_state_code h \<noteq> s1" using ne by auto
  obtain t w where n: "me_Now env ?w = (t, w)" by (cases "me_Now env ?w")
  from publish_state_ok[of ?h1 env t w s1 "GetMessage st1"] n assms(1) obtain b where
    pub: "publish_state env s1 (GetMessage st1) ?h1 = Some (True,
      ?h1\<lparr>ch_state_code := s1, ch_world := w, ch_update_time := t, ch_state_buffer := b,
        ch_shm_state := SetState s1 (GetMessage st1) (ch_shm_state h), ch_log := ?log @ [Switched (ch_state_code h) s1]\<rparr>)"
      (is "_ = Some (True, ?h')")
    and b: "buffer_ok b" "mailbox_full (ab_state b)" "hms_code (ab_read (mailbox_index (ab_state b)) b) = s1"
    using ne1 by auto
  have "SetStateDirectly env s st force h = Some (True, ?h')"
    using assms(2) ne hk(2) pub by (simp add: SetStateDirectly_def allowed_def hk(1))
  then show ?thesis
    using b n by (intro exI[of _ ?h']) (simp add: frame_state_def shows_state_def)
qed

subsection \<open>Answering a request\<close>

lemma take_front_ok:
  assumes "queue_ok q" "rtq_list q = r # rs"
  shows "\<exists>q1 q2. take_front q heap = Some (r, q1, heap) \<and> Reader_DropFront q1 = Some q2
    \<and> queue_ok q2 \<and> rtq_list q2 = rs"
proof -
  let ?moved = "\<lambda>r. r\<lparr>ar_promise := Some GetDetachedPromise\<rparr>"
  from assms have idle: "rtq_idle q" and pr: "ar_promise r = Some (one_shot (ptr_of r))"
    by (auto simp: queue_ok_def)
  from reader_move_drop[OF idle assms(2), of ?moved] obtain q1 q2 where
    m: "Reader_MoveFront ?moved q = Some (Some r, q1)" "Reader_DropFront q1 = Some q2"
      "rtq_idle q2" "rtq_list q2 = rs" "rtq_capacity q2 = rtq_capacity q" by auto
  from m(1) obtain p b where f: "RtQueueBuffer_Front (rtq_buffer q) = Some (Some p, b)"
    "rq_load p b = r" "q1 = q\<lparr>rtq_buffer := rq_store p (?moved r) b\<rparr>"
    by (auto simp: Reader_MoveFront_def split: if_splits option.splits)
  have "take_front q heap = Some (r, q1, heap)"
    using f AsyncRequest_move_one_shot[OF pr, of heap] by (simp add: take_front_def Reader_Front_def)
  moreover have "queue_ok q2" using assms m by (simp add: queue_ok_def queued_ptrs_def)
  ultimately show ?thesis using m by blast
qed

lemma reply_ok:
  assumes "heap_ok (insert (ptr_of r) P) next heap" "ptr_of r \<notin> P" "ar_promise r = Some (one_shot (ptr_of r))"
  shows "\<exists>r' ctx. SetResponse v r heap = Some (kOk, r', heap(ptr_of r \<mapsto> ctx)) \<and> ctx_answered v ctx
    \<and> AsyncRequest_destroy env r' (heap(ptr_of r \<mapsto> ctx)) = Some (heap(ptr_of r \<mapsto> ctx))
    \<and> heap_ok P next (heap(ptr_of r \<mapsto> ctx))"
proof -
  from assms(1) obtain c0 where c0: "heap (ptr_of r) = Some c0" by (auto simp: heap_ok_def)
  then have w: "ctx_waiting c0" "ptr_of r < next" using assms(1) by (auto simp: heap_ok_def ctx_ok_def)
  from SetResponse_one_shot[where h = heap and v = v, OF w(1) c0 assms(3)] obtain ctx r' where
    s: "SetResponse v r heap = Some (kOk, r', heap(ptr_of r \<mapsto> ctx))" "ctx_answered v ctx"
      "\<And>env g. AsyncRequest_destroy env r' (g :: 'a ctx_heap) = Some g" by auto
  have "heap_ok P next (heap(ptr_of r \<mapsto> ctx))"
    using assms(1,2) s(2) w(2) by (auto simp: heap_ok_def ctx_ok_def ctx_answered_def)
  then show ?thesis using s by blast
qed

lemma queue_empty_iff: "RtQueueBuffer_Empty (rtq_buffer q) \<longleftrightarrow> rtq_list q = []"
  using rtq_list_size[of q] by (auto simp: RtQueueBuffer_Empty_def)

lemma futures_ok_upd:
  assumes "a \<in> dom heap"
  shows "futures_ok A hs (heap(a \<mapsto> ctx)) \<longleftrightarrow> futures_ok A hs heap"
proof -
  have "dom (heap(a \<mapsto> ctx)) = dom heap" using assms by auto
  then show ?thesis by (simp only: futures_ok_def)
qed

lemma CancelPendingRequests_total:
  assumes "ch_wf A h"
  shows "\<exists>h'. CancelPendingRequests env reason h = Some h' \<and> ch_wf A h'
    \<and> rtq_list (ch_request_queue h') = []
    \<and> (\<forall>a. if a \<in> set (queued_ptrs (ch_request_queue h))
           then \<exists>ctx. ch_heap h' a = Some ctx \<and> ctx_answered (FormatRealtimeStatus kCancelled reason) ctx
           else ch_heap h' a = ch_heap h a)"
  using assms
proof (induction "rtq_list (ch_request_queue h)" arbitrary: h)
  case Nil
  then show ?case
    by (subst CancelPendingRequests.simps) (auto simp: queue_empty_iff queued_ptrs_def)
next
  case (Cons r rs)
  let ?v = "FormatRealtimeStatus kCancelled reason" and ?q = "ch_request_queue h"
  have q: "queue_ok ?q" and l: "rtq_list ?q = r # rs" using Cons by (auto simp: ch_wf_def)
  from take_front_ok[OF q l, of "ch_heap h"] obtain q1 q2 where
    t: "take_front ?q (ch_heap h) = Some (r, q1, ch_heap h)" "Reader_DropFront q1 = Some q2"
      "queue_ok q2" "rtq_list q2 = rs" by auto
  let ?P = "set (queued_ptrs q2)"
  have P: "set (queued_ptrs ?q) = insert (ptr_of r) ?P" "ptr_of r \<notin> ?P"
    "ar_promise r = Some (one_shot (ptr_of r))"
    using q l t(4) by (auto simp: queue_ok_def queued_ptrs_def)
  have "heap_ok (insert (ptr_of r) ?P) (ch_next_ptr h) (ch_heap h)"
    using Cons.prems P(1) by (simp add: ch_wf_def)
  from reply_ok[where v = ?v and env = "me_wait env", OF this P(2,3)] obtain r' ctx where
    s: "SetResponse ?v r (ch_heap h) = Some (kOk, r', (ch_heap h)(ptr_of r \<mapsto> ctx))" "ctx_answered ?v ctx"
      "AsyncRequest_destroy (me_wait env) r' ((ch_heap h)(ptr_of r \<mapsto> ctx)) = Some ((ch_heap h)(ptr_of r \<mapsto> ctx))"
      "heap_ok ?P (ch_next_ptr h) ((ch_heap h)(ptr_of r \<mapsto> ctx))" by auto
  let ?h = "h\<lparr>ch_request_queue := q2, ch_heap := (ch_heap h)(ptr_of r \<mapsto> ctx)\<rparr>"
  have "ptr_of r \<in> dom (ch_heap h)" using Cons.prems P(1) by (auto simp: ch_wf_def heap_ok_def)
  then have "ch_wf A ?h"
    using Cons.prems s(4) t(3) by (simp add: ch_wf_def futures_ok_upd)
  from Cons.hyps(1)[OF _ this] t(4) obtain h' where
    ih: "CancelPendingRequests env reason ?h = Some h'" "ch_wf A h'" "rtq_list (ch_request_queue h') = []"
      "\<And>a. if a \<in> ?P then \<exists>ctx. ch_heap h' a = Some ctx \<and> ctx_answered ?v ctx
        else ch_heap h' a = ((ch_heap h)(ptr_of r \<mapsto> ctx)) a" by auto
  have "CancelPendingRequests env reason h = Some h'"
    using l t(1,2) s(1,3) ih(1) by (subst CancelPendingRequests.simps) (simp add: queue_empty_iff)
  then show ?case using ih P s(2) by (intro exI[of _ h']) (auto split: if_splits)
qed

subsection \<open>Calls that return\<close>

text \<open>
  \<open>returns Q m\<close>: the call \<open>m\<close> neither aborts nor hangs, and its resulting handler satisfies \<open>Q\<close>;
  \<open>gives\<close> is the same for calls with a return value.
\<close>

definition returns :: "('w CallbackHandler \<Rightarrow> bool) \<Rightarrow> 'w CallbackHandler checked \<Rightarrow> bool"
  where "returns Q m \<longleftrightarrow> (\<exists>h. m = Some h \<and> Q h)"

definition gives :: "('r \<Rightarrow> 'w CallbackHandler \<Rightarrow> bool) \<Rightarrow> ('r \<times> 'w CallbackHandler) checked \<Rightarrow> bool"
  where "gives Q m \<longleftrightarrow> (\<exists>r h. m = Some (r, h) \<and> Q r h)"

lemma returns_Some [simp]: "returns Q (Some h) \<longleftrightarrow> Q h"
  by (simp add: returns_def)

lemma returns_bind: "returns P m \<Longrightarrow> (\<And>h. P h \<Longrightarrow> returns Q (f h)) \<Longrightarrow> returns Q (Option.bind m f)"
  by (auto simp: returns_def)

lemma gives_bind:
  "gives P m \<Longrightarrow> (\<And>r h. P r h \<Longrightarrow> returns Q (f r h)) \<Longrightarrow> returns Q (Option.bind m (\<lambda>(r, h). f r h))"
  by (auto simp: returns_def gives_def)

lemma gives_snd: "gives (\<lambda>_. Q) m \<Longrightarrow> returns Q (map_option snd m)"
  by (auto simp: returns_def gives_def)

lemma returns_mono: "returns P m \<Longrightarrow> (\<And>h. P h \<Longrightarrow> Q h) \<Longrightarrow> returns Q m"
  by (auto simp: returns_def)

lemma gives_mono: "gives P m \<Longrightarrow> (\<And>r h. P r h \<Longrightarrow> Q r h) \<Longrightarrow> gives Q m"
  by (auto simp: gives_def)

text \<open>
  The three copies of the state agree: the atomic one, the one in shared memory and the last one
  published for the non-realtime threads.
\<close>

definition coherent :: "StateCode \<Rightarrow> HardwareModuleState \<Rightarrow> HardwareModuleState AsyncBuffer \<Rightarrow> bool"
  where "coherent s shm b \<longleftrightarrow> hms_code shm = s
    \<and> (mailbox_full (ab_state b) \<longrightarrow> hms_code (ab_read (mailbox_index (ab_state b)) b) = s)"

lemma shows_coherent: "shows_state h \<Longrightarrow> coherent (ch_state_code h) (ch_shm_state h) (ch_state_buffer h)"
  by (simp add: shows_state_def coherent_def)

text \<open>\<open>sound A l h\<close>: the invariants, and the action lock has the value \<open>l\<close>.\<close>

definition sound :: "ptr set \<Rightarrow> bool \<Rightarrow> 'w CallbackHandler \<Rightarrow> bool"
  where "sound A l h \<longleftrightarrow> ch_wf A h \<and> ch_action_lock h = l
    \<and> coherent (ch_state_code h) (ch_shm_state h) (ch_state_buffer h)"

lemma sound_fields [simp]:
  "sound A l (h\<lparr>ch_reject_new_requests := b\<rparr>) \<longleftrightarrow> sound A l h"
  "sound A l (h\<lparr>ch_previous_state_code := s\<rparr>) \<longleftrightarrow> sound A l h"
  by (simp_all add: sound_def ch_wf_def)

lemma sound_invoke: "sound A l h \<Longrightarrow> invoke cb f h = (r, h') \<Longrightarrow> sound A l h'"
  using invoke_wf[of A h cb f r h'] invoke_frame[of cb f h r h'] by (simp add: sound_def frame_state_def)

lemma SetStateDirectly_sound:
  assumes "sound A l h"
  shows "gives (\<lambda>_. sound A l) (SetStateDirectly env s st force h)"
proof -
  have "buffer_ok (ch_state_buffer h)" using assms by (simp add: sound_def ch_wf_def)
  then obtain r h' where set: "SetStateDirectly env s st force h = Some (r, h')" "frame_state h h'"
    "buffer_ok (ch_state_buffer h')" "h' = h \<or> shows_state h'"
    using SetStateDirectly_total by blast
  have "coherent (ch_state_code h') (ch_shm_state h') (ch_state_buffer h')"
    using set(4) assms shows_coherent[of h'] by (auto simp: sound_def)
  then have "sound A l h'" using set(2,3) assms by (simp add: sound_def frame_state_def ch_wf_def)
  then show ?thesis using set(1) unfolding gives_def by blast
qed

lemma Cancel_sound:
  assumes "sound A l h"
  shows "returns (sound A l) (CancelPendingRequests env reason h)"
proof -
  have "ch_wf A h" using assms by (simp add: sound_def)
  from CancelPendingRequests_total[OF this, of env reason] obtain h' where
    h': "CancelPendingRequests env reason h = Some h'" "ch_wf A h'" by auto
  then show ?thesis
    using same_but_requests_fields[OF CancelPendingRequests_same[OF h'(1)]] assms by (simp add: sound_def)
qed

lemma raise_fault_sound: "sound A l h \<Longrightarrow> returns (sound A l) (raise_fault env s st reason h)"
  unfolding raise_fault_def by (rule gives_bind[OF SetStateDirectly_sound]) (auto intro: Cancel_sound)

lemma process_request_total:
  assumes "buffer_ok (ch_state_buffer h)"
  obtains reply h' where "process_request env d h = Some (reply, h')" "frame_state h h'"
    "buffer_ok (ch_state_buffer h')" "h' = h \<or> shows_state h'"
proof (cases "rd_timestamp d \<ge> ch_update_time h \<and> rd_from d = ch_state_code h")
  case True
  let ?st = "FormatRealtimeStatus kUnknown (takeWhile (\<lambda>c. c \<noteq> CHR 0x00) (rd_message d))"
  obtain r h' where "SetStateDirectly env (rd_to d) ?st False h = Some (r, h')" "frame_state h h'"
    "buffer_ok (ch_state_buffer h')" "h' = h \<or> shows_state h'"
    using SetStateDirectly_total[OF assms, of env "rd_to d" ?st False] by blast
  then show thesis using that True by (simp add: process_request_def)
next
  case False
  then have "process_request env d h
      = Some (FormatRealtimeStatus kCancelled ''Request cancelled due to newer request'', h)"
    by (auto simp: process_request_def)
  then show thesis using that assms by simp
qed

text \<open>
  With a request taken off the queue its context still waits for the reply: the invariant of the
  shortened queue holds but for that context.
\<close>

lemma ProcessNext_sound:
  assumes "sound A l h"
  shows "returns (sound A l) (ProcessNextPendingRequest env h)"
proof (cases "rtq_list (ch_request_queue h)")
  case Nil
  then show ?thesis using assms by (simp add: ProcessNextPendingRequest_def queue_empty_iff)
next
  case (Cons r rs)
  let ?q = "ch_request_queue h"
  have wf: "ch_wf A h" and q: "queue_ok ?q" using assms by (auto simp: sound_def ch_wf_def)
  from take_front_ok[OF q Cons, of "ch_heap h"] obtain q1 q2 where
    t: "take_front ?q (ch_heap h) = Some (r, q1, ch_heap h)" "Reader_DropFront q1 = Some q2"
      "queue_ok q2" "rtq_list q2 = rs" by auto
  let ?h0 = "h\<lparr>ch_previous_state_code := ch_state_code h, ch_request_queue := q2\<rparr>"
  have "buffer_ok (ch_state_buffer ?h0)" using wf by (simp add: ch_wf_def)
  then obtain reply h1 where p: "process_request env (GetRequest r) ?h0 = Some (reply, h1)"
    "frame_state ?h0 h1" "buffer_ok (ch_state_buffer h1)" "h1 = ?h0 \<or> shows_state h1"
    by (rule process_request_total)
  have "coherent (ch_state_code h1) (ch_shm_state h1) (ch_state_buffer h1)"
    using p(4) assms shows_coherent[of h1] by (auto simp: sound_def)
  let ?P = "set (queued_ptrs q2)"
  have P: "set (queued_ptrs ?q) = insert (ptr_of r) ?P" "ptr_of r \<notin> ?P"
    "ar_promise r = Some (one_shot (ptr_of r))"
    using q Cons t(4) by (auto simp: queue_ok_def queued_ptrs_def)
  have heap: "heap_ok (insert (ptr_of r) ?P) (ch_next_ptr h1) (ch_heap h1)"
    using wf P(1) p(2) by (simp add: ch_wf_def frame_state_def)
  from reply_ok[where v = reply and env = "me_wait env", OF heap P(2,3)] obtain r' ctx where
    s: "SetResponse reply r (ch_heap h1) = Some (kOk, r', (ch_heap h1)(ptr_of r \<mapsto> ctx))"
      "AsyncRequest_destroy (me_wait env) r' ((ch_heap h1)(ptr_of r \<mapsto> ctx)) = Some ((ch_heap h1)(ptr_of r \<mapsto> ctx))"
      "heap_ok ?P (ch_next_ptr h1) ((ch_heap h1)(ptr_of r \<mapsto> ctx))" by auto
  have "ptr_of r \<in> dom (ch_heap h1)" using heap by (auto simp: heap_ok_def)
  with \<open>coherent _ _ _\<close> have "sound A l (h1\<lparr>ch_heap := (ch_heap h1)(ptr_of r \<mapsto> ctx)\<rparr>)"
    using wf p(2,3) s(3) t(3) assms by (auto simp: sound_def ch_wf_def frame_state_def futures_ok_upd)
  then show ?thesis
    using t(1,2) p(1) s(1,2) Cons by (simp add: ProcessNextPendingRequest_def queue_empty_iff)
qed

lemma EnabledHook_sound:
  assumes "sound A l h"
  shows "returns (sound A l) (CheckAndTriggerEnabledTransitionHook env from to h)"
proof -
  obtain st h1 where inv: "invoke CbEnabled (me_Enabled env) h = (st, h1)"
    by (cases "invoke CbEnabled (me_Enabled env) h")
  note h1 = sound_invoke[OF assms inv]
  show ?thesis
    using assms inv h1 gives_snd[OF SetStateDirectly_sound[OF h1]]
    by (simp add: CheckAndTriggerEnabledTransitionHook_def)
qed

lemma OnReadStatus_sound:
  assumes "sound A l h"
  shows "returns (sound A l) (OnReadStatus env h)"
  unfolding OnReadStatus_def
proof (rule returns_bind[OF ProcessNext_sound[OF assms]], rule returns_bind[OF EnabledHook_sound], assumption)
  fix h2 :: "'a CallbackHandler"
  assume h2: "sound A l h2"
  obtain ret h3 where inv: "invoke CbReadStatus (me_ReadStatus env) h2 = (ret, h3)"
    by (cases "invoke CbReadStatus (me_ReadStatus env) h2")
  show "returns (sound A l) (let (ret, h3) = invoke CbReadStatus (me_ReadStatus env) h2 in
      if \<not> rt_ok ret \<and> ch_state_code h3 \<noteq> kClearingFaults
      then raise_fault env (fault_state (rt_code ret)) ret ''Request cancelled due to error in ReadStatus'' h3
      else Some h3)"
    using sound_invoke[OF h2 inv] raise_fault_sound by (auto simp: inv)
qed

lemma OnApplyCommand_sound:
  assumes "sound A l h"
  shows "returns (sound A l) (OnApplyCommand env h)"
proof -
  obtain ret h1 where inv: "invoke CbApplyCommand (me_ApplyCommand env) h = (ret, h1)"
    by (cases "invoke CbApplyCommand (me_ApplyCommand env) h")
  show ?thesis
    using assms sound_invoke[OF assms inv] raise_fault_sound by (auto simp: OnApplyCommand_def inv)
qed

text \<open>The tail the three lifecycle callbacks share: run the module's callback, then store the outcome.\<close>

lemma outcome_sound:
  assumes "sound A l h"
  shows "returns (sound A l)
    (let (ret, h3) = invoke cb f h in map_option snd
      (if bad ret then SetStateDirectly env s (st ret) False h3
       else SetStateDirectly env s' RtOkStatus False h3))"
proof -
  obtain ret h3 where inv: "invoke cb f h = (ret, h3)" by (cases "invoke cb f h")
  show ?thesis using gives_snd[OF SetStateDirectly_sound[OF sound_invoke[OF assms inv]]] by (simp add: inv)
qed

lemma OnDeactivate_sound:
  assumes "sound A l h"
  shows "returns (sound A l) (OnDeactivate env h)"
  unfolding OnDeactivate_def
proof (rule gives_bind[OF SetStateDirectly_sound[OF assms]])
  fix changed and h1 :: "'a CallbackHandler"
  assume h1: "sound A l h1"
  have "returns (sound A l) (CancelPendingRequests env ''Request cancelled due to deactivation''
      (h1\<lparr>ch_reject_new_requests := True\<rparr>) \<bind> (\<lambda>h2.
        let (ret, h3) = invoke CbDeactivate (me_Deactivate env) h2 in map_option snd
          (if \<not> rt_ok ret then SetStateDirectly env kFatallyFaulted ret False h3
           else SetStateDirectly env kDeactivated RtOkStatus False h3)))"
    by (rule returns_bind[OF Cancel_sound]) (use h1 outcome_sound in auto)
  then show "returns (sound A l) (if \<not> changed then Some h1 else
      CancelPendingRequests env ''Request cancelled due to deactivation''
      (h1\<lparr>ch_reject_new_requests := True\<rparr>) \<bind> (\<lambda>h2.
        let (ret, h3) = invoke CbDeactivate (me_Deactivate env) h2 in map_option snd
          (if \<not> rt_ok ret then SetStateDirectly env kFatallyFaulted ret False h3
           else SetStateDirectly env kDeactivated RtOkStatus False h3)))"
    using h1 by simp
qed

lemma prepare_sound:
  assumes "sound A l h"
  shows "returns (sound A l) (prepare_deactivated env h)"
  unfolding prepare_deactivated_def
proof (rule gives_bind[OF SetStateDirectly_sound[OF assms]])
  fix changed and h1 :: "'a CallbackHandler"
  assume h1: "sound A l h1"
  have "returns (sound A l) (CancelPendingRequests env ''Request cancelled by a call to Prepare()'' h1 \<bind> (\<lambda>h2.
        let (ret, h3) = invoke CbPrepare (me_Prepare env) h2 in map_option snd
          (if \<not> status_ok ret
           then SetStateDirectly env kFatallyFaulted (FormatRealtimeStatus (code ret) (message ret)) False h3
           else SetStateDirectly env kPrepared RtOkStatus False h3)))"
    by (rule returns_bind[OF Cancel_sound[OF h1]]) (rule outcome_sound)
  then show "returns (sound A l) (if \<not> changed then Some h1 else
      CancelPendingRequests env ''Request cancelled by a call to Prepare()'' h1 \<bind> (\<lambda>h2.
        let (ret, h3) = invoke CbPrepare (me_Prepare env) h2 in map_option snd
          (if \<not> status_ok ret
           then SetStateDirectly env kFatallyFaulted (FormatRealtimeStatus (code ret) (message ret)) False h3
           else SetStateDirectly env kPrepared RtOkStatus False h3)))"
    using h1 by simp
qed

lemma OnPrepare_sound:
  assumes "sound A l h"
  shows "returns (sound A l) (OnPrepare env h)"
  unfolding OnPrepare_def
  by (rule returns_bind[of "sound A l"]) (use assms OnDeactivate_sound prepare_sound in auto)

lemma OnActivate_sound:
  assumes "sound A l h"
  shows "returns (sound A l) (OnActivate env h)"
proof -
  obtain b h1 where set: "SetStateDirectly env kActivating RtOkStatus False h = Some (b, h1)" "sound A l h1"
    using SetStateDirectly_sound[OF assms, of env kActivating RtOkStatus False] by (auto simp: gives_def)
  obtain h2 where c: "CancelPendingRequests env ''Request cancelled due to activation'' h1 = Some h2" "sound A l h2"
    using Cancel_sound[OF set(2)] by (auto simp: returns_def)
  obtain ret h3 where inv: "invoke CbActivate (me_Activate env) h2 = (ret, h3)"
    by (cases "invoke CbActivate (me_Activate env) h2")
  have "gives (\<lambda>_. sound A l) (if \<not> rt_ok ret then SetStateDirectly env kFatallyFaulted ret False h3
      else SetStateDirectly env kActivated RtOkStatus False h3)"
    using SetStateDirectly_sound[OF sound_invoke[OF c(2) inv]] by simp
  then show ?thesis
    using set c inv by (auto simp: OnActivate_def gives_def returns_def)
qed

subsection \<open>Non-realtime actions\<close>

lemma active_consistent: "IsConsistent st \<Longrightarrow> active_checks st (next_active st) \<and> IsConsistent (next_active st)"
  by (auto simp: active_checks_def next_active_def IsConsistent_def)

lemma GetHardwareModuleState_sound:
  assumes "sound A l h"
  shows "gives (\<lambda>_. sound A l) (GetHardwareModuleState h)"
  using assms active_consistent[of "ab_state (ch_state_buffer h)"]
  by (auto simp: gives_def GetHardwareModuleState_def GetActiveBuffer_def sound_def ch_wf_def buffer_ok_def
      active_checks_def coherent_def Let_def)

lemma Shutdown_sound: "sound A l h \<Longrightarrow> returns (sound A l) (Shutdown env h)"
  by (simp add: Shutdown_def Cancel_sound)

lemma heap_ok_at:
  assumes "heap_ok P next heap" "heap a = Some ctx"
  shows "cx_wf ctx" "cx_promise_attached ctx \<longleftrightarrow> a \<in> P" "a < next" "\<not> cx_is_cancelled ctx" "cx_future_attached ctx"
  using assms by (auto simp: heap_ok_def ctx_ok_def ctx_waiting_def split: if_splits)

lemma heap_ok_remove: "heap_ok P next heap \<Longrightarrow> a \<notin> P \<Longrightarrow> heap_ok P next (heap(a := None))"
  by (auto simp: heap_ok_def)

lemma own_future_destructible:
  "heap a = Some ctx \<Longrightarrow> Future_IsWaitFreeDestructible (own_future a) heap = Some (\<not> cx_promise_attached ctx)"
  by (simp add: Future_IsWaitFreeDestructible_def own_future_def)

lemma erase_hospice_ok:
  assumes "heap_ok P next heap" "distinct hs" "set hs \<subseteq> dom heap"
  shows "\<exists>hs' heap'. erase_hospice env (map own_future hs) heap = Some (map own_future hs', heap')
    \<and> heap_ok P next heap' \<and> distinct hs' \<and> set hs' \<subseteq> set hs \<and> dom heap' = dom heap - (set hs - set hs')"
  using assms
proof (induction hs arbitrary: heap)
  case Nil
  then show ?case by auto
next
  case (Cons a hs)
  then obtain ctx where ctx: "heap a = Some ctx" by auto
  note at = heap_ok_at[OF Cons.prems(1) ctx]
  show ?case
  proof (cases "cx_promise_attached ctx")
    case True
    from Cons.IH[OF Cons.prems(1)] Cons.prems obtain hs' heap' where
      e: "erase_hospice env (map own_future hs) heap = Some (map own_future hs', heap')"
        "heap_ok P next heap'" "distinct hs'" "set hs' \<subseteq> set hs" "dom heap' = dom heap - (set hs - set hs')"
      by auto
    have "erase_hospice env (map own_future (a # hs)) heap = Some (map own_future (a # hs'), heap')"
      using e(1) True own_future_destructible[where heap = heap, OF ctx] by simp
    moreover have "distinct (a # hs')" "set (a # hs') \<subseteq> set (a # hs)"
      "dom heap' = dom heap - (set (a # hs) - set (a # hs'))"
      using e Cons.prems by auto
    ultimately show ?thesis using e(2) by blast
  next
    case False
    let ?heap = "heap(a := None)"
    have "heap_ok P next ?heap" "set hs \<subseteq> dom ?heap"
      using heap_ok_remove[OF Cons.prems(1)] at False Cons.prems by auto
    from Cons.IH[OF this(1) _ this(2)] Cons.prems(2) obtain hs' heap' where
      e: "erase_hospice env (map own_future hs) ?heap = Some (map own_future hs', heap')"
        "heap_ok P next heap'" "distinct hs'" "set hs' \<subseteq> set hs" "dom heap' = dom ?heap - (set hs - set hs')"
      by (metis distinct.simps(2))
    have "erase_hospice env (map own_future (a # hs)) heap = Some (map own_future hs', heap')"
      using e(1) False own_future_destructible[where heap = heap, OF ctx]
        Future_destroy_detached[where h = heap, OF at(1) False ctx] by simp
    moreover have "set hs' \<subseteq> set (a # hs)" "dom heap' = dom heap - (set (a # hs) - set hs')"
      using e Cons.prems by auto
    ultimately show ?thesis using e by blast
  qed
qed

lemma erase_hospice_sound:
  assumes "sound A l h"
  shows "\<exists>fs heap. erase_hospice env (ch_future_hospice h) (ch_heap h) = Some (fs, heap)
    \<and> sound A l (h\<lparr>ch_future_hospice := fs, ch_heap := heap\<rparr>)"
proof -
  from assms obtain hs where hs: "ch_future_hospice h = map own_future hs" "distinct hs" "set hs \<inter> A = {}"
    "dom (ch_heap h) = set hs \<union> A" and ok: "heap_ok (set (queued_ptrs (ch_request_queue h))) (ch_next_ptr h) (ch_heap h)"
    by (auto simp: sound_def ch_wf_def futures_ok_def)
  from erase_hospice_ok[OF ok hs(2), of env] hs(4) obtain hs' heap' where
    e: "erase_hospice env (map own_future hs) (ch_heap h) = Some (map own_future hs', heap')"
      "heap_ok (set (queued_ptrs (ch_request_queue h))) (ch_next_ptr h) heap'" "distinct hs'" "set hs' \<subseteq> set hs"
      "dom heap' = dom (ch_heap h) - (set hs - set hs')"
    by auto
  have "futures_ok A (map own_future hs') heap'"
    unfolding futures_ok_def using e hs by (intro exI[of _ hs']) auto
  then show ?thesis using assms e hs(1) by (simp add: sound_def ch_wf_def)
qed

lemma MultiWriter_Insert_ok:
  assumes "rtq_idle q"
  obtains q' where "MultiWriter_Insert v q = Some (kOk, q')" "rtq_idle q'" "rtq_list q' = rtq_list q @ [v]"
      "rtq_capacity q' = rtq_capacity q"
  | "MultiWriter_Insert v q = Some (kResourceExhausted, q)" "length (rtq_list q) = rtq_capacity q"
proof (cases "length (rtq_list q) = rtq_capacity q")
  case True
  then show thesis using that(2) writer_prepare_full[OF assms] by (simp add: MultiWriter_Insert_def)
next
  case False
  then have "length (rtq_list q) < rtq_capacity q" using rtq_bound[OF assms] by simp
  from writer_store_finish[OF assms this, of v] show thesis
    using that(1) by (auto simp: MultiWriter_Insert_def)
qed

lemma heap_ok_fresh: "heap_ok P next heap \<Longrightarrow> heap next = None"
  by (metis heap_ok_at(3) less_irrefl not_Some_eq)

text \<open>A queued request adds its context to those waited for; a refused one leaves nothing behind.\<close>

lemma queue_request_sound:
  assumes "sound A l h"
  shows "gives (\<lambda>r h'. (case r of Inl e \<Rightarrow> sound A l h' | Inr f \<Rightarrow>
      f = own_future (ch_next_ptr h) \<and> ch_next_ptr h \<notin> A \<and> sound (insert (ch_next_ptr h) A) l h'))
    (queue_request env from to msg h)"
proof -
  let ?a = "ch_next_ptr h" and ?q = "ch_request_queue h"
  from assms have q: "queue_ok ?q" and heap: "heap_ok (set (queued_ptrs ?q)) ?a (ch_heap h)"
    and fut: "futures_ok A (ch_future_hospice h) (ch_heap h)"
    by (auto simp: sound_def ch_wf_def)
  obtain t w where n: "me_Now env (ch_world h) = (t, w)" by (cases "me_Now env (ch_world h)")
  from queue_request_unfold[OF n, of "from" to msg] obtain ctx where ctx: "ctx_waiting ctx" and
    eq: "queue_request env from to msg h =
      (let failed = h\<lparr>ch_heap := (ch_heap h)(?a := None), ch_next_ptr := Suc ?a\<rparr>
       in if ch_reject_new_requests h then Some (Inl kFailedPrecondition, failed)
        else case MultiWriter_Insert (request_for from to msg t ?a) ?q of
          None \<Rightarrow> None
        | Some (c, q) \<Rightarrow>
            if c \<noteq> kOk then Some (Inl c, failed\<lparr>ch_world := w, ch_request_queue := q\<rparr>)
            else Some (Inr (own_future ?a), failed\<lparr>ch_world := w, ch_request_queue := q,
                         ch_heap := (ch_heap h)(?a \<mapsto> ctx)\<rparr>))"
    by (auto simp: Let_def)
  note fresh = heap_ok_fresh[OF heap]
  have up: "heap_ok P (Suc ?a) g" if "heap_ok P ?a g" for P and g :: "RealtimeStatus ctx_heap"
    using that by (auto simp: heap_ok_def less_Suc_eq)
  have failed: "sound A l (h\<lparr>ch_heap := (ch_heap h)(?a := None), ch_next_ptr := Suc ?a\<rparr>)"
    "sound A l (h\<lparr>ch_heap := (ch_heap h)(?a := None), ch_next_ptr := Suc ?a, ch_world := w, ch_request_queue := ?q\<rparr>)"
    using assms up[OF heap] fresh by (auto simp: sound_def ch_wf_def fun_upd_idem)
  from q have idle: "rtq_idle ?q" by (simp add: queue_ok_def)
  show ?thesis
  proof (cases "ch_reject_new_requests h")
    case True
    then show ?thesis using eq failed by (simp add: gives_def)
  next
    case False
    show ?thesis
    proof (cases rule: MultiWriter_Insert_ok[OF idle, of "request_for from to msg t ?a"])
      case (1 q')
      let ?r = "request_for from to msg t ?a"
      let ?h = "h\<lparr>ch_heap := (ch_heap h)(?a \<mapsto> ctx), ch_next_ptr := Suc ?a, ch_world := w, ch_request_queue := q'\<rparr>"
      have pr: "ptr_of ?r = ?a" "ar_promise ?r = Some (one_shot ?a)"
        by (simp_all add: ptr_of_def request_for_def one_shot_def)
      then have ptrs: "queued_ptrs q' = queued_ptrs ?q @ [?a]" using 1(3) by (simp add: queued_ptrs_def)
      have new: "?a \<notin> set (queued_ptrs ?q)" "?a \<notin> A"
        using heap fresh fut by (auto simp: heap_ok_def futures_ok_def domIff)
      have "queue_ok q'" using q 1 pr ptrs new by (auto simp: queue_ok_def)
      moreover have "heap_ok (set (queued_ptrs q')) (Suc ?a) ((ch_heap h)(?a \<mapsto> ctx))"
        using up[OF heap] ctx new ptrs by (auto simp: heap_ok_def ctx_ok_def)
      moreover have "futures_ok (insert ?a A) (ch_future_hospice h) ((ch_heap h)(?a \<mapsto> ctx))"
        using fut new fresh unfolding futures_ok_def by (elim exE) (rule exI, auto simp: domIff)
      ultimately have "sound (insert ?a A) l ?h" using assms by (simp add: sound_def ch_wf_def)
      then show ?thesis using eq False 1(1) new(2) by (simp add: gives_def sound_def ch_wf_def)
    next
      case 2
      then show ?thesis using eq False failed(2) by (simp add: gives_def)
    qed
  qed
qed

text \<open>
  \<open>wait_expires\<close>: a wait for a signal that nobody sends comes back without it and leaves the signal
  alone, which is what the futex system call with a timeout does.
\<close>

definition wait_expires :: "wait_env \<Rightarrow> bool"
  where "wait_expires w \<longleftrightarrow>
    (\<forall>deadline f. bf_val f = kReady \<longrightarrow> (\<exists>c. c \<noteq> kOk \<and> BinaryFutex_WaitUntil w deadline f = Some (c, f)))"

lemma Future_WaitForAndGet_expires:
  assumes "wait_expires w" "cx_wf ctx" "\<not> cx_is_cancelled ctx" "rtq_list (cx_buffer ctx) = []" "h a = Some ctx"
  shows "\<exists>c. c \<noteq> kOk \<and> Future_WaitForAndGet moved w t d (own_future a) h = Some (Inl c, own_future a, h)"
proof -
  have "bf_val (cx_has_value ctx) = kReady" using assms(2-4) by (auto simp: cx_wf_def bf_open_def)
  with assms(1) obtain c where c: "c \<noteq> kOk" "BinaryFutex_WaitUntil w (t + d) (cx_has_value ctx) = Some (c, cx_has_value ctx)"
    by (auto simp: wait_expires_def)
  have same: "h(a \<mapsto> ctx) = h" using assms(5) by auto
  have "Context_HasValue ctx = Inr False"
    using assms(3,4) by (simp add: Context_HasValue_def Context_IsCancelled_def queue_empty_iff)
  then have "Future_WaitFor w t d (own_future a) h = Some (c, h)"
    using c assms(5) same by (simp add: Future_WaitFor_def Future_WaitUntil_def own_future_def)
  then show ?thesis using c(1) by (auto simp: Future_WaitForAndGet_def)
qed

lemma futures_ok_remove:
  assumes "futures_ok (insert a A) hs heap" "a \<notin> A"
  shows "futures_ok A hs (heap(a := None))" "futures_ok A (hs @ [own_future a]) heap"
proof -
  from assms(1) obtain xs where xs: "hs = map own_future xs" "distinct xs" "set xs \<inter> insert a A = {}"
    "dom heap = set xs \<union> insert a A" by (auto simp: futures_ok_def)
  have "dom (heap(a := None)) = set xs \<union> A" using xs assms(2) by auto
  then show "futures_ok A hs (heap(a := None))"
    unfolding futures_ok_def using xs by (intro exI[of _ xs]) auto
  show "futures_ok A (hs @ [own_future a]) heap"
    unfolding futures_ok_def using xs assms(2) by (intro exI[of _ "xs @ [a]"]) auto
qed

lemma await_reply_sound:
  assumes "sound (insert a A) l h" "a \<notin> A" "wait_expires (me_wait env 0)"
  shows "gives (\<lambda>c h'. sound A l h') (await_reply env (own_future a) h)"
proof -
  obtain t h1 where n: "now env h = (t, h1)" by (cases "now env h")
  then have "h1 = h\<lparr>ch_world := snd (me_Now env (ch_world h))\<rparr>"
    by (cases "me_Now env (ch_world h)") (simp add: now_def)
  then have h1: "sound (insert a A) l h1" using assms(1) by (simp add: sound_def ch_wf_def)
  let ?P = "set (queued_ptrs (ch_request_queue h1))"
  from h1 have heap: "heap_ok ?P (ch_next_ptr h1) (ch_heap h1)"
    and fut: "futures_ok (insert a A) (ch_future_hospice h1) (ch_heap h1)" by (auto simp: sound_def ch_wf_def)
  from fut obtain ctx where ctx: "ch_heap h1 a = Some ctx" by (auto simp: futures_ok_def)
  note at = heap_ok_at[OF heap ctx]
  define res where "res = Future_WaitForAndGet id (me_wait env 0) t kStatechangeRequestTimeout (own_future a) (ch_heap h1)"
  have removed: "sound A l (h1\<lparr>ch_heap := (ch_heap h1)(a := None)\<rparr>)" if "a \<notin> ?P"
    using h1 heap_ok_remove[OF heap that] futures_ok_remove[OF fut assms(2)] by (simp add: sound_def ch_wf_def)
  show ?thesis
  proof (cases "rtq_list (cx_buffer ctx)")
    case Nil
    then obtain c where "res = Some (Inl c, own_future a, ch_heap h1)"
      using Future_WaitForAndGet_expires[where h = "ch_heap h1", OF assms(3) at(1,4) _ ctx] unfolding res_def by blast
    note res = this own_future_destructible[where heap = "ch_heap h1", OF ctx]
    show ?thesis
    proof (cases "a \<in> ?P")
      case True
      let ?h2 = "h1\<lparr>ch_future_hospice := ch_future_hospice h1 @ [own_future a]\<rparr>"
      have "await_reply env (own_future a) h = Some (c, ?h2)"
        using n res True at(2) by (simp add: await_reply_def res_def)
      moreover have "sound A l ?h2"
        using h1 futures_ok_remove(2)[OF fut assms(2)] by (simp add: sound_def ch_wf_def)
      ultimately show ?thesis unfolding gives_def by blast
    next
      case False
      then have "await_reply env (own_future a) h = Some (c, h1\<lparr>ch_heap := (ch_heap h1)(a := None)\<rparr>)"
        using n res at(2) Future_destroy_detached[where h = "ch_heap h1", OF at(1) _ ctx]
        by (simp add: await_reply_def res_def)
      then show ?thesis using removed[OF False] unfolding gives_def by blast
    qed
  next
    case (Cons v vs)
    then have l: "rtq_list (cx_buffer ctx) = [v]" using at(1) by (auto elim: cx_wf_list)
    have notP: "a \<notin> ?P"
    proof
      assume "a \<in> ?P"
      moreover have "ctx_ok (a \<in> ?P) ctx" using heap ctx by (simp add: heap_ok_def)
      ultimately show False using l by (simp add: ctx_ok_def ctx_waiting_def)
    qed
    then have "ctx_answered v ctx" using at l by (simp add: ctx_answered_def)
    from Future_WaitForAndGet_answered[where h = "ch_heap h1", OF this ctx] obtain ctx' where
      r: "res = Some (Inr v, own_future a, (ch_heap h1)(a \<mapsto> ctx'))" "cx_wf ctx'" "\<not> cx_promise_attached ctx'"
      unfolding res_def by blast
    then show ?thesis
      using n removed[OF notP] own_future_destructible[where heap = "(ch_heap h1)(a \<mapsto> ctx')" and a = a]
        Future_destroy_detached[where h = "(ch_heap h1)(a \<mapsto> ctx')" and a = a, OF r(2,3)]
      by (simp add: await_reply_def gives_def res_def)
  qed
qed

lemma SetStateAndWait_sound:
  assumes "sound A l h" "wait_expires (me_wait env 0)"
    and others: "\<And>A h. sound A l h \<Longrightarrow> returns (sound A l) (others h)"
  shows "gives (\<lambda>_. sound A l) (SetStateAndWait env others from to msg h)"
proof (cases "HardwareModuleTransitionGuard from to = kAllowed")
  case False
  then have "SetStateAndWait env others from to msg h = Some (False, h)" by (simp add: SetStateAndWait_def)
  then show ?thesis using assms(1) unfolding gives_def by blast
next
  case True
  from erase_hospice_sound[OF assms(1), of env] obtain fs heap where
    e: "erase_hospice env (ch_future_hospice h) (ch_heap h) = Some (fs, heap)"
      "sound A l (h\<lparr>ch_future_hospice := fs, ch_heap := heap\<rparr>)" by auto
  let ?h0 = "h\<lparr>ch_future_hospice := fs, ch_heap := heap\<rparr>"
  from queue_request_sound[OF e(2), of env "from" to msg] obtain r h1 where
    q: "queue_request env from to msg ?h0 = Some (r, h1)"
      "case r of Inl e \<Rightarrow> sound A l h1 | Inr f \<Rightarrow> f = own_future (ch_next_ptr ?h0) \<and> ch_next_ptr ?h0 \<notin> A
        \<and> sound (insert (ch_next_ptr ?h0) A) l h1"
    unfolding gives_def by blast
  show ?thesis
  proof (cases r)
    case (Inl c)
    then have "SetStateAndWait env others from to msg h = Some (False, h1)" "sound A l h1"
      using True e q by (simp_all add: SetStateAndWait_def)
    then show ?thesis unfolding gives_def by blast
  next
    case (Inr f)
    let ?a = "ch_next_ptr h"
    have f: "f = own_future ?a" "?a \<notin> A" "sound (insert ?a A) l h1" using q(2) Inr by auto
    from others[OF f(3)] obtain h2 where h2: "others h1 = Some h2" "sound (insert ?a A) l h2"
      by (auto simp: returns_def)
    from await_reply_sound[OF h2(2) f(2) assms(2)] obtain c h3 where
      "await_reply env (own_future ?a) h2 = Some (c, h3)" "sound A l h3" by (auto simp: gives_def)
    then have "SetStateAndWait env others from to msg h = Some (c = kOk, h3)" "sound A l h3"
      using True e q h2 f Inr by (simp_all add: SetStateAndWait_def)
    then show ?thesis unfolding gives_def by blast
  qed
qed

lemma locked_action_sound:
  assumes "sound A False h" "wait_expires (me_wait env 0)"
    and others: "\<And>i A h. sound A True h \<Longrightarrow> returns (sound A True) (others i h)"
  shows "returns (sound A False) (locked_action env others cb f via target h)"
proof -
  let ?h = "h\<lparr>ch_action_lock := True\<rparr>"
  have h: "sound A True ?h" using assms(1) by (simp add: sound_def ch_wf_def)
  have wait: "gives (\<lambda>_. sound A True) (SetStateAndWait env (others i) s t msg g)" if "sound A True g" for i s t msg g
    using SetStateAndWait_sound[of A True g env "others i", OF that assms(2) others] .
  from wait[OF h] obtain b h1 where
    enter: "SetStateAndWait env (others 0) (ch_state_code ?h) via [] ?h = Some (b, h1)" "sound A True h1"
    unfolding gives_def by blast
  obtain ret h2 where inv: "invoke cb f h1 = (ret, h2)" by (cases "invoke cb f h1")
  from others[OF sound_invoke[OF enter(2) inv], of 1] obtain h3 where
    h3: "others 1 h2 = Some h3" "sound A True h3" by (auto simp: returns_def)
  have "returns (sound A True) (action_body env others cb f via target ?h)"
    using enter inv h3 gives_snd[OF wait[OF h3(2)]] by (simp add: action_body_def)
  then show ?thesis
    using assms(1) by (auto simp: locked_action_def returns_def sound_def ch_wf_def)
qed

text \<open>
  Histories that can happen: an action takes \<open>action_lock_\<close>, so no other action runs inside it.
\<close>

fun takes_lock :: "op \<Rightarrow> bool"
  where
    "takes_lock (OpEnableMotion _ _ _) = True"
  | "takes_lock (OpDisableMotion _ _ _) = True"
  | "takes_lock (OpClearFaults _ _ _) = True"
  | "takes_lock _ = False"

fun feasible :: "op \<Rightarrow> bool"
  where
    "feasible (OpEnableMotion as bs cs) \<longleftrightarrow> list_all (Not \<circ> takes_lock) (as @ bs @ cs)"
  | "feasible (OpDisableMotion as bs cs) \<longleftrightarrow> list_all (Not \<circ> takes_lock) (as @ bs @ cs)"
  | "feasible (OpClearFaults as bs cs) \<longleftrightarrow> list_all (Not \<circ> takes_lock) (as @ bs @ cs)"
  | "feasible _ = True"

lemma exec_lockfree_sound:
  assumes "\<not> takes_lock op" "sound A l h"
  shows "returns (sound A l) (exec env op h)"
  using assms
  by (cases op) (simp_all add: OnReadStatus_sound OnApplyCommand_sound OnPrepare_sound OnActivate_sound
      OnDeactivate_sound Shutdown_sound GetHardwareModuleState_sound gives_snd)

lemma run_calls_returns:
  assumes "P h" "\<And>f h. f \<in> set fs \<Longrightarrow> P h \<Longrightarrow> returns P (f h)"
  shows "returns P (run_calls fs h)"
  using assms
proof (induction fs arbitrary: h)
  case (Cons f fs)
  have "returns P (f h)" using Cons.prems by simp
  then show ?case by (simp, rule returns_bind) (use Cons in simp)
qed simp

lemma during_sound:
  assumes "list_all (Not \<circ> takes_lock) (as @ bs @ cs)" "sound A l h"
  shows "returns (sound A l) (during (map (exec env) as) (map (exec env) bs) (map (exec env) cs) i h)"
  unfolding during_def
  by (rule run_calls_returns[where P = "sound A l", OF assms(2)])
    (use assms(1) in \<open>auto simp: list_all_iff intro: exec_lockfree_sound split: if_splits\<close>)

lemma exec_sound:
  assumes "feasible op" "sound A False h" "wait_expires (me_wait env 0)"
  shows "returns (sound A False) (exec env op h)"
proof (cases "takes_lock op")
  case False
  then show ?thesis using assms by (simp add: exec_lockfree_sound)
next
  case True
  then show ?thesis
    using assms
    by (cases op)
      (auto simp: OnEnableMotion_def OnDisableMotion_def OnClearFaults_def
        intro!: locked_action_sound during_sound)
qed

lemma exec_all_sound:
  assumes "list_all feasible ops" "sound A False h" "wait_expires (me_wait env 0)"
  shows "returns (sound A False) (exec_all env ops h)"
  by (rule run_calls_returns[where P = "sound A False", OF assms(2)])
    (use assms(1,3) in \<open>auto simp: list_all_iff intro: exec_sound\<close>)

subsection \<open>A new handler\<close>

lemma expired_env_expires: "wait_expires expired_env"
proof -
  have "Wait expired_env kReady ts = Some (kDeadlineExceeded, kReady)" for ts
    by (simp add: Wait_def expired_env_def Wait_loop_ready wait_stops_def wait_result_def)
  moreover have "we_clock_gettime expired_env = Some \<lparr>tv_sec = 0, tv_nsec = 0\<rparr>" by (simp add: expired_env_def)
  ultimately have "bf_val f = kReady \<Longrightarrow> BinaryFutex_WaitUntil expired_env deadline f = Some (kDeadlineExceeded, f)"
    for deadline f
    by (simp add: BinaryFutex_WaitUntil_def futex_same)
  then show ?thesis unfolding wait_expires_def by (metis StatusCode.distinct(1) StatusCode.distinct(7))
qed

lemma CallbackHandler_new_sound:
  assumes "hms_code shm = kDeactivated"
  shows "\<exists>h. CallbackHandler_new env shm w = Some h \<and> sound {} False h \<and> balanced h
    \<and> ch_state_code h = kDeactivated \<and> rtq_list (ch_request_queue h) = [] \<and> ch_next_ptr h = 0
    \<and> \<not> ch_reject_new_requests h"
proof -
  obtain q where q: "RealtimeQueue_new (AsyncRequest_new AsyncRequestData_default) (Some kMaxPendingRequests) None = Some q"
    by (simp add: RealtimeQueue_new_def)
  obtain t w' where n: "me_Now env w = (t, w')" by (cases "me_Now env w")
  let ?h = "\<lparr>ch_action_lock = False, ch_shm_state = shm, ch_state_code = kDeactivated,
       ch_previous_state_code = kDeactivated,
       ch_state_buffer = AsyncBuffer_new HardwareModuleState_default, ch_request_queue = q,
       ch_reject_new_requests = False, ch_update_time = t, ch_future_hospice = [],
       ch_heap = (\<lambda>_. None), ch_next_ptr = 0, ch_world = w', ch_log = []\<rparr>"
  have idle: "rtq_idle q" "rtq_list q = []" "rtq_capacity q = kMaxPendingRequests"
    using rtq_new_idle[OF q[unfolded kMaxPendingRequests_def]] by (simp_all add: kMaxPendingRequests_def)
  have b: "buffer_ok (AsyncBuffer_new HardwareModuleState_default)"
    by (simp add: buffer_ok_def AsyncBuffer_new_def State_default_def IsConsistent_def)
  have "sound {} False ?h"
    using idle b assms
    by (auto simp: sound_def ch_wf_def queue_ok_def queued_ptrs_def heap_ok_def futures_ok_def coherent_def
        AsyncBuffer_new_def State_default_def)
  from SetStateDirectly_sound[OF this, of env kDeactivated RtOkStatus True]
    SetStateDirectly_total[of ?h env kDeactivated RtOkStatus True] b
  obtain r h where h: "SetStateDirectly env kDeactivated RtOkStatus True ?h = Some (r, h)" "sound {} False h"
    "frame_state ?h h" "ch_state_code h = kDeactivated" "ch_log h = []"
    by (auto simp: gives_def)
  have "balanced h" using h(4,5) by (simp add: traced_def)
  moreover have "CallbackHandler_new env shm w = Some h"
    using q n h(1) by (simp add: CallbackHandler_new_def now_def)
  ultimately show ?thesis using h idle by (auto simp: frame_state_def)
qed

end
