(* ===== verification/Handler_Props.thy ===== *)
theory Handler_Props
  imports Handler_Wf
begin

text \<open>
  Properties of \<open>CallbackHandler\<close> over whole histories of calls, from the lemmas on its log
  (\<open>Callback_Handler\<close>) and on its invariants (\<open>Handler_Wf\<close>).
\<close>

text \<open>A module whose callbacks all succeed and whose clock counts its readings.\<close>

definition fine_module :: "nat module_env"
  where "fine_module =
    \<lparr>me_Prepare = (\<lambda>w. (OkStatus, w)), me_Activate = (\<lambda>w. (RtOkStatus, w)),
     me_Deactivate = (\<lambda>w. (RtOkStatus, w)), me_EnableMotion = (\<lambda>w. (OkStatus, w)),
     me_DisableMotion = (\<lambda>w. (OkStatus, w)), me_ClearFaults = (\<lambda>w. (OkStatus, w)),
     me_Enabled = (\<lambda>w. (RtOkStatus, w)), me_Disabled = (\<lambda>w. (RtOkStatus, w)),
     me_ReadStatus = (\<lambda>w. (RtOkStatus, w)), me_ApplyCommand = (\<lambda>w. (RtOkStatus, w)),
     me_Now = (\<lambda>w. (int w, Suc w)), me_wait = (\<lambda>_. expired_env),
     me_EnumNameStateCode = (\<lambda>_. ''state'')\<rparr>"

lemma fine_module_shm: "hms_code HardwareModuleState_default = kDeactivated"
  by (simp add: HardwareModuleState_default_def)

lemma fine_module_waits: "wait_expires (me_wait fine_module 0)"
  using expired_env_expires by (simp add: fine_module_def)

lemma fine_module_new:
  obtains h0 where "CallbackHandler_new fine_module HardwareModuleState_default 0 = Some h0" "sound {} False h0"
    "rtq_list (ch_request_queue h0) = []" "\<not> ch_reject_new_requests h0" "ch_next_ptr h0 = 0"
  using CallbackHandler_new_sound[OF fine_module_shm, of fine_module 0] that by blast

lemma exec_all_balanced:
  assumes "balanced h" "exec_all env ops h = Some h'"
  shows "balanced h'"
  by (rule run_calls_preserve[where P = balanced, OF assms(2,1)]) (auto intro: exec_balanced)

lemma history_ok:
  assumes "hms_code shm = kDeactivated" "CallbackHandler_new env shm w = Some h0"
    and "list_all feasible ops" "wait_expires (me_wait env 0)"
  obtains h where "exec_all env ops h0 = Some h" "balanced h" "sound {} False h"
proof -
  from CallbackHandler_new_sound[OF assms(1), of env w] assms(2) have h0: "sound {} False h0" "balanced h0" by auto
  from exec_all_sound[OF assms(3) h0(1) assms(4)] obtain h where
    "exec_all env ops h0 = Some h" "sound {} False h" by (auto simp: returns_def)
  then show thesis using that exec_all_balanced[OF h0(2)] by blast
qed





text \<open>C25: Cancelling the pending requests terminates, empties the queue and answers every pending request
  with \<open>kCancelled\<close> and the given reason: the thread that waits for a request gets exactly that status.
  Contexts of other requests are not touched.\<close>
theorem cancel_answers_every_request:
  assumes "ch_wf A h"
  shows "\<exists>h'. CancelPendingRequests env reason h = Some h' \<and> ch_wf A h'
    \<and> rtq_list (ch_request_queue h') = []
    \<and> (\<forall>a \<in> set (queued_ptrs (ch_request_queue h)). \<exists>ctx. Future_WaitForAndGet id w t d (own_future a) (ch_heap h')
          = Some (Inr (FormatRealtimeStatus kCancelled reason), own_future a, (ch_heap h')(a \<mapsto> ctx)))
    \<and> (\<forall>a. a \<notin> set (queued_ptrs (ch_request_queue h)) \<longrightarrow> ch_heap h' a = ch_heap h a)"
proof -
  from CancelPendingRequests_total[OF assms, of env reason] obtain h' where
    h': "CancelPendingRequests env reason h = Some h'" "ch_wf A h'" "rtq_list (ch_request_queue h') = []"
      "\<And>a. if a \<in> set (queued_ptrs (ch_request_queue h))
           then \<exists>ctx. ch_heap h' a = Some ctx \<and> ctx_answered (FormatRealtimeStatus kCancelled reason) ctx
           else ch_heap h' a = ch_heap h a" by blast
  have "\<exists>ctx. Future_WaitForAndGet id w t d (own_future a) (ch_heap h')
          = Some (Inr (FormatRealtimeStatus kCancelled reason), own_future a, (ch_heap h')(a \<mapsto> ctx))"
    if "a \<in> set (queued_ptrs (ch_request_queue h))" for a
  proof -
    from h'(4)[of a] that obtain ctx where
      "ch_heap h' a = Some ctx" "ctx_answered (FormatRealtimeStatus kCancelled reason) ctx" by auto
    from Future_WaitForAndGet_answered[where h = "ch_heap h'", OF this(2,1)] show ?thesis by blast
  qed
  then show ?thesis using h' by (intro exI[of _ h']) (auto split: if_splits)
qed

theorem cancel_answers_every_request_witness:
  "\<exists>h0 h h' ctx. CallbackHandler_new fine_module HardwareModuleState_default 0 = Some h0
    \<and> queue_request fine_module kActivated kMotionEnabling [] h0 = Some (Inr (own_future 0), h)
    \<and> CancelPendingRequests fine_module ''stop'' h = Some h'
    \<and> Future_WaitForAndGet id expired_env 0 1 (own_future 0) (ch_heap h')
        = Some (Inr (FormatRealtimeStatus kCancelled ''stop''), own_future 0, (ch_heap h')(0 \<mapsto> ctx))"
proof -
  obtain h0 where
    h0: "CallbackHandler_new fine_module HardwareModuleState_default 0 = Some h0" "sound {} False h0"
      "rtq_list (ch_request_queue h0) = []" "\<not> ch_reject_new_requests h0" and next0: "ch_next_ptr h0 = 0" by (rule fine_module_new)
  obtain t w where n: "me_Now fine_module (ch_world h0) = (t, w)" by (cases "me_Now fine_module (ch_world h0)")
  obtain q where "MultiWriter_Insert (request_for kActivated kMotionEnabling [] t 0) (ch_request_queue h0) = Some (kOk, q)"
    and q: "rtq_list q = [request_for kActivated kMotionEnabling [] t 0]"
    by (rule MultiWriter_Insert_ok[of "ch_request_queue h0" "request_for kActivated kMotionEnabling [] t 0"])
      (use h0(2,3) in \<open>auto simp: sound_def ch_wf_def queue_ok_def kMaxPendingRequests_def\<close>)
  with queue_request_unfold[OF n, of kActivated kMotionEnabling "[]"] h0(4) next0 obtain h where
    h: "queue_request fine_module kActivated kMotionEnabling [] h0 = Some (Inr (own_future 0), h)"
      "ch_request_queue h = q" by (auto simp: Let_def)
  have "queued_ptrs q = [0]" by (simp add: queued_ptrs_def q ptr_of_def request_for_def one_shot_def)
  moreover have "ch_wf {0} h"
    using queue_request_sound[OF h0(2), of fine_module kActivated kMotionEnabling "[]"] h next0
    by (auto simp: gives_def sound_def)
  ultimately show ?thesis
    using cancel_answers_every_request[of "{0}" h fine_module "''stop''" expired_env 0 1] h0(1) h by auto
qed

lemma resolve_hook_fault: "s \<in> {kFaulted, kFatallyFaulted} \<Longrightarrow> resolve_hook s st hook = (s, st)"
  by (auto simp: resolve_hook_def)

lemma raise_fault_log:
  assumes "sound A l h" "s \<in> {kFaulted, kFatallyFaulted}"
  shows "\<exists>h'. raise_fault env s st reason h = Some h' \<and> (\<not> allowed (ch_state_code h) s \<longrightarrow> h' = h)
    \<and> (allowed (ch_state_code h) s \<longrightarrow> ch_state_code h' = s \<and> rtq_list (ch_request_queue h') = [])
    \<and> ch_log h' = ch_log h @ (if allowed (ch_state_code h) s
        then (if ch_state_code h = kMotionEnabled then [Called CbDisabled kMotionEnabled] else [])
          @ [Switched (ch_state_code h) s] else [])"
proof (cases "allowed (ch_state_code h) s")
  case False
  then show ?thesis by (simp add: raise_fault_def SetStateDirectly_def allowed_def)
next
  case True
  have wf: "ch_wf A h" "buffer_ok (ch_state_buffer h)" using assms(1) by (auto simp: sound_def ch_wf_def)
  from SetStateDirectly_allowed[where st = st and env = env, OF wf(2) True resolve_hook_fault[OF assms(2)]]
  obtain h1 where h1: "SetStateDirectly env s st False h = Some (True, h1)" "frame_state h h1"
    "buffer_ok (ch_state_buffer h1)" "ch_state_code h1 = s"
    "ch_log h1 = ch_log h @ (if ch_state_code h = kMotionEnabled then [Called CbDisabled kMotionEnabled] else [])
        @ [Switched (ch_state_code h) s]" by blast
  from CancelPendingRequests_total[OF ch_wf_frame[OF wf(1) h1(2,3)], of env reason] obtain h2 where
    h2: "CancelPendingRequests env reason h1 = Some h2" "rtq_list (ch_request_queue h2) = []" by blast
  have "ch_log h2 = ch_log h1" "ch_state_code h2 = ch_state_code h1"
    using same_but_requests_fields[OF CancelPendingRequests_same[OF h2(1)]] by blast+
  then show ?thesis using h1 h2 True by (simp add: raise_fault_def)
qed

lemma fault_state_cases: "fault_state c \<in> {kFaulted, kFatallyFaulted}"
  by (simp add: fault_state_def)

lemma allowed_fault_state [simp]: "allowed kMotionEnabled (fault_state c)"
  by (simp add: fault_state_def allowed_fault)



text \<open>The state published for other threads can be read only once per change:
  \<open>GetHardwareModuleState\<close> answers a second call with a default-constructed state, whose code is
  \<open>kDeactivated\<close> and whose message is empty, whatever the module is doing.\<close>
theorem published_state_read_once:
  assumes "buffer_ok (ch_state_buffer h)"
  shows "\<exists>s h1 h2. GetHardwareModuleState h = Some (s, h1) \<and> ch_state_code h1 = ch_state_code h
    \<and> GetHardwareModuleState h1 = Some (HardwareModuleState_default, h2)
    \<and> hms_code HardwareModuleState_default = kDeactivated"
proof -
  let ?st = "ab_state (ch_state_buffer h)"
  have c: "IsConsistent ?st" using assms by (simp add: buffer_ok_def)
  note a1 = active_consistent[OF c] and a2 = active_consistent[OF conjunct2[OF active_consistent[OF c]]]
  have "\<not> mailbox_full (next_active ?st)" by (simp add: next_active_def)
  then show ?thesis
    using a1 a2 by (auto simp: GetHardwareModuleState_def GetActiveBuffer_def Let_def HardwareModuleState_default_def)
qed

theorem published_state_read_once_witness:
  "\<exists>s h0 h1 h2. CallbackHandler_new fine_module HardwareModuleState_default 0 = Some h0
    \<and> GetHardwareModuleState (h0\<lparr>ch_state_code := kMotionEnabled\<rparr>) = Some (s, h1)
    \<and> GetHardwareModuleState h1 = Some (HardwareModuleState_default, h2) \<and> ch_state_code h1 = kMotionEnabled"
proof -
  obtain h0 where h0: "CallbackHandler_new fine_module HardwareModuleState_default 0 = Some h0" "sound {} False h0"
    by (rule fine_module_new)
  have "buffer_ok (ch_state_buffer (h0\<lparr>ch_state_code := kMotionEnabled\<rparr>))"
    using h0(2) by (simp add: sound_def ch_wf_def)
  from published_state_read_once[OF this] h0(1) show ?thesis by auto
qed

subsection \<open>A request and the cycle that serves it\<close>

text \<open>
  \<open>steady\<close>: the clock never runs backwards, neither between two readings nor during the callbacks of
  the module that run while motion is being enabled.  \<open>clk\<close> is the time in a state of the world.
\<close>

definition steady :: "('w \<Rightarrow> int) \<Rightarrow> 'w module_env \<Rightarrow> bool"
  where "steady clk env \<longleftrightarrow> (\<forall>w. clk w \<le> fst (me_Now env w) \<and> fst (me_Now env w) \<le> clk (snd (me_Now env w))
    \<and> clk w \<le> clk (snd (me_EnableMotion env w)) \<and> clk w \<le> clk (snd (me_Enabled env w))
    \<and> clk w \<le> clk (snd (me_ReadStatus env w)))"

definition cooperative :: "'w module_env \<Rightarrow> bool"
  where "cooperative env \<longleftrightarrow> (\<forall>w. status_ok (fst (me_EnableMotion env w)) \<and> rt_ok (fst (me_Enabled env w))
    \<and> rt_ok (fst (me_ReadStatus env w)))"

lemma ProcessNext_applies:
  assumes "sound A l h" "rtq_list (ch_request_queue h) = [r]" "rd_from (ar_request r) = ch_state_code h"
    and "ch_update_time h \<le> rd_timestamp (ar_request r)" "allowed (ch_state_code h) (rd_to (ar_request r))"
    and "ch_state_code h \<noteq> kMotionEnabled"
  shows "\<exists>h' ctx. ProcessNextPendingRequest env h = Some h' \<and> ch_previous_state_code h' = ch_state_code h
    \<and> ch_state_code h' = rd_to (ar_request r)
    \<and> ch_log h' = ch_log h @ [Switched (ch_state_code h) (rd_to (ar_request r))]
    \<and> ch_heap h' (ptr_of r) = Some ctx \<and> ctx_answered RtOkStatus ctx
    \<and> rtq_list (ch_request_queue h') = [] \<and> ch_reject_new_requests h' = ch_reject_new_requests h
    \<and> (ch_update_time h', ch_world h') = me_Now env (ch_world h)"
proof -
  let ?q = "ch_request_queue h" and ?d = "ar_request r"
  have wf: "ch_wf A h" "queue_ok ?q" "buffer_ok (ch_state_buffer h)" using assms(1) by (auto simp: sound_def ch_wf_def)
  from take_front_ok[OF wf(2) assms(2), of "ch_heap h"] obtain q1 q2 where
    t: "take_front ?q (ch_heap h) = Some (r, q1, ch_heap h)" "Reader_DropFront q1 = Some q2"
      "queue_ok q2" "rtq_list q2 = []" by blast
  let ?h0 = "h\<lparr>ch_previous_state_code := ch_state_code h, ch_request_queue := q2\<rparr>"
  let ?st = "FormatRealtimeStatus kUnknown (takeWhile (\<lambda>c. c \<noteq> CHR 0x00) (rd_message ?d))"
  from SetStateDirectly_allowed[of ?h0 "rd_to ?d" ?st env "rd_to ?d" ?st False] wf(3) assms(5,6) obtain h1 where
    h1: "SetStateDirectly env (rd_to ?d) ?st False ?h0 = Some (True, h1)" "frame_state ?h0 h1"
      "ch_state_code h1 = rd_to ?d" "ch_log h1 = ch_log h @ [Switched (ch_state_code h) (rd_to ?d)]"
      "(ch_update_time h1, ch_world h1) = me_Now env (ch_world h)"
    by (auto simp: resolve_hook_def RtOkStatus_def rt_ok_def)
  then have p: "process_request env (GetRequest r) ?h0 = Some (RtOkStatus, h1)"
    using assms(3,4) by (simp add: process_request_def GetRequest_def)
  have "heap_ok (insert (ptr_of r) {}) (ch_next_ptr h) (ch_heap h)" "ar_promise r = Some (one_shot (ptr_of r))"
    using wf assms(2) by (auto simp: ch_wf_def queue_ok_def queued_ptrs_def)
  from reply_ok[where v = RtOkStatus and env = "me_wait env", OF this(1) _ this(2)] obtain r' ctx where
    s: "SetResponse RtOkStatus r (ch_heap h1) = Some (kOk, r', (ch_heap h1)(ptr_of r \<mapsto> ctx))" "ctx_answered RtOkStatus ctx"
      "AsyncRequest_destroy (me_wait env) r' ((ch_heap h1)(ptr_of r \<mapsto> ctx)) = Some ((ch_heap h1)(ptr_of r \<mapsto> ctx))"
    using h1(2) by (auto simp: frame_state_def)
  let ?h' = "h1\<lparr>ch_heap := (ch_heap h1)(ptr_of r \<mapsto> ctx)\<rparr>"
  have "ProcessNextPendingRequest env h = Some ?h'"
    using t(1,2) p s assms(2) by (simp add: ProcessNextPendingRequest_def queue_empty_iff)
  then show ?thesis
    using h1 s(2) t(4) by (intro exI[of _ ?h'] exI[of _ ctx]) (simp add: frame_state_def)
qed

lemma await_reply_answered:
  assumes "ch_heap h a = Some ctx" "ctx_answered v ctx" "me_Now env (ch_world h) = (t, w)"
  shows "await_reply env (own_future a) h = Some (rt_code v, h\<lparr>ch_world := w, ch_heap := (ch_heap h)(a := None)\<rparr>)"
proof -
  from Future_WaitForAndGet_answered[where h = "ch_heap h" and a = a, OF assms(2,1)] obtain ctx' where
    r: "Future_WaitForAndGet id (me_wait env 0) t kStatechangeRequestTimeout (own_future a) (ch_heap h)
      = Some (Inr v, own_future a, (ch_heap h)(a \<mapsto> ctx'))" "cx_wf ctx'" "\<not> cx_promise_attached ctx'" by blast
  then show ?thesis
    using assms(3) own_future_destructible[where heap = "(ch_heap h)(a \<mapsto> ctx')" and a = a]
      Future_destroy_detached[where h = "(ch_heap h)(a \<mapsto> ctx')" and a = a, OF r(2,3)]
    by (simp add: await_reply_def now_def)
qed

text \<open>The cycle that enters the state \<open>to\<close>, with its hook and its \<open>ReadStatus()\<close>.\<close>

lemma OnReadStatus_applies:
  assumes "sound A l h" "rtq_list (ch_request_queue h) = [r]" "rd_from (ar_request r) = ch_state_code h"
    and "ch_update_time h \<le> rd_timestamp (ar_request r)" "allowed (ch_state_code h) (rd_to (ar_request r))"
    and "ch_state_code h \<noteq> kMotionEnabled" "cooperative env" "steady clk env"
  shows "\<exists>h' ctx. OnReadStatus env h = Some h' \<and> ch_state_code h' = rd_to (ar_request r)
    \<and> ch_log h' = ch_log h @ [Switched (ch_state_code h) (rd_to (ar_request r))]
        @ (if rd_to (ar_request r) = kMotionEnabled then [Called CbEnabled kMotionEnabled] else [])
        @ [Called CbReadStatus (rd_to (ar_request r))]
    \<and> ch_heap h' (ptr_of r) = Some ctx \<and> ctx_answered RtOkStatus ctx
    \<and> rtq_list (ch_request_queue h') = [] \<and> ch_reject_new_requests h' = ch_reject_new_requests h
    \<and> ch_update_time h' \<le> clk (ch_world h')"
proof -
  let ?to = "rd_to (ar_request r)"
  from ProcessNext_applies[OF assms(1-6), of env] obtain h1 ctx where
    h1: "ProcessNextPendingRequest env h = Some h1" "ch_previous_state_code h1 = ch_state_code h"
      "ch_state_code h1 = ?to" "ch_log h1 = ch_log h @ [Switched (ch_state_code h) ?to]"
      "ch_heap h1 (ptr_of r) = Some ctx" "ctx_answered RtOkStatus ctx" "rtq_list (ch_request_queue h1) = []"
      "ch_reject_new_requests h1 = ch_reject_new_requests h" "(ch_update_time h1, ch_world h1) = me_Now env (ch_world h)"
    by blast
  have t1: "ch_update_time h1 \<le> clk (ch_world h1)"
    using assms(8) h1(9) by (simp add: steady_def) (metis fst_conv snd_conv)
  have from_enabling: "?to = kMotionEnabled \<Longrightarrow> ch_state_code h = kMotionEnabling" using assms(5) by auto
  obtain st w where en: "me_Enabled env (ch_world h1) = (st, w)" by (cases "me_Enabled env (ch_world h1)")
  have st: "rt_ok st" "clk (ch_world h1) \<le> clk w"
    using assms(7,8) en unfolding cooperative_def steady_def by (metis fst_conv snd_conv)+
  define h2 where "h2 = (if ?to = kMotionEnabled
    then h1\<lparr>ch_world := w, ch_log := ch_log h1 @ [Called CbEnabled kMotionEnabled]\<rparr> else h1)"
  have hook: "CheckAndTriggerEnabledTransitionHook env (ch_previous_state_code h1) (ch_state_code h1) h1 = Some h2"
    using from_enabling h1(2,3) en st(1)
    by (auto simp: CheckAndTriggerEnabledTransitionHook_def invoke_def h2_def)
  obtain rs w2 where rd: "me_ReadStatus env (ch_world h2) = (rs, w2)" by (cases "me_ReadStatus env (ch_world h2)")
  have rs: "rt_ok rs" "clk (ch_world h2) \<le> clk w2"
    using assms(7,8) rd unfolding cooperative_def steady_def by (metis fst_conv snd_conv)+
  have h2: "ch_state_code h2 = ?to" "ch_update_time h2 \<le> clk (ch_world h2)"
    using t1 st(2) h1(3) by (auto simp: h2_def)
  let ?h3 = "h2\<lparr>ch_world := w2, ch_log := ch_log h2 @ [Called CbReadStatus ?to]\<rparr>"
  have "OnReadStatus env h = Some ?h3"
    using h1(1) hook rd rs(1) h2(1) by (simp add: OnReadStatus_def invoke_def)
  then show ?thesis
    using h1 h2(2) rs(2) by (intro exI[of _ ?h3] exI[of _ ctx]) (auto simp: h2_def)
qed

text \<open>\<open>ready\<close>: no request is pending, requests are accepted, and the last change of the state lies in the past.\<close>

definition ready :: "('w \<Rightarrow> int) \<Rightarrow> 'w CallbackHandler \<Rightarrow> bool"
  where "ready clk h \<longleftrightarrow> rtq_list (ch_request_queue h) = [] \<and> \<not> ch_reject_new_requests h
    \<and> ch_update_time h \<le> clk (ch_world h)"

lemma SetStateAndWait_served:
  assumes "sound A l h" "ready clk h" "allowed (ch_state_code h) to" "ch_state_code h \<noteq> kMotionEnabled"
    and "cooperative env" "steady clk env" "wait_expires (me_wait env 0)"
  shows "\<exists>h'. SetStateAndWait env (OnReadStatus env) (ch_state_code h) to msg h = Some (True, h')
    \<and> sound A l h' \<and> ready clk h' \<and> ch_state_code h' = to
    \<and> ch_log h' = ch_log h @ [Switched (ch_state_code h) to]
        @ (if to = kMotionEnabled then [Called CbEnabled kMotionEnabled] else []) @ [Called CbReadStatus to]"
proof -
  let ?a = "ch_next_ptr h" and ?s = "ch_state_code h"
  from erase_hospice_sound[OF assms(1), of env] obtain fs heap where
    e: "erase_hospice env (ch_future_hospice h) (ch_heap h) = Some (fs, heap)"
      "sound A l (h\<lparr>ch_future_hospice := fs, ch_heap := heap\<rparr>)" by blast
  let ?h0 = "h\<lparr>ch_future_hospice := fs, ch_heap := heap\<rparr>"
  obtain t w where n: "me_Now env (ch_world h) = (t, w)" by (cases "me_Now env (ch_world h)")
  have t: "ch_update_time h \<le> t" "ch_update_time h \<le> clk w"
    using assms(2,6) n unfolding steady_def ready_def by (metis fst_conv snd_conv order_trans)+
  let ?r = "request_for ?s to msg t ?a"
  have q0: "rtq_idle (ch_request_queue h)" "rtq_list (ch_request_queue h) = []" "rtq_capacity (ch_request_queue h) = 10"
    using assms(1,2) by (auto simp: sound_def ch_wf_def queue_ok_def kMaxPendingRequests_def ready_def)
  obtain q where q: "MultiWriter_Insert ?r (ch_request_queue h) = Some (kOk, q)" "rtq_list q = [?r]"
    by (rule MultiWriter_Insert_ok[of "ch_request_queue h" ?r]) (use q0 in auto)
  from queue_request_unfold[of env ?h0 t w ?s to msg] n q(1) assms(2) obtain h1 where
    h1: "queue_request env ?s to msg ?h0 = Some (Inr (own_future ?a), h1)" "ch_request_queue h1 = q"
      "ch_world h1 = w" "ch_state_code h1 = ?s" "ch_log h1 = ch_log h" "ch_update_time h1 = ch_update_time h"
      "ch_reject_new_requests h1 = ch_reject_new_requests h"
    by (auto simp: ready_def Let_def)
  have s1: "sound (insert ?a A) l h1" "?a \<notin> A"
    using queue_request_sound[OF e(2), of env ?s to msg] h1(1) by (auto simp: gives_def)
  from OnReadStatus_applies[where h = h1 and r = ?r, OF s1(1) _ _ _ _ _ assms(5,6)] h1 q(2) assms(3,4) t(1)
  obtain h2 ctx where
    h2: "OnReadStatus env h1 = Some h2" "ch_state_code h2 = to"
      "ch_log h2 = ch_log h @ [Switched ?s to] @ (if to = kMotionEnabled then [Called CbEnabled kMotionEnabled] else [])
        @ [Called CbReadStatus to]"
      "ch_heap h2 ?a = Some ctx" "ctx_answered RtOkStatus ctx" "rtq_list (ch_request_queue h2) = []"
      "ch_reject_new_requests h2 = ch_reject_new_requests h" "ch_update_time h2 \<le> clk (ch_world h2)"
    by (auto simp: request_for_def ptr_of_def one_shot_def)
  obtain t3 w3 where n3: "me_Now env (ch_world h2) = (t3, w3)" by (cases "me_Now env (ch_world h2)")
  have "clk (ch_world h2) \<le> clk w3"
    using assms(6) n3 unfolding steady_def by (metis fst_conv snd_conv order_trans)
  let ?h3 = "h2\<lparr>ch_world := w3, ch_heap := (ch_heap h2)(?a := None)\<rparr>"
  have "SetStateAndWait env (OnReadStatus env) ?s to msg h = Some (True, ?h3)"
    using assms(3) e(1) h1(1) h2(1) await_reply_answered[OF h2(4,5) n3]
    by (simp add: SetStateAndWait_def allowed_def RtOkStatus_def)
  moreover have "gives (\<lambda>_. sound A l) (SetStateAndWait env (OnReadStatus env) ?s to msg h)"
    by (rule SetStateAndWait_sound[OF assms(1,7) OnReadStatus_sound])
  moreover from this have "sound A l ?h3" using calculation(1) by (simp add: gives_def)
  ultimately show ?thesis
    using h2 assms(2) \<open>clk (ch_world h2) \<le> clk w3\<close>
    by (intro exI[of _ ?h3]) (auto simp: ready_def)
qed

lemma OnReadStatus_idle:
  assumes "ready clk h" "sound A l h" "cooperative env" "steady clk env" "ch_state_code h \<noteq> kMotionEnabled"
  shows "\<exists>h'. OnReadStatus env h = Some h' \<and> ready clk h' \<and> ch_state_code h' = ch_state_code h
    \<and> ch_log h' = ch_log h @ [Called CbReadStatus (ch_state_code h)]"
proof -
  obtain rs w where rd: "me_ReadStatus env (ch_world h) = (rs, w)" by (cases "me_ReadStatus env (ch_world h)")
  have "rt_ok rs" "clk (ch_world h) \<le> clk w"
    using assms(3,4) rd unfolding cooperative_def steady_def by (metis fst_conv snd_conv)+
  then show ?thesis
    using assms(1,5) rd
    by (auto simp: OnReadStatus_def ProcessNextPendingRequest_def queue_empty_iff ready_def invoke_def
        CheckAndTriggerEnabledTransitionHook_def)
qed

text \<open>C20: Enabling motion works: in \<open>kActivated\<close>, with no request pending, a cooperative module and a
  realtime thread that runs its cycles, \<open>OnEnableMotion\<close> returns with motion enabled, having called
  \<open>EnableMotion()\<close> in \<open>kMotionEnabling\<close> and \<open>Enabled()\<close> in the very cycle that entered
  \<open>kMotionEnabled\<close>.\<close>
theorem enable_motion_succeeds:
  assumes "sound {} False h" "ready clk h" "ch_state_code h = kActivated"
    and "cooperative env" "steady clk env" "wait_expires (me_wait env 0)"
  shows "\<exists>h'. OnEnableMotion env (\<lambda>_. OnReadStatus env) h = Some h' \<and> sound {} False h'
    \<and> ch_state_code h' = kMotionEnabled \<and> hms_code (ch_shm_state h') = kMotionEnabled
    \<and> ch_log h' = ch_log h @ [Switched kActivated kMotionEnabling, Called CbReadStatus kMotionEnabling,
        Called CbEnableMotion kMotionEnabling, Called CbReadStatus kMotionEnabling,
        Switched kMotionEnabling kMotionEnabled, Called CbEnabled kMotionEnabled, Called CbReadStatus kMotionEnabled]"
proof -
  let ?h = "h\<lparr>ch_action_lock := True\<rparr>"
  have h: "sound {} True ?h" "ready clk ?h" using assms(1,2) by (auto simp: sound_def ch_wf_def ready_def)
  have al: "allowed (ch_state_code ?h) kMotionEnabling" "allowed kMotionEnabling kMotionEnabled"
    using assms(3) by (simp_all add: guard_defs)
  from SetStateAndWait_served[OF h al(1) _ assms(4-6), of "[]"] assms(3) obtain h1 where
    h1: "SetStateAndWait env (OnReadStatus env) kActivated kMotionEnabling [] ?h = Some (True, h1)" "sound {} True h1"
      "ready clk h1" "ch_state_code h1 = kMotionEnabling"
      "ch_log h1 = ch_log h @ [Switched kActivated kMotionEnabling, Called CbReadStatus kMotionEnabling]" by auto
  obtain ret w where en: "me_EnableMotion env (ch_world h1) = (ret, w)" by (cases "me_EnableMotion env (ch_world h1)")
  have ret: "status_ok ret" "clk (ch_world h1) \<le> clk w"
    using assms(4,5) en unfolding cooperative_def steady_def by (metis fst_conv snd_conv)+
  let ?h2 = "h1\<lparr>ch_world := w, ch_log := ch_log h1 @ [Called CbEnableMotion kMotionEnabling]\<rparr>"
  have inv: "invoke CbEnableMotion (me_EnableMotion env) h1 = (ret, ?h2)" using en h1(4) by (simp add: invoke_def)
  have h2: "sound {} True ?h2" "ready clk ?h2"
    using sound_invoke[OF h1(2) inv] h1(3) ret(2) by (auto simp: ready_def)
  from OnReadStatus_idle[OF h2(2,1) assms(4,5)] OnReadStatus_sound[OF h2(1), of env] h1(4) obtain h3 where
    h3: "OnReadStatus env ?h2 = Some h3" "sound {} True h3" "ready clk h3" "ch_state_code h3 = kMotionEnabling"
      "ch_log h3 = ch_log ?h2 @ [Called CbReadStatus kMotionEnabling]" by (auto simp: returns_def)
  from SetStateAndWait_served[OF h3(2,3) _ _ assms(4-6), of kMotionEnabled "[]"] h3(4) al(2) obtain h4 where
    h4: "SetStateAndWait env (OnReadStatus env) kMotionEnabling kMotionEnabled [] h3 = Some (True, h4)" "sound {} True h4"
      "ch_state_code h4 = kMotionEnabled"
      "ch_log h4 = ch_log h3 @ [Switched kMotionEnabling kMotionEnabled, Called CbEnabled kMotionEnabled,
        Called CbReadStatus kMotionEnabled]" by auto
  have "OnEnableMotion env (\<lambda>_. OnReadStatus env) h = Some (h4\<lparr>ch_action_lock := False\<rparr>)"
    using assms(1,3) h1(1) inv ret(1) h3(1) h4(1)
    by (simp add: OnEnableMotion_def locked_action_def action_body_def sound_def)
  then show ?thesis
    using h4 h3(5) h1(5) by (auto simp: sound_def ch_wf_def coherent_def)
qed

text \<open>A handler in any given state, for the examples.\<close>

lemma handler_in_state:
  obtains h :: "nat CallbackHandler" where "sound {} False h" "ready int h" "ch_state_code h = s" "ch_log h = []"
proof -
  obtain h0 :: "nat CallbackHandler" where
    h0: "sound {} False h0" "rtq_list (ch_request_queue h0) = []" "\<not> ch_reject_new_requests h0"
    using fine_module_new by metis
  let ?h = "h0\<lparr>ch_state_code := s, ch_shm_state := SetState s [] (ch_shm_state h0),
    ch_state_buffer := AsyncBuffer_new HardwareModuleState_default, ch_update_time := 0, ch_log := []\<rparr>"
  have "sound {} False ?h"
    using h0(1) by (auto simp: sound_def ch_wf_def buffer_ok_def coherent_def AsyncBuffer_new_def State_default_def
        IsConsistent_def)
  then show thesis using that[of ?h] h0 by (simp add: ready_def)
qed

lemma fine_module_cooperative: "cooperative fine_module" "steady int fine_module"
  by (simp_all add: cooperative_def steady_def fine_module_def OkStatus_def status_ok_def RtOkStatus_def rt_ok_def)

theorem enable_motion_succeeds_witness:
  "\<exists>h h'. ch_state_code h = kActivated \<and> OnEnableMotion fine_module (\<lambda>_. OnReadStatus fine_module) h = Some h'
    \<and> ch_state_code h' = kMotionEnabled"
proof -
  obtain h where h: "sound {} False h" "ready int h" "ch_state_code h = kActivated" by (rule handler_in_state)
  from enable_motion_succeeds[OF h fine_module_cooperative fine_module_waits] h(3) show ?thesis by blast
qed

text \<open>C40: Deactivating a module whose \<open>Disabled()\<close> hook fails does not deactivate it: \<open>Deactivate()\<close> is
  called although the module is in \<open>kFaulted\<close>, and the handler stays in \<open>kFaulted\<close> even when
  \<open>Deactivate()\<close> succeeds, because the guard prohibits \<open>kFaulted\<close> to \<open>kDeactivated\<close>.\<close>
theorem deactivate_after_failed_disable:
  assumes "sound A l h" "ch_state_code h = kMotionEnabled" "\<not> rt_ok (fst (me_Disabled env (ch_world h)))"
    and "\<And>w. rt_ok (fst (me_Deactivate env w))"
  shows "\<exists>h'. OnDeactivate env h = Some h' \<and> ch_state_code h' = kFaulted
    \<and> ch_log h' = ch_log h @ [Called CbDisabled kMotionEnabled, Switched kMotionEnabled kFaulted, Called CbDeactivate kFaulted]"
proof -
  have b: "buffer_ok (ch_state_buffer h)" and wf: "ch_wf A h" using assms(1) by (auto simp: sound_def ch_wf_def)
  have al: "allowed (ch_state_code h) kDeactivating" using assms(2) by (simp add: guard_defs)
  obtain st1 where "resolve_hook kDeactivating RtOkStatus (if ch_state_code h = kMotionEnabled
      then fst (me_Disabled env (ch_world h)) else RtOkStatus) = (kFaulted, st1)"
    using assms(2,3) by (simp add: resolve_hook_def)
  from SetStateDirectly_allowed[OF b al this, of False] assms(2) obtain h1 where
    h1: "SetStateDirectly env kDeactivating RtOkStatus False h = Some (True, h1)" "frame_state h h1"
      "buffer_ok (ch_state_buffer h1)" "ch_state_code h1 = kFaulted"
      "ch_log h1 = ch_log h @ [Called CbDisabled kMotionEnabled, Switched kMotionEnabled kFaulted]" by auto
  let ?h1 = "h1\<lparr>ch_reject_new_requests := True\<rparr>"
  have "ch_wf A ?h1" using ch_wf_frame[OF wf h1(2,3)] by (simp add: ch_wf_def)
  from CancelPendingRequests_total[OF this, of env "''Request cancelled due to deactivation''"] obtain h2 where
    c: "CancelPendingRequests env ''Request cancelled due to deactivation'' ?h1 = Some h2" by blast
  note same = same_but_requests_fields[OF CancelPendingRequests_same[OF c]]
  obtain ret w where d: "me_Deactivate env (ch_world h2) = (ret, w)" by (cases "me_Deactivate env (ch_world h2)")
  have ret: "rt_ok ret" using assms(4)[of "ch_world h2"] d by simp
  let ?h3 = "h2\<lparr>ch_world := w, ch_log := ch_log h2 @ [Called CbDeactivate kFaulted]\<rparr>"
  have "invoke CbDeactivate (me_Deactivate env) h2 = (ret, ?h3)" using d same h1(4) by (simp add: invoke_def)
  moreover have "SetStateDirectly env kDeactivated RtOkStatus False ?h3 = Some (False, ?h3)"
    using same h1(4) by (simp add: SetStateDirectly_def HardwareModuleTransitionGuard_def)
  ultimately have "OnDeactivate env h = Some ?h3" using h1(1) c ret by (simp add: OnDeactivate_def)
  then show ?thesis using same h1(4,5) by simp
qed

theorem deactivate_after_failed_disable_witness:
  "\<exists>h h'. ch_state_code h = kMotionEnabled
    \<and> OnDeactivate (fine_module\<lparr>me_Disabled := (\<lambda>w. (FormatRealtimeStatus kInternal ''stuck'', w))\<rparr>) h = Some h'
    \<and> ch_state_code h' = kFaulted"
proof -
  let ?env = "fine_module\<lparr>me_Disabled := (\<lambda>w. (FormatRealtimeStatus kInternal ''stuck'', w))\<rparr>"
  obtain h' :: "nat CallbackHandler" where h': "sound {} False h'" "ch_state_code h' = kMotionEnabled"
    using handler_in_state by metis
  have "\<not> rt_ok (fst (me_Disabled ?env (ch_world h')))" "\<And>w. rt_ok (fst (me_Deactivate ?env w))"
    by (simp_all add: fine_module_def rt_ok_def RtOkStatus_def FormatRealtimeStatus_def Let_def)
  from deactivate_after_failed_disable[OF h' this] h'(2) show ?thesis by blast
qed

end
