(* ===== verification/Runtime_Props.thy ===== *)
theory Runtime_Props
  imports Hardware_Module_Runtime Remote_Trigger_Props Handler_Props
begin

text \<open>
  Properties of the runtime of a hardware module: thread preludes, what \<open>Stop\<close> and \<open>Run\<close> establish on success and
  on failure, restart requests, connection and destruction.
\<close>

subsection \<open>The thread prelude\<close>

text \<open>The prelude of a thread reports success exactly if every call it made succeeded.  Then it has set the
  first 15 characters of a name, policy and priority of a realtime thread and only of one (by default
  \<open>SCHED_FIFO\<close> and 40), and the processors of the affinity that fit into a mask.\<close>
lemma thread_prelude_applies:
  "(fst (thread_prelude pthread options) = kOk \<longleftrightarrow> (\<forall>c \<in> set (snd (thread_prelude pthread options)). pthread c = 0))
   \<and> (fst (thread_prelude pthread options) = kOk \<longrightarrow>
       snd (thread_prelude pthread options) =
         (if to_name options = [] then [] else [Pthread_setname (take 15 (to_name options))])
         @ (if to_is_realtime options
            then [Pthread_setschedparam (case to_schedule_policy options of None \<Rightarrow> 1 | Some p \<Rightarrow> p)
                    (case to_priority options of None \<Rightarrow> 40 | Some p \<Rightarrow> p)] else [])
         @ (if to_cpu_affinity options = [] then []
            else [Pthread_setaffinity (filter (\<lambda>cpu. 0 \<le> cpu \<and> cpu < 1024) (to_cpu_affinity options))]))
   \<and> (fst (thread_prelude pthread options) = kPermissionDenied \<longrightarrow> to_is_realtime options)"
  by (auto simp: thread_prelude_def schedule_def Let_def kMaxThreadNameLength_def CPU_SETSIZE_def EPERM_def
      kDefaultRealtimeScheduler_def SCHED_FIFO_def kDefaultRealtimePriority_def kLowRealtimePriority_def
      split: if_splits option.splits)

subsection \<open>Stopping\<close>

definition connected :: "'w HardwareModuleRuntime \<Rightarrow> bool"
  where "connected rt \<longleftrightarrow> (\<forall>i. hmr_servers rt i \<noteq> None)"

lemma request_stops_all:
  assumes "connected rt"
  shows "request_stops is rt =
    Some (rt\<lparr>hmr_servers := (\<lambda>i. if i \<in> set is then map_option RequestStop (hmr_servers rt i) else hmr_servers rt i)\<rparr>)"
  using assms
proof (induction "is" arbitrary: rt)
  case (Cons i "is")
  then obtain server where i: "hmr_servers rt i = Some server" by (auto simp: connected_def)
  let ?rt = "rt\<lparr>hmr_servers := (hmr_servers rt)(i := Some (RequestStop server))\<rparr>"
  have "connected ?rt" using Cons.prems by (simp add: connected_def)
  from Cons.IH[OF this] i show ?case by (auto simp: fun_eq_iff RequestStop_def)
qed simp

lemma join_servers_all:
  assumes "connected rt" "\<And>i. re_thread_ends env (Th_server i)"
  shows "join_servers env is rt =
    Some (rt\<lparr>hmr_servers := (\<lambda>i. if i \<in> set is then map_option (\<lambda>sv. sv\<lparr>rts_joinable := False\<rparr>) (hmr_servers rt i) else hmr_servers rt i)\<rparr>)"
  using assms(1)
proof (induction "is" arbitrary: rt)
  case (Cons i "is")
  then obtain server where i: "hmr_servers rt i = Some server" by (auto simp: connected_def)
  let ?rt = "rt\<lparr>hmr_servers := (hmr_servers rt)(i := Some (server\<lparr>rts_joinable := False\<rparr>))\<rparr>"
  have "connected ?rt" using Cons.prems by (simp add: connected_def)
  moreover have "JoinAsyncThread (re_thread_ends env (Th_server i)) server = Some (server\<lparr>rts_joinable := False\<rparr>)"
    using assms(2) by (simp add: JoinAsyncThread_def)
  ultimately show ?case using Cons.IH[of ?rt] i by (auto simp: fun_eq_iff)
qed simp

text \<open>What holds after \<open>Stop\<close>.\<close>

definition stopped :: "'w HardwareModuleRuntime \<Rightarrow> bool"
  where "stopped rt \<longleftrightarrow> hmr_has_stopped rt \<and> \<not> hmr_state_change_thread rt
    \<and> (\<forall>i sv. hmr_servers rt i = Some sv \<longrightarrow>
        (i \<noteq> Srv_disable_motion \<longrightarrow> \<not> rts_is_running sv)
        \<and> (i \<in> set join_order \<longrightarrow> \<not> rts_joinable sv))
    \<and> (\<forall>h. hmr_callback_handler rt = Some h \<longrightarrow> ch_reject_new_requests h)"

lemma Stop_stops:
  assumes c: "connected rt" and h: "hmr_callback_handler rt = Some h" "sound A l h" and ends: "\<And>t. re_thread_ends env t"
  obtains rt' h' where "Stop env rt = Some (fst (re_Shutdown env (ch_world h)), rt')" "stopped rt'" "connected rt'"
    "hmr_callback_handler rt' = Some h'" "sound A l h'" "ch_state_code h' = ch_state_code h" "ch_shm_state h' = ch_shm_state h"
    "ch_world h' = snd (re_Shutdown env (ch_world h))"
    "hmr_domain_socket_server rt' = hmr_domain_socket_server rt" "hmr_shared_memory_manager rt' = hmr_shared_memory_manager rt"
proof -
  obtain h1 where h1: "Shutdown (re_module env) h = Some h1" "sound A l h1"
    using Shutdown_sound[OF h(2)] by (auto simp: returns_def)
  have same: "ch_state_code h1 = ch_state_code h" "ch_shm_state h1 = ch_shm_state h" "ch_world h1 = ch_world h" "ch_reject_new_requests h1"
    using h1(1) same_but_requests_fields[OF CancelPendingRequests_same, of _ _ "h\<lparr>ch_reject_new_requests := True\<rparr>" h1]
    by (auto simp: Shutdown_def)
  obtain st w where w: "re_Shutdown env (ch_world h) = (st, w)" by force
  let ?h = "h1\<lparr>ch_world := w\<rparr>"
  have sound: "sound A l ?h" using h1(2) by (simp add: sound_def ch_wf_def)
  let ?s1 = "\<lambda>i. if i \<in> set stop_order then map_option RequestStop (hmr_servers rt i) else hmr_servers rt i"
  let ?s2 = "\<lambda>i. if i \<in> set join_order then map_option (\<lambda>sv. sv\<lparr>rts_joinable := False\<rparr>) (?s1 i) else ?s1 i"
  let ?rt = "rt\<lparr>hmr_callback_handler := Some ?h, hmr_servers := ?s2, hmr_state_change_thread := False, hmr_has_stopped := True\<rparr>"
  have c1: "connected (rt\<lparr>hmr_callback_handler := Some h1\<rparr>)" using c by (simp add: connected_def)
  have r1: "request_stops stop_order (rt\<lparr>hmr_callback_handler := Some h1\<rparr>) = Some (rt\<lparr>hmr_callback_handler := Some h1, hmr_servers := ?s1\<rparr>)"
    unfolding request_stops_all[OF c1] by (simp cong: if_cong)
  have c2: "connected (rt\<lparr>hmr_servers := ?s1, hmr_callback_handler := Some ?h\<rparr>)" using c by (simp add: connected_def)
  have r2: "join_servers env join_order (rt\<lparr>hmr_servers := ?s1, hmr_callback_handler := Some ?h\<rparr>)
      = Some (rt\<lparr>hmr_callback_handler := Some ?h, hmr_servers := ?s2\<rparr>)"
    unfolding join_servers_all[OF c2 ends] by (simp cong: if_cong)
  have "Stop env rt = Some (st, ?rt)"
    using h(1) h1(1) w same(3) r1 r2 ends by (cases rt) (simp add: Stop_def join_state_change_def)
  moreover have "i \<in> set stop_order" if "i \<noteq> Srv_disable_motion" for i using that by (cases i) (simp_all add: stop_order_def)
  then have "stopped ?rt" using same(4) by (auto simp: stopped_def RequestStop_def split: if_splits)
  moreover have "connected ?rt" using c by (simp add: connected_def)
  ultimately show thesis using sound same w by (intro that[of ?rt ?h]) simp_all
qed

lemma stopped_not_started:
  assumes "stopped rt"
  shows "\<not> IsStarted rt" "Run env others is_realtime cpus rt s = Some (kFailedPrecondition, rt, s)"
  using assms by (auto simp: stopped_def IsStarted_def Run_def)


subsection \<open>Running\<close>

text \<open>Servers that wait to be started.\<close>

definition idle :: "'w HardwareModuleRuntime \<Rightarrow> bool"
  where "idle rt \<longleftrightarrow> (\<forall>i. \<exists>sv. hmr_servers rt i = Some sv \<and> \<not> rts_is_running sv \<and> \<not> rts_joinable sv)
    \<and> \<not> hmr_state_change_thread rt \<and> \<not> hmr_has_stopped rt \<and> hmr_threads rt = []"

definition started_server :: "'c RemoteTriggerServer \<Rightarrow> 'c RemoteTriggerServer"
  where "started_server sv = sv\<lparr>rts_is_running := True, rts_joinable := True\<rparr>"

lemma start_idle_server:
  assumes "hmr_servers rt i = Some sv" "\<not> rts_is_running sv" "\<not> rts_joinable sv" "re_thread_starts env (Th_server i)"
  shows "start_server env i options rt = Some (\<lparr>code = kOk, message = []\<rparr>,
    rt\<lparr>hmr_servers := (hmr_servers rt)(i := Some (started_server sv)), hmr_threads := hmr_threads rt @ [(Th_server i, options)]\<rparr>)"
  using assms by (simp add: start_server_def StartAsync_def started_server_def)

lemma start_idle_servers:
  assumes "\<And>i. i \<in> fst ` set is \<Longrightarrow> \<exists>sv. hmr_servers rt i = Some sv \<and> \<not> rts_is_running sv \<and> \<not> rts_joinable sv"
    and "\<And>i. re_thread_starts env (Th_server i)" "distinct (map fst is)"
  shows "start_servers env is rt = Some (kOk,
    rt\<lparr>hmr_servers := (\<lambda>i. if i \<in> fst ` set is then map_option started_server (hmr_servers rt i) else hmr_servers rt i),
       hmr_threads := hmr_threads rt @ map (apfst Th_server) is\<rparr>)"
  using assms(1,3)
proof (induction "is" arbitrary: rt)
  case (Cons x "is")
  obtain i options where x: "x = (i, options)" by force
  obtain sv where sv: "hmr_servers rt i = Some sv" "\<not> rts_is_running sv" "\<not> rts_joinable sv" using Cons.prems(1)[of i] x by auto
  let ?rt = "rt\<lparr>hmr_servers := (hmr_servers rt)(i := Some (started_server sv)), hmr_threads := hmr_threads rt @ [(Th_server i, options)]\<rparr>"
  have s: "start_server env i options rt = Some (\<lparr>code = kOk, message = []\<rparr>, ?rt)"
    by (rule start_idle_server[OF sv assms(2)])
  have idle': "\<exists>sv. hmr_servers ?rt j = Some sv \<and> \<not> rts_is_running sv \<and> \<not> rts_joinable sv" if "j \<in> fst ` set is" for j
  proof -
    have "j \<noteq> i" using Cons.prems(2) x that by auto
    then show ?thesis using Cons.prems(1)[of j] that by simp
  qed
  have "start_servers env is ?rt = Some (kOk,
    ?rt\<lparr>hmr_servers := (\<lambda>j. if j \<in> fst ` set is then map_option started_server (hmr_servers ?rt j) else hmr_servers ?rt j),
       hmr_threads := hmr_threads ?rt @ map (apfst Th_server) is\<rparr>)"
    by (rule Cons.IH[OF idle']) (use Cons.prems(2) x in simp_all)
  moreover have "(\<lambda>j. if j \<in> fst ` set is then map_option started_server (((hmr_servers rt)(i := Some (started_server sv))) j)
        else ((hmr_servers rt)(i := Some (started_server sv))) j)
      = (\<lambda>j. if j \<in> fst ` set (x # is) then map_option started_server (hmr_servers rt j) else hmr_servers rt j)"
    using Cons.prems(2) x sv(1) by (auto simp: fun_eq_iff)
  ultimately show ?case using s x
    by (simp add: set_init_failed_on_error_def status_ok_def cong: if_cong)
qed simp

text \<open>The threads of a runtime, in the order in which they are started.\<close>

definition runtime_threads :: "bool \<Rightarrow> int list \<Rightarrow> (thread_id \<times> ThreadOptions) list"
  where "runtime_threads is_realtime cpus =
    (let thread = (\<lambda>name priority. \<lparr>to_name = name, to_is_realtime = is_realtime,
          to_priority = if is_realtime then Some priority else None, to_schedule_policy = if is_realtime then Some SCHED_FIFO else None,
          to_cpu_affinity = if is_realtime then cpus else []\<rparr>)
     in [(Th_server Srv_restart, thread ''Restart'' 40), (Th_state_change, thread ''StateChange'' 40),
         (Th_server Srv_activate, thread ''Activate'' 40), (Th_server Srv_deactivate, thread ''Deactivate'' 40),
         (Th_server Srv_read_status, thread ''ReadStatus'' 45), (Th_server Srv_apply_command, thread ''ApplyCommand'' 45)])"

definition async_servers :: "server_id set"
  where "async_servers = {Srv_restart, Srv_activate, Srv_deactivate, Srv_read_status, Srv_apply_command}"

abbreviation undisturbed :: "'w HardwareModuleRuntime \<Rightarrow> os \<Rightarrow> ('w HardwareModuleRuntime \<times> os) checked"
  where "undisturbed \<equiv> \<lambda>rt s. Some (rt, s)"

lemma idle_start_restart:
  assumes "idle rt" "re_thread_starts env (Th_server Srv_restart)"
  obtains sv where "hmr_servers rt Srv_restart = Some sv" "start_server env Srv_restart options rt = Some (\<lparr>code = kOk, message = []\<rparr>,
    rt\<lparr>hmr_servers := (hmr_servers rt)(Srv_restart := Some (started_server sv)), hmr_threads := [(Th_server Srv_restart, options)]\<rparr>)"
proof -
  obtain sv where sv: "hmr_servers rt Srv_restart = Some sv" "\<not> rts_is_running sv" "\<not> rts_joinable sv" and t: "hmr_threads rt = []"
    using assms(1) unfolding idle_def by blast
  from start_idle_server[OF sv assms(2), of options] t sv(1) show thesis by (intro that) simp_all
qed

lemma run_threads_idle:
  assumes "\<And>i. i \<noteq> Srv_restart \<Longrightarrow> \<exists>sv. hmr_servers rt i = Some sv \<and> \<not> rts_is_running sv \<and> \<not> rts_joinable sv"
    and "\<not> hmr_state_change_thread rt" "\<And>t. re_thread_starts env t"
    and "hmr_threads rt = [hd (runtime_threads is_realtime cpus)]"
  shows "run_threads env is_realtime cpus rt = Some (kOk,
    rt\<lparr>hmr_servers := (\<lambda>i. if i \<in> async_servers - {Srv_restart} then map_option started_server (hmr_servers rt i) else hmr_servers rt i),
       hmr_state_change_thread := True, hmr_threads := runtime_threads is_realtime cpus\<rparr>)"
proof -
  define options where "options = thread_options ''Activate'' SetLowRealtimePriorityAndScheduler is_realtime cpus"
  define ts where "ts = [(Srv_activate, options), (Srv_deactivate, SetName ''Deactivate'' options),
       (Srv_read_status, thread_options ''ReadStatus'' SetHighRealtimePriorityAndScheduler is_realtime cpus),
       (Srv_apply_command, thread_options ''ApplyCommand'' SetHighRealtimePriorityAndScheduler is_realtime cpus)]"
  define sc where "sc = thread_options ''StateChange'' SetLowRealtimePriorityAndScheduler is_realtime cpus"
  let ?rt = "rt\<lparr>hmr_state_change_thread := True, hmr_threads := hmr_threads rt @ [(Th_state_change, sc)]\<rparr>"
  have fst_ts: "fst ` set ts = async_servers - {Srv_restart}" by (auto simp: ts_def async_servers_def)
  have "start_servers env ts ?rt = Some (kOk,
    ?rt\<lparr>hmr_servers := (\<lambda>i. if i \<in> fst ` set ts then map_option started_server (hmr_servers ?rt i) else hmr_servers ?rt i),
       hmr_threads := hmr_threads ?rt @ map (apfst Th_server) ts\<rparr>)"
  proof (rule start_idle_servers)
    show "\<exists>sv. hmr_servers ?rt i = Some sv \<and> \<not> rts_is_running sv \<and> \<not> rts_joinable sv" if "i \<in> fst ` set ts" for i
    proof -
      have "i \<noteq> Srv_restart" using that fst_ts by auto
      from assms(1)[OF this] show ?thesis by simp
    qed
  qed (use assms(3) in \<open>simp_all add: ts_def\<close>)
  moreover have "hmr_threads ?rt @ map (apfst Th_server) ts = runtime_threads is_realtime cpus"
    using assms(4) by (simp add: runtime_threads_def ts_def options_def sc_def thread_options_def SetName_def SetAffinity_def
        SetLowRealtimePriorityAndScheduler_def SetHighRealtimePriorityAndScheduler_def ThreadOptions_default_def
        kDefaultRealtimeScheduler_def kLowRealtimePriority_def kHighRealtimePriority_def)
  moreover have "run_threads env is_realtime cpus rt = start_servers env ts ?rt"
    using assms(2,3) by (simp add: run_threads_def join_state_change_def ts_def options_def sc_def Let_def)
  ultimately show ?thesis unfolding fst_ts by (cases rt) (simp cong: if_cong)
qed

text \<open>The body of \<open>Run\<close> up to the point where the descriptors are served.\<close>

lemma Run_body_served:
  assumes "idle rt" "\<And>t. re_thread_starts env t" "hmr_callback_handler rt = Some h"
    and "hmr_domain_socket_server rt = Some d"
    and "re_Init env (ch_world h) (hmr_shared_memory_manager rt) s = Some (init_status, w, m, s1)"
    and "status_ok init_status \<longrightarrow> h' = h\<lparr>ch_world := w\<rparr>"
    and "\<not> status_ok init_status \<longrightarrow> SetStateDirectly (re_module env) kInitFailed
           (FormatRealtimeStatus (code init_status) (message init_status)) False (h\<lparr>ch_world := w\<rparr>) = Some (changed, h')"
    and "AddSegmentInfoServeShmDescriptors (re_order env) (re_fd_order env) (re_sys env) (re_rlim_cur env) (re_serving env) m d s1
      = Some (kOk, m1, d1, s2)"
  obtains sv rt1 where "hmr_servers rt Srv_restart = Some sv"
    "rt1 = rt\<lparr>hmr_servers := (hmr_servers rt)(Srv_restart := Some (started_server sv)),
       hmr_threads := [hd (runtime_threads is_realtime cpus)], hmr_callback_handler := Some h', hmr_shared_memory_manager := m1,
       hmr_domain_socket_server := Some d1\<rparr>"
    "Run_body env undisturbed is_realtime cpus rt s =
      (if status_ok init_status then map_option (\<lambda>(st, rt2). (st, rt2, s2)) (run_threads env is_realtime cpus rt1)
       else Some (code init_status, rt1, s2))"
proof -
  let ?o = "thread_options ''Restart'' SetLowRealtimePriorityAndScheduler is_realtime cpus"
  have o: "(Th_server Srv_restart, ?o) = hd (runtime_threads is_realtime cpus)"
    by (simp add: runtime_threads_def thread_options_def SetName_def SetAffinity_def SetLowRealtimePriorityAndScheduler_def
        ThreadOptions_default_def kDefaultRealtimeScheduler_def kLowRealtimePriority_def)
  obtain sv where sv: "hmr_servers rt Srv_restart = Some sv" "start_server env Srv_restart ?o rt = Some (\<lparr>code = kOk, message = []\<rparr>,
    rt\<lparr>hmr_servers := (hmr_servers rt)(Srv_restart := Some (started_server sv)), hmr_threads := [(Th_server Srv_restart, ?o)]\<rparr>)"
    by (rule idle_start_restart[OF assms(1,2)])
  obtain sva where act: "hmr_servers rt Srv_activate = Some sva" using assms(1) unfolding idle_def by blast
  let ?rt1 = "rt\<lparr>hmr_servers := (hmr_servers rt)(Srv_restart := Some (started_server sv)),
       hmr_threads := [hd (runtime_threads is_realtime cpus)], hmr_callback_handler := Some h', hmr_shared_memory_manager := m1,
       hmr_domain_socket_server := Some d1\<rparr>"
  have "Run_body env undisturbed is_realtime cpus rt s =
      (if status_ok init_status then map_option (\<lambda>(st, rt2). (st, rt2, s2)) (run_threads env is_realtime cpus ?rt1)
       else Some (code init_status, ?rt1, s2))"
    using assms(3-8) sv act
    by (cases rt; cases "status_ok init_status") (simp_all add: Run_body_def status_ok_def set_init_failed_on_error_def o[symmetric])
  then show thesis by (rule that[OF sv(1) refl])
qed

text \<open>C14: \<open>Run\<close> on a connected runtime whose module initializes and whose descriptors can be served returns
  \<open>kOk\<close> and the runtime is started.  Six threads run, all with realtime scheduling or none, the two of the
  control cycle with the higher priority; exactly the five asynchronous servers run, so that the state change
  thread can query the other four.\<close>
theorem run_starts_runtime:
  assumes "idle rt" "\<And>t. re_thread_starts env t" "hmr_callback_handler rt = Some h" "hmr_domain_socket_server rt = Some d"
    and "re_Init env (ch_world h) (hmr_shared_memory_manager rt) s = Some (init_status, w, m, s1)" "status_ok init_status"
    and "AddSegmentInfoServeShmDescriptors (re_order env) (re_fd_order env) (re_sys env) (re_rlim_cur env) (re_serving env) m d s1
      = Some (kOk, m1, d1, s2)"
  shows "\<exists>rt'. Run env undisturbed is_realtime cpus rt s = Some (kOk, rt', s2) \<and> IsStarted rt'
    \<and> hmr_threads rt' = runtime_threads is_realtime cpus \<and> hmr_domain_socket_server rt' = Some d1
    \<and> (\<forall>i. \<exists>sv. hmr_servers rt' i = Some sv \<and> (rts_is_running sv \<longleftrightarrow> i \<in> async_servers) \<and> (rts_joinable sv \<longleftrightarrow> i \<in> async_servers))"
proof -
  obtain sv rt1 where sv: "hmr_servers rt Srv_restart = Some sv"
    and rt1: "rt1 = rt\<lparr>hmr_servers := (hmr_servers rt)(Srv_restart := Some (started_server sv)),
       hmr_threads := [hd (runtime_threads is_realtime cpus)], hmr_callback_handler := Some (h\<lparr>ch_world := w\<rparr>), hmr_shared_memory_manager := m1,
       hmr_domain_socket_server := Some d1\<rparr>"
    and body: "Run_body env undisturbed is_realtime cpus rt s =
      map_option (\<lambda>(st, rt2). (st, rt2, s2)) (run_threads env is_realtime cpus rt1)"
    using Run_body_served[OF assms(1-5) _ _ assms(7), of "h\<lparr>ch_world := w\<rparr>" _ is_realtime cpus] assms(6) by auto
  let ?rt = "rt1\<lparr>hmr_servers := (\<lambda>i. if i \<in> async_servers - {Srv_restart} then map_option started_server (hmr_servers rt1 i) else hmr_servers rt1 i),
       hmr_state_change_thread := True, hmr_threads := runtime_threads is_realtime cpus\<rparr>"
  have i: "\<exists>sv. hmr_servers rt i = Some sv \<and> \<not> rts_is_running sv \<and> \<not> rts_joinable sv" for i using assms(1) by (simp add: idle_def)
  have "run_threads env is_realtime cpus rt1 = Some (kOk, ?rt)"
  proof (rule run_threads_idle)
    show "\<exists>sv. hmr_servers rt1 i = Some sv \<and> \<not> rts_is_running sv \<and> \<not> rts_joinable sv" if "i \<noteq> Srv_restart" for i
      using i[of i] that by (simp add: rt1)
  qed (use assms(1,2) in \<open>simp_all add: rt1 idle_def\<close>)
  then have "Run env undisturbed is_realtime cpus rt s = Some (kOk, ?rt, s2)"
    using assms(1) body by (simp add: Run_def cleanup_defs idle_def)
  moreover have all: "\<exists>sv. hmr_servers ?rt i = Some sv \<and> (rts_is_running sv \<longleftrightarrow> i \<in> async_servers) \<and> (rts_joinable sv \<longleftrightarrow> i \<in> async_servers)" for i
    using i[of i] by (cases "i = Srv_restart") (auto simp: rt1 started_server_def async_servers_def)
  moreover have "IsStarted ?rt"
    using all[of Srv_read_status] all[of Srv_apply_command]
    by (auto simp: IsStarted_def RemoteTriggerServer_IsStarted_def async_servers_def split: option.splits if_splits)
  ultimately show ?thesis by (intro exI[of _ ?rt]) (simp add: rt1)
qed

text \<open>C35: After a failed initialization of the module, clients can connect and see \<open>kInitFailed\<close>, but the
  cleanup of \<open>Run\<close> has also stopped the restart server, so that the module cannot be restarted by a request.\<close>
theorem failed_init_stops_restart_server:
  assumes "idle rt" "\<And>t. re_thread_starts env t" "\<And>t. re_thread_ends env t"
    and h: "hmr_callback_handler rt = Some h" "sound A l h" "ch_state_code h = kDeactivated"
    and "hmr_domain_socket_server rt = Some d"
    and "re_Init env (ch_world h) (hmr_shared_memory_manager rt) s = Some (init_status, w, m, s1)" "\<not> status_ok init_status"
    and "AddSegmentInfoServeShmDescriptors (re_order env) (re_fd_order env) (re_sys env) (re_rlim_cur env) (re_serving env) m d s1
      = Some (kOk, m1, d1, s2)"
  shows "\<exists>rt' h' sv. Run env undisturbed is_realtime cpus rt s = Some (code init_status, rt', s2)
    \<and> hmr_callback_handler rt' = Some h' \<and> ch_state_code h' = kInitFailed \<and> hms_code (ch_shm_state h') = kInitFailed
    \<and> hmr_domain_socket_server rt' = Some d1 \<and> stopped rt'
    \<and> hmr_servers rt' Srv_restart = Some sv \<and> \<not> rts_is_running sv \<and> \<not> rts_joinable sv"
proof -
  let ?h = "h\<lparr>ch_world := w\<rparr>" and ?st = "FormatRealtimeStatus (code init_status) (message init_status)"
  have s: "sound A l ?h" using h(2) by (simp add: sound_def ch_wf_def)
  have "buffer_ok (ch_state_buffer ?h)" using h(2) by (simp add: sound_def ch_wf_def)
  moreover have "allowed (ch_state_code ?h) kInitFailed" using h(3) by (simp add: allowed_def HardwareModuleTransitionGuard_def)
  moreover have "resolve_hook kInitFailed ?st (if ch_state_code ?h = kMotionEnabled then fst (me_Disabled (re_module env) (ch_world ?h))
      else RtOkStatus) = (kInitFailed, ?st)" using h(3) by (simp add: resolve_hook_def)
  ultimately obtain h1 where h1: "SetStateDirectly (re_module env) kInitFailed ?st False ?h = Some (True, h1)" "ch_state_code h1 = kInitFailed"
    using SetStateDirectly_allowed[of ?h kInitFailed ?st "re_module env" kInitFailed ?st False] by auto
  have s1: "sound A l h1" using SetStateDirectly_sound[OF s, of "re_module env" kInitFailed ?st False] h1(1) by (auto simp: gives_def)
  obtain sv rt1 where sv: "hmr_servers rt Srv_restart = Some sv"
    and rt1: "rt1 = rt\<lparr>hmr_servers := (hmr_servers rt)(Srv_restart := Some (started_server sv)),
       hmr_threads := [hd (runtime_threads is_realtime cpus)], hmr_callback_handler := Some h1, hmr_shared_memory_manager := m1,
       hmr_domain_socket_server := Some d1\<rparr>"
    and body: "Run_body env undisturbed is_realtime cpus rt s = Some (code init_status, rt1, s2)"
    using Run_body_served[OF assms(1,2) h(1) assms(7,8) _ _ assms(10), of h1 True is_realtime cpus] assms(9) h1(1) by auto
  have c: "connected rt1" using assms(1) by (auto simp: connected_def rt1 idle_def)
  have h': "hmr_callback_handler rt1 = Some h1" by (simp add: rt1)
  obtain rt2 h2 where r: "Stop env rt1 = Some (fst (re_Shutdown env (ch_world h1)), rt2)" "stopped rt2" "connected rt2"
    "hmr_callback_handler rt2 = Some h2" "ch_state_code h2 = ch_state_code h1" "sound A l h2" "hmr_domain_socket_server rt2 = hmr_domain_socket_server rt1"
    by (rule Stop_stops[OF c h' s1 assms(3)]) blast
  have "Run env undisturbed is_realtime cpus rt s = Some (code init_status, rt2, s2)"
    using assms(1,9) body r(1) by (simp add: Run_def cleanup_defs idle_def status_ok_def)
  moreover obtain sv2 where "hmr_servers rt2 Srv_restart = Some sv2" using r(3) by (auto simp: connected_def)
  moreover have "hms_code (ch_shm_state h2) = kInitFailed" using r(5,6) h1(2) by (simp add: sound_def coherent_def)
  ultimately show ?thesis using r(2,4,5,7) h1(2)
    by (intro exI[of _ rt2] exI[of _ h2] exI[of _ sv2]) (auto simp: stopped_def join_order_def rt1)
qed

subsection \<open>Restart requests\<close>

text \<open>The state a reader sees: the published one if nobody has read it yet, a default otherwise.\<close>

definition seen_state :: "'w CallbackHandler \<Rightarrow> StateCode"
  where "seen_state h = (if mailbox_full (ab_state (ch_state_buffer h)) then ch_state_code h else kDeactivated)"

lemma GetHardwareModuleState_seen:
  assumes "sound A l h"
  obtains st h' where "GetHardwareModuleState h = Some (st, h')" "hms_code st = seen_state h" "sound A l h'"
    "ch_state_code h' = ch_state_code h" "seen_state h' = kDeactivated"
proof -
  let ?st = "ab_state (ch_state_buffer h)"
  have c: "IsConsistent ?st" and co: "coherent (ch_state_code h) (ch_shm_state h) (ch_state_buffer h)"
    using assms by (simp_all add: sound_def ch_wf_def buffer_ok_def)
  have "gives (\<lambda>_. sound A l) (GetHardwareModuleState h)" using assms by (rule GetHardwareModuleState_sound)
  then obtain st h' where g: "GetHardwareModuleState h = Some (st, h')" "sound A l h'" by (auto simp: gives_def)
  have "ch_state_code h' = ch_state_code h \<and> seen_state h' = kDeactivated \<and> hms_code st = seen_state h"
    using g(1) active_consistent[OF c] co
    by (auto simp: GetHardwareModuleState_def GetActiveBuffer_def Let_def seen_state_def next_active_def coherent_def
        HardwareModuleState_default_def ab_read_def split: if_splits)
  with g that show thesis by blast
qed

text \<open>C34: A restart request decides on the published state, which can be read only once per change.  With an
  unread state it is refused while motion is enabled, and otherwise it takes the socket away and then sets the
  exit code for the state; the promise is set at most once.  A second request after a refused one takes the
  state for \<open>kDeactivated\<close> and restarts the module although motion is still enabled.\<close>
theorem restart_decides_on_unread_state:
  assumes h: "hmr_callback_handler rt = Some h" "sound A l h"
    and p: "\<not> HasBeenSet p" "spw_future p = None"
    and d: "hmr_domain_socket_server rt = Some d" "DomainSocketServer_destroy (re_sys env) d s = Some s1"
  shows "\<exists>rt' h' p'. restart_callback env (Some p) rt s = Some (Some p', rt', if seen_state h = kMotionEnabled then s else s1)
    \<and> hmr_callback_handler rt' = Some h' \<and> sound A l h' \<and> ch_state_code h' = ch_state_code h \<and> seen_state h' = kDeactivated
    \<and> (if seen_state h = kMotionEnabled
       then p' = p \<and> hmr_domain_socket_server rt' = Some d
         \<and> (\<exists>rt'' p''. restart_callback env (Some p') rt' s = Some (Some p'', rt'', s1)
              \<and> spw_future p'' = Some kRestartRequested \<and> hmr_domain_socket_server rt'' = None)
       else spw_future p' = restart_exit_code (seen_state h) \<and> HasBeenSet p' \<and> hmr_domain_socket_server rt' = None
         \<and> restart_callback env (Some p') rt' s1 = Some (Some p', rt', s1))"
proof -
  obtain st h1 where g: "GetHardwareModuleState h = Some (st, h1)" "hms_code st = seen_state h" "sound A l h1"
    "ch_state_code h1 = ch_state_code h" "seen_state h1 = kDeactivated"
    by (rule GetHardwareModuleState_seen[OF h(2)])
  obtain st2 h2 where g2: "GetHardwareModuleState h1 = Some (st2, h2)" "hms_code st2 = kDeactivated"
    using GetHardwareModuleState_seen[OF g(3)] g(5) by metis
  have p': "spw_promise p" using p(1) by (simp add: HasBeenSet_def)
  let ?rt1 = "rt\<lparr>hmr_callback_handler := Some h1\<rparr>"
  show ?thesis
  proof (cases "seen_state h = kMotionEnabled")
    case True
    have first: "restart_callback env (Some p) rt s = Some (Some p, ?rt1, s)"
      using True p h g by (simp add: restart_callback_def restart_exit_code_def)
    have "restart_callback env (Some p) ?rt1 s =
        Some (Some (p\<lparr>spw_future := Some kRestartRequested, spw_promise := False\<rparr>),
          rt\<lparr>hmr_callback_handler := Some h2, hmr_domain_socket_server := None\<rparr>, s1)"
      using p p' g2 d by (simp add: restart_callback_def restart_exit_code_def SetValue_def)
    with first True g(3-5) d(1) show ?thesis by auto
  next
    case False
    obtain e where e: "restart_exit_code (seen_state h) = Some e" using False by (cases "seen_state h") (simp_all add: restart_exit_code_def)
    let ?p = "p\<lparr>spw_future := Some e, spw_promise := False\<rparr>"
    have "restart_callback env (Some p) rt s = Some (Some ?p, ?rt1\<lparr>hmr_domain_socket_server := None\<rparr>, s1)"
      using p p' h g e d by (simp add: restart_callback_def SetValue_def)
    with False g(3-5) e show ?thesis by (auto simp: HasBeenSet_def restart_callback_def)
  qed
qed

subsection \<open>Destruction\<close>

lemma handle_inv_wf: "handle_inv fm ls s \<Longrightarrow> os_wf s"
  by (simp add: handle_inv_def)

lemma update_ref_count_same:
  assumes "update_ref_count f b s = Some s1"
  shows "os_maps s1 = os_maps s" "map f_payload (os_files s1) = map f_payload (os_files s)"
proof -
  obtain i h where "mapped_file b s = Some i" "s1 = s\<lparr>os_files := (os_files s)[i := (os_files s ! i)\<lparr>f_header := Some h\<rparr>]\<rparr>"
    using assms by (auto simp: update_ref_count_def store_header_def bind_eq_Some_conv split: option.splits)
  then show "os_maps s1 = os_maps s" "map f_payload (os_files s1) = map f_payload (os_files s)"
    using mapped_file_less[of b s i] by (simp_all add: map_update list_update_same_conv)
qed

lemma CleanUp_unmaps:
  assumes inv: "handle_inv fm (ms # ls) s" and env: "never_fails env"
  obtains s' where "CleanUpSharedMemory env ms s = Some s'" "handle_inv fm ls s'" "map_of (os_maps s') (ms_header ms) = None"
    "\<And>b. b \<noteq> ms_header ms \<Longrightarrow> map_of (os_maps s') b = map_of (os_maps s) b"
    "map f_payload (os_files s') = map f_payload (os_files s)"
proof -
  obtain s' where s': "CleanUpSharedMemory env ms s = Some s'" "handle_inv fm ls s'" by (rule CleanUp_inv[OF inv])
  obtain i h where i: "map_of (os_maps s) (ms_header ms) = Some i" using live_handle_file[OF inv, of ms] by auto
  have "ms_header ms \<noteq> 0" using inv os_wf_map i by (auto simp: handle_inv_def)
  with s'(1) obtain s1 where s1: "os_maps s1 = os_maps s" "map f_payload (os_files s1) = map f_payload (os_files s)"
      "s' = snd (munmap env (ms_header ms) s1)"
    using update_ref_count_same
    by (cases "ms_kind ms") (auto simp: CleanUpSharedMemory_def bind_eq_Some_conv, blast+)
  have "map_of (os_maps s') (ms_header ms) = None"
    using env unfolding s1(3) map_of_eq_None_iff by (auto simp: munmap_def sys_call_def never_fails_def)
  moreover have "map_of (os_maps s') b = map_of (os_maps s) b" if "b \<noteq> ms_header ms" for b
    using map_of_munmap[OF that, of env s1] s1 by simp
  ultimately show thesis using s' s1(2,3) by (intro that[of s']) simp_all
qed


subsection \<open>Connection\<close>

lemma check_segment_ok: "check_segment env T ms s = Some (Inr ms', s') \<Longrightarrow> ms' = ms \<and> s' = s"
  by (auto simp: check_segment_def bind_eq_Some_conv Let_def split: if_splits option.splits)

lemma bind_check_ok:
  assumes "Option.bind g (\<lambda>(segment, s1). case segment of Inl e \<Rightarrow> Some (Inl e, s1) | Inr ms \<Rightarrow> check_segment env T ms s1) = Some (Inr ms, s')"
  shows "g = Some (Inr ms, s')"
proof -
  obtain r t where g: "g = Some (r, t)" using assms by (cases g) auto
  show ?thesis using assms g check_segment_ok[of env T _ t ms s'] by (cases r) auto
qed

text \<open>What the code relies on for an interface: the builder makes a buffer for the type that the verifier accepts.\<close>

definition fits :: "'a interface_type \<Rightarrow> u8 list \<Rightarrow> bool"
  where "fits T buffer \<longleftrightarrow> 0 < it_sizeof T \<and> it_sizeof T \<le> length buffer \<and> length (it_type_string T) \<le> kMaxSize
    \<and> (it_is_table T \<longrightarrow> it_verify T buffer)"

text \<open>Advertising an interface and opening it, in either mode.\<close>

lemma advertise_ok:
  assumes wf: "os_wf s" "smm_wf m s" and inv: "handle_inv (smm_fd_map m) ls s" "length ls < 2 ^ 31 - 1"
    and env: "never_fails env" and fits: "fits T buffer" and name: "VerifyName name = kOk" "name \<notin> fst ` set (smm_segments m)"
    and room: "length (smm_segments m) < kMaxNumberOfSegments" and kind: "kind = kReadOnly \<or> kind = kReadWrite"
  obtains m' s1 ms s' where "AdvertiseInterfaceT env name False buffer (it_type_string T) m s = Some (kOk, m', s1)"
    "TypedMemorySegment_Get kind env (it_sizeof T) (smm_fd_map m') name s1 = Some (Inr ms, s')"
    "check_segment env T ms s' = Some (Inr ms, s')" "os_wf s'" "smm_wf m' s'" "handle_inv (smm_fd_map m') (ms # ls) s'"
    "fst ` set (smm_segments m') = insert name (fst ` set (smm_segments m))"
    "length (smm_segments m') = Suc (length (smm_segments m))"
    "map_of (os_maps s') (ms_header ms) = Some (length (os_files s))" "ms_value ms = ms_header ms + sizeof_SegmentHeader"
    "map f_payload (os_files s') = map f_payload (os_files s) @ [buffer]"
    "\<And>b j. map_of (os_maps s) b = Some j \<Longrightarrow> map_of (os_maps s') b = Some j"
proof -
  let ?i = "length (os_files s)"
  have T: "0 < it_sizeof T" "it_sizeof T \<le> length buffer" "it_is_table T \<longrightarrow> it_verify T buffer"
    "TypeID (TypeInfo_new (it_type_string T)) = it_type_string T"
    using fits by (simp_all add: fits_def TypeID_new)
  have ok: "rejects name (it_type_string T) m = kOk" using name room fits by (simp add: rejects_def fits_def)
  obtain m' s1 where a: "AddSegment env name False buffer (it_type_string T) m s = Some (kOk, m', s1)"
    "os_wf s1" "smm_wf m' s1" "handle_inv (smm_fd_map m') ls s1"
    "fst ` set (smm_segments m') = insert name (fst ` set (smm_segments m))"
    "length (smm_segments m') = Suc (length (smm_segments m))"
    "map f_payload (os_files s1) = map f_payload (os_files s) @ [buffer]"
    "map f_size (os_files s1) = map f_size (os_files s) @ [sizeof_SegmentHeader + length buffer]"
    "\<And>b j. map_of (os_maps s) b = Some j \<Longrightarrow> map_of (os_maps s1) b = Some j"
    "names_file m' name s1 ?i" "f_header (os_files s1 ! ?i) = Some (SegmentHeader_new (it_type_string T))"
    by (rule add_named[OF wf inv(1) env ok, of False buffer]) blast
  obtain fd where fd: "map_of (smm_fd_map m') name = Some fd" "map_of (os_fds s1) fd = Some (Memfd ?i)"
    using a(10) by (auto simp: names_file_def)
  have len: "length (os_files s1) = Suc ?i" using arg_cong[OF a(7), of length] by simp
  have f: "f_size (os_files s1 ! ?i) = sizeof_SegmentHeader + length buffer" "f_payload (os_files s1 ! ?i) = buffer"
    using arg_cong[OF a(8), of "\<lambda>xs. xs ! ?i"] arg_cong[OF a(7), of "\<lambda>xs. xs ! ?i"] len by (simp_all add: nth_append)
  have hid: "header_id (os_files s1 ! ?i) = Some (ExpectedVersion, TypeInfo_new (it_type_string T), sh_updated_at_cycle (SegmentHeader_new (it_type_string T)))"
    using a(11) by (simp add: header_id_def SegmentHeader_new_def)
  have sz: "sizeof_SegmentHeader + it_sizeof T \<le> f_size (os_files s1 ! ?i)" using f T(2) by simp
  have v: "it_is_table T \<longrightarrow> it_verify T (take (f_size (os_files s1 ! ?i) - sizeof_SegmentHeader) (f_payload (os_files s1 ! ?i)))"
    using f T(3) by simp
  obtain ms s' where o: "Option.bind (TypedMemorySegment_Get kind env (it_sizeof T) (smm_fd_map m') name s1)
      (\<lambda>(segment, s1). case segment of Inl e \<Rightarrow> Some (Inl e, s1) | Inr ms \<Rightarrow> check_segment env T ms s1) = Some (Inr ms, s')"
    "handle_inv (smm_fd_map m') (ms # ls) s'" "map_of (os_maps s') (ms_header ms) = Some ?i" "ms_value ms = ms_header ms + sizeof_SegmentHeader"
    "\<And>b j. map_of (os_maps s1) b = Some j \<Longrightarrow> map_of (os_maps s') b = Some j"
    "map f_payload (os_files s') = map f_payload (os_files s1)"
    by (rule open_advertised[OF a(4) inv(2) env kind fd T(1) sz hid T(4) v]) blast
  have g: "TypedMemorySegment_Get kind env (it_sizeof T) (smm_fd_map m') name s1 = Some (Inr ms, s')"
    using o(1) by (rule bind_check_ok)
  then have ch: "check_segment env T ms s' = Some (Inr ms, s')" using o(1) by simp
  note same = TypedGet_same[OF g]
  have "smm_wf m' s'" by (rule smm_wf_opened[OF a(3,2) o(2,5) same o(6)])
  moreover have "AdvertiseInterfaceT env name False buffer (it_type_string T) m s = Some (kOk, m', s1)"
    using a(1) Advertise_cases[OF wf] by simp
  ultimately show thesis using a o g ch handle_inv_wf[OF o(2)] by (intro that[of m' s1 ms s']) simp_all
qed

text \<open>Writing the control period to its segment.\<close>

lemma handle_inv_header:
  assumes "handle_inv fm ls s" "i < length (os_files s)" "f_header (os_files s ! i) = Some h"
    and "sh_mutex h' = sh_mutex h" "sh_ref_count_reader h' = sh_ref_count_reader h" "sh_ref_count_writer h' = sh_ref_count_writer h"
  shows "handle_inv fm ls (s\<lparr>os_files := (os_files s)[i := (os_files s ! i)\<lparr>f_header := Some h'\<rparr>]\<rparr>)" (is "handle_inv fm ls ?s")
proof -
  have r: "refs kind j ls ?s = refs kind j ls s" for kind j by (rule refs_cong) simp
  have w: "os_wf ?s" using handle_inv_wf[OF assms(1)] by (rule os_wf_store_file)
  have h: "f_header (os_files ?s ! j) = (if j = i then Some h' else f_header (os_files s ! j))" for j
    using assms(2) by (cases "j = i") simp_all
  show ?thesis using assms(1,2) w assms(3-6) unfolding handle_inv_def r h by auto
qed

lemma update_period_ok:
  assumes wf: "smm_wf m s" and inv: "handle_inv (smm_fd_map m) ls s" "ms \<in> set ls"
    and ms: "map_of (os_maps s) (ms_header ms) = Some i" "ms_value ms = ms_header ms + sizeof_SegmentHeader"
    and buf: "f_payload (os_files s ! i) = buffer" "length (it_mutate C d buffer) = length buffer" and d: "0 < d"
  obtains s' where "UpdateControlPeriod C c t d ms s = Some (kOk, s')" "handle_inv (smm_fd_map m) ls s'" "smm_wf m s'"
    "os_maps s' = os_maps s" "os_fds s' = os_fds s" "length (os_files s') = length (os_files s)"
    "f_payload (os_files s' ! i) = it_mutate C d buffer"
proof -
  note w = handle_inv_wf[OF inv(1)]
  have i: "i < length (os_files s)" "mapped_file (ms_header ms) s = Some i" using os_wf_map[OF w ms(1)] ms(1) by (simp_all add: mapped_file_wf[OF w])
  let ?s1 = "s\<lparr>os_files := (os_files s)[i := (os_files s ! i)\<lparr>f_payload := it_mutate C d buffer\<rparr>]\<rparr>"
  have wr: "handle_write C d ms s = Some ?s1"
    using i(2) ms(2) buf by (simp add: handle_write_def load_payload_def store_payload_def memcpy_prefix_def)
  have inv1: "handle_inv (smm_fd_map m) ls ?s1" by (rule handle_inv_payload[OF inv(1) i(1)])
  obtain h where h: "f_header (os_files s ! i) = Some h" using live_handle_file[OF inv] ms(1) by auto
  let ?s2 = "?s1\<lparr>os_files := (os_files ?s1)[i := (os_files ?s1 ! i)\<lparr>f_header := Some (UpdatedAt t c h)\<rparr>]\<rparr>"
  have up: "handle_UpdatedAt c t ms ?s1 = Some ?s2"
    by (rule UpdatedAt_effect) (use handle_inv_wf[OF inv1] ms(1) i(1) h in simp_all)
  have inv2: "handle_inv (smm_fd_map m) ls ?s2"
    by (rule handle_inv_header[OF inv1, of i h]) (use i(1) h in \<open>simp_all add: UpdatedAt_def\<close>)
  have lens: "map f_size (os_files ?s2) = map f_size (os_files s)"
    "map (length \<circ> f_payload) (os_files ?s2) = map (length \<circ> f_payload) (os_files s)"
    using i(1) buf by (simp_all add: map_update list_update_same_conv)
  have "smm_wf m ?s2" by (rule smm_wf_same[OF wf w inv2 _ _ lens]) simp_all
  moreover have "UpdateControlPeriod C c t d ms s = Some (kOk, ?s2)"
    using d wr up by (simp add: UpdateControlPeriod_def)
  ultimately show thesis using inv2 i(1) by (intro that[of ?s2]) simp_all
qed

text \<open>The servers.\<close>

definition trigger_names :: "server_id \<Rightarrow> string set"
  where "trigger_names i = {server_name i @ kSemRequestSuffix, server_name i @ kSemResponseSuffix}"

lemma trigger_names_ok:
  "VerifyName (server_name i @ kSemRequestSuffix) = kOk" "VerifyName (server_name i @ kSemResponseSuffix) = kOk"
  by (cases i; simp add: VerifyName_def kSemRequestSuffix_def kSemResponseSuffix_def kMaxSegmentStringSize_def)+

lemma trigger_names_disjoint: "i \<noteq> j \<Longrightarrow> trigger_names i \<inter> trigger_names j = {}"
  by (cases i; cases j) (simp_all add: trigger_names_def kSemRequestSuffix_def kSemResponseSuffix_def)

lemma move_idle_server:
  assumes "\<not> rts_is_running sv" "\<not> rts_joinable sv"
  shows "RemoteTriggerServer_move True sv = Some (sv, moved_from sv)" "RemoteTriggerServer_destroy env True (moved_from sv) s = Some s"
  using assms by (simp_all add: RemoteTriggerServer_move_def RequestStop_def JoinAsyncThread_def RemoteTriggerServer_destroy_def
      moved_from_def MemorySegment_default_def CleanUpSharedMemory_def)

lemma connect_servers_ok:
  assumes "os_wf s" "smm_wf (hmr_shared_memory_manager rt) s" "handle_inv (smm_fd_map (hmr_shared_memory_manager rt)) ls s"
    and "length ls + 2 * length is < 2 ^ 31 - 2" "never_fails env"
    and "length (smm_segments (hmr_shared_memory_manager rt)) + 2 * length is \<le> kMaxNumberOfSegments" "distinct is"
    and "\<And>i. i \<in> set is \<Longrightarrow> trigger_names i \<inter> fst ` set (smm_segments (hmr_shared_memory_manager rt)) = {}"
  shows "\<exists>m' servers' s'. connect_servers env is rt s = Some (kOk, rt\<lparr>hmr_shared_memory_manager := m', hmr_servers := servers'\<rparr>, s')
    \<and> smm_wf m' s' \<and> (\<exists>ls'. handle_inv (smm_fd_map m') (ls' @ ls) s')
    \<and> fst ` set (smm_segments m') = fst ` set (smm_segments (hmr_shared_memory_manager rt)) \<union> (\<Union>i\<in>set is. trigger_names i)
    \<and> (\<forall>i \<in> set is. \<exists>sv. servers' i = Some sv \<and> \<not> rts_is_running sv \<and> \<not> rts_joinable sv \<and> rts_callback sv = Some i)
    \<and> (\<forall>i. i \<notin> set is \<longrightarrow> servers' i = hmr_servers rt i)
    \<and> (\<forall>b j. map_of (os_maps s) b = Some j \<longrightarrow> map_of (os_maps s') b = Some j)
    \<and> take (length (os_files s)) (map f_payload (os_files s')) = map f_payload (os_files s)"
  using assms
proof (induction "is" arbitrary: rt s ls)
  case Nil
  then show ?case by (intro exI[of _ "hmr_shared_memory_manager rt"] exI[of _ "hmr_servers rt"] exI[of _ s]) (auto intro: exI[of _ "[]"])
next
  case (Cons i "is")
  let ?m = "hmr_shared_memory_manager rt"
  have len: "length ls < 2 ^ 31 - 2" and room: "length (smm_segments ?m) + 1 < kMaxNumberOfSegments" using Cons.prems(4,6) by simp_all
  have new: "server_name i @ kSemRequestSuffix \<notin> fst ` set (smm_segments ?m)" "server_name i @ kSemResponseSuffix \<notin> fst ` set (smm_segments ?m)"
    using Cons.prems(8)[of i] by (auto simp: trigger_names_def)
  obtain sv m1 s1 where k: "RemoteTriggerServer_Create env (server_name i) i ?m s = Some (Inr sv, m1, s1)"
    "\<not> rts_is_running sv" "\<not> rts_joinable sv" "rts_callback sv = Some i"
    "handle_inv (smm_fd_map m1) (rts_response_futex sv # rts_request_futex sv # ls) s1" "smm_wf m1 s1"
    "map f_payload (os_files s1) = map f_payload (os_files s)
       @ [encode_BinaryFutex (BinaryFutex_new False False), encode_BinaryFutex (BinaryFutex_new False False)]"
    "\<And>b j. map_of (os_maps s) b = Some j \<Longrightarrow> map_of (os_maps s1) b = Some j"
    "fst ` set (smm_segments m1) = fst ` set (smm_segments ?m) \<union> trigger_names i" "length (smm_segments m1) = length (smm_segments ?m) + 2"
    by (rule trigger_create[OF Cons.prems(1-3) len Cons.prems(5) room trigger_names_ok new, of i]) (unfold trigger_names_def, blast)
  let ?rt = "rt\<lparr>hmr_shared_memory_manager := m1, hmr_servers := (hmr_servers rt)(i := Some sv)\<rparr>"
  let ?ls = "rts_response_futex sv # rts_request_futex sv # ls"
  have disj: "trigger_names j \<inter> fst ` set (smm_segments m1) = {}" if "j \<in> set is" for j
    using Cons.prems(7) Cons.prems(8)[of j] that trigger_names_disjoint[of j i] by (auto simp: k(9))
  have "\<exists>m' servers' s'. connect_servers env is ?rt s1 = Some (kOk, ?rt\<lparr>hmr_shared_memory_manager := m', hmr_servers := servers'\<rparr>, s')
    \<and> smm_wf m' s' \<and> (\<exists>ls'. handle_inv (smm_fd_map m') (ls' @ ?ls) s')
    \<and> fst ` set (smm_segments m') = fst ` set (smm_segments (hmr_shared_memory_manager ?rt)) \<union> (\<Union>i\<in>set is. trigger_names i)
    \<and> (\<forall>i \<in> set is. \<exists>sv. servers' i = Some sv \<and> \<not> rts_is_running sv \<and> \<not> rts_joinable sv \<and> rts_callback sv = Some i)
    \<and> (\<forall>i. i \<notin> set is \<longrightarrow> servers' i = hmr_servers ?rt i)
    \<and> (\<forall>b j. map_of (os_maps s1) b = Some j \<longrightarrow> map_of (os_maps s') b = Some j)
    \<and> take (length (os_files s1)) (map f_payload (os_files s')) = map f_payload (os_files s1)"
    using Cons.prems(4-7) k(5,6,10) disj handle_inv_wf[OF k(5)] by (intro Cons.IH) simp_all
  then obtain m' servers' s' where r: "connect_servers env is ?rt s1 = Some (kOk, ?rt\<lparr>hmr_shared_memory_manager := m', hmr_servers := servers'\<rparr>, s')"
    "smm_wf m' s'" "\<exists>ls'. handle_inv (smm_fd_map m') (ls' @ ?ls) s'"
    "fst ` set (smm_segments m') = fst ` set (smm_segments m1) \<union> (\<Union>i\<in>set is. trigger_names i)"
    "\<forall>i \<in> set is. \<exists>sv. servers' i = Some sv \<and> \<not> rts_is_running sv \<and> \<not> rts_joinable sv \<and> rts_callback sv = Some i"
    "\<forall>j. j \<notin> set is \<longrightarrow> servers' j = ((hmr_servers rt)(i := Some sv)) j"
    "\<forall>b j. map_of (os_maps s1) b = Some j \<longrightarrow> map_of (os_maps s') b = Some j"
    "take (length (os_files s1)) (map f_payload (os_files s')) = map f_payload (os_files s1)" by auto
  show ?case
  proof (intro exI conjI)
    show "connect_servers env (i # is) rt s = Some (kOk, rt\<lparr>hmr_shared_memory_manager := m', hmr_servers := servers'\<rparr>, s')"
      using k(1) r(1) move_idle_server[OF k(2,3)] by simp
    show "handle_inv (smm_fd_map m') ((SOME ls'. handle_inv (smm_fd_map m') (ls' @ ls) s') @ ls) s'"
      using r(3) by (metis append_Cons append_Nil append_assoc someI_ex)
    show "\<forall>j \<in> set (i # is). \<exists>sv. servers' j = Some sv \<and> \<not> rts_is_running sv \<and> \<not> rts_joinable sv \<and> rts_callback sv = Some j"
      using r(5,6) k(2-4) by (metis fun_upd_same set_ConsD)
    show "\<forall>j. j \<notin> set (i # is) \<longrightarrow> servers' j = hmr_servers rt j" using r(6) by simp
    show "take (length (os_files s)) (map f_payload (os_files s')) = map f_payload (os_files s)"
    proof -
      have "length (os_files s1) = length (os_files s) + 2" using arg_cong[OF k(7), of length] by simp
      then show ?thesis using arg_cong[OF r(8), of "take (length (os_files s))"] k(7) by (simp add: min_def)
    qed
  qed (use r(2,4,7) k(8,9) in auto)
qed

text \<open>The three interfaces of the runtime are advertised, and the control period is written.\<close>

definition interfaces_ok :: "'w runtime_env \<Rightarrow> int \<Rightarrow> bool"
  where "interfaces_ok env control_period \<longleftrightarrow> fits (re_state_type env) (re_state_buffer env)
    \<and> fits (re_icon_type env) (BuildIconState (re_icon_finish env))
    \<and> fits (re_period_type env) (BuildControlPeriod (re_period_finish env))
    \<and> hms_code (it_root (re_state_type env) (re_state_buffer env)) = kDeactivated
    \<and> length (it_mutate (re_period_type env) control_period (BuildControlPeriod (re_period_finish env)))
        = length (BuildControlPeriod (re_period_finish env))"

definition interface_names :: "string set"
  where "interface_names = {kHardwareModuleStateName, kIconStateInterfaceName, kControlPeriodInterfaceName}"

lemma interface_names_ok:
  "VerifyName kHardwareModuleStateName = kOk" "VerifyName kIconStateInterfaceName = kOk" "VerifyName kControlPeriodInterfaceName = kOk"
  "kIconStateInterfaceName \<noteq> kHardwareModuleStateName" "kControlPeriodInterfaceName \<noteq> kHardwareModuleStateName"
  "kControlPeriodInterfaceName \<noteq> kIconStateInterfaceName" "trigger_names i \<inter> interface_names = {}"
  by (simp_all add: kHardwareModuleStateName_def kIconStateInterfaceName_def kControlPeriodInterfaceName_def VerifyName_def
      kMaxSegmentStringSize_def)
    (cases i; simp add: trigger_names_def interface_names_def kSemRequestSuffix_def kSemResponseSuffix_def
      kHardwareModuleStateName_def kIconStateInterfaceName_def kControlPeriodInterfaceName_def)

lemma connect_interfaces:
  assumes wf: "os_wf s" "smm_wf m s" and inv: "handle_inv (smm_fd_map m) [] s" and sys: "never_fails (re_sys env)"
    and empty: "smm_segments m = []" and period: "0 < control_period" and ok: "interfaces_ok env control_period"
  obtains a b c h m' s' where
    "Connect env control_period w (HardwareModuleRuntime_new m d) s =
      connect_servers (re_sys env) all_servers ((HardwareModuleRuntime_new m d)\<lparr>hmr_shared_memory_manager := m',
        hmr_callback_handler := Some h, hmr_state_interface := a, hmr_icon_state_interface := b, hmr_control_period_interface := c\<rparr>) s'"
    "sound {} False h" "ch_state_code h = kDeactivated" "smm_wf m' s'" "handle_inv (smm_fd_map m') [c, b, a] s'"
    "fst ` set (smm_segments m') = interface_names" "length (smm_segments m') = 3"
    "map_of (os_maps s') (ms_header c) = Some (length (os_files s) + 2)" "ms_value c = ms_header c + sizeof_SegmentHeader" "ms_value a = ms_header a + sizeof_SegmentHeader"
    "length (os_files s') = length (os_files s) + 3"
    "f_payload (os_files s' ! (length (os_files s) + 2)) = it_mutate (re_period_type env) control_period (BuildControlPeriod (re_period_finish env))"
proof -
  let ?n1 = kHardwareModuleStateName and ?n2 = kIconStateInterfaceName and ?n3 = kControlPeriodInterfaceName
  let ?b2 = "BuildIconState (re_icon_finish env)" and ?b3 = "BuildControlPeriod (re_period_finish env)"
  let ?T1 = "re_state_type env" and ?T2 = "re_icon_type env" and ?T3 = "re_period_type env" and ?e = "re_sys env"
  let ?get = "\<lambda>kind T. TypedMemorySegment_Get kind ?e (it_sizeof T)" and ?check = "check_segment ?e"
  note N = interface_names_ok
  have fits: "fits ?T1 (re_state_buffer env)" "fits ?T2 ?b2" "fits ?T3 ?b3" using ok by (simp_all add: interfaces_ok_def)
  obtain m1 t1 a s1 where a: "AdvertiseInterfaceT ?e ?n1 False (re_state_buffer env) (it_type_string ?T1) m s = Some (kOk, m1, t1)"
    "?get kReadWrite ?T1 (smm_fd_map m1) ?n1 t1 = Some (Inr a, s1)" "?check ?T1 a s1 = Some (Inr a, s1)"
    "os_wf s1" "smm_wf m1 s1" "handle_inv (smm_fd_map m1) [a] s1" "fst ` set (smm_segments m1) = {?n1}" "length (smm_segments m1) = 1"
    "map_of (os_maps s1) (ms_header a) = Some (length (os_files s))" "ms_value a = ms_header a + sizeof_SegmentHeader"
    "map f_payload (os_files s1) = map f_payload (os_files s) @ [re_state_buffer env]"
    by (rule advertise_ok[OF wf inv _ sys fits(1) N(1) _ _ disjI2[OF refl]]) (simp_all add: empty kMaxNumberOfSegments_def)
  have p1: "load_payload (ms_value a) s1 = Some (re_state_buffer env)"
  proof -
    have "length (os_files s1) = Suc (length (os_files s))" using arg_cong[OF a(11), of length] by simp
    then show ?thesis using arg_cong[OF a(11), of "\<lambda>xs. xs ! length (os_files s)"] a(9,10)
      by (simp add: load_payload_def mapped_file_wf[OF a(4)] nth_append)
  qed
  obtain h where h: "CallbackHandler_new (re_module env) (it_root ?T1 (re_state_buffer env)) w = Some h" "sound {} False h" "ch_state_code h = kDeactivated"
    using CallbackHandler_new_sound[of "it_root ?T1 (re_state_buffer env)" "re_module env" w] ok by (auto simp: interfaces_ok_def)
  obtain m2 t2 b s2 where b: "AdvertiseInterfaceT ?e ?n2 False ?b2 (it_type_string ?T2) m1 s1 = Some (kOk, m2, t2)"
    "?get kReadOnly ?T2 (smm_fd_map m2) ?n2 t2 = Some (Inr b, s2)" "?check ?T2 b s2 = Some (Inr b, s2)"
    "os_wf s2" "smm_wf m2 s2" "handle_inv (smm_fd_map m2) [b, a] s2" "fst ` set (smm_segments m2) = {?n2, ?n1}" "length (smm_segments m2) = 2"
    "map f_payload (os_files s2) = map f_payload (os_files s1) @ [?b2]"
    by (rule advertise_ok[OF a(4-6) _ sys fits(2) N(2) _ _ disjI1[OF refl]]) (use a(7,8) N(4) in \<open>simp_all add: kMaxNumberOfSegments_def\<close>)
  obtain m3 t3 c s3 where c: "AdvertiseInterfaceT ?e ?n3 False ?b3 (it_type_string ?T3) m2 s2 = Some (kOk, m3, t3)"
    "?get kReadWrite ?T3 (smm_fd_map m3) ?n3 t3 = Some (Inr c, s3)" "?check ?T3 c s3 = Some (Inr c, s3)"
    "os_wf s3" "smm_wf m3 s3" "handle_inv (smm_fd_map m3) [c, b, a] s3" "fst ` set (smm_segments m3) = {?n3, ?n2, ?n1}" "length (smm_segments m3) = 3"
    "map_of (os_maps s3) (ms_header c) = Some (length (os_files s2))" "ms_value c = ms_header c + sizeof_SegmentHeader"
    "map f_payload (os_files s3) = map f_payload (os_files s2) @ [?b3]"
    by (rule advertise_ok[OF b(4-6) _ sys fits(3) N(3) _ _ disjI2[OF refl]]) (use b(7,8) N(5,6) in \<open>simp_all add: kMaxNumberOfSegments_def\<close>)
  have len: "length (os_files s2) = length (os_files s) + 2" "length (os_files s3) = length (os_files s) + 3"
    using arg_cong[OF a(11), of length] arg_cong[OF b(9), of length] arg_cong[OF c(11), of length] by simp_all
  have p3: "f_payload (os_files s3 ! length (os_files s2)) = ?b3"
    using arg_cong[OF c(11), of "\<lambda>xs. xs ! length (os_files s2)"] len by (simp add: nth_append)
  have mut: "length (it_mutate ?T3 control_period ?b3) = length ?b3" using ok by (simp add: interfaces_ok_def)
  have mem: "c \<in> set [c, b, a]" by simp
  obtain s4 where u: "UpdateControlPeriod ?T3 (re_cycle env) (re_now env) control_period c s3 = Some (kOk, s4)"
    "handle_inv (smm_fd_map m3) [c, b, a] s4" "smm_wf m3 s4" "os_maps s4 = os_maps s3" "length (os_files s4) = length (os_files s3)"
    "f_payload (os_files s4 ! length (os_files s2)) = it_mutate ?T3 control_period ?b3"
    by (rule update_period_ok[OF c(5,6) mem c(9,10) p3 mut period, of "re_cycle env" "re_now env"]) blast
  have "Connect env control_period w (HardwareModuleRuntime_new m d) s =
      connect_servers ?e all_servers ((HardwareModuleRuntime_new m d)\<lparr>hmr_shared_memory_manager := m3,
        hmr_callback_handler := Some h, hmr_state_interface := a, hmr_icon_state_interface := b, hmr_control_period_interface := c\<rparr>) s4"
    using a(1-3) b(1-3) c(1-3) h(1) p1 u(1) period
    by (simp add: Connect_def AdvertiseMutableInterface_def AdvertiseInterface_def GetMutableInterfaceHandle_manager_def
        GetInterfaceHandle_manager_def GetMutableInterfaceHandle_def GetInterfaceHandle_def ReadWriteMemorySegment_Get_def
        ReadOnlyMemorySegment_Get_def HardwareModuleRuntime_new_def handle_read_def Let_def)
  then show thesis
    by (rule that) (use h u a(10) c len in \<open>auto simp: interface_names_def add.commute\<close>)
qed

text \<open>C13: Connecting a runtime to a manager with room for its 21 segments succeeds: the three interfaces and
  the two futexes of each of the nine servers are there under their names, the control period can be read, the
  callback handler is in \<open>kDeactivated\<close>, and all servers wait to be started.\<close>
theorem runtime_connects:
  assumes wf: "os_wf s" "smm_wf m s" and inv: "handle_inv (smm_fd_map m) [] s" and sys: "never_fails (re_sys env)"
    and empty: "smm_segments m = []" and period: "0 < control_period" and ok: "interfaces_ok env control_period"
  shows "\<exists>rt s' h. Connect env control_period w (HardwareModuleRuntime_new m d) s = Some (kOk, rt, s')
    \<and> idle rt \<and> (\<forall>i. \<exists>sv. hmr_servers rt i = Some sv \<and> rts_callback sv = Some i)
    \<and> hmr_callback_handler rt = Some h \<and> sound {} False h \<and> ch_state_code h = kDeactivated
    \<and> hmr_domain_socket_server rt = Some d \<and> smm_wf (hmr_shared_memory_manager rt) s'
    \<and> fst ` set (smm_segments (hmr_shared_memory_manager rt)) = interface_names \<union> (\<Union>i. trigger_names i)
    \<and> handle_read (re_period_type env) (hmr_control_period_interface rt) s' =
        Some (it_root (re_period_type env) (it_mutate (re_period_type env) control_period (BuildControlPeriod (re_period_finish env))))"
proof -
  obtain a b c h m1 s1 where k: "Connect env control_period w (HardwareModuleRuntime_new m d) s =
      connect_servers (re_sys env) all_servers ((HardwareModuleRuntime_new m d)\<lparr>hmr_shared_memory_manager := m1,
        hmr_callback_handler := Some h, hmr_state_interface := a, hmr_icon_state_interface := b, hmr_control_period_interface := c\<rparr>) s1"
    "sound {} False h" "ch_state_code h = kDeactivated" "smm_wf m1 s1" "handle_inv (smm_fd_map m1) [c, b, a] s1"
    "fst ` set (smm_segments m1) = interface_names" "length (smm_segments m1) = 3"
    "map_of (os_maps s1) (ms_header c) = Some (length (os_files s) + 2)" "ms_value c = ms_header c + sizeof_SegmentHeader" "ms_value a = ms_header a + sizeof_SegmentHeader"
    "length (os_files s1) = length (os_files s) + 3"
    "f_payload (os_files s1 ! (length (os_files s) + 2)) = it_mutate (re_period_type env) control_period (BuildControlPeriod (re_period_finish env))"
    by (rule connect_interfaces[OF wf inv sys empty period ok, of w d])
  let ?rt = "(HardwareModuleRuntime_new m d)\<lparr>hmr_shared_memory_manager := m1,
        hmr_callback_handler := Some h, hmr_state_interface := a, hmr_icon_state_interface := b, hmr_control_period_interface := c\<rparr>"
  have all: "i \<in> set all_servers" for i by (cases i) (simp_all add: all_servers_def)
  have "\<exists>m' servers' s'. connect_servers (re_sys env) all_servers ?rt s1 = Some (kOk, ?rt\<lparr>hmr_shared_memory_manager := m', hmr_servers := servers'\<rparr>, s')
    \<and> smm_wf m' s' \<and> (\<exists>ls'. handle_inv (smm_fd_map m') (ls' @ [c, b, a]) s')
    \<and> fst ` set (smm_segments m') = fst ` set (smm_segments (hmr_shared_memory_manager ?rt)) \<union> (\<Union>i\<in>set all_servers. trigger_names i)
    \<and> (\<forall>i \<in> set all_servers. \<exists>sv. servers' i = Some sv \<and> \<not> rts_is_running sv \<and> \<not> rts_joinable sv \<and> rts_callback sv = Some i)
    \<and> (\<forall>i. i \<notin> set all_servers \<longrightarrow> servers' i = hmr_servers ?rt i)
    \<and> (\<forall>b j. map_of (os_maps s1) b = Some j \<longrightarrow> map_of (os_maps s') b = Some j)
    \<and> take (length (os_files s1)) (map f_payload (os_files s')) = map f_payload (os_files s1)"
    by (rule connect_servers_ok)
      (use handle_inv_wf[OF k(5)] k(4-7) sys interface_names_ok(7) in \<open>simp_all add: all_servers_def kMaxNumberOfSegments_def\<close>)
  then obtain m2 servers s2 where r: "connect_servers (re_sys env) all_servers ?rt s1 = Some (kOk, ?rt\<lparr>hmr_shared_memory_manager := m2, hmr_servers := servers\<rparr>, s2)"
    "smm_wf m2 s2" "\<exists>ls'. handle_inv (smm_fd_map m2) (ls' @ [c, b, a]) s2"
    "fst ` set (smm_segments m2) = interface_names \<union> (\<Union>i\<in>set all_servers. trigger_names i)"
    "\<forall>i \<in> set all_servers. \<exists>sv. servers i = Some sv \<and> \<not> rts_is_running sv \<and> \<not> rts_joinable sv \<and> rts_callback sv = Some i"
    "\<forall>b j. map_of (os_maps s1) b = Some j \<longrightarrow> map_of (os_maps s2) b = Some j"
    "take (length (os_files s1)) (map f_payload (os_files s2)) = map f_payload (os_files s1)"
    using k(6) by auto
  let ?rt2 = "?rt\<lparr>hmr_shared_memory_manager := m2, hmr_servers := servers\<rparr>" and ?i = "length (os_files s) + 2"
  obtain ls' where wf2: "os_wf s2" using r(3) handle_inv_wf by blast
  have "length (os_files s1) \<le> length (os_files s2)" using arg_cong[OF r(7), of length] by simp
  then have "f_payload (os_files s2 ! ?i) = f_payload (os_files s1 ! ?i)"
    using arg_cong[OF r(7), of "\<lambda>xs. xs ! ?i"] k(11) by simp
  then have "handle_read (re_period_type env) c s2 =
      Some (it_root (re_period_type env) (it_mutate (re_period_type env) control_period (BuildControlPeriod (re_period_finish env))))"
    using r(6)[rule_format, OF k(8)] k(9,12) by (simp add: handle_read_def load_payload_def mapped_file_wf[OF wf2])
  moreover have "idle ?rt2" using r(5) all by (auto simp: idle_def HardwareModuleRuntime_new_def)
  moreover have "\<Union> (trigger_names ` set all_servers) = (\<Union>i. trigger_names i)" using all by auto
  ultimately show ?thesis using k(1-3) r(1,2,4,5) all
    by (intro exI[of _ ?rt2] exI[of _ s2] exI[of _ h]) (auto simp: HardwareModuleRuntime_new_def)
qed

subsection \<open>Serving the descriptors\<close>

lemma handle_inv_calls [simp]: "handle_inv fm ls (s\<lparr>os_calls := n\<rparr>) = handle_inv fm ls s"
  by (simp add: handle_inv_def refs_def)

lemma smm_wf_calls [simp]: "smm_wf m (s\<lparr>os_calls := n\<rparr>) = smm_wf m s"
proof -
  have "seg_file (s\<lparr>os_calls := n\<rparr>) = seg_file s" by (rule ext) (simp add: seg_file_def)
  then show ?thesis by (simp add: smm_wf_def seg_ok_def)
qed

lemma serve_ok:
  assumes wf: "os_wf s" "smm_wf m s" and inv: "handle_inv (smm_fd_map m) ls s" and env: "never_fails env"
    and order: "mset (order (smm_segments m)) = mset (smm_segments m)" "\<And>fm. mset (fd_order fm) = mset fm"
    and new: "kModuleInfoName \<notin> fst ` set (smm_segments m)" and room: "length (smm_segments m) < kMaxNumberOfSegments"
    and d: "\<not> dss_request_handler d" and rlim: "Suc (length (smm_segments m)) < rlim"
  obtains m' d' s' v where
    "AddSegmentInfoServeShmDescriptors order fd_order env rlim True m d s = Some (kOk, m', d', s')"
    "os_wf s'" "smm_wf m' s'" "handle_inv (smm_fd_map m') ls s'" "dss_request_handler d'"
    "PrepareMessages (dss_protocol_version d) (fd_order (smm_fd_map m')) = Inr (dss_messages d')"
    "fst ` set (smm_segments m') = insert kModuleInfoName (fst ` set (smm_segments m))"
    "length (smm_segments m') = Suc (length (smm_segments m))"
    "\<And>n i. names_file m n s i \<Longrightarrow> names_file m' n s' i" "map f_payload (os_files s') = map f_payload (os_files s) @ [v]"
    "map f_size (os_files s') = map f_size (os_files s) @ [sizeof_SegmentHeader + length v]"
    "\<And>b j. map_of (os_maps s) b = Some j \<Longrightarrow> map_of (os_maps s') b = Some j" "take (length (os_files s)) (os_files s') = os_files s"
proof -
  have "length (order (smm_segments m)) \<le> kMaxNumberOfSegments" using mset_eq_length[OF order(1)] room by simp
  then obtain info where info: "GetSegmentInfo order m = Some info"
    using fill_names_eq[of 0 "order (smm_segments m)" "replicate kMaxNumberOfSegments SegmentName_default"]
    by (simp add: GetSegmentInfo_def SegmentInfoFromHashMap_def)
  have ok: "rejects kModuleInfoName kModuleInfoName m = kOk"
    using new room by (simp add: rejects_def kModuleInfoName_def VerifyName_def kMaxSegmentStringSize_def kMaxSize_def)
  let ?v = "encode_SegmentInfo info"
  obtain m' s1 where a: "AddSegment env kModuleInfoName False ?v kModuleInfoName m s = Some (kOk, m', s1)"
    "os_wf s1" "smm_wf m' s1" "handle_inv (smm_fd_map m') ls s1"
    "fst ` set (smm_segments m') = insert kModuleInfoName (fst ` set (smm_segments m))"
    "length (smm_segments m') = Suc (length (smm_segments m))"
    "map f_payload (os_files s1) = map f_payload (os_files s) @ [?v]"
    "map f_size (os_files s1) = map f_size (os_files s) @ [sizeof_SegmentHeader + length ?v]"
    "\<And>b j. map_of (os_maps s) b = Some j \<Longrightarrow> map_of (os_maps s1) b = Some j" "\<And>n i. names_file m n s i \<Longrightarrow> names_file m' n s1 i"
    "take (length (os_files s)) (os_files s1) = os_files s"
    by (rule add_named[OF wf inv env ok, of False ?v]) blast
  let ?fm = "fd_order (smm_fd_map m')"
  have len: "length ?fm = Suc (length (smm_segments m))"
    using mset_eq_length[OF order(2)[of "smm_fd_map m'"]] a(3,6) by (simp add: smm_wf_def)
  then have "?fm \<noteq> []" by auto
  then obtain msgs where msgs: "PrepareMessages (dss_protocol_version d) ?fm = Inr msgs" by (simp add: PrepareMessages_eq)
  let ?d = "d\<lparr>dss_messages := msgs, dss_request_handler := True\<rparr>" and ?s = "s1\<lparr>os_calls := os_calls s1 + 2\<rparr>"
  have "ServeShmDescriptors env rlim True ?fm d s1 = (kOk, ?d, ?s)"
    using env d rlim len msgs by (simp add: ServeShmDescriptors_def sys_call_def never_fails_def)
  then have "AddSegmentInfoServeShmDescriptors order fd_order env rlim True m d s = Some (kOk, m', ?d, ?s)"
    using info a(1) by (simp add: AddSegmentInfoServeShmDescriptors_def)
  then show thesis by (rule that) (use a msgs in \<open>simp_all add: names_file_def\<close>)
qed

subsection \<open>A runtime in operation\<close>

definition demo_type :: "string \<Rightarrow> (u8 list \<Rightarrow> 'a) \<Rightarrow> ('a \<Rightarrow> u8 list \<Rightarrow> u8 list) \<Rightarrow> 'a interface_type"
  where "demo_type name root mutate = \<lparr>it_type_string = name, it_sizeof = 8, it_is_table = False, it_verify = (\<lambda>_. True),
    it_root = root, it_mutate = mutate\<rparr>"

text \<open>A runtime whose system calls succeed and whose module answers \<open>Init\<close> with a status.\<close>

definition demo_env :: "Status \<Rightarrow> nat runtime_env"
  where "demo_env init_status =
    \<lparr>re_sys = ok_env, re_module = fine_module, re_Init = (\<lambda>w m s. Some (init_status, w, m, s)), re_Shutdown = (\<lambda>w. (OkStatus, w)),
     re_state_type = demo_type ''state'' (\<lambda>_. HardwareModuleState_default) (\<lambda>_ bs. bs),
     re_icon_type = demo_type ''icon'' (\<lambda>bs. int (le_value bs)) (\<lambda>_ bs. bs),
     re_period_type = demo_type ''period'' (\<lambda>bs. int (le_value bs)) (\<lambda>d _. le_bytes 8 (nat d)),
     re_state_buffer = replicate 8 0, re_icon_finish = (\<lambda>_. replicate 8 0), re_period_finish = (\<lambda>d. le_bytes 8 (nat d)),
     re_cycle = 0, re_now = 0, re_order = id, re_fd_order = id, re_rlim_cur = 1024, re_serving = True,
     re_thread_starts = (\<lambda>_. True), re_thread_ends = (\<lambda>_. True)\<rparr>"

definition demo_server :: DomainSocketServer
  where "demo_server = DomainSocketServer_new ''/tmp/arm.sock'' ''/tmp/arm.lock'' 5 6 2"

lemma demo_interfaces: "interfaces_ok (demo_env st) 4000000"
  by (simp add: interfaces_ok_def fits_def demo_env_def demo_type_def BuildIconState_def BuildControlPeriod_def kMaxSize_def
      HardwareModuleState_default_def)

lemma empty_inv: "handle_inv (smm_fd_map empty_manager) [] os_init"
  by (simp add: handle_inv_def os_wf_init) (simp add: os_init_def empty_manager_def)

theorem runtime_connects_witness:
  "\<exists>rt s'. Connect (demo_env OkStatus) 4000000 0 (HardwareModuleRuntime_new empty_manager demo_server) os_init = Some (kOk, rt, s')
    \<and> idle rt \<and> handle_read (re_period_type (demo_env OkStatus)) (hmr_control_period_interface rt) s' = Some 4000000"
proof -
  have sys: "never_fails (re_sys (demo_env OkStatus))" using ok_env_never_fails by (simp add: demo_env_def)
  have pre: "smm_segments empty_manager = []" "0 < (4000000 :: int)" by (simp_all add: empty_manager_def)
  have "it_root (re_period_type (demo_env OkStatus)) (it_mutate (re_period_type (demo_env OkStatus)) 4000000
      (BuildControlPeriod (re_period_finish (demo_env OkStatus)))) = 4000000"
    by (simp add: demo_env_def demo_type_def)
  with runtime_connects[OF os_wf_init empty_manager_wf empty_inv sys pre demo_interfaces[of OkStatus], of 0 demo_server]
  show ?thesis by auto
qed

text \<open>A connected runtime by hand, with servers that have no segments.\<close>

definition demo_runtime :: "nat CallbackHandler \<Rightarrow> nat HardwareModuleRuntime"
  where "demo_runtime h = (HardwareModuleRuntime_new empty_manager demo_server)\<lparr>hmr_callback_handler := Some h,
    hmr_servers := (\<lambda>i. Some (RemoteTriggerServer_new (server_name i) MemorySegment_default MemorySegment_default i))\<rparr>"

lemma demo_runtime_idle: "idle (demo_runtime h)" "connected (demo_runtime h)" "hmr_callback_handler (demo_runtime h) = Some h"
  "hmr_domain_socket_server (demo_runtime h) = Some demo_server"
  by (simp_all add: idle_def connected_def demo_runtime_def HardwareModuleRuntime_new_def RemoteTriggerServer_new_def)

lemma demo_threads: "re_thread_starts (demo_env st) t" "re_thread_ends (demo_env st) t"
  by (simp_all add: demo_env_def)

lemma demo_serves:
  obtains m1 d1 s2 where "AddSegmentInfoServeShmDescriptors (re_order (demo_env st)) (re_fd_order (demo_env st)) (re_sys (demo_env st))
    (re_rlim_cur (demo_env st)) (re_serving (demo_env st)) empty_manager demo_server os_init = Some (kOk, m1, d1, s2)"
  by (rule serve_ok[OF os_wf_init empty_manager_wf empty_inv ok_env_never_fails, of id id demo_server 1024])
    (auto simp: demo_env_def empty_manager_def kMaxNumberOfSegments_def demo_server_def DomainSocketServer_new_def)


theorem run_starts_runtime_witness:
  "\<exists>h rt' s2. Run (demo_env OkStatus) undisturbed True [2, 3] (demo_runtime h) os_init = Some (kOk, rt', s2) \<and> IsStarted rt'
    \<and> hmr_threads rt' = runtime_threads True [2, 3]"
proof -
  obtain h :: "nat CallbackHandler" where h: "sound {} False h" by (rule handler_in_state)
  obtain m1 d1 s2 where s: "AddSegmentInfoServeShmDescriptors (re_order (demo_env OkStatus)) (re_fd_order (demo_env OkStatus)) (re_sys (demo_env OkStatus))
    (re_rlim_cur (demo_env OkStatus)) (re_serving (demo_env OkStatus)) empty_manager demo_server os_init = Some (kOk, m1, d1, s2)"
    by (rule demo_serves)
  have i: "re_Init (demo_env OkStatus) (ch_world h) (hmr_shared_memory_manager (demo_runtime h)) os_init
      = Some (OkStatus, ch_world h, empty_manager, os_init)" "status_ok OkStatus"
    by (simp_all add: demo_env_def demo_runtime_def HardwareModuleRuntime_new_def status_ok_def OkStatus_def)
  from run_starts_runtime[OF demo_runtime_idle(1) demo_threads(1)[of OkStatus] demo_runtime_idle(3,4) i s, of True "[2, 3]"]
  show ?thesis by blast
qed

theorem failed_init_stops_restart_server_witness:
  "\<exists>h rt' h' sv s2. Run (demo_env (FormatStatus kUnavailable ''no device'')) undisturbed False [] (demo_runtime h) os_init
      = Some (kUnavailable, rt', s2)
    \<and> hmr_callback_handler rt' = Some h' \<and> hms_code (ch_shm_state h') = kInitFailed
    \<and> hmr_servers rt' Srv_restart = Some sv \<and> \<not> rts_is_running sv"
proof -
  let ?st = "FormatStatus kUnavailable ''no device''" and ?e = "demo_env (FormatStatus kUnavailable ''no device'')"
  obtain h :: "nat CallbackHandler" where h: "sound {} False h" "ch_state_code h = kDeactivated" by (rule handler_in_state)
  obtain m1 d1 s2 where s: "AddSegmentInfoServeShmDescriptors (re_order ?e) (re_fd_order ?e) (re_sys ?e)
    (re_rlim_cur ?e) (re_serving ?e) empty_manager demo_server os_init = Some (kOk, m1, d1, s2)"
    by (rule demo_serves)
  have i: "re_Init ?e (ch_world h) (hmr_shared_memory_manager (demo_runtime h)) os_init
      = Some (?st, ch_world h, empty_manager, os_init)" "\<not> status_ok ?st" "code ?st = kUnavailable"
    by (simp_all add: demo_env_def demo_runtime_def HardwareModuleRuntime_new_def status_ok_def FormatStatus_def)
  from failed_init_stops_restart_server[OF demo_runtime_idle(1) demo_threads[of ?st] demo_runtime_idle(3) h demo_runtime_idle(4) i(1,2) s, of False "[]"] i(3)
  show ?thesis by auto
qed

theorem restart_decides_on_unread_state_witness:
  "\<exists>h s1 rt' h' p'. ch_state_code h = kMotionEnabled \<and> seen_state h = kMotionEnabled
    \<and> DomainSocketServer_destroy ok_env demo_server os_init = Some s1
    \<and> restart_callback (demo_env OkStatus) (Some SharedPromiseWrapper_new) (demo_runtime h) os_init = Some (Some p', rt', os_init)
    \<and> hmr_callback_handler rt' = Some h' \<and> ch_state_code h' = kMotionEnabled
    \<and> (\<exists>rt'' p''. restart_callback (demo_env OkStatus) (Some p') rt' os_init = Some (Some p'', rt'', s1)
          \<and> spw_future p'' = Some kRestartRequested)"
proof -
  obtain h0 :: "nat CallbackHandler" where h0: "sound {} False h0" "ch_state_code h0 = kMotionEnabled" by (rule handler_in_state)
  let ?h = "h0\<lparr>ch_state_buffer := \<lparr>ab_state = State_default\<lparr>mailbox_full := True\<rparr>, ab_free_buffer_checked_out = False,
    ab_buffers = replicate 3 (SetState kMotionEnabled [] HardwareModuleState_default)\<rparr>\<rparr>"
  have sound: "sound {} False ?h"
    using h0 by (simp add: sound_def ch_wf_def buffer_ok_def coherent_def State_default_def IsConsistent_def ab_read_def SetState_def Let_def)
  have seen: "ch_state_code ?h = kMotionEnabled" "seen_state ?h = kMotionEnabled" using h0(2) by (simp_all add: seen_state_def)
  have "DomainSocketServer_destroy ok_env demo_server os_init \<noteq> None"
    using ok_env_never_fails
    by (simp add: DomainSocketServer_destroy_def sys_call_def never_fails_def demo_server_def DomainSocketServer_new_def)
  then obtain s1 where s1: "DomainSocketServer_destroy ok_env demo_server os_init = Some s1" by blast
  have d: "DomainSocketServer_destroy (re_sys (demo_env OkStatus)) demo_server os_init = Some s1" using s1 by (simp add: demo_env_def)
  have p: "\<not> HasBeenSet SharedPromiseWrapper_new" "spw_future SharedPromiseWrapper_new = None"
    by (simp_all add: SharedPromiseWrapper_new_def HasBeenSet_def)
  from restart_decides_on_unread_state[OF demo_runtime_idle(3) sound p demo_runtime_idle(4) d] seen s1 show ?thesis
    by (auto simp: exI[of _ ?h])
qed


end
