(* ===== verification/Module_Service.thy ===== *)
theory Module_Service
  imports Runtime_Props
begin

text \<open>
  A hardware module in service: what a client in another process gets from the domain socket of the module, and the
  thread of the runtime that turns requests of clients into state changes of the callback handler.
\<close>

subsection \<open>An interface between two processes\<close>

text \<open>Another process of the same machine: it shares the files and has no descriptors and no mappings yet.\<close>

definition fresh_process :: "os \<Rightarrow> os"
  where "fresh_process s = os_init\<lparr>os_files := os_files s\<rparr>"

lemma fresh_process_inv:
  assumes "handle_inv fm [] s"
  shows "os_wf (fresh_process s)" "handle_inv [] [] (fresh_process s)"
proof -
  show wf: "os_wf (fresh_process s)" by (simp add: fresh_process_def os_init_def os_wf_def)
  then show "handle_inv [] [] (fresh_process s)"
    using assms by (simp add: handle_inv_def fresh_process_def refs_def)
qed

text \<open>What the manager of a process reads through its own mapping when another process has changed the files.\<close>

lemma named_value:
  assumes wf: "os_wf s" "smm_wf m s" and n: "names_file m n s i" and fs: "length fs = length (os_files s)"
  shows "GetSegmentValue k n m (s\<lparr>os_files := fs\<rparr>) = Some (Some (take k (f_payload (fs ! i))))"
proof -
  obtain fd where fd: "map_of (smm_fd_map m) n = Some fd" "map_of (os_fds s) fd = Some (Memfd i)"
    using n by (auto simp: names_file_def)
  then obtain info where info: "map_of (smm_segments m) n = Some info" "msi_fd info = fd"
    using wf(2) by (auto simp: smm_wf_def map_of_map)
  then have "seg_ok s info" using wf(2) by (auto simp: smm_wf_def dest: map_of_SomeD)
  then have "map_of (os_maps s) (msi_data info) = Some i" "i < length (os_files s)" using info(2) fd(2) by (auto simp: seg_ok_def)
  moreover from os_wf_map[OF wf(1) this(1)] have "0 < msi_data info" by simp
  ultimately show ?thesis using info(1) fs
    by (simp add: GetSegmentValue_def GetRawValue_def GetRawSegment_def Let_def load_payload_def mapped_file_def)
qed

lemma fd_map_distinct: "smm_wf m s \<Longrightarrow> distinct (map fst (smm_fd_map m))"
  by (simp add: smm_wf_def comp_def case_prod_unfold)

lemma named_fd:
  assumes "smm_wf m s" "(n, fd) \<in> set (smm_fd_map m)"
  obtains i where "names_file m n s i" "map_of (os_fds s) fd = Some (Memfd i)" "map_of (smm_fd_map m) n = Some fd" "i < length (os_files s)"
proof -
  note d = fd_map_distinct[OF assms(1)]
  have "map_of (smm_fd_map m) n = Some fd" using d assms(2) by (rule map_of_is_SomeI)
  moreover obtain i where "map_of (os_fds s) fd = Some (Memfd i)" "i < length (os_files s)"
    using assms by (fastforce simp: smm_wf_def seg_ok_def)
  ultimately show thesis by (intro that[of i]) (auto simp: names_file_def)
qed

text \<open>The map in the order in which it is served.\<close>

lemma served_order:
  assumes wf: "smm_wf m s" and fm: "mset fm = mset (smm_fd_map m)" and names: "\<forall>n \<in> fst ` set (smm_segments m). no_nul n"
  shows "set fm = set (smm_fd_map m)" "length fm = length (smm_segments m)" "distinct (map fst fm)"
    "list_all (wire_ok \<circ> fst) fm" "length fm < 2 ^ 64"
proof -
  show s: "set fm = set (smm_fd_map m)" using fm by (rule mset_eq_setD)
  show l: "length fm = length (smm_segments m)" using mset_eq_length[OF fm] wf by (simp add: smm_wf_def)
  show "distinct (map fst fm)"
    using fd_map_distinct[OF wf] mset_eq_imp_distinct_iff[of "map fst fm" "map fst (smm_fd_map m)"] fm by simp
  show "list_all (wire_ok \<circ> fst) fm"
    using wf names s by (fastforce simp: list_all_iff wire_ok_def smm_wf_def VerifyName_def kMaxSegmentStringSize_def split: if_splits)
  show "length fm < 2 ^ 64" using wf l by (simp add: smm_wf_def kMaxNumberOfSegments_def)
qed

text \<open>A process that connects to a server gets a descriptor for the file of every segment of the manager.\<close>

lemma client_gets_segments:
  assumes wf: "os_wf s" "smm_wf m s" and inv: "handle_inv (smm_fd_map m) [] s"
    and m: "smm_segments m \<noteq> []" "\<forall>n \<in> fst ` set (smm_segments m). no_nul n" "mset served = mset (smm_fd_map m)"
    and msgs: "PrepareMessages kDomainSocketProtocolVersion served = Inr msgs" and sends: "sends_all sends"
    and env: "never_fails env" "AbsoluteSocketPath dir name = Inr path"
    and renv: "\<forall>i. re_chunk renv i \<noteq> None" "Suc (length (smm_segments m)) \<le> re_limit renv"
  obtains fm c where
    "GetSegmentNameToFileDescriptorMap env renv (serve_client sends 0 msgs s) dir name timeout (fresh_process s) = Some (Inr fm, c)"
    "handle_inv fm [] c" "os_files c = os_files s"
    "\<And>n i. names_file m n s i \<Longrightarrow> \<exists>fd. map_of fm n = Some fd \<and> map_of (os_fds c) fd = Some (Memfd i)"
proof -
  let ?m = served and ?T = "\<lambda>fd. the (map_of (os_fds s) fd)"
  let ?n = "length (chunks ?m)"
  note set = served_order(1)[OF wf(2) m(3,2)] and len = served_order(2)[OF wf(2) m(3,2)] and d = served_order(3)[OF wf(2) m(3,2)]
    and wire = served_order(4)[OF wf(2) m(3,2)] and small = served_order(5)[OF wf(2) m(3,2)]
  have ne: "?m \<noteq> []" using len m(1) by auto
  have n: "?n < 2 ^ 64" using length_chunks_le[of ?m] small by linarith
  have open': "\<forall>fd \<in> snd ` set (concat (chunks ?m)). map_of (os_fds s) fd = Some (?T fd)"
    unfolding concat_chunks set using named_fd[OF wf(2)] by force
  have "msgs = chunk_messages kDomainSocketProtocolVersion 1 ?n (chunks ?m)" using msgs ne by (simp add: PrepareMessages_eq)
  then have inc: "serve_client sends 0 msgs s = chunk_packets ?T 1 ?n (chunks ?m)"
    using serve_client_packets[OF sends n _ chunks_ok open', of 1 0] by simp
  note f = fresh_process_inv[OF inv]
  have fds0: "os_fds (fresh_process s) = []" "os_files (fresh_process s) = os_files s" by (simp_all add: fresh_process_def os_init_def)
  have lim: "Suc (length (os_fds (fresh_process s))) + length ?m \<le> re_limit renv" using renv(2) len fds0 by simp
  obtain fds c where g: "GetSegmentNameToFileDescriptorMap env renv (serve_client sends 0 msgs s) dir name timeout (fresh_process s)
      = Some (Inr (zip (map fst ?m) fds), c)" "length fds = length ?m"
    "\<And>x fd. (x, fd) \<in> set (zip ?m fds) \<Longrightarrow> map_of (os_fds c) fd = Some (?T (snd x))"
    "os_files c = os_files (fresh_process s)" "os_maps c = os_maps (fresh_process s)"
    "\<forall>x \<in> set ?m. fd_ok (length (os_files (fresh_process s))) (?T (snd x)) \<Longrightarrow> os_wf c"
    by (rule client_receives[OF env f(1) renv(1) lim ne d wire small inc]) blast
  let ?fm = "zip (map fst ?m) fds"
  have seg: "\<exists>n fd0 i. (n, fd0) = ?m ! k \<and> map_of ?fm n = Some (fds ! k) \<and> map_of (os_fds c) (fds ! k) = Some (Memfd i)
      \<and> names_file m n s i" if k: "k < length ?m" for k
  proof -
    obtain nm fd0 where x: "?m ! k = (nm, fd0)" by force
    then have "(nm, fd0) \<in> set (smm_fd_map m)" using nth_mem[OF k] set by metis
    then obtain i where i: "names_file m nm s i" "map_of (os_fds s) fd0 = Some (Memfd i)" by (rule named_fd[OF wf(2)]) blast
    have "map_of ?fm (map fst ?m ! k) = Some (fds ! k)" using d k g(2) by (intro map_of_zip_nth) simp_all
    moreover have "(?m ! k, fds ! k) \<in> set (zip ?m fds)" using k g(2) by (auto simp: in_set_zip)
    from g(3)[OF this] x i have "map_of (os_fds c) (fds ! k) = Some (Memfd i)" by simp
    ultimately show ?thesis using x k i by auto
  qed
  show thesis
  proof (rule that[OF g(1)])
    show "os_files c = os_files s" using g(4) fds0 by simp
    show "\<exists>fd. map_of ?fm nm = Some fd \<and> map_of (os_fds c) fd = Some (Memfd i)" if nm: "names_file m nm s i" for nm i
    proof -
      obtain fd0 where fd0: "map_of (smm_fd_map m) nm = Some fd0" using nm by (auto simp: names_file_def)
      then obtain k where k: "k < length ?m" "?m ! k = (nm, fd0)"
        using map_of_SomeD[OF fd0] unfolding set[symmetric] in_set_conv_nth by blast
      from seg[OF k(1)] k(2) obtain i' where i': "map_of ?fm nm = Some (fds ! k)" "map_of (os_fds c) (fds ! k) = Some (Memfd i')"
        "names_file m nm s i'" by auto
      moreover have "i' = i" using nm i'(3) by (auto simp: names_file_def)
      ultimately show ?thesis by blast
    qed
    have header: "f_header (os_files s ! i) \<noteq> None" if "names_file m nm s i" for nm i
      using inv that unfolding handle_inv_def names_file_def by blast
    have "f_header (os_files c ! i) \<noteq> None" if fd: "map_of ?fm nm = Some fd" "map_of (os_fds c) fd = Some (Memfd i)" for nm fd i
    proof -
      obtain k where k: "k < length ?m" "fd = fds ! k" using map_of_SomeD[OF fd(1)] by (auto simp: in_set_zip)
      then show ?thesis using seg[OF k(1)] fd(2) header g(4) fds0 by auto
    qed
    moreover have "os_wf c"
    proof (rule g(6), rule ballI)
      fix x assume "x \<in> set ?m"
      then have "(fst x, snd x) \<in> set (smm_fd_map m)" using set by simp
      then obtain i where "map_of (os_fds s) (snd x) = Some (Memfd i)" "i < length (os_files s)" by (rule named_fd[OF wf(2)]) blast
      then show "fd_ok (length (os_files (fresh_process s))) (?T (snd x))" by (simp add: fd_ok_def fresh_process_def)
    qed
    ultimately show "handle_inv ?fm [] c" using f(2) g(4) fds0 by (simp add: handle_inv_def refs_def)
  qed
qed

subsection \<open>The state change thread\<close>

text \<open>The segments of a server hold futexes, and a change of the memory keeps this for every server.\<close>

definition served :: "server_id RemoteTriggerServer \<Rightarrow> nat \<Rightarrow> nat \<Rightarrow> os \<Rightarrow> bool"
  where "served sv i j s \<longleftrightarrow> (\<exists>f g. server_at sv i j f g s)"

definition futexes_kept :: "os \<Rightarrow> os \<Rightarrow> bool"
  where "futexes_kept s s' \<longleftrightarrow> (\<forall>sv i j. served sv i j s \<longrightarrow> served sv i j s')"

lemma futexes_kept_refl [simp]: "futexes_kept s s"
  by (simp add: futexes_kept_def)

lemma futexes_kept_trans: "futexes_kept s s1 \<Longrightarrow> futexes_kept s1 s2 \<Longrightarrow> futexes_kept s s2"
  by (simp add: futexes_kept_def)

lemma store_futex_kept:
  assumes "k < length (os_files s)"
  shows "futexes_kept s (s\<lparr>os_files := (os_files s)[k := (os_files s ! k)\<lparr>f_payload := encode_BinaryFutex f @ bs\<rparr>]\<rparr>)"
proof -
  have "served sv i j (s\<lparr>os_files := (os_files s)[k := (os_files s ! k)\<lparr>f_payload := encode_BinaryFutex f @ bs\<rparr>]\<rparr>)"
    if at: "server_at sv i j f' g' s" for sv i j f' g'
  proof -
    have "server_at sv i j (if k = i then f else f') (if k = j then f else g')
      (s\<lparr>os_files := (os_files s)[k := (os_files s ! k)\<lparr>f_payload := encode_BinaryFutex f @ bs\<rparr>]\<rparr>)"
      using at assms by (auto simp: server_at_def nth_list_update)
    then show ?thesis unfolding served_def by blast
  qed
  then show ?thesis unfolding futexes_kept_def served_def by blast
qed

lemma on_futex_kept:
  assumes "served sv i j s" "segment \<in> {rts_request_futex sv, rts_response_futex sv}" "\<And>f. h f \<noteq> None"
  obtains r s1 where "on_futex h segment s = Some (r, s1)" "futexes_kept s s1"
proof -
  obtain k f where k: "mapped_file (ms_value segment - sizeof_SegmentHeader) s = Some k"
    "take sizeof_BinaryFutex (f_payload (os_files s ! k)) = encode_BinaryFutex f"
    using assms(1,2) by (auto simp: served_def server_at_def)
  obtain r f1 where "h f = Some (r, f1)" using assms(3)[of f] by auto
  then show thesis using on_futex_at[OF k, of h] store_futex_kept[OF mapped_file_less[OF k(1)]] by (intro that) simp_all
qed

text \<open>One query, with callbacks that return and keep an invariant of their own.\<close>

lemma Query_kept:
  assumes sv: "served sv i j s" "rts_callback sv = Some c"
    and wait: "\<And>f. BinaryFutex_WaitFor wenv time kRequestTimeout f \<noteq> None" and u: "P u"
    and call: "\<And>s1. \<exists>u1. call c (u, s1) = Some (u1, s1) \<and> P u1"
  shows "\<exists>b u' s'. Query call wenv time sv (u, s) = Some (b, u', s') \<and> P u' \<and> futexes_kept s s'"
proof -
  obtain r s1 where w: "on_futex (BinaryFutex_WaitFor wenv time kRequestTimeout) (rts_request_futex sv) s = Some (r, s1)" "futexes_kept s s1"
    by (rule on_futex_kept[OF sv(1) insertI1 wait])
  then have at: "served sv i j s1" using sv(1) by (simp add: futexes_kept_def)
  obtain u1 where u1: "call c (u, s1) = Some (u1, s1)" "P u1" using call by blast
  obtain p s2 where a: "on_futex (\<lambda>f. Some (BinaryFutex_Post f)) (rts_response_futex sv) s1 = Some (p, s2)" "futexes_kept s1 s2"
    by (rule on_futex_kept[OF at insertI2[OF singletonI], of "\<lambda>f. Some (BinaryFutex_Post f)"]) simp_all
  show ?thesis
    using sv(2) u w u1 a futexes_kept_trans[OF w(2) a(2)] by (auto simp: Query_def answer_request_def)
qed

lemma query_servers_kept:
  assumes "\<forall>i \<in> set is. \<exists>sv. servers i = Some sv \<and> rts_callback sv = Some i \<and> served sv (req i) (res i) (snd w)"
    and "\<And>i ts. \<exists>n. wait_stops (we_futex (wenv i) ts n kReady)" and "P (fst w)"
    and "\<And>i u s. P u \<Longrightarrow> \<exists>u1. call i (u, s) = Some (u1, s) \<and> P u1"
    and "\<And>i u s. P u \<Longrightarrow> \<exists>u1 s1. peer i (u, s) = Some (u1, s1) \<and> P u1 \<and> futexes_kept s s1"
  shows "\<exists>w'. query_servers call peer wenv time is servers w = Some w' \<and> P (fst w') \<and> futexes_kept (snd w) (snd w')"
  using assms(1,3)
proof (induction "is" arbitrary: w)
  case (Cons i "is")
  obtain u s where w: "w = (u, s)" by force
  obtain u1 s1 where p: "peer i (u, s) = Some (u1, s1)" "P u1" "futexes_kept s s1" using assms(5) Cons.prems(2) w by fastforce
  obtain sv where sv: "servers i = Some sv" "rts_callback sv = Some i" "served sv (req i) (res i) s1"
    using Cons.prems(1) p(3) w by (auto simp: futexes_kept_def)
  have "\<exists>b u' s'. Query call (wenv i) time sv (u1, s1) = Some (b, u', s') \<and> P u' \<and> futexes_kept s1 s'"
    by (rule Query_kept[where P = P, OF sv(3,2) wait_for_returns[OF assms(2)] p(2) assms(4)[OF p(2)]])
  then obtain b u2 s2 where q: "Query call (wenv i) time sv (u1, s1) = Some (b, u2, s2)" "P u2" "futexes_kept s1 s2" by blast
  have kept: "futexes_kept s s2" using p(3) q(3) by (rule futexes_kept_trans)
  have "\<exists>w'. query_servers call peer wenv time is servers (u2, s2) = Some w' \<and> P (fst w') \<and> futexes_kept (snd (u2, s2)) (snd w')"
    by (rule Cons.IH) (use Cons.prems(1) kept w q(2) in \<open>auto simp: futexes_kept_def\<close>)
  then show ?case using w p(1) sv(1) q(1) kept by (auto intro: futexes_kept_trans)
qed simp

lemma state_change_loop_kept:
  assumes "\<forall>i \<in> set query_order. \<exists>sv. servers i = Some sv \<and> rts_callback sv = Some i \<and> served sv (req i) (res i) (snd w)"
    and "\<And>k i ts. \<exists>n. wait_stops (we_futex (wenv k i) ts n kReady)" and "P (fst w)"
    and "\<And>i u s. P u \<Longrightarrow> \<exists>u1. call i (u, s) = Some (u1, s) \<and> P u1"
    and "\<And>k i u s. P u \<Longrightarrow> \<exists>u1 s1. peer k i (u, s) = Some (u1, s1) \<and> P u1 \<and> futexes_kept s s1"
    and stop: "stop n" "k \<le> n"
  shows "\<exists>w'. state_change_loop call stop peer wenv time k servers w = Some w' \<and> P (fst w') \<and> futexes_kept (snd w) (snd w')"
  using assms(1,3,7)
proof (induction "n - k" arbitrary: k w)
  case 0
  then show ?case using stop(1) by (subst state_change_loop.simps) auto
next
  case (Suc d)
  show ?case
  proof (cases "stop k")
    case True
    then show ?thesis using Suc.prems(2) by (subst state_change_loop.simps) auto
  next
    case False
    obtain w1 where w1: "query_servers call (peer k) (wenv k) (time k) query_order servers w = Some w1" "P (fst w1)" "futexes_kept (snd w) (snd w1)"
      using query_servers_kept[OF Suc.prems(1), of "wenv k" P call "peer k" "time k"] assms(2,4,5) Suc.prems(2) by blast
    have "\<exists>w'. state_change_loop call stop peer wenv time (Suc k) servers w1 = Some w' \<and> P (fst w') \<and> futexes_kept (snd w1) (snd w')"
      by (rule Suc.hyps(1)) (use Suc.hyps(2) Suc.prems(1) w1(2,3) in \<open>auto simp: futexes_kept_def\<close>)
    then show ?thesis using False w1 by (subst state_change_loop.simps) (auto intro: futexes_kept_trans)
  qed
qed

text \<open>
  The world of the thread: the callback handler and the memory.  \<open>acts i n\<close> are the calls of other threads in the \<open>n\<close>-th
  phase of an action, \<open>ops k i\<close> their calls before a query, and \<open>mem k i\<close> what clients do to the memory before it.
\<close>

definition on_handler ::
    "'w module_env \<Rightarrow> (server_id \<Rightarrow> nat \<Rightarrow> op list) \<Rightarrow> server_id \<Rightarrow> 'w CallbackHandler \<times> os \<Rightarrow> ('w CallbackHandler \<times> os) checked"
  where "on_handler env acts i w = map_option (\<lambda>h. (h, snd w))
    (server_callback env (during (map (exec env) (acts i 0)) (map (exec env) (acts i 1)) (map (exec env) (acts i 2))) i (fst w))"

definition other_threads ::
    "'w module_env \<Rightarrow> (nat \<Rightarrow> server_id \<Rightarrow> op list) \<Rightarrow> (nat \<Rightarrow> server_id \<Rightarrow> os \<Rightarrow> os) \<Rightarrow> nat \<Rightarrow> server_id \<Rightarrow>
     'w CallbackHandler \<times> os \<Rightarrow> ('w CallbackHandler \<times> os) checked"
  where "other_threads env ops mem k i w = map_option (\<lambda>h. (h, mem k i (snd w))) (exec_all env (ops k i) (fst w))"

fun server_op :: "server_id \<Rightarrow> op list \<Rightarrow> op list \<Rightarrow> op list \<Rightarrow> op option"
  where
    "server_op Srv_restart as bs cs = None"
  | "server_op Srv_activate as bs cs = Some OpActivate"
  | "server_op Srv_deactivate as bs cs = Some OpDeactivate"
  | "server_op Srv_prepare as bs cs = Some OpPrepare"
  | "server_op Srv_enable_motion as bs cs = Some (OpEnableMotion as bs cs)"
  | "server_op Srv_disable_motion as bs cs = Some (OpDisableMotion as bs cs)"
  | "server_op Srv_clear_faults as bs cs = Some (OpClearFaults as bs cs)"
  | "server_op Srv_read_status as bs cs = Some OpReadStatus"
  | "server_op Srv_apply_command as bs cs = Some OpApplyCommand"

lemma server_callback_exec:
  "server_callback env (during (map (exec env) as) (map (exec env) bs) (map (exec env) cs)) i h =
    (case server_op i as bs cs of None \<Rightarrow> Some h | Some op \<Rightarrow> exec env op h)"
  by (cases i) simp_all

lemma server_op_feasible:
  "list_all (Not \<circ> takes_lock) (as @ bs @ cs) \<Longrightarrow> server_op i as bs cs = Some op \<Longrightarrow> feasible op"
  by (cases i) auto

lemma server_callback_ok:
  assumes h: "sound {} False h" "balanced h" and wait: "wait_expires (me_wait env 0)"
    and acts: "list_all (Not \<circ> takes_lock) (as @ bs @ cs)"
  shows "\<exists>h'. server_callback env (during (map (exec env) as) (map (exec env) bs) (map (exec env) cs)) i h = Some h'
    \<and> sound {} False h' \<and> balanced h'"
proof (cases "server_op i as bs cs")
  case None
  then show ?thesis using h by (simp add: server_callback_exec)
next
  case (Some op)
  from exec_sound[OF server_op_feasible[OF acts Some] h(1) wait] obtain h' where "exec env op h = Some h'" "sound {} False h'"
    by (auto simp: returns_def)
  then show ?thesis using Some h(2) exec_balanced by (auto simp: server_callback_exec)
qed

end
