(* ===== verification/Realtime_Clock.thy ===== *)
theory Realtime_Clock
  imports Shared_Object
begin

text \<open>
  The lock step in shared memory (\<open>icon/interprocess/shared_memory_lockstep\<close>) and the realtime clock that
  a hardware module drives the control loop with (\<open>icon/hal/realtime_clock.h\<close> and \<open>.cc\<close>).  Member functions
  of the lock step are those of the theory Lockstep, applied to the object in the segment.
\<close>

subsection \<open>A lock step in shared memory\<close>

record SharedMemoryLockstep =
  sml_memory_segment :: MemorySegment
  sml_lockstep :: nat

definition SharedMemoryLockstep_null :: SharedMemoryLockstep
  where "SharedMemoryLockstep_null = \<lparr>sml_memory_segment = MemorySegment_default, sml_lockstep = 0\<rparr>"

definition SharedMemoryLockstep_new :: "MemorySegment \<Rightarrow> SharedMemoryLockstep"
  where "SharedMemoryLockstep_new segment = \<lparr>sml_memory_segment = segment, sml_lockstep = ms_value segment\<rparr>"

definition Connected :: "SharedMemoryLockstep \<Rightarrow> os \<Rightarrow> bool checked"
  where "Connected l s =
    (if \<not> MemorySegment_IsValid (sml_memory_segment l) then Some False
     else do {
       header \<leftarrow> load_header (ms_header (sml_memory_segment l)) s;
       n \<leftarrow> WriterRefCount header;
       Some (n = 2)
     })"

text \<open>A call of a member function through \<open>operator->\<close>\<close>

definition on_lockstep ::
    "(Lockstep \<Rightarrow> ('r \<times> Lockstep) option) \<Rightarrow> SharedMemoryLockstep \<Rightarrow> os \<Rightarrow> ('r \<times> os) checked"
  where "on_lockstep f l s =
    (if sml_lockstep l = 0 then None
     else do {
       lockstep \<leftarrow> load_object decode_Lockstep sizeof_Lockstep (sml_lockstep l) s;
       (r, lockstep1) \<leftarrow> f lockstep;
       s1 \<leftarrow> store_object encode_Lockstep lockstep1 (sml_lockstep l) s;
       Some (r, s1)
     })"

text \<open>\<open>typeid(T).name()\<close> of the two types, as the Itanium ABI mangles them\<close>

definition typeid_Lockstep :: string
  where "typeid_Lockstep = ''N9intrinsic8LockstepE''"

definition typeid_RealtimeClockUpdate :: string
  where "typeid_RealtimeClockUpdate = ''N9intrinsic19RealtimeClockUpdateE''"

definition CreateSharedMemoryLockstep ::
    "sys_env \<Rightarrow> string \<Rightarrow> SharedMemoryManager \<Rightarrow> os \<Rightarrow>
     ((StatusCode + SharedMemoryLockstep) \<times> SharedMemoryManager \<times> os) checked"
  where "CreateSharedMemoryLockstep env memory_name manager s = do {
    (status, manager1, s1) \<leftarrow> AddSegment env memory_name False (encode_Lockstep Lockstep_new) typeid_Lockstep manager s;
    if status \<noteq> kOk then Some (Inl status, manager1, s1)
    else do {
      (r, s2) \<leftarrow> ReadWriteMemorySegment_Get env sizeof_Lockstep (smm_fd_map manager1) memory_name s1;
      Some (case r of Inl e \<Rightarrow> Inl e | Inr segment \<Rightarrow> Inr (SharedMemoryLockstep_new segment), manager1, s2)
    }
  }"

definition GetSharedMemoryLockstep ::
    "sys_env \<Rightarrow> fd_map \<Rightarrow> string \<Rightarrow> os \<Rightarrow> ((StatusCode + SharedMemoryLockstep) \<times> os) checked"
  where "GetSharedMemoryLockstep env fm memory_name s = do {
    (r, s1) \<leftarrow> ReadWriteMemorySegment_Get env sizeof_Lockstep fm memory_name s;
    Some (case r of Inl e \<Rightarrow> Inl e | Inr segment \<Rightarrow> Inr (SharedMemoryLockstep_new segment), s1)
  }"

subsection \<open>The realtime clock\<close>

record RealtimeClock =
  rc_lockstep :: SharedMemoryLockstep
  rc_update :: MemorySegment

definition kRealtimeClockLockstepInterfaceName :: string
  where "kRealtimeClockLockstepInterfaceName = ''realtime_clock_lockstep''"

definition kRealtimeClockUpdateInterfaceName :: string
  where "kRealtimeClockUpdateInterfaceName = ''realtime_clock_update''"

definition kStartUpLockstepTimeout :: int
  where "kStartUpLockstepTimeout = 60 * 10 ^ 9"

text \<open>The constructor.  A failed start ends the process.\<close>

definition RealtimeClock_new ::
    "wait_env \<Rightarrow> int \<Rightarrow> SharedMemoryLockstep \<Rightarrow> MemorySegment \<Rightarrow> os \<Rightarrow> (RealtimeClock \<times> os) checked"
  where "RealtimeClock_new wenv now lockstep update s = do {
    (status, s1) \<leftarrow> on_lockstep (StartOperationAWithTimeout wenv now kStartUpLockstepTimeout) lockstep s;
    if status \<noteq> kOk then None else Some (\<lparr>rc_lockstep = lockstep, rc_update = update\<rparr>, s1)
  }"

text \<open>The destructor; the members give their segments back in reverse order.\<close>

definition RealtimeClock_destroy :: "sys_env \<Rightarrow> RealtimeClock \<Rightarrow> os \<Rightarrow> os checked"
  where "RealtimeClock_destroy env c s = do {
    (status, s1) \<leftarrow> on_lockstep (\<lambda>ls. Some (EndOperationA ls)) (rc_lockstep c) s;
    s2 \<leftarrow> CleanUpSharedMemory env (rc_update c) s1;
    CleanUpSharedMemory env (sml_memory_segment (rc_lockstep c)) s2
  }"

definition RealtimeClock_Create ::
    "sys_env \<Rightarrow> wait_env \<Rightarrow> int \<Rightarrow> SharedMemoryManager \<Rightarrow> os \<Rightarrow>
     ((StatusCode + RealtimeClock) \<times> SharedMemoryManager \<times> os) checked"
  where "RealtimeClock_Create env wenv now shm_manager s = do {
    (lockstep, m1, s1) \<leftarrow> CreateSharedMemoryLockstep env kRealtimeClockLockstepInterfaceName shm_manager s;
    (case lockstep of
       Inl e \<Rightarrow> Some (Inl e, m1, s1)
     | Inr l \<Rightarrow> do {
         (status, m2, s2) \<leftarrow> AddSegment env kRealtimeClockUpdateInterfaceName False
           (encode_RealtimeClockUpdate 0) typeid_RealtimeClockUpdate m1 s1;
         if status \<noteq> kOk
         then do { s3 \<leftarrow> CleanUpSharedMemory env (sml_memory_segment l) s2; Some (Inl status, m2, s3) }
         else do {
           (update, s3) \<leftarrow> ReadWriteMemorySegment_Get env sizeof_RealtimeClockUpdate (smm_fd_map m2)
             kRealtimeClockUpdateInterfaceName s2;
           (case update of
              Inl e \<Rightarrow> do { s4 \<leftarrow> CleanUpSharedMemory env (sml_memory_segment l) s3; Some (Inl e, m2, s4) }
            | Inr segment \<Rightarrow> do {
                (clock, s4) \<leftarrow> RealtimeClock_new wenv now l segment s3;
                Some (Inr clock, m2, s4)
              })
         }
       })
  }"

text \<open>The first half of a tick: the timestamp is stored and operation A ends.\<close>

definition tick_handover :: "int \<Rightarrow> RealtimeClock \<Rightarrow> os \<Rightarrow> (StatusCode \<times> os) checked"
  where "tick_handover current_timestamp c s = do {
    s1 \<leftarrow> store_object encode_RealtimeClockUpdate (word_of_int current_timestamp) (ms_value (rc_update c)) s;
    on_lockstep (\<lambda>ls. Some (EndOperationA ls)) (rc_lockstep c) s1
  }"

text \<open>
  A tick.  Between the end of operation A and its next start it is the turn of the control process:
  \<open>peer\<close> is what other processes do to the shared memory in the meantime.
\<close>

definition TickBlockingWithDeadline ::
    "wait_env \<Rightarrow> (os \<Rightarrow> os) \<Rightarrow> int \<Rightarrow> int \<Rightarrow> RealtimeClock \<Rightarrow> os \<Rightarrow> (StatusCode \<times> os) checked"
  where "TickBlockingWithDeadline wenv peer current_timestamp deadline c s = do {
    (status, s1) \<leftarrow> tick_handover current_timestamp c s;
    if status \<noteq> kOk then Some (status, s1)
    else on_lockstep (StartOperationAWithDeadline wenv deadline) (rc_lockstep c) (peer s1)
  }"

text \<open>\<open>TickBlockingWithTimeout\<close> of \<open>icon/control/realtime_clock_interface.cc\<close>; \<open>now\<close> is the time when it is called.\<close>

definition TickBlockingWithTimeout ::
    "wait_env \<Rightarrow> (os \<Rightarrow> os) \<Rightarrow> int \<Rightarrow> int \<Rightarrow> int \<Rightarrow> RealtimeClock \<Rightarrow> os \<Rightarrow> (StatusCode \<times> os) checked"
  where "TickBlockingWithTimeout wenv peer now current_timestamp timeout c s =
    TickBlockingWithDeadline wenv peer current_timestamp (now + timeout) c s"

text \<open>\<open>Reset\<close> reads the clock once for each of its two timeouts.\<close>

definition RealtimeClock_Reset ::
    "wait_env \<Rightarrow> wait_env \<Rightarrow> wait_env \<Rightarrow> int \<Rightarrow> int \<Rightarrow> int \<Rightarrow> RealtimeClock \<Rightarrow> os \<Rightarrow> (StatusCode \<times> os) checked"
  where "RealtimeClock_Reset env_a env_b env_start now now' timeout c s = do {
    (_, s1) \<leftarrow> on_lockstep (\<lambda>ls. Some ((), Lockstep_Cancel ls)) (rc_lockstep c) s;
    (reset_status, s2) \<leftarrow> on_lockstep (Lockstep_Reset env_a env_b now timeout) (rc_lockstep c) s1;
    (start_status, s3) \<leftarrow> on_lockstep (StartOperationAWithTimeout env_start now' timeout) (rc_lockstep c) s2;
    Some (if reset_status \<noteq> kOk then reset_status else start_status, s3)
  }"

subsection \<open>The clock and the control process as threads\<close>

text \<open>
  The thread \<open>c\<close> ticks the clock and the thread \<open>b\<close> of the control process runs one operation B per
  tick and reads the timestamp in it once.  Their calls on the lock step are the steps of the theory
  Lockstep; \<open>ck_stored\<close> and \<open>ck_read\<close> say whether the running operation has made its access.  The program
  does not have the two logs.
\<close>

record 't clock_sys =
  ck_lock :: "'t lockstep_sys"
  ck_update :: i64
  ck_stored :: bool
  ck_read :: bool
  ck_ticks :: "i64 list"
  ck_seen :: "i64 list"

definition A_pcs :: "lockstep_pc set"
  where "A_pcs = {A_Waited, A_Repost, A_Running, A_Ending1, A_Ending2, A_Posting}"

definition B_pcs :: "lockstep_pc set"
  where "B_pcs = {B_Waited, B_Repost, B_Running, B_Posting}"

definition roles :: "'t \<Rightarrow> 't \<Rightarrow> 't lockstep_sys \<Rightarrow> bool"
  where "roles c b l \<longleftrightarrow> (\<forall>t. (lsy_pc l t \<in> A_pcs \<longrightarrow> t = c) \<and> (lsy_pc l t \<in> B_pcs \<longrightarrow> t = b))"

definition clock_init :: "'t \<Rightarrow> 't clock_sys \<Rightarrow> bool"
  where "clock_init c s \<longleftrightarrow> lockstep_init (ck_lock s) \<and> \<not> ck_stored s \<and> \<not> ck_read s \<and> ck_ticks s = [] \<and> ck_seen s = []"

inductive clock_step :: "'t \<Rightarrow> 't \<Rightarrow> 't clock_sys \<Rightarrow> 't clock_sys \<Rightarrow> bool"
  for c b :: 't
  where
    tick_store: "lsy_pc (ck_lock s) c = A_Running \<Longrightarrow> \<not> ck_stored s \<Longrightarrow>
      clock_step c b s (s\<lparr>ck_update := t, ck_stored := True, ck_ticks := ck_ticks s @ [t]\<rparr>)"
  | cycle_load: "lsy_pc (ck_lock s) b = B_Running \<Longrightarrow> \<not> ck_read s \<Longrightarrow>
      clock_step c b s (s\<lparr>ck_read := True, ck_seen := ck_seen s @ [ck_update s]\<rparr>)"
  | lock_call: "lockstep_step (ck_lock s) l \<Longrightarrow>
      roles c b l \<Longrightarrow>
      (lsy_pc (ck_lock s) c = A_Running \<and> lsy_pc l c \<noteq> A_Running \<longrightarrow> ck_stored s) \<Longrightarrow>
      (lsy_pc (ck_lock s) b = B_Running \<and> lsy_pc l b \<noteq> B_Running \<longrightarrow> ck_read s) \<Longrightarrow>
      clock_step c b s (s\<lparr>ck_lock := l, ck_stored := ck_stored s \<and> lsy_pc l c \<in> {A_Running, A_Ending1, A_Ending2},
        ck_read := ck_read s \<and> lsy_pc l b = B_Running\<rparr>)"

definition cycle_inv :: "'t \<Rightarrow> 't \<Rightarrow> 't lockstep_sys \<Rightarrow> bool \<Rightarrow> bool \<Rightarrow> i64 \<Rightarrow> i64 list \<Rightarrow> i64 list \<Rightarrow> bool"
  where "cycle_inv c b l stored read update ticks seen \<longleftrightarrow>
    token_inv l \<and> roles c b l
    \<and> (lsy_pc l c \<in> {A_Ending1, A_Ending2} \<longrightarrow> stored)
    \<and> (stored \<longrightarrow> sys_state l = State_kARunning) \<and> (read \<longrightarrow> sys_state l = State_kBRunning)
    \<and> (if sys_state l = State_kBFinished \<or> sys_state l = State_kARunning \<and> \<not> stored \<or> sys_state l = State_kBRunning \<and> read
       then ticks = seen else ticks = seen @ [update])"

definition clock_inv :: "'t \<Rightarrow> 't \<Rightarrow> 't clock_sys \<Rightarrow> bool"
  where "clock_inv c b s \<longleftrightarrow>
    cycle_inv c b (ck_lock s) (ck_stored s) (ck_read s) (ck_update s) (ck_ticks s) (ck_seen s)"

end
