(* ===== verification/Realtime_Clock_Props.thy ===== *)
theory Realtime_Clock_Props
  imports Realtime_Clock
begin

text \<open>
  The realtime clock: what a control process sees, in every interleaving and call by call.
\<close>

inductive_cases clock_stepE: "clock_step c b s s'"

lemma clock_inv_init: "clock_init c s \<Longrightarrow> clock_inv c b s"
  by (simp add: clock_init_def clock_inv_def cycle_inv_def lockstep_init_def Lockstep_new_def token_inv_def BinaryFutex_new_def
      roles_def A_pcs_def B_pcs_def)

text \<open>What one step of a thread does to the state of the lock step and to the thread.\<close>

lemma token_step_cases:
  assumes "lockstep_step l l'" "token_inv l"
  obtains t where "sys_state l = State_kBFinished" "sys_state l' = State_kBFinished" "lsy_pc l' = (lsy_pc l)(t := A_Waited)" "lsy_pc l t = LIdle"
  | t where "sys_state l = State_kBFinished" "sys_state l' = State_kARunning" "lsy_pc l' = (lsy_pc l)(t := A_Running)" "lsy_pc l t = A_Waited"
  | t where "sys_state l = State_kARunning" "sys_state l' = State_kARunning" "lsy_pc l' = (lsy_pc l)(t := A_Ending1)" "lsy_pc l t = A_Running"
  | t where "sys_state l = State_kARunning" "sys_state l' = State_kARunning" "lsy_pc l' = (lsy_pc l)(t := A_Ending2)" "lsy_pc l t = A_Ending1"
  | t where "sys_state l = State_kARunning" "sys_state l' = State_kAFinished" "lsy_pc l' = (lsy_pc l)(t := A_Posting)" "lsy_pc l t = A_Ending2"
  | t where "sys_state l = State_kAFinished" "sys_state l' = State_kAFinished" "lsy_pc l' = (lsy_pc l)(t := LIdle)" "lsy_pc l t = A_Posting"
  | t where "sys_state l = State_kAFinished" "sys_state l' = State_kAFinished" "lsy_pc l' = (lsy_pc l)(t := B_Waited)" "lsy_pc l t = LIdle"
  | t where "sys_state l = State_kAFinished" "sys_state l' = State_kBRunning" "lsy_pc l' = (lsy_pc l)(t := B_Running)" "lsy_pc l t = B_Waited"
  | t where "sys_state l = State_kBRunning" "sys_state l' = State_kBFinished" "lsy_pc l' = (lsy_pc l)(t := B_Posting)" "lsy_pc l t = B_Running"
  | t where "sys_state l = State_kBFinished" "sys_state l' = State_kBFinished" "lsy_pc l' = (lsy_pc l)(t := LIdle)" "lsy_pc l t = B_Posting"
  using assms(1)
proof (cases rule: lockstep_step.cases)
  case (a_wait t b)
  then show thesis using that(1)[of t] token_inv_idle_take(1)[OF assms(2)] TryWait_True[OF a_wait(3)] by simp
next
  case (b_wait t a)
  then show thesis using that(7)[of t] token_inv_idle_take(2)[OF assms(2)] TryWait_True[OF b_wait(3)] by simp
next
  case (a_cas t) then show thesis using that(2)[of t] by (simp add: A_pcs_def B_pcs_def)
next
  case (a_end_load1 t) then show thesis using that(3)[of t] token_inv_state[OF assms(2), of t] by simp
next
  case (a_end_load2 t) then show thesis using that(4)[of t] by (simp add: A_pcs_def B_pcs_def)
next
  case (a_end_store t)
  then show thesis using that(5)[of t] token_inv_holder[OF assms(2), of t] by (simp split: LockstepState.splits)
next
  case (a_end_post t)
  then show thesis using that(6)[of t] token_inv_holder[OF assms(2), of t] by (simp split: LockstepState.splits)
next
  case (b_cas t) then show thesis using that(8)[of t] by (simp add: A_pcs_def B_pcs_def)
next
  case (b_end_cas t) then show thesis using that(9)[of t] by (simp add: A_pcs_def B_pcs_def)
next
  case (b_end_post t)
  then show thesis using that(10)[of t] token_inv_holder[OF assms(2), of t] by (simp split: LockstepState.splits)
qed (use token_inv_state[OF assms(2)] in force)+

lemma clock_inv_step:
  assumes "clock_inv c b s" "clock_step c b s s'"
  shows "clock_inv c b s'"
  using assms(2)
proof cases
  case (tick_store t)
  have "sys_state (ck_lock s) = State_kARunning"
    using token_inv_state[of "ck_lock s" c] tick_store(2) assms(1) by (simp add: clock_inv_def cycle_inv_def)
  then show ?thesis using assms(1) tick_store by (auto simp: clock_inv_def cycle_inv_def)
next
  case cycle_load
  have "sys_state (ck_lock s) = State_kBRunning"
    using token_inv_state[of "ck_lock s" b] cycle_load(2) assms(1) by (simp add: clock_inv_def cycle_inv_def)
  then show ?thesis using assms(1) cycle_load by (auto simp: clock_inv_def cycle_inv_def)
next
  case (lock_call l)
  have tok: "token_inv (ck_lock s)" "token_inv l"
    using assms(1) token_inv_step[OF lock_call(2)] by (simp_all add: clock_inv_def cycle_inv_def)
  have pcs: "lsy_pc l t \<in> A_pcs \<Longrightarrow> t = c" "lsy_pc (ck_lock s) t \<in> A_pcs \<Longrightarrow> t = c"
      "lsy_pc (ck_lock s) t \<in> B_pcs \<Longrightarrow> t = b" for t
    using lock_call(3) assms(1) unfolding clock_inv_def cycle_inv_def roles_def by blast+
  have inv:
      "lsy_pc (ck_lock s) c \<in> {A_Ending1, A_Ending2} \<Longrightarrow> ck_stored s"
      "ck_stored s \<Longrightarrow> sys_state (ck_lock s) = State_kARunning"
      "ck_read s \<Longrightarrow> sys_state (ck_lock s) = State_kBRunning"
      "if sys_state (ck_lock s) = State_kBFinished
          \<or> sys_state (ck_lock s) = State_kARunning \<and> \<not> ck_stored s
          \<or> sys_state (ck_lock s) = State_kBRunning \<and> ck_read s
       then ck_ticks s = ck_seen s else ck_ticks s = ck_seen s @ [ck_update s]"
    using assms(1) unfolding clock_inv_def cycle_inv_def by blast+
  have "(lsy_pc l c \<in> {A_Ending1, A_Ending2} \<longrightarrow> ck_stored s)
    \<and> (ck_stored s \<and> lsy_pc l c \<in> {A_Running, A_Ending1, A_Ending2} \<longrightarrow> sys_state l = State_kARunning)
    \<and> (ck_read s \<and> lsy_pc l b = B_Running \<longrightarrow> sys_state l = State_kBRunning)
    \<and> (if sys_state l = State_kBFinished
          \<or> sys_state l = State_kARunning \<and> \<not> (ck_stored s \<and> lsy_pc l c \<in> {A_Running, A_Ending1, A_Ending2})
          \<or> sys_state l = State_kBRunning \<and> (ck_read s \<and> lsy_pc l b = B_Running)
       then ck_ticks s = ck_seen s else ck_ticks s = ck_seen s @ [ck_update s])"
    using lock_call(2) tok(1)
  proof (cases rule: token_step_cases)
    case (1 t)
    then have "t = c" using pcs(1)[of t] by (simp add: A_pcs_def B_pcs_def)
    then show ?thesis using 1 inv(2-4) by auto
  next
    case (2 t)
    then have "t = c" using pcs(1)[of t] by (simp add: A_pcs_def B_pcs_def)
    then show ?thesis using 2 inv(2-4) by auto
  next
    case (3 t)
    then have "t = c" using pcs(1)[of t] by (simp add: A_pcs_def B_pcs_def)
    then show ?thesis using 3 inv(2-4) lock_call(4) by auto
  next
    case (4 t)
    then have "t = c" using pcs(1)[of t] by (simp add: A_pcs_def B_pcs_def)
    then show ?thesis using 4 inv(1-4) by auto
  next
    case (5 t)
    then have "t = c" using pcs(2)[of t] by (simp add: A_pcs_def B_pcs_def)
    then show ?thesis using 5 inv(1-4) by auto
  next
    case (6 t)
    then have "t = c" using pcs(2)[of t] by (simp add: A_pcs_def B_pcs_def)
    then show ?thesis using 6 inv(2-4) by auto
  next
    case (7 t)
    then show ?thesis using inv(1-4) by auto
  next
    case (8 t)
    then show ?thesis using inv(1-4) by auto
  next
    case (9 t)
    then have "t = b" using pcs(3)[of t] by (simp add: A_pcs_def B_pcs_def)
    then show ?thesis using 9 inv(1-4) lock_call(5) by auto
  next
    case (10 t)
    then show ?thesis using inv(1-4) by auto
  qed
  with lock_call(3) tok(2) have "cycle_inv c b l (ck_stored s \<and> lsy_pc l c \<in> {A_Running, A_Ending1, A_Ending2})
      (ck_read s \<and> lsy_pc l b = B_Running) (ck_update s) (ck_ticks s) (ck_seen s)" unfolding cycle_inv_def by (intro conjI) blast+
  then show ?thesis unfolding clock_inv_def lock_call(1) by simp
qed


interpretation clock_cycles: inductive_invariant "clock_init c" "clock_step c b" "clock_inv c b" for c b
  by unfold_locales (erule clock_inv_init, rule clock_inv_step)


text \<open>A first cycle of thread 0, the clock, and thread 1, the control process.\<close>

definition cycle_state :: "lockstep_pc \<Rightarrow> lockstep_pc \<Rightarrow> u32 \<Rightarrow> u32 \<Rightarrow> LockstepState \<Rightarrow> operation list \<Rightarrow> bool \<Rightarrow> i64 list \<Rightarrow> nat clock_sys"
  where "cycle_state p q a b st log stored ticks =
    \<lparr>ck_lock = \<lparr>lsy_lock = \<lparr>lk_a_finished = \<lparr>bf_val = a, bf_private_futex = False\<rparr>,
        lk_b_finished = \<lparr>bf_val = b, bf_private_futex = False\<rparr>, lk_state = st\<rparr>,
        lsy_pc = (\<lambda>_. LIdle)(0 := p, 1 := q), lsy_log = log\<rparr>,
     ck_update = (if ticks = [] then 0 else last ticks), ck_stored = stored, ck_read = False,
     ck_ticks = ticks, ck_seen = []\<rparr>"

lemma cycle_step:
  assumes "lockstep_step (ck_lock (cycle_state p q a b st log stored ticks)) (ck_lock (cycle_state p' q' a' b' st' log' stored' ticks))"
    and "p' \<notin> B_pcs" "q' \<notin> A_pcs" "p = A_Running \<and> p' \<noteq> A_Running \<longrightarrow> stored" "q \<noteq> B_Running"
    and "stored' = (stored \<and> p' \<in> {A_Running, A_Ending1, A_Ending2})"
  shows "clock_step 0 1 (cycle_state p q a b st log stored ticks) (cycle_state p' q' a' b' st' log' stored' ticks)"
proof -
  let ?s = "cycle_state p q a b st log stored ticks" and ?l = "ck_lock (cycle_state p' q' a' b' st' log' stored' ticks)"
  have pc: "lsy_pc ?l = (\<lambda>_. LIdle)(0 := p', 1 := q')" by (simp add: cycle_state_def)
  have "roles 0 1 ?l" using assms(2,3) by (auto simp: roles_def pc A_pcs_def B_pcs_def split: if_splits)
  with assms have "clock_step 0 1 ?s (?s\<lparr>ck_lock := ?l, ck_stored := ck_stored ?s \<and> lsy_pc ?l 0 \<in> {A_Running, A_Ending1, A_Ending2},
      ck_read := ck_read ?s \<and> lsy_pc ?l 1 = B_Running\<rparr>)"
    by (intro lock_call) (auto simp: cycle_state_def)
  moreover have "?s\<lparr>ck_lock := ?l, ck_stored := ck_stored ?s \<and> lsy_pc ?l 0 \<in> {A_Running, A_Ending1, A_Ending2},
      ck_read := ck_read ?s \<and> lsy_pc ?l 1 = B_Running\<rparr> = cycle_state p' q' a' b' st' log' stored' ticks"
    using assms(6) by (simp add: cycle_state_def)
  ultimately show ?thesis by simp
qed

lemma cycle_reach:
  assumes "reach (clock_init 0) (clock_step 0 1) (cycle_state p q a b st log stored ticks)"
    and "lockstep_step (ck_lock (cycle_state p q a b st log stored ticks)) (ck_lock (cycle_state p' q' a' b' st' log' stored' ticks))"
    and "p' \<notin> B_pcs" "q' \<notin> A_pcs" "p = A_Running \<and> p' \<noteq> A_Running \<longrightarrow> stored" "q \<noteq> B_Running"
    and "stored' = (stored \<and> p' \<in> {A_Running, A_Ending1, A_Ending2})"
  shows "reach (clock_init 0) (clock_step 0 1) (cycle_state p' q' a' b' st' log' stored' ticks)"
  using assms(1) cycle_step[OF assms(2-7)] by (rule reach_step)

lemma first_cycle:
  "reach (clock_init 0) (clock_step 0 (1::nat)) (cycle_state LIdle B_Running 0 0 State_kBRunning [OpA, OpB] False [100])"
proof -
  let ?r = "reach (clock_init 0) (clock_step 0 (1::nat))"
  note d = cycle_state_def goto_def BinaryFutex_TryWait_def TryWait_val_def kPosted_def kReady_def kClosed_def BinaryFutex_Post_def A_pcs_def B_pcs_def
  have r0: "?r (cycle_state LIdle LIdle 0 1 State_kBFinished [] False [])"
    by (rule reach_init) (auto simp: d clock_init_def lockstep_init_def Lockstep_new_def BinaryFutex_new_def)
  have r1: "?r (cycle_state A_Waited LIdle 0 0 State_kBFinished [] False [])"
    by (rule cycle_reach[OF r0]) (use a_wait[of "ck_lock (cycle_state LIdle LIdle 0 1 State_kBFinished [] False [])" 0] in \<open>auto simp: d fun_upd_twist\<close>)
  have r2: "?r (cycle_state A_Running LIdle 0 0 State_kARunning [OpA] False [])"
    by (rule cycle_reach[OF r1]) (use a_cas[of "ck_lock (cycle_state A_Waited LIdle 0 0 State_kBFinished [] False [])" 0] in \<open>auto simp: d fun_upd_twist\<close>)
  have r3: "?r (cycle_state A_Running LIdle 0 0 State_kARunning [OpA] True [100])"
    using reach_step[OF r2 tick_store[of "cycle_state A_Running LIdle 0 0 State_kARunning [OpA] False []" 0 1 100]]
    by (simp add: d)
  have r4: "?r (cycle_state A_Ending1 LIdle 0 0 State_kARunning [OpA] True [100])"
    by (rule cycle_reach[OF r3]) (use a_end_load1[of "ck_lock (cycle_state A_Running LIdle 0 0 State_kARunning [OpA] True [100])" 0] in \<open>auto simp: d fun_upd_twist\<close>)
  have r5: "?r (cycle_state A_Ending2 LIdle 0 0 State_kARunning [OpA] True [100])"
    by (rule cycle_reach[OF r4]) (use a_end_load2[of "ck_lock (cycle_state A_Ending1 LIdle 0 0 State_kARunning [OpA] True [100])" 0] in \<open>auto simp: d fun_upd_twist\<close>)
  have r6: "?r (cycle_state A_Posting LIdle 0 0 State_kAFinished [OpA] False [100])"
    by (rule cycle_reach[OF r5]) (use a_end_store[of "ck_lock (cycle_state A_Ending2 LIdle 0 0 State_kARunning [OpA] True [100])" 0] in \<open>auto simp: d fun_upd_twist\<close>)
  have r7: "?r (cycle_state LIdle LIdle 1 0 State_kAFinished [OpA] False [100])"
    by (rule cycle_reach[OF r6]) (use a_end_post[of "ck_lock (cycle_state A_Posting LIdle 0 0 State_kAFinished [OpA] False [100])" 0] in \<open>auto simp: d fun_upd_twist\<close>)
  have r8: "?r (cycle_state LIdle B_Waited 0 0 State_kAFinished [OpA] False [100])"
    by (rule cycle_reach[OF r7]) (use b_wait[of "ck_lock (cycle_state LIdle LIdle 1 0 State_kAFinished [OpA] False [100])" 1] in \<open>auto simp: d fun_upd_twist\<close>)
  show "?r (cycle_state LIdle B_Running 0 0 State_kBRunning [OpA, OpB] False [100])"
    by (rule cycle_reach[OF r8]) (use b_cas[of "ck_lock (cycle_state LIdle B_Waited 0 0 State_kAFinished [OpA] False [100])" 1] in \<open>auto simp: d fun_upd_twist\<close>)
qed


subsection \<open>The calls on the clock\<close>

text \<open>The clock \<open>c\<close> has the lock step \<open>ls\<close> in file \<open>i\<close> and the timestamp \<open>t\<close> in file \<open>j\<close>.\<close>

definition clock_at :: "RealtimeClock \<Rightarrow> nat \<Rightarrow> nat \<Rightarrow> Lockstep \<Rightarrow> i64 \<Rightarrow> os \<Rightarrow> bool"
  where "clock_at c i j ls t s \<longleftrightarrow>
    sml_lockstep (rc_lockstep c) \<noteq> 0 \<and> i \<noteq> j
    \<and> mapped_file (sml_lockstep (rc_lockstep c) - sizeof_SegmentHeader) s = Some i
    \<and> mapped_file (ms_value (rc_update c) - sizeof_SegmentHeader) s = Some j
    \<and> take sizeof_Lockstep (f_payload (os_files s ! i)) = encode_Lockstep ls
    \<and> take sizeof_RealtimeClockUpdate (f_payload (os_files s ! j)) = encode_RealtimeClockUpdate t"

text \<open>A call through the pointer acts on the object in the file.\<close>

lemma on_lockstep_at:
  assumes "sml_lockstep l \<noteq> 0" "mapped_file (sml_lockstep l - sizeof_SegmentHeader) s = Some i"
    and "take sizeof_Lockstep (f_payload (os_files s ! i)) = encode_Lockstep ls"
  shows "on_lockstep f l s = map_option (\<lambda>(r, ls'). (r, s\<lparr>os_files := (os_files s)[i := (os_files s ! i)\<lparr>f_payload :=
      encode_Lockstep ls' @ drop sizeof_Lockstep (f_payload (os_files s ! i))\<rparr>]\<rparr>)) (f ls)"
  using lockstep_object.load_file[OF assms(2,3)]
    lockstep_object.store_file[OF assms(2) take_encode_length[OF assms(3) lockstep_object.length_encode]] assms(1)
  by (cases "f ls") (auto simp: on_lockstep_def)

lemma clock_at_call:
  assumes "clock_at c i j ls t s"
  obtains s' where "on_lockstep f (rc_lockstep c) s = map_option (\<lambda>(r, ls'). (r, s' ls')) (f ls)"
    "\<And>c' ls'. clock_at c' i j ls t s \<Longrightarrow> clock_at c' i j ls' t (s' ls')" "\<And>ls'. payload_only s (s' ls')"
proof -
  let ?s = "\<lambda>ls'. s\<lparr>os_files := (os_files s)[i := (os_files s ! i)\<lparr>f_payload :=
      encode_Lockstep ls' @ drop sizeof_Lockstep (f_payload (os_files s ! i))\<rparr>]\<rparr>"
  have i: "i < length (os_files s)" using assms mapped_file_less[of _ s i] by (auto simp: clock_at_def)
  have "on_lockstep f (rc_lockstep c) s = map_option (\<lambda>(r, ls'). (r, ?s ls')) (f ls)"
    using assms by (intro on_lockstep_at) (simp_all add: clock_at_def)
  moreover have "clock_at c' i j ls' t (?s ls')" if "clock_at c' i j ls t s" for c' ls'
    using that i by (auto simp: clock_at_def)
  moreover have "payload_only s (?s ls')" for ls' using i by (rule payload_only_store)
  ultimately show thesis by (rule that)
qed

lemma clock_at_store:
  assumes "clock_at c i j ls t s"
  obtains s' where "store_object encode_RealtimeClockUpdate t' (ms_value (rc_update c)) s = Some s'"
    "\<And>c'. clock_at c' i j ls t s \<Longrightarrow> clock_at c' i j ls t' s'" "payload_only s s'"
proof -
  have j: "mapped_file (ms_value (rc_update c) - sizeof_SegmentHeader) s = Some j"
    "take sizeof_RealtimeClockUpdate (f_payload (os_files s ! j)) = encode_RealtimeClockUpdate t"
    using assms by (simp_all add: clock_at_def)
  from update_object.store_file[OF j(1) take_encode_length[OF j(2) update_object.length_encode], of t'] show thesis
    by (rule that) (use mapped_file_less[OF j(1)] in \<open>auto simp: clock_at_def intro!: payload_only_store\<close>)
qed

lemma tick_handover_at:
  assumes "clock_at c i j ls t s"
  obtains s' where "tick_handover now c s = Some (fst (EndOperationA ls), s')"
    "\<And>c'. clock_at c' i j ls t s \<Longrightarrow> clock_at c' i j (snd (EndOperationA ls)) (word_of_int now) s'"
proof -
  let ?f = "\<lambda>ls. Some (EndOperationA ls)" and ?t = "word_of_int now"
  obtain s1 where s1: "store_object encode_RealtimeClockUpdate ?t (ms_value (rc_update c)) s = Some s1"
    "\<And>c'. clock_at c' i j ls t s \<Longrightarrow> clock_at c' i j ls ?t s1" by (rule clock_at_store[OF assms]) blast
  obtain s2 where s2: "on_lockstep ?f (rc_lockstep c) s1 = map_option (\<lambda>(r, ls'). (r, s2 ls')) (?f ls)"
    "\<And>c' ls'. clock_at c' i j ls ?t s1 \<Longrightarrow> clock_at c' i j ls' ?t (s2 ls')"
    by (rule clock_at_call[OF s1(2)[OF assms], of ?f]) blast
  obtain r ls' where e: "EndOperationA ls = (r, ls')" by force
  show thesis
  proof (rule that[of "s2 ls'"])
    show "tick_handover now c s = Some (fst (EndOperationA ls), s2 ls')"
      using s1(1) s2(1) e by (simp add: tick_handover_def)
    show "clock_at c' i j (snd (EndOperationA ls)) ?t (s2 ls')" if "clock_at c' i j ls t s" for c'
      using s2(2)[OF s1(2)[OF that]] e by simp
  qed
qed

text \<open>C29: One tick, on every state of the lock step.  The timestamp is stored first.  In operation A the tick
  hands over to the control process and waits for its next turn; after a cancellation it only waits;
  in every other state, as after a tick that missed its deadline, it returns \<open>kFailedPrecondition\<close> and
  leaves the lock step alone, but the timestamp of the running cycle is overwritten.\<close>
theorem tick_behaviour:
  assumes "clock_at c i j ls t s"
  shows "\<exists>ls' s'. clock_at c i j ls' (word_of_int now) s'
    \<and> TickBlockingWithDeadline wenv peer now deadline c s =
       (if fst (EndOperationA ls) \<noteq> kOk then Some (fst (EndOperationA ls), s')
        else on_lockstep (StartOperationAWithDeadline wenv deadline) (rc_lockstep c) (peer s'))
    \<and> (if lk_state ls = State_kARunning
       then lk_state ls' = State_kAFinished \<and> (bf_val (lk_a_finished ls) = kReady \<longrightarrow> bf_val (lk_a_finished ls') = kPosted)
       else ls' = ls \<and> (lk_state ls \<noteq> State_kCancelled \<longrightarrow> fst (EndOperationA ls) = kFailedPrecondition))"
proof -
  obtain s' where s': "tick_handover now c s = Some (fst (EndOperationA ls), s')"
    "clock_at c i j (snd (EndOperationA ls)) (word_of_int now) s'"
    by (rule tick_handover_at[OF assms]) (use assms in blast)
  have "TickBlockingWithDeadline wenv peer now deadline c s =
       (if fst (EndOperationA ls) \<noteq> kOk then Some (fst (EndOperationA ls), s')
        else on_lockstep (StartOperationAWithDeadline wenv deadline) (rc_lockstep c) (peer s'))"
    using s'(1) by (simp add: TickBlockingWithDeadline_def)
  moreover have "if lk_state ls = State_kARunning
       then lk_state (snd (EndOperationA ls)) = State_kAFinished
         \<and> (bf_val (lk_a_finished ls) = kReady \<longrightarrow> bf_val (lk_a_finished (snd (EndOperationA ls))) = kPosted)
       else snd (EndOperationA ls) = ls \<and> (lk_state ls \<noteq> State_kCancelled \<longrightarrow> fst (EndOperationA ls) = kFailedPrecondition)"
    by (auto simp: EndOperationA_def Let_def BinaryFutex_Post_def)
  ultimately show ?thesis using s'(2) by blast
qed

text \<open>C30: A reset recovers from every state of the lock step whose futexes are not closed: it returns \<open>kOk\<close>
  without waiting, and the clock is inside operation A as after its construction.\<close>
theorem clock_reset_recovers:
  assumes at: "clock_at c i j ls t s"
    and open': "bf_val (lk_a_finished ls) = kReady \<or> bf_val (lk_a_finished ls) = kPosted"
      "bf_val (lk_b_finished ls) = kReady \<or> bf_val (lk_b_finished ls) = kPosted"
    and clock: "we_clock_gettime env_a \<noteq> None" "we_clock_gettime env_b \<noteq> None" "we_clock_gettime env_start \<noteq> None"
  shows "\<exists>ls' s'. RealtimeClock_Reset env_a env_b env_start now now' timeout c s = Some (kOk, s')
    \<and> clock_at c i j ls' t s' \<and> lk_state ls' = State_kARunning
    \<and> bf_val (lk_a_finished ls') = kReady \<and> bf_val (lk_b_finished ls') = kReady"
proof -
  let ?l1 = "Lockstep_Cancel ls"
  obtain s1 where s1: "on_lockstep (\<lambda>ls. Some ((), Lockstep_Cancel ls)) (rc_lockstep c) s
      = map_option (\<lambda>(r, ls'). (r, s1 ls')) (Some ((), ?l1))" "\<And>ls'. clock_at c i j ls' t (s1 ls')"
    by (rule clock_at_call[OF at, of "\<lambda>ls. Some ((), Lockstep_Cancel ls)"]) (use at in blast)
  have l1: "lk_state ?l1 = State_kCancelled" "bf_val (lk_a_finished ?l1) = kPosted" "bf_val (lk_b_finished ?l1) = kPosted"
    using open' by (auto simp: Lockstep_Cancel_def BinaryFutex_Post_def futex_values)
  obtain l2 where l2: "Lockstep_Reset env_a env_b now timeout ?l1 = Some (kOk, l2)" "lk_state l2 = State_kBFinished"
    "bf_val (lk_a_finished l2) = kReady" "bf_val (lk_b_finished l2) = kPosted"
    using l1 clock by (auto simp: Lockstep_Reset_def futex_wait_until_immediate BinaryFutex_Post_def Let_def)
  obtain s2 where s2: "on_lockstep (Lockstep_Reset env_a env_b now timeout) (rc_lockstep c) (s1 ?l1)
      = map_option (\<lambda>(r, ls'). (r, s2 ls')) (Lockstep_Reset env_a env_b now timeout ?l1)" "\<And>ls'. clock_at c i j ls' t (s2 ls')"
    by (rule clock_at_call[OF s1(2)[of ?l1], of "Lockstep_Reset env_a env_b now timeout"]) (use s1(2) in blast)
  obtain l3 where l3: "StartOperationAWithTimeout env_start now' timeout l2 = Some (kOk, l3)" "lk_state l3 = State_kARunning"
    "bf_val (lk_a_finished l3) = kReady" "bf_val (lk_b_finished l3) = kReady"
    using l2 clock by (auto simp: StartOperationAWithTimeout_def StartOperationAWithDeadline_def futex_wait_until_immediate Let_def)
  obtain s3 where s3: "on_lockstep (StartOperationAWithTimeout env_start now' timeout) (rc_lockstep c) (s2 l2)
      = map_option (\<lambda>(r, ls'). (r, s3 ls')) (StartOperationAWithTimeout env_start now' timeout l2)" "\<And>ls'. clock_at c i j ls' t (s3 ls')"
    by (rule clock_at_call[OF s2(2)[of l2], of "StartOperationAWithTimeout env_start now' timeout"]) (use s2(2) in blast)
  have "RealtimeClock_Reset env_a env_b env_start now now' timeout c s = Some (kOk, s3 l3)"
    using s1(1) s2(1) s3(1) l2(1) l3(1) by (simp add: RealtimeClock_Reset_def)
  then show ?thesis using s3(2)[of l3] l3 by blast
qed

text \<open>The turn of the control process: one operation B through its own handle, in which it reads the timestamp.\<close>

definition control_cycle ::
    "wait_env \<Rightarrow> int \<Rightarrow> SharedMemoryLockstep \<Rightarrow> MemorySegment \<Rightarrow> os \<Rightarrow> (i64 \<times> os) checked"
  where "control_cycle wenv deadline l update s = do {
    (r1, s1) \<leftarrow> on_lockstep (StartOperationBWithDeadline wenv deadline) l s;
    t \<leftarrow> load_object decode_RealtimeClockUpdate sizeof_RealtimeClockUpdate (ms_value update) s1;
    (r2, s2) \<leftarrow> on_lockstep (\<lambda>ls. Some (EndOperationB ls)) l s1;
    if r1 \<noteq> kOk \<or> r2 \<noteq> kOk then None else Some (t, s2)
  }"

definition clock_ready :: "Lockstep \<Rightarrow> bool"
  where "clock_ready ls \<longleftrightarrow>
    lk_state ls = State_kARunning \<and> bf_val (lk_a_finished ls) = kReady \<and> bf_val (lk_b_finished ls) = kReady"

text \<open>Creating a clock in a manager that has room for its two segments.\<close>

lemma clock_create:
  assumes wf: "os_wf s" "smm_wf m s" and inv: "handle_inv (smm_fd_map m) ls s" "length ls < 2 ^ 31 - 2"
    and env: "never_fails env" and wenv: "we_clock_gettime wenv \<noteq> None"
    and room: "length (smm_segments m) + 1 < kMaxNumberOfSegments"
    and new: "kRealtimeClockLockstepInterfaceName \<notin> fst ` set (smm_segments m)"
      "kRealtimeClockUpdateInterfaceName \<notin> fst ` set (smm_segments m)"
  obtains c m' s' lock where "RealtimeClock_Create env wenv now m s = Some (Inr c, m', s')"
    "clock_at c (length (os_files s)) (Suc (length (os_files s))) lock 0 s'" "clock_ready lock"
    "handle_inv (smm_fd_map m') (rc_update c # sml_memory_segment (rc_lockstep c) # ls) s'"
    "names_file m' kRealtimeClockLockstepInterfaceName s' (length (os_files s))"
    "names_file m' kRealtimeClockUpdateInterfaceName s' (Suc (length (os_files s)))"
    "f_size (os_files s' ! length (os_files s)) = sizeof_SegmentHeader + sizeof_Lockstep"
    "f_size (os_files s' ! Suc (length (os_files s))) = sizeof_SegmentHeader + sizeof_RealtimeClockUpdate"
    "\<And>b j. map_of (os_maps s) b = Some j \<Longrightarrow> map_of (os_maps s') b = Some j"
    "ms_kind (rc_update c) = kReadWrite" "ms_kind (sml_memory_segment (rc_lockstep c)) = kReadWrite"
    "rc_lockstep c = SharedMemoryLockstep_new (sml_memory_segment (rc_lockstep c))"
    "ms_value (rc_update c) = ms_header (rc_update c) + sizeof_SegmentHeader" 
    "ms_value (sml_memory_segment (rc_lockstep c)) = ms_header (sml_memory_segment (rc_lockstep c)) + sizeof_SegmentHeader"
proof -
  let ?n1 = kRealtimeClockLockstepInterfaceName and ?n2 = kRealtimeClockUpdateInterfaceName
  have names: "?n1 \<noteq> ?n2" "VerifyName ?n1 = kOk" "VerifyName ?n2 = kOk"
    by (simp_all add: kRealtimeClockLockstepInterfaceName_def kRealtimeClockUpdateInterfaceName_def VerifyName_def kMaxSegmentStringSize_def)
  have ids: "length typeid_Lockstep \<le> kMaxSize" "length typeid_RealtimeClockUpdate \<le> kMaxSize"
    by (simp_all add: typeid_Lockstep_def typeid_RealtimeClockUpdate_def kMaxSize_def)
  have ok1: "rejects ?n1 typeid_Lockstep m = kOk" using new room names ids by (simp add: rejects_def)
  have len: "length ls < 2 ^ 31 - 1" "0 < length (encode_Lockstep Lockstep_new)" "0 < length (encode_RealtimeClockUpdate 0)"
    using inv(2) by (simp_all add: sizeof_Lockstep_def sizeof_RealtimeClockUpdate_def)
  have rw: "kReadWrite = kReadOnly \<or> kReadWrite = kReadWrite" by simp
  obtain m1 s1 ms1 t1 where a: "AddSegment env ?n1 False (encode_Lockstep Lockstep_new) typeid_Lockstep m s = Some (kOk, m1, s1)"
    "TypedMemorySegment_Get kReadWrite env (length (encode_Lockstep Lockstep_new)) (smm_fd_map m1) ?n1 s1 = Some (Inr ms1, t1)"
    "os_wf t1" "smm_wf m1 t1" "handle_inv (smm_fd_map m1) (ms1 # ls) t1"
    "fst ` set (smm_segments m1) = insert ?n1 (fst ` set (smm_segments m))"
    "length (smm_segments m1) = Suc (length (smm_segments m))"
    "map_of (os_maps t1) (ms_header ms1) = Some (length (os_files s))" "ms_header ms1 \<noteq> 0"
    "ms_value ms1 = ms_header ms1 + sizeof_SegmentHeader"
    "map f_payload (os_files t1) = map f_payload (os_files s) @ [encode_Lockstep Lockstep_new]"
    "\<And>b j. map_of (os_maps s) b = Some j \<Longrightarrow> map_of (os_maps t1) b = Some j" "names_file m1 ?n1 t1 (length (os_files s))"
    "map f_size (os_files t1) = map f_size (os_files s) @ [sizeof_SegmentHeader + length (encode_Lockstep Lockstep_new)]"
    by (rule add_then_open[OF wf inv(1) len(1) env ok1 len(2) rw, of False]) blast
  have ok2: "rejects ?n2 typeid_RealtimeClockUpdate m1 = kOk" using new room names ids a(6,7) by (simp add: rejects_def)
  have len': "length (ms1 # ls) < 2 ^ 31 - 1" using inv(2) by simp
  obtain m2 s2 ms2 t2 where b: "AddSegment env ?n2 False (encode_RealtimeClockUpdate 0) typeid_RealtimeClockUpdate m1 t1 = Some (kOk, m2, s2)"
    "TypedMemorySegment_Get kReadWrite env (length (encode_RealtimeClockUpdate 0)) (smm_fd_map m2) ?n2 s2 = Some (Inr ms2, t2)"
    "os_wf t2" "map_of (os_maps t2) (ms_header ms2) = Some (length (os_files t1))"
    "ms_value ms2 = ms_header ms2 + sizeof_SegmentHeader"
    "map f_payload (os_files t2) = map f_payload (os_files t1) @ [encode_RealtimeClockUpdate 0]"
    "\<And>x y. map_of (os_maps t1) x = Some y \<Longrightarrow> map_of (os_maps t2) x = Some y"
    "handle_inv (smm_fd_map m2) (ms2 # ms1 # ls) t2" "names_file m2 ?n2 t2 (length (os_files t1))"
    "\<And>n i. names_file m1 n t1 i \<Longrightarrow> names_file m2 n t2 i"
    "map f_size (os_files t2) = map f_size (os_files t1) @ [sizeof_SegmentHeader + length (encode_RealtimeClockUpdate 0)]"
    by (rule add_then_open[OF a(3-5) len' env ok2 len(3) rw, of False]) blast
  let ?l = "SharedMemoryLockstep_new ms1" and ?i = "length (os_files s)"
  let ?c = "\<lparr>rc_lockstep = ?l, rc_update = ms2\<rparr>"
  have n: "length (os_files t1) = Suc ?i" "length (os_files t2) = Suc (Suc ?i)"
    using arg_cong[OF a(11), of length] arg_cong[OF b(6), of length] by simp_all
  have pay: "f_payload (os_files t2 ! ?i) = encode_Lockstep Lockstep_new" "f_payload (os_files t2 ! Suc ?i) = encode_RealtimeClockUpdate 0"
    using arg_cong[OF b(6), of "\<lambda>xs. xs ! ?i"] arg_cong[OF b(6), of "\<lambda>xs. xs ! Suc ?i"] arg_cong[OF a(11), of "\<lambda>xs. xs ! ?i"] n
    by (simp_all add: nth_append)
  have at: "clock_at ?c ?i (Suc ?i) Lockstep_new 0 t2"
    using b(3-5,7) a(8-10) n pay
    by (simp add: clock_at_def SharedMemoryLockstep_new_def mapped_file_wf)
  obtain lock where st: "StartOperationAWithTimeout wenv now kStartUpLockstepTimeout Lockstep_new = Some (kOk, lock)" "clock_ready lock"
    using wenv by (simp add: StartOperationAWithTimeout_def StartOperationAWithDeadline_def futex_wait_until_immediate
        Lockstep_new_def BinaryFutex_new_def clock_ready_def)
  obtain u where u: "on_lockstep (StartOperationAWithTimeout wenv now kStartUpLockstepTimeout) ?l t2
      = map_option (\<lambda>(r, ls'). (r, u ls')) (StartOperationAWithTimeout wenv now kStartUpLockstepTimeout Lockstep_new)"
    "\<And>ls'. clock_at ?c ?i (Suc ?i) ls' 0 (u ls')" "\<And>ls'. payload_only t2 (u ls')"
    using clock_at_call[OF at, of "StartOperationAWithTimeout wenv now kStartUpLockstepTimeout"] at by (metis RealtimeClock.select_convs(1))
  have "RealtimeClock_Create env wenv now m s = Some (Inr ?c, m2, u lock)"
    using a(1,2) b(1,2) u(1) st(1)
    by (simp add: RealtimeClock_Create_def CreateSharedMemoryLockstep_def ReadWriteMemorySegment_Get_def
        RealtimeClock_new_def)
  moreover have "f_size (os_files (u lock) ! ?i) = sizeof_SegmentHeader + sizeof_Lockstep"
      "f_size (os_files (u lock) ! Suc ?i) = sizeof_SegmentHeader + sizeof_RealtimeClockUpdate"
  proof -
    have e: "map f_size (os_files (u lock)) = map f_size (os_files s)
        @ [sizeof_SegmentHeader + sizeof_Lockstep, sizeof_SegmentHeader + sizeof_RealtimeClockUpdate]"
      using u(3)[of lock] a(14) b(11) by (simp add: payload_only_def)
    then have l: "length (os_files (u lock)) = Suc (Suc ?i)" by (metis length_append length_map list.size(3,4) add_Suc_right add.right_neutral One_nat_def)
    show "f_size (os_files (u lock) ! ?i) = sizeof_SegmentHeader + sizeof_Lockstep"
      "f_size (os_files (u lock) ! Suc ?i) = sizeof_SegmentHeader + sizeof_RealtimeClockUpdate"
      using arg_cong[OF e, of "\<lambda>xs. xs ! ?i"] arg_cong[OF e, of "\<lambda>xs. xs ! Suc ?i"] l by (simp_all add: nth_append)
  qed
  moreover have "handle_inv (smm_fd_map m2) (ms2 # ms1 # ls) (u lock)" "os_fds (u lock) = os_fds t2" "os_maps (u lock) = os_maps t2"
    using u(3)[of lock] b(8) by (simp_all add: payload_only_def)
  moreover have "names_file m2 ?n1 (u lock) ?i" "names_file m2 ?n2 (u lock) (Suc ?i)"
    using b(9) b(10)[OF a(13)] calculation(5) n(1) by (simp_all add: names_file_def)
  ultimately show thesis
    using u(2)[of lock] st(2) a(10,12) b(5,7) opened_kind[OF a(2)] opened_kind[OF b(2)]
    by (intro that[of ?c m2 "u lock" lock]) (simp_all add: SharedMemoryLockstep_new_def)
qed

lemma clock_at_opened:
  assumes "clock_at c i j ls t s" "os_wf s" "os_wf s'" "map f_payload (os_files s') = map f_payload (os_files s)"
    and maps: "\<And>b k. map_of (os_maps s) b = Some k \<Longrightarrow> map_of (os_maps s') b = Some k"
  shows "clock_at c i j ls t s'"
proof -
  have "f_payload (os_files s' ! k) = f_payload (os_files s ! k)" if "mapped_file b s = Some k" for b k
    using arg_cong[OF assms(4), of "\<lambda>xs. xs ! k"] mapped_file_less[OF that] map_eq_imp_length_eq[OF assms(4)] by simp
  then show ?thesis using assms(1-3) maps by (auto simp: clock_at_def mapped_file_wf)
qed

text \<open>One turn of the control process after a tick has handed over.\<close>

lemma control_cycle_ok:
  assumes at: "clock_at c i j ls t s" "clock_at d i j ls t s"
    and ls: "lk_state ls = State_kAFinished" "bf_val (lk_a_finished ls) = kPosted" "bf_val (lk_b_finished ls) = kReady"
    and wenv: "we_clock_gettime wenv \<noteq> None"
  obtains ls' s' where "control_cycle wenv deadline (rc_lockstep d) (rc_update d) s = Some (t, s')"
    "clock_at c i j ls' t s'" "lk_state ls' = State_kBFinished" "bf_val (lk_a_finished ls') = kReady" "bf_val (lk_b_finished ls') = kPosted"
proof -
  let ?f = "StartOperationBWithDeadline wenv deadline" and ?g = "\<lambda>ls. Some (EndOperationB ls)"
  obtain l1 where l1: "?f ls = Some (kOk, l1)" "lk_state l1 = State_kBRunning" "bf_val (lk_a_finished l1) = kReady" "bf_val (lk_b_finished l1) = kReady"
    using ls wenv by (simp add: StartOperationBWithDeadline_def futex_wait_until_immediate)
  obtain l2 where l2: "EndOperationB l1 = (kOk, l2)" "lk_state l2 = State_kBFinished" "bf_val (lk_a_finished l2) = kReady" "bf_val (lk_b_finished l2) = kPosted"
    using l1 by (simp add: EndOperationB_def BinaryFutex_Post_def)
  obtain s1 where s1: "on_lockstep ?f (rc_lockstep d) s = map_option (\<lambda>(r, ls'). (r, s1 ls')) (?f ls)"
    "\<And>c' ls'. clock_at c' i j ls t s \<Longrightarrow> clock_at c' i j ls' t (s1 ls')" by (rule clock_at_call[OF at(2), of ?f]) blast
  note d1 = s1(2)[OF at(2), of l1]
  obtain s2 where s2: "on_lockstep ?g (rc_lockstep d) (s1 l1) = map_option (\<lambda>(r, ls'). (r, s2 ls')) (?g l1)"
    "\<And>c' ls'. clock_at c' i j l1 t (s1 l1) \<Longrightarrow> clock_at c' i j ls' t (s2 ls')" by (rule clock_at_call[OF d1, of ?g]) blast
  have "load_object decode_RealtimeClockUpdate sizeof_RealtimeClockUpdate (ms_value (rc_update d)) (s1 l1) = Some t"
    using d1 by (intro update_object.load_file) (auto simp: clock_at_def)
  then have "control_cycle wenv deadline (rc_lockstep d) (rc_update d) s = Some (t, s2 l2)"
    using s1(1) s2(1) l1(1) l2(1) by (simp add: control_cycle_def)
  then show thesis using that s2(2)[OF s1(2)[OF at(1)]] l2 by blast
qed

text \<open>The lock step is connected once a second handle for writing is open.\<close>

lemma connected_two:
  assumes inv: "handle_inv fm ls s" and l: "sml_memory_segment l \<in> set ls" "ms_value (sml_memory_segment l) \<noteq> 0"
    and i: "map_of (os_maps s) (ms_header (sml_memory_segment l)) = Some i" and two: "refs kReadWrite i ls s = 2"
  shows "Connected l s = Some True"
proof -
  have wf: "os_wf s" using inv by (simp add: handle_inv_def)
  obtain h where h: "f_header (os_files s ! i) = Some h" using live_handle_file[OF inv l(1)] i by auto
  then have "sh_mutex h = 1" "sh_ref_count_writer h = 2" using inv os_wf_map[OF wf i] two by (auto simp: handle_inv_def)
  then show ?thesis using l(2) h i
    by (simp add: Connected_def MemorySegment_IsValid_def load_header_def mapped_file_wf[OF wf] WriterRefCount_def ReadRefCountSynchronized_def)
qed

lemma tick_with_control:
  assumes at: "clock_at c i j ls t s" "clock_at d i j ls t s" and ready: "clock_ready ls" and wenv: "we_clock_gettime wenv \<noteq> None"
  shows "\<exists>s4 s5 s6. tick_handover now c s = Some (kOk, s4)
    \<and> control_cycle wenv deadline (rc_lockstep d) (rc_update d) s4 = Some (word_of_int now, s5)
    \<and> TickBlockingWithDeadline wenv (\<lambda>_. s5) now deadline c s = Some (kOk, s6)"
proof -
  let ?l = "snd (EndOperationA ls)" and ?f = "StartOperationAWithDeadline wenv deadline"
  have e: "fst (EndOperationA ls) = kOk" "lk_state ?l = State_kAFinished" "bf_val (lk_a_finished ?l) = kPosted" "bf_val (lk_b_finished ?l) = kReady"
    using ready by (simp_all add: EndOperationA_def clock_ready_def BinaryFutex_Post_def)
  obtain s4 where s4: "tick_handover now c s = Some (kOk, s4)" "clock_at c i j ?l (word_of_int now) s4" "clock_at d i j ?l (word_of_int now) s4"
    by (rule tick_handover_at[OF at(1), of now]) (use at e(1) in auto)
  obtain l5 s5 where s5: "control_cycle wenv deadline (rc_lockstep d) (rc_update d) s4 = Some (word_of_int now, s5)"
    "clock_at c i j l5 (word_of_int now) s5" "lk_state l5 = State_kBFinished" "bf_val (lk_b_finished l5) = kPosted"
    by (rule control_cycle_ok[OF s4(2,3) e(2-4) wenv]) blast
  obtain l6 where l6: "?f l5 = Some (kOk, l6)"
    using s5(3,4) wenv by (simp add: StartOperationAWithDeadline_def futex_wait_until_immediate)
  obtain s6 where "on_lockstep ?f (rc_lockstep c) s5 = map_option (\<lambda>(r, ls'). (r, s6 ls')) (?f l5)"
    by (rule clock_at_call[OF s5(2), of ?f]) blast
  then have "TickBlockingWithDeadline wenv (\<lambda>_. s5) now deadline c s = Some (kOk, s6 l6)"
    using s4(1) l6 by (simp add: TickBlockingWithDeadline_def)
  then show ?thesis using s4(1) s5(1) by blast
qed

text \<open>A process opens both segments of the clock; it shares them with the clock.\<close>

lemma control_connects:
  assumes at: "clock_at c i j lock t s" and inv: "handle_inv (smm_fd_map m) ls s" "length ls < 2 ^ 31 - 2" and env: "never_fails env"
    and names: "names_file m kRealtimeClockLockstepInterfaceName s i" "names_file m kRealtimeClockUpdateInterfaceName s j"
    and size: "f_size (os_files s ! i) = sizeof_SegmentHeader + sizeof_Lockstep"
      "f_size (os_files s ! j) = sizeof_SegmentHeader + sizeof_RealtimeClockUpdate"
  obtains l s1 u s2 where
    "GetSharedMemoryLockstep env (smm_fd_map m) kRealtimeClockLockstepInterfaceName s = Some (Inr l, s1)"
    "ReadOnlyMemorySegment_Get env sizeof_RealtimeClockUpdate (smm_fd_map m) kRealtimeClockUpdateInterfaceName s1 = Some (Inr u, s2)"
    "clock_at c i j lock t s2" "clock_at \<lparr>rc_lockstep = l, rc_update = u\<rparr> i j lock t s2"
    "handle_inv (smm_fd_map m) (u # sml_memory_segment l # ls) s2" "ms_kind u = kReadOnly" "ms_kind (sml_memory_segment l) = kReadWrite"
    "map_of (os_maps s2) (ms_header (sml_memory_segment l)) = Some i"
    "\<And>b k. map_of (os_maps s) b = Some k \<Longrightarrow> map_of (os_maps s2) b = Some k"
proof -
  let ?n1 = kRealtimeClockLockstepInterfaceName and ?n2 = kRealtimeClockUpdateInterfaceName
  have sz: "0 < sizeof_Lockstep" "0 < sizeof_RealtimeClockUpdate"
    by (simp_all add: sizeof_Lockstep_def sizeof_RealtimeClockUpdate_def)
  have len: "length ls < 2 ^ 31 - 1" using inv(2) by simp
  obtain ms s1 where a: "TypedMemorySegment_Get kReadWrite env sizeof_Lockstep (smm_fd_map m) ?n1 s = Some (Inr ms, s1)"
    "handle_inv (smm_fd_map m) (ms # ls) s1" "map_of (os_maps s1) (ms_header ms) = Some i" "ms_header ms \<noteq> 0"
    "ms_value ms = ms_header ms + sizeof_SegmentHeader" "map f_payload (os_files s1) = map f_payload (os_files s)"
    "\<And>b j. map_of (os_maps s) b = Some j \<Longrightarrow> map_of (os_maps s1) b = Some j" "os_fds s1 = os_fds s"
    "map f_size (os_files s1) = map f_size (os_files s)" "ms_kind ms = kReadWrite"
    by (rule open_again[OF inv(1) len env names(1) sz(1) _ disjI2[OF refl]]) (simp add: size, blast)
  have wf: "os_wf s" "os_wf s1" using inv(1) a(2) by (simp_all add: handle_inv_def)
  have j: "j < length (os_files s)" using at mapped_file_less[of _ s j] by (auto simp: clock_at_def)
  have size1: "sizeof_SegmentHeader + sizeof_RealtimeClockUpdate \<le> f_size (os_files s1 ! j)"
    using arg_cong[OF a(9), of "\<lambda>xs. xs ! j"] map_eq_imp_length_eq[OF a(9)] j size(2) by simp
  have names1: "names_file m ?n2 s1 j" using names(2) a(8) by (simp add: names_file_def)
  have len1: "length (ms # ls) < 2 ^ 31 - 1" using inv(2) by simp
  obtain u s2 where b: "TypedMemorySegment_Get kReadOnly env sizeof_RealtimeClockUpdate (smm_fd_map m) ?n2 s1 = Some (Inr u, s2)"
    "handle_inv (smm_fd_map m) (u # ms # ls) s2" "map_of (os_maps s2) (ms_header u) = Some j"
    "ms_value u = ms_header u + sizeof_SegmentHeader" "map f_payload (os_files s2) = map f_payload (os_files s1)"
    "\<And>b j. map_of (os_maps s1) b = Some j \<Longrightarrow> map_of (os_maps s2) b = Some j" "ms_kind u = kReadOnly"
    by (rule open_again[OF a(2) len1 env names1 sz(2) size1 disjI1[OF refl]]) blast
  have wf2: "os_wf s2" using b(2) by (simp add: handle_inv_def)
  let ?l = "SharedMemoryLockstep_new ms"
  have at1: "clock_at c i j lock t s1" by (rule clock_at_opened[OF at wf a(6,7)])
  have at2: "clock_at c i j lock t s2" by (rule clock_at_opened[OF at1 wf(2) wf2 b(5,6)])
  have atd: "clock_at \<lparr>rc_lockstep = ?l, rc_update = u\<rparr> i j lock t s2"
    using at2 a(4,5) b(3,4) b(6)[OF a(3)] by (simp add: clock_at_def SharedMemoryLockstep_new_def mapped_file_wf[OF wf2])
  show thesis
  proof (rule that[OF _ _ at2 atd])
    show "GetSharedMemoryLockstep env (smm_fd_map m) ?n1 s = Some (Inr ?l, s1)"
      using a(1) by (simp add: GetSharedMemoryLockstep_def ReadWriteMemorySegment_Get_def)
  qed (use a(3,10) b a(7) in \<open>auto simp: ReadOnlyMemorySegment_Get_def SharedMemoryLockstep_new_def\<close>)
qed

text \<open>The clock drives a control process.  Created in a manager with room for two segments, a clock can
  be opened by another process under the two reserved names, which makes the lock step connected; every
  tick then hands the lock step over, the control process runs its operation, reads in it the timestamp of
  this tick, and the tick returns \<open>kOk\<close>.\<close>
theorem clock_drives_control_cycle:
  assumes wf: "os_wf s" "smm_wf m s" and inv: "handle_inv (smm_fd_map m) ls s" "length ls < 2 ^ 31 - 4"
    and env: "never_fails env" and wenv: "we_clock_gettime wenv \<noteq> None"
    and room: "length (smm_segments m) + 1 < kMaxNumberOfSegments"
    and new: "kRealtimeClockLockstepInterfaceName \<notin> fst ` set (smm_segments m)"
      "kRealtimeClockUpdateInterfaceName \<notin> fst ` set (smm_segments m)"
  shows "\<exists>c m' s1 l s2 u s3. RealtimeClock_Create env wenv now m s = Some (Inr c, m', s1)
    \<and> GetSharedMemoryLockstep env (smm_fd_map m') kRealtimeClockLockstepInterfaceName s1 = Some (Inr l, s2)
    \<and> ReadOnlyMemorySegment_Get env sizeof_RealtimeClockUpdate (smm_fd_map m') kRealtimeClockUpdateInterfaceName s2 = Some (Inr u, s3)
    \<and> Connected (rc_lockstep c) s3 = Some True
    \<and> (\<forall>t deadline. \<exists>s4 s5 s6. tick_handover t c s3 = Some (kOk, s4)
        \<and> control_cycle wenv deadline l u s4 = Some (word_of_int t, s5)
        \<and> TickBlockingWithDeadline wenv (\<lambda>_. s5) t deadline c s3 = Some (kOk, s6))"
proof -
  let ?n1 = kRealtimeClockLockstepInterfaceName and ?n2 = kRealtimeClockUpdateInterfaceName
  let ?i = "length (os_files s)" and ?j = "Suc (length (os_files s))"
  have len: "length ls < 2 ^ 31 - 2" using inv(2) by simp
  obtain c m' s1 lock where c: "RealtimeClock_Create env wenv now m s = Some (Inr c, m', s1)"
    "clock_at c ?i ?j lock 0 s1" "clock_ready lock"
    "handle_inv (smm_fd_map m') (rc_update c # sml_memory_segment (rc_lockstep c) # ls) s1"
    "names_file m' ?n1 s1 ?i" "names_file m' ?n2 s1 ?j"
    "f_size (os_files s1 ! ?i) = sizeof_SegmentHeader + sizeof_Lockstep"
    "f_size (os_files s1 ! ?j) = sizeof_SegmentHeader + sizeof_RealtimeClockUpdate"
    "\<And>b j. map_of (os_maps s) b = Some j \<Longrightarrow> map_of (os_maps s1) b = Some j"
    "ms_kind (rc_update c) = kReadWrite" "ms_kind (sml_memory_segment (rc_lockstep c)) = kReadWrite"
    "rc_lockstep c = SharedMemoryLockstep_new (sml_memory_segment (rc_lockstep c))"
    "ms_value (rc_update c) = ms_header (rc_update c) + sizeof_SegmentHeader"
    "ms_value (sml_memory_segment (rc_lockstep c)) = ms_header (sml_memory_segment (rc_lockstep c)) + sizeof_SegmentHeader"
    by (rule clock_create[OF wf inv(1) len env wenv room new, of now]) blast
  let ?x = "sml_memory_segment (rc_lockstep c)"
  let ?h = "rc_update c # ?x # ls"
  have len1: "length ?h < 2 ^ 31 - 2" using inv(2) by simp
  obtain l s2 u s3 where k: "GetSharedMemoryLockstep env (smm_fd_map m') ?n1 s1 = Some (Inr l, s2)"
    "ReadOnlyMemorySegment_Get env sizeof_RealtimeClockUpdate (smm_fd_map m') ?n2 s2 = Some (Inr u, s3)"
    "clock_at c ?i ?j lock 0 s3" "clock_at \<lparr>rc_lockstep = l, rc_update = u\<rparr> ?i ?j lock 0 s3"
    "handle_inv (smm_fd_map m') (u # sml_memory_segment l # ?h) s3" "ms_kind u = kReadOnly" "ms_kind (sml_memory_segment l) = kReadWrite"
    "map_of (os_maps s3) (ms_header (sml_memory_segment l)) = Some ?i"
    "\<And>b k. map_of (os_maps s1) b = Some k \<Longrightarrow> map_of (os_maps s3) b = Some k"
    by (rule control_connects[OF c(2,4) len1 env c(5-8)]) blast
  have wf1: "os_wf s1" using c(4) by (simp add: handle_inv_def)
  have x: "map_of (os_maps s1) (ms_header ?x) = Some ?i" "map_of (os_maps s1) (ms_header (rc_update c)) = Some ?j" "ms_value ?x \<noteq> 0"
    using c(2,12-14) by (simp_all add: clock_at_def mapped_file_wf[OF wf1] SharedMemoryLockstep_new_def)
      (metis SharedMemoryLockstep.select_convs(2) add_diff_cancel_right')
  have "refs kReadWrite ?i ls s3 = 0"
  proof -
    have "map_of (os_maps s3) (ms_header h) \<noteq> Some ?i" if hls: "h \<in> set ls" for h
    proof -
      obtain q where q: "map_of (os_maps s) (ms_header h) = Some q" using live_handle_file[OF inv(1) hls] by blast
      with os_wf_map[OF wf(1) q] k(9)[OF c(9)[OF q]] show ?thesis by simp
    qed
    then show ?thesis by (auto simp: refs_def filter_empty_conv)
  qed
  then have "refs kReadWrite ?i (u # sml_memory_segment l # ?h) s3 = 2"
    using k(6-8) k(9)[OF x(1)] k(9)[OF x(2)] c(11) by (simp add: refs_Cons)
  then have "Connected (rc_lockstep c) s3 = Some True"
    using x(3) k(9)[OF x(1)] by (intro connected_two[OF k(5)]) simp_all
  moreover have "\<exists>s4 s5 s6. tick_handover t c s3 = Some (kOk, s4)
        \<and> control_cycle wenv deadline l u s4 = Some (word_of_int t, s5)
        \<and> TickBlockingWithDeadline wenv (\<lambda>_. s5) t deadline c s3 = Some (kOk, s6)" for t deadline
    using tick_with_control[OF k(3,4) c(3) wenv, of t deadline] by simp
  ultimately show ?thesis using c(1) k(1,2) by blast
qed

definition clock_demo_os :: "Lockstep \<Rightarrow> os"
  where "clock_demo_os ls = os_init\<lparr>os_files :=
      [\<lparr>f_size = 276, f_header = Some (SegmentHeader_new typeid_Lockstep), f_payload = encode_Lockstep ls\<rparr>,
       \<lparr>f_size = 264, f_header = Some (SegmentHeader_new typeid_RealtimeClockUpdate), f_payload = encode_RealtimeClockUpdate 7\<rparr>],
    os_maps := [(4096, 0), (16384, 1)], os_next_base := 32768\<rparr>"

definition clock_demo :: RealtimeClock
  where "clock_demo =
    \<lparr>rc_lockstep = SharedMemoryLockstep_new
       \<lparr>ms_name = kRealtimeClockLockstepInterfaceName, ms_header = 4096, ms_value = 4352, ms_size = 276, ms_kind = kReadWrite\<rparr>,
     rc_update = \<lparr>ms_name = kRealtimeClockUpdateInterfaceName, ms_header = 16384, ms_value = 16640, ms_size = 264, ms_kind = kReadWrite\<rparr>\<rparr>"

lemma clock_demo_at: "clock_at clock_demo 0 1 ls 7 (clock_demo_os ls)"
  by (simp add: clock_at_def clock_demo_def clock_demo_os_def SharedMemoryLockstep_new_def mapped_file_def sizeof_SegmentHeader_def)

text \<open>A tick while the control process is still in its operation.\<close>

definition busy_lockstep :: Lockstep
  where "busy_lockstep = \<lparr>lk_a_finished = BinaryFutex_new False False, lk_b_finished = BinaryFutex_new False False, lk_state = State_kBRunning\<rparr>"

theorem tick_behaviour_witness:
  "\<exists>s'. TickBlockingWithDeadline expired_env id 99 5 clock_demo (clock_demo_os busy_lockstep) = Some (kFailedPrecondition, s')
    \<and> clock_at clock_demo 0 1 busy_lockstep 99 s'"
  using tick_behaviour[OF clock_demo_at[of busy_lockstep], of 99 expired_env id 5]
  by (auto simp: busy_lockstep_def EndOperationA_def)

theorem clock_reset_recovers_witness:
  "\<exists>ls' s'. RealtimeClock_Reset expired_env expired_env expired_env 0 0 5 clock_demo (clock_demo_os busy_lockstep) = Some (kOk, s')
    \<and> clock_at clock_demo 0 1 ls' 7 s' \<and> lk_state ls' = State_kARunning"
proof -
  have "bf_val (lk_a_finished busy_lockstep) = kReady" "bf_val (lk_b_finished busy_lockstep) = kReady" "we_clock_gettime expired_env \<noteq> None"
    by (simp_all add: busy_lockstep_def BinaryFutex_new_def expired_env_def)
  with clock_reset_recovers[OF clock_demo_at[of busy_lockstep], of expired_env expired_env expired_env 0 0 5] show ?thesis by blast
qed

theorem clock_drives_control_cycle_witness:
  "\<exists>c m' s1 l s2 u s3 s4 s5 s6. RealtimeClock_Create ok_env expired_env 0 empty_manager os_init = Some (Inr c, m', s1)
    \<and> GetSharedMemoryLockstep ok_env (smm_fd_map m') kRealtimeClockLockstepInterfaceName s1 = Some (Inr l, s2)
    \<and> ReadOnlyMemorySegment_Get ok_env sizeof_RealtimeClockUpdate (smm_fd_map m') kRealtimeClockUpdateInterfaceName s2 = Some (Inr u, s3)
    \<and> Connected (rc_lockstep c) s3 = Some True
    \<and> tick_handover 100 c s3 = Some (kOk, s4) \<and> control_cycle expired_env 5 l u s4 = Some (100, s5)
    \<and> TickBlockingWithDeadline expired_env (\<lambda>_. s5) 100 5 c s3 = Some (kOk, s6)"
proof -
  have inv: "handle_inv (smm_fd_map empty_manager) [] os_init"
    by (simp add: handle_inv_def os_wf_init) (simp add: os_init_def empty_manager_def)
  have pre: "length ([] :: MemorySegment list) < 2 ^ 31 - 4" "we_clock_gettime expired_env \<noteq> None"
    "length (smm_segments empty_manager) + 1 < kMaxNumberOfSegments"
    "kRealtimeClockLockstepInterfaceName \<notin> fst ` set (smm_segments empty_manager)"
    "kRealtimeClockUpdateInterfaceName \<notin> fst ` set (smm_segments empty_manager)"
    by (simp_all add: expired_env_def empty_manager_def kMaxNumberOfSegments_def)
  obtain c m' s1 l s2 u s3 where a: "RealtimeClock_Create ok_env expired_env 0 empty_manager os_init = Some (Inr c, m', s1)"
    "GetSharedMemoryLockstep ok_env (smm_fd_map m') kRealtimeClockLockstepInterfaceName s1 = Some (Inr l, s2)"
    "ReadOnlyMemorySegment_Get ok_env sizeof_RealtimeClockUpdate (smm_fd_map m') kRealtimeClockUpdateInterfaceName s2 = Some (Inr u, s3)"
    "Connected (rc_lockstep c) s3 = Some True"
    "\<forall>t deadline. \<exists>s4 s5 s6. tick_handover t c s3 = Some (kOk, s4)
        \<and> control_cycle expired_env deadline l u s4 = Some (word_of_int t, s5)
        \<and> TickBlockingWithDeadline expired_env (\<lambda>_. s5) t deadline c s3 = Some (kOk, s6)"
    using clock_drives_control_cycle[OF os_wf_init empty_manager_wf inv pre(1) ok_env_never_fails pre(2-5), of 0] by blast
  obtain s4 s5 s6 where "tick_handover 100 c s3 = Some (kOk, s4)" "control_cycle expired_env 5 l u s4 = Some (word_of_int 100, s5)"
    "TickBlockingWithDeadline expired_env (\<lambda>_. s5) 100 5 c s3 = Some (kOk, s6)" using a(5)[rule_format, of 100 5] by blast
  with a(1-4) show ?thesis by (intro exI conjI) simp_all
qed

end
