(* ===== verification/Joint_Limits.thy ===== *)
theory Joint_Limits
  imports Complex_Main Fixed_String "HOL-Library.Monad_Syntax"
begin

text \<open>
  Joint limits (\<open>kinematics/types/joint_limits.{h,cc}\<close>), their message and the messages for joint commands and
  joint states (\<open>joint_limits_utils.cc\<close>, \<open>joint_command_utils.cc\<close> and \<open>joint_state_utils.cc\<close> in \<open>icon/hal/interfaces\<close>).

  A double is a rational number, an infinity or NaN, without the sign of zero and the payload of NaN, which no
  operation here looks at.  Rounding (\<open>rnd\<close>) and Eigen's \<open>minCoeff\<close> are arguments.  A vector of Eigen is a list.
  A message is a record with what the generated accessors return; \<open>finish\<close> is the builder of the flatbuffers
  library, which turns a message into bytes.  A vector of a message has less than \<open>2^32\<close> elements and one of
  Eigen at most 25, so that comparing their sizes as \<open>int\<close> compares their lengths.
\<close>

subsection \<open>Floating point numbers\<close>

datatype double = NaN | NegInf | Finite rat | PosInf

fun isnan :: "double \<Rightarrow> bool"
  where "isnan NaN = True" | "isnan _ = False"

fun double_eq :: "double \<Rightarrow> double \<Rightarrow> bool"
  where
    "double_eq NegInf NegInf = True"
  | "double_eq PosInf PosInf = True"
  | "double_eq (Finite x) (Finite y) = (x = y)"
  | "double_eq _ _ = False"

fun double_le :: "double \<Rightarrow> double \<Rightarrow> bool"
  where
    "double_le NaN _ = False"
  | "double_le _ NaN = False"
  | "double_le NegInf _ = True"
  | "double_le _ PosInf = True"
  | "double_le (Finite x) (Finite y) = (x \<le> y)"
  | "double_le _ _ = False"

fun double_minus :: "(rat \<Rightarrow> double) \<Rightarrow> double \<Rightarrow> double \<Rightarrow> double"
  where
    "double_minus rnd (Finite x) (Finite y) = rnd (x - y)"
  | "double_minus rnd PosInf NegInf = PosInf"
  | "double_minus rnd PosInf (Finite _) = PosInf"
  | "double_minus rnd NegInf PosInf = NegInf"
  | "double_minus rnd NegInf (Finite _) = NegInf"
  | "double_minus rnd (Finite _) PosInf = NegInf"
  | "double_minus rnd (Finite _) NegInf = PosInf"
  | "double_minus rnd _ _ = NaN"

fun double_uminus :: "double \<Rightarrow> double"
  where
    "double_uminus NaN = NaN"
  | "double_uminus NegInf = PosInf"
  | "double_uminus PosInf = NegInf"
  | "double_uminus (Finite x) = Finite (- x)"

abbreviation zero_double :: double
  where "zero_double \<equiv> Finite 0"

subsection \<open>Joint limits\<close>

definition MAX_EIGEN_VECTOR_SIZE :: int
  where "MAX_EIGEN_VECTOR_SIZE = 25"

definition JointLimits_kMaxSize :: int
  where "JointLimits_kMaxSize = MAX_EIGEN_VECTOR_SIZE"

record JointLimits =
  min_position :: "double list"
  max_position :: "double list"
  max_velocity :: "double list"
  max_acceleration :: "double list"
  max_jerk :: "double list"
  max_torque :: "double list"

definition JointLimits_default :: JointLimits
  where "JointLimits_default = \<lparr>min_position = [], max_position = [], max_velocity = [], max_acceleration = [],
    max_jerk = [], max_torque = []\<rparr>"

definition JointLimits_size :: "JointLimits \<Rightarrow> nat"
  where "JointLimits_size limits = length (min_position limits)"

definition IsSizeConsistent :: "JointLimits \<Rightarrow> bool"
  where "IsSizeConsistent limits \<longleftrightarrow>
    (let size' = JointLimits_size limits
     in length (min_position limits) = size' \<and> length (max_position limits) = size'
      \<and> length (max_velocity limits) = size' \<and> length (max_acceleration limits) = size'
      \<and> length (max_jerk limits) = size' \<and> length (max_torque limits) = size')"

text \<open>A vector of a negative size is an assertion failure of Eigen.\<close>

definition SetSize :: "int \<Rightarrow> JointLimits \<Rightarrow> (StatusCode \<times> JointLimits) checked"
  where "SetSize size' limits =
    (if size' > JointLimits_kMaxSize then Some (kInvalidArgument, limits)
     else if size' < 0 then None
     else let zeros = replicate (nat size') zero_double
          in Some (kOk, \<lparr>min_position = zeros, max_position = zeros, max_velocity = zeros, max_acceleration = zeros,
                         max_jerk = zeros, max_torque = zeros\<rparr>))"

definition setConstant :: "double \<Rightarrow> double list \<Rightarrow> double list"
  where "setConstant v xs = replicate (length xs) v"

definition SetUnlimited :: "JointLimits \<Rightarrow> JointLimits"
  where "SetUnlimited limits =
    \<lparr>min_position = setConstant NegInf (min_position limits), max_position = setConstant PosInf (max_position limits),
     max_velocity = setConstant PosInf (max_velocity limits), max_acceleration = setConstant PosInf (max_acceleration limits),
     max_jerk = setConstant PosInf (max_jerk limits), max_torque = setConstant PosInf (max_torque limits)\<rparr>"

text \<open>The conversion from \<open>size_t\<close> to the signed index type of Eigen wraps around.\<close>

definition Unlimited :: "u64 \<Rightarrow> (StatusCode + JointLimits) checked"
  where "Unlimited size' = do {
    (status, limits) \<leftarrow> SetSize (sint size') JointLimits_default;
    if status \<noteq> kOk then Some (Inl status) else Some (Inr (SetUnlimited limits))
  }"

definition JointLimits_IsValid :: "(rat \<Rightarrow> double) \<Rightarrow> (double list \<Rightarrow> double) \<Rightarrow> JointLimits \<Rightarrow> bool"
  where "JointLimits_IsValid rnd minCoeff limits =
    (if \<not> IsSizeConsistent limits then False
     else if JointLimits_size limits = 0 then True
     else double_le zero_double (minCoeff (map2 (double_minus rnd) (max_position limits) (min_position limits)))
       \<and> list_all (double_le zero_double) (max_velocity limits)
       \<and> list_all (double_le zero_double) (max_acceleration limits)
       \<and> list_all (double_le zero_double) (max_jerk limits)
       \<and> list_all (double_le zero_double) (max_torque limits))"

text \<open>The loop over the joints writes at \<open>i\<close>; a size that cannot be set ends the program.\<close>

definition simple_joint :: "double \<Rightarrow> double \<Rightarrow> double \<Rightarrow> double \<Rightarrow> nat \<Rightarrow> JointLimits \<Rightarrow> JointLimits"
  where "simple_joint max_pos max_vel max_acc max_jrk i limits =
    limits\<lparr>min_position := (min_position limits)[i := double_uminus max_pos], max_position := (max_position limits)[i := max_pos],
           max_velocity := (max_velocity limits)[i := max_vel], max_acceleration := (max_acceleration limits)[i := max_acc],
           max_jerk := (max_jerk limits)[i := max_jrk]\<rparr>"

definition CreateSimpleJointLimits :: "int \<Rightarrow> double \<Rightarrow> double \<Rightarrow> double \<Rightarrow> double \<Rightarrow> JointLimits checked"
  where "CreateSimpleJointLimits ndof max_pos max_vel max_acc max_jrk = do {
    (status, limits) \<leftarrow> SetSize ndof JointLimits_default;
    if status \<noteq> kOk then None
    else Some (fold (simple_joint max_pos max_vel max_acc max_jrk) [0..<nat ndof] (SetUnlimited limits))
  }"

definition CreateSimpleJointLimits_effort :: "int \<Rightarrow> double \<Rightarrow> double \<Rightarrow> double \<Rightarrow> double \<Rightarrow> double \<Rightarrow> JointLimits checked"
  where "CreateSimpleJointLimits_effort ndof max_pos max_vel max_acc max_jrk max_effort = do {
    (status, limits) \<leftarrow> SetSize ndof JointLimits_default;
    if status \<noteq> kOk then None
    else Some (fold (\<lambda>i l. (\<lambda>l1. l1\<lparr>max_torque := (max_torque l1)[i := max_effort]\<rparr>)
                            (simple_joint max_pos max_vel max_acc max_jrk i l)) [0..<nat ndof] (SetUnlimited limits))
  }"

definition CompareDoubles :: "double \<Rightarrow> double \<Rightarrow> bool"
  where "CompareDoubles lhs rhs \<longleftrightarrow> (if isnan lhs \<and> isnan rhs then True else double_eq lhs rhs)"

definition CompareVector :: "double list \<Rightarrow> double list \<Rightarrow> bool"
  where "CompareVector vec1 vec2 \<longleftrightarrow>
    (if length vec1 \<noteq> length vec2 then False else list_all (\<lambda>i. CompareDoubles (vec1 ! i) (vec2 ! i)) [0..<length vec1])"

definition JointLimits_eq :: "JointLimits \<Rightarrow> JointLimits \<Rightarrow> bool"
  where "JointLimits_eq limits other \<longleftrightarrow>
    CompareVector (min_position limits) (min_position other) \<and> CompareVector (max_position limits) (max_position other)
    \<and> CompareVector (max_velocity limits) (max_velocity other) \<and> CompareVector (max_acceleration limits) (max_acceleration other)
    \<and> CompareVector (max_jerk limits) (max_jerk other) \<and> CompareVector (max_torque limits) (max_torque other)"

subsection \<open>Joint limits in a message\<close>

text \<open>
  The table \<open>JointLimits\<close> as its accessors show it.  A vector that is missing is a null pointer.  A flag
  that is missing reads as false and cannot be changed.
\<close>

record fbs_JointLimits =
  fb_min_position :: "double list option"
  fb_max_position :: "double list option"
  fb_has_velocity_limits :: "bool option"
  fb_max_velocity :: "double list option"
  fb_has_acceleration_limits :: "bool option"
  fb_max_acceleration :: "double list option"
  fb_has_jerk_limits :: "bool option"
  fb_max_jerk :: "double list option"
  fb_has_effort_limits :: "bool option"
  fb_max_effort :: "double list option"

definition new_JointLimits :: "nat \<Rightarrow> fbs_JointLimits"
  where "new_JointLimits num_dof =
    (let zeros = Some (replicate num_dof zero_double)
     in \<lparr>fb_min_position = zeros, fb_max_position = zeros, fb_has_velocity_limits = Some False, fb_max_velocity = zeros,
         fb_has_acceleration_limits = Some False, fb_max_acceleration = zeros, fb_has_jerk_limits = Some False, fb_max_jerk = zeros,
         fb_has_effort_limits = Some False, fb_max_effort = zeros\<rparr>)"

definition BuildJointLimits :: "(fbs_JointLimits \<Rightarrow> u8 list) \<Rightarrow> nat \<Rightarrow> u8 list"
  where "BuildJointLimits finish num_dof = finish (new_JointLimits num_dof)"

definition CheckSizeEqual :: "double list \<Rightarrow> double list \<Rightarrow> StatusCode"
  where "CheckSizeEqual field fb_field = (if length fb_field \<noteq> length field then kInvalidArgument else kOk)"

definition ToFlatbufferWithSizeCheck :: "double list \<Rightarrow> double list option \<Rightarrow> (StatusCode \<times> double list option) checked"
  where "ToFlatbufferWithSizeCheck field fb_field =
    (case fb_field of
       None \<Rightarrow> None
     | Some v \<Rightarrow>
         let status = CheckSizeEqual field v
         in if status \<noteq> kOk then Some (status, Some v)
            else Some (kOk, Some (fold (\<lambda>i w. w[i := field ! i]) [0..<length v] v)))"

definition mutate_flag :: "bool \<Rightarrow> bool option \<Rightarrow> bool option"
  where "mutate_flag b flag = (case flag of None \<Rightarrow> None | Some _ \<Rightarrow> Some b)"

definition CopyTo_fbs_JointLimits :: "JointLimits \<Rightarrow> fbs_JointLimits \<Rightarrow> (StatusCode \<times> fbs_JointLimits) checked"
  where "CopyTo_fbs_JointLimits limits fb = do {
    (st, v) \<leftarrow> ToFlatbufferWithSizeCheck (min_position limits) (fb_min_position fb);
    let fb = fb\<lparr>fb_min_position := v\<rparr>;
    if st \<noteq> kOk then Some (st, fb) else do {
    (st, v) \<leftarrow> ToFlatbufferWithSizeCheck (max_position limits) (fb_max_position fb);
    let fb = fb\<lparr>fb_max_position := v\<rparr>;
    if st \<noteq> kOk then Some (st, fb) else do {
    (st, v) \<leftarrow> ToFlatbufferWithSizeCheck (max_velocity limits) (fb_max_velocity fb);
    let fb = fb\<lparr>fb_max_velocity := v\<rparr>;
    if st \<noteq> kOk then Some (st, fb) else do {
    (st, v) \<leftarrow> ToFlatbufferWithSizeCheck (max_acceleration limits) (fb_max_acceleration fb);
    let fb = fb\<lparr>fb_max_acceleration := v\<rparr>;
    if st \<noteq> kOk then Some (st, fb) else do {
    (st, v) \<leftarrow> ToFlatbufferWithSizeCheck (max_jerk limits) (fb_max_jerk fb);
    let fb = fb\<lparr>fb_max_jerk := v\<rparr>;
    if st \<noteq> kOk then Some (st, fb) else do {
    (st, v) \<leftarrow> ToFlatbufferWithSizeCheck (max_torque limits) (fb_max_effort fb);
    let fb = fb\<lparr>fb_max_effort := v\<rparr>;
    if st \<noteq> kOk then Some (st, fb)
    else Some (kOk, fb\<lparr>fb_has_velocity_limits := mutate_flag True (fb_has_velocity_limits fb),
                       fb_has_acceleration_limits := mutate_flag True (fb_has_acceleration_limits fb),
                       fb_has_jerk_limits := mutate_flag True (fb_has_jerk_limits fb),
                       fb_has_effort_limits := mutate_flag True (fb_has_effort_limits fb)\<rparr>)
    }}}}}
  }"

text \<open>Reading element \<open>i\<close> of a vector of the message, and element \<open>i\<close> of an optional limit\<close>

definition fbs_Get :: "double list option \<Rightarrow> nat \<Rightarrow> double checked"
  where "fbs_Get v i = (case v of None \<Rightarrow> None | Some xs \<Rightarrow> if i < length xs then Some (xs ! i) else None)"

definition optional_Get :: "bool option \<Rightarrow> double list option \<Rightarrow> nat \<Rightarrow> double list \<Rightarrow> double list checked"
  where "optional_Get flag v i xs =
    (if flag = Some True then map_option (\<lambda>d. xs[i := d]) (fbs_Get v i) else Some xs)"

definition copy_joint :: "fbs_JointLimits \<Rightarrow> nat \<Rightarrow> JointLimits \<Rightarrow> JointLimits checked"
  where "copy_joint fb i limits = do {
    mn \<leftarrow> fbs_Get (fb_min_position fb) i;
    mx \<leftarrow> fbs_Get (fb_max_position fb) i;
    vel \<leftarrow> optional_Get (fb_has_velocity_limits fb) (fb_max_velocity fb) i (max_velocity limits);
    acc \<leftarrow> optional_Get (fb_has_acceleration_limits fb) (fb_max_acceleration fb) i (max_acceleration limits);
    jrk \<leftarrow> optional_Get (fb_has_jerk_limits fb) (fb_max_jerk fb) i (max_jerk limits);
    trq \<leftarrow> optional_Get (fb_has_effort_limits fb) (fb_max_effort fb) i (max_torque limits);
    Some \<lparr>min_position = (min_position limits)[i := mn], max_position = (max_position limits)[i := mx],
          max_velocity = vel, max_acceleration = acc, max_jerk = jrk, max_torque = trq\<rparr>
  }"

fun copy_joints :: "fbs_JointLimits \<Rightarrow> nat list \<Rightarrow> JointLimits \<Rightarrow> JointLimits checked"
  where
    "copy_joints fb [] limits = Some limits"
  | "copy_joints fb (i # is) limits = Option.bind (copy_joint fb i limits) (copy_joints fb is)"

definition CopyTo_JointLimits :: "fbs_JointLimits \<Rightarrow> JointLimits \<Rightarrow> (StatusCode \<times> JointLimits) checked"
  where "CopyTo_JointLimits fb limits =
    (case fb_min_position fb of
       None \<Rightarrow> None
     | Some v \<Rightarrow> do {
         let num_joints = length v;
         (status, limits1) \<leftarrow> SetSize (int num_joints) limits;
         if status \<noteq> kOk then Some (status, limits1)
         else map_option (\<lambda>l. (kOk, l)) (copy_joints fb [0..<num_joints] limits1)
       })"

subsection \<open>Joint commands and joint states\<close>

record JointPositionCommand =
  jpc_position :: "double list option"
  jpc_velocity_feedforward :: "double list option"
  jpc_acceleration_feedforward :: "double list option"

record JointVelocityCommand =
  jvc_velocity :: "double list option"
  jvc_acceleration_feedforward :: "double list option"

record JointTorqueCommand =
  jtc_torque :: "double list option"

record JointAccelerationAndTorqueCommand =
  jatc_acceleration :: "double list option"
  jatc_torque :: "double list option"

record HandGuidingCommand =
  hgc_unused :: bool

definition zeros :: "nat \<Rightarrow> double list option"
  where "zeros num_dof = Some (replicate num_dof zero_double)"

definition BuildJointPositionCommand :: "(JointPositionCommand \<Rightarrow> u8 list) \<Rightarrow> nat \<Rightarrow> u8 list"
  where "BuildJointPositionCommand finish num_dof = finish
    \<lparr>jpc_position = zeros num_dof, jpc_velocity_feedforward = zeros num_dof, jpc_acceleration_feedforward = zeros num_dof\<rparr>"

definition BuildJointVelocityCommand :: "(JointVelocityCommand \<Rightarrow> u8 list) \<Rightarrow> nat \<Rightarrow> u8 list"
  where "BuildJointVelocityCommand finish num_dof = finish
    \<lparr>jvc_velocity = zeros num_dof, jvc_acceleration_feedforward = zeros num_dof\<rparr>"

definition BuildJointTorqueCommand :: "(JointTorqueCommand \<Rightarrow> u8 list) \<Rightarrow> nat \<Rightarrow> u8 list"
  where "BuildJointTorqueCommand finish num_dof = finish \<lparr>jtc_torque = zeros num_dof\<rparr>"

definition BuildJointAccelerationAndTorqueCommand :: "(JointAccelerationAndTorqueCommand \<Rightarrow> u8 list) \<Rightarrow> nat \<Rightarrow> u8 list"
  where "BuildJointAccelerationAndTorqueCommand finish num_dof = finish
    \<lparr>jatc_acceleration = zeros num_dof, jatc_torque = zeros num_dof\<rparr>"

definition BuildHandGuidingCommand :: "(HandGuidingCommand \<Rightarrow> u8 list) \<Rightarrow> u8 list"
  where "BuildHandGuidingCommand finish = finish \<lparr>hgc_unused = False\<rparr>"

definition copy_field :: "double list option \<Rightarrow> double list option \<Rightarrow> (StatusCode \<times> double list option) checked"
  where "copy_field src dest =
    (case (src, dest) of (Some xs, Some ys) \<Rightarrow> Some (map_prod id Some (CopyFbsVector xs ys)) | _ \<Rightarrow> None)"

definition CopyTo_JointPositionCommand ::
    "JointPositionCommand \<Rightarrow> JointPositionCommand \<Rightarrow> (StatusCode \<times> JointPositionCommand) checked"
  where "CopyTo_JointPositionCommand src dest = do {
    (st, v) \<leftarrow> copy_field (jpc_position src) (jpc_position dest);
    let dest = dest\<lparr>jpc_position := v\<rparr>;
    if st \<noteq> kOk then Some (st, dest) else do {
    (st, v) \<leftarrow> copy_field (jpc_velocity_feedforward src) (jpc_velocity_feedforward dest);
    let dest = dest\<lparr>jpc_velocity_feedforward := v\<rparr>;
    if st \<noteq> kOk then Some (st, dest) else do {
    (st, v) \<leftarrow> copy_field (jpc_acceleration_feedforward src) (jpc_acceleration_feedforward dest);
    Some (st, dest\<lparr>jpc_acceleration_feedforward := v\<rparr>)
    }}
  }"

text \<open>The states have one vector each, but for the commanded position, which has the fields of the command.\<close>

record JointPositionState =
  jps_position :: "double list option"

record JointVelocityState =
  jvs_velocity :: "double list option"

record JointAccelerationState =
  jas_acceleration :: "double list option"

record JointTorqueState =
  jts_torque :: "double list option"

record JointCommandedPosition =
  jcp_position :: "double list option"
  jcp_velocity_feedforward :: "double list option"
  jcp_acceleration_feedforward :: "double list option"

definition BuildJointPositionState :: "(JointPositionState \<Rightarrow> u8 list) \<Rightarrow> nat \<Rightarrow> u8 list"
  where "BuildJointPositionState finish num_dof = finish \<lparr>jps_position = zeros num_dof\<rparr>"

definition BuildJointVelocityState :: "(JointVelocityState \<Rightarrow> u8 list) \<Rightarrow> nat \<Rightarrow> u8 list"
  where "BuildJointVelocityState finish num_dof = finish \<lparr>jvs_velocity = zeros num_dof\<rparr>"

definition BuildJointAccelerationState :: "(JointAccelerationState \<Rightarrow> u8 list) \<Rightarrow> nat \<Rightarrow> u8 list"
  where "BuildJointAccelerationState finish num_dof = finish \<lparr>jas_acceleration = zeros num_dof\<rparr>"

definition BuildJointTorqueState :: "(JointTorqueState \<Rightarrow> u8 list) \<Rightarrow> nat \<Rightarrow> u8 list"
  where "BuildJointTorqueState finish num_dof = finish \<lparr>jts_torque = zeros num_dof\<rparr>"

definition BuildJointCommandedPosition :: "(JointCommandedPosition \<Rightarrow> u8 list) \<Rightarrow> nat \<Rightarrow> u8 list"
  where "BuildJointCommandedPosition finish num_dof = finish
    \<lparr>jcp_position = zeros num_dof, jcp_velocity_feedforward = zeros num_dof, jcp_acceleration_feedforward = zeros num_dof\<rparr>"

end
