(* ===== verification/Joint_Limits_Props.thy ===== *)
theory Joint_Limits_Props
  imports Joint_Limits
begin

text \<open>
  Properties of joint limits: what valid means, that the constructors give valid limits, and copying limits into
  a message and back, on every branch.
\<close>

subsection \<open>Loops over indices\<close>

lemma fold_update_upt:
  "n \<le> length w \<Longrightarrow> fold (\<lambda>i w. w[i := f i]) [0..<n] w = map f [0..<n] @ drop n w"
proof (induction n)
  case (Suc n)
  then have "n < length w" by simp
  then have "drop n w = w ! n # drop (Suc n) w" by (rule Cons_nth_drop_Suc[symmetric])
  with Suc show ?case by (simp add: list_update_append)
qed simp

lemma fold_update_all: "length xs = length w \<Longrightarrow> fold (\<lambda>i w. w[i := xs ! i]) [0..<length w] w = xs"
  using fold_update_upt[of "length w" w "\<lambda>i. xs ! i"] map_nth[of xs] by simp

lemma fold_update_const: "fold (\<lambda>i w. w[i := c]) [0..<length w] w = replicate (length w) c"
  using fold_update_upt[of "length w" w "\<lambda>_. c"] by (simp add: map_replicate_const)

subsection \<open>Validity\<close>

text \<open>What the definition relies on: rounding keeps the sign (the difference of two doubles is zero only if they
  are equal, and an overflow keeps its sign), and \<open>minCoeff\<close> finds a least element of a vector without NaN.\<close>

definition keeps_sign :: "(rat \<Rightarrow> double) \<Rightarrow> bool"
  where "keeps_sign rnd \<longleftrightarrow> (\<forall>q. \<not> isnan (rnd q) \<and> (double_le zero_double (rnd q) \<longleftrightarrow> 0 \<le> q))"

definition finds_least :: "(double list \<Rightarrow> double) \<Rightarrow> bool"
  where "finds_least minCoeff \<longleftrightarrow>
    (\<forall>xs. xs \<noteq> [] \<longrightarrow> (\<forall>x\<in>set xs. \<not> isnan x) \<longrightarrow> minCoeff xs \<in> set xs \<and> (\<forall>x\<in>set xs. double_le (minCoeff xs) x))"

lemma double_le_trans: "double_le x y \<Longrightarrow> double_le y z \<Longrightarrow> double_le x z"
  by (cases x; cases y; cases z) simp_all

lemma least_nonneg:
  assumes "finds_least minCoeff" "xs \<noteq> []" "\<forall>x\<in>set xs. \<not> isnan x"
  shows "double_le zero_double (minCoeff xs) \<longleftrightarrow> (\<forall>x\<in>set xs. double_le zero_double x)"
  using assms unfolding finds_least_def by (meson double_le_trans)

lemma difference_nonneg:
  assumes "keeps_sign rnd" "\<not> isnan (double_minus rnd x y)"
  shows "double_le zero_double (double_minus rnd x y) \<longleftrightarrow> double_le y x"
  using assms by (cases x; cases y) (auto simp: keeps_sign_def)

lemma valid_iff:
  assumes rnd: "keeps_sign rnd" and least: "finds_least minCoeff"
    and nan: "\<forall>i < JointLimits_size l. \<not> isnan (double_minus rnd (max_position l ! i) (min_position l ! i))"
  shows "JointLimits_IsValid rnd minCoeff l \<longleftrightarrow> IsSizeConsistent l
    \<and> (\<forall>i < JointLimits_size l. double_le (min_position l ! i) (max_position l ! i)
         \<and> double_le zero_double (max_velocity l ! i) \<and> double_le zero_double (max_acceleration l ! i)
         \<and> double_le zero_double (max_jerk l ! i) \<and> double_le zero_double (max_torque l ! i))"
proof (cases "IsSizeConsistent l \<and> JointLimits_size l \<noteq> 0")
  case True
  let ?n = "JointLimits_size l" and ?d = "map2 (double_minus rnd) (max_position l) (min_position l)"
  have len: "length (min_position l) = ?n" "length (max_position l) = ?n" "length (max_velocity l) = ?n"
    "length (max_acceleration l) = ?n" "length (max_jerk l) = ?n" "length (max_torque l) = ?n"
    using True by (auto simp: IsSizeConsistent_def Let_def)
  have "?d \<noteq> []" using True len by (auto dest: arg_cong[where f = length])
  moreover have d: "set ?d = (\<lambda>i. double_minus rnd (max_position l ! i) (min_position l ! i)) ` {..<?n}"
    using len by (force simp: set_zip)
  then have "\<forall>x\<in>set ?d. \<not> isnan x" using nan by auto
  ultimately have "double_le zero_double (minCoeff ?d) \<longleftrightarrow> (\<forall>x\<in>set ?d. double_le zero_double x)"
    by (rule least_nonneg[OF least])
  then have "double_le zero_double (minCoeff ?d) \<longleftrightarrow> (\<forall>i < ?n. double_le (min_position l ! i) (max_position l ! i))"
    unfolding d using nan difference_nonneg[OF rnd] by auto
  then show ?thesis using True len by (auto simp: JointLimits_IsValid_def list_all_length)
qed (auto simp: JointLimits_IsValid_def)



lemma fold_simple_joint:
  "min_position (fold (simple_joint p v a j) is l) = fold (\<lambda>i w. w[i := double_uminus p]) is (min_position l)"
  "max_position (fold (simple_joint p v a j) is l) = fold (\<lambda>i w. w[i := p]) is (max_position l)"
  "max_velocity (fold (simple_joint p v a j) is l) = fold (\<lambda>i w. w[i := v]) is (max_velocity l)"
  "max_acceleration (fold (simple_joint p v a j) is l) = fold (\<lambda>i w. w[i := a]) is (max_acceleration l)"
  "max_jerk (fold (simple_joint p v a j) is l) = fold (\<lambda>i w. w[i := j]) is (max_jerk l)"
  "max_torque (fold (simple_joint p v a j) is l) = max_torque l"
  by (induction "is" arbitrary: l) (simp_all add: simple_joint_def)

text \<open>The limits the two constructors give.\<close>

lemma fold_update_replicate: "fold (\<lambda>i w. w[i := c]) [0..<n] (replicate n d) = replicate n c"
  using fold_update_const[of c "replicate n d"] by simp

lemma SetSize_ok: "0 \<le> n \<Longrightarrow> n \<le> JointLimits_kMaxSize \<Longrightarrow> SetSize n l =
    (let zeros = replicate (nat n) zero_double
     in Some (kOk, \<lparr>min_position = zeros, max_position = zeros, max_velocity = zeros, max_acceleration = zeros,
                    max_jerk = zeros, max_torque = zeros\<rparr>))"
  by (simp add: SetSize_def)

lemma simple_limits:
  assumes "0 \<le> n" "n \<le> JointLimits_kMaxSize"
  shows "CreateSimpleJointLimits n p v a j = Some \<lparr>min_position = replicate (nat n) (double_uminus p), max_position = replicate (nat n) p,
    max_velocity = replicate (nat n) v, max_acceleration = replicate (nat n) a, max_jerk = replicate (nat n) j,
    max_torque = replicate (nat n) PosInf\<rparr>"
proof -
  let ?z = "replicate (nat n) zero_double"
  let ?l = "fold (simple_joint p v a j) [0..<nat n] (SetUnlimited \<lparr>min_position = ?z, max_position = ?z, max_velocity = ?z,
    max_acceleration = ?z, max_jerk = ?z, max_torque = ?z\<rparr>)"
  have "CreateSimpleJointLimits n p v a j = Some ?l"
    by (simp add: CreateSimpleJointLimits_def SetSize_ok[OF assms] Let_def)
  moreover have "?l = \<lparr>min_position = replicate (nat n) (double_uminus p), max_position = replicate (nat n) p,
    max_velocity = replicate (nat n) v, max_acceleration = replicate (nat n) a, max_jerk = replicate (nat n) j,
    max_torque = replicate (nat n) PosInf\<rparr>"
    by (rule JointLimits.equality) (simp_all add: fold_simple_joint SetUnlimited_def setConstant_def fold_update_replicate)
  ultimately show ?thesis by simp
qed

subsection \<open>Equality\<close>

lemma CompareDoubles_eq: "CompareDoubles x y \<longleftrightarrow> x = y"
  by (cases x; cases y) (simp_all add: CompareDoubles_def)

lemma CompareVector_eq: "CompareVector xs ys \<longleftrightarrow> xs = ys"
  by (auto simp: CompareVector_def CompareDoubles_eq list_all_iff intro: nth_equalityI)

lemma JointLimits_eq_iff: "JointLimits_eq l l' \<longleftrightarrow> l = l'"
  by (cases l; cases l') (auto simp: JointLimits_eq_def CompareVector_eq)

subsection \<open>Limits in a message\<close>

definition vectors :: "fbs_JointLimits \<Rightarrow> double list option list"
  where "vectors fb = [fb_min_position fb, fb_max_position fb, fb_max_velocity fb, fb_max_acceleration fb, fb_max_jerk fb, fb_max_effort fb]"

definition limit_vectors :: "JointLimits \<Rightarrow> double list list"
  where "limit_vectors l = [min_position l, max_position l, max_velocity l, max_acceleration l, max_jerk l, max_torque l]"

definition flags :: "fbs_JointLimits \<Rightarrow> bool option list"
  where "flags fb = [fb_has_velocity_limits fb, fb_has_acceleration_limits fb, fb_has_jerk_limits fb, fb_has_effort_limits fb]"

lemma ToFlatbuffer_Some:
  "ToFlatbufferWithSizeCheck xs (Some v) =
    Some (if length xs = length v then (kOk, Some xs) else (kInvalidArgument, Some v))"
  by (simp add: ToFlatbufferWithSizeCheck_def CheckSizeEqual_def fold_update_all)

lemma copy_to_message:
  assumes "vectors fb = map Some vs" "map length vs = map length (limit_vectors l)"
  shows "CopyTo_fbs_JointLimits l fb = Some (kOk,
    \<lparr>fb_min_position = Some (min_position l), fb_max_position = Some (max_position l),
     fb_has_velocity_limits = mutate_flag True (fb_has_velocity_limits fb), fb_max_velocity = Some (max_velocity l),
     fb_has_acceleration_limits = mutate_flag True (fb_has_acceleration_limits fb), fb_max_acceleration = Some (max_acceleration l),
     fb_has_jerk_limits = mutate_flag True (fb_has_jerk_limits fb), fb_max_jerk = Some (max_jerk l),
     fb_has_effort_limits = mutate_flag True (fb_has_effort_limits fb), fb_max_effort = Some (max_torque l)\<rparr>)"
  using assms by (cases fb) (auto simp: vectors_def limit_vectors_def CopyTo_fbs_JointLimits_def ToFlatbuffer_Some
      map_eq_Cons_conv Let_def Cons_eq_map_conv)

text \<open>The first vector whose size differs ends the copy.\<close>

lemma copy_to_message_fails:
  assumes "vectors fb = map Some vs" "k < 6" "length (vs ! k) \<noteq> length (limit_vectors l ! k)"
    and first: "\<And>i. i < k \<Longrightarrow> length (vs ! i) = length (limit_vectors l ! i)"
  shows "\<exists>fb'. CopyTo_fbs_JointLimits l fb = Some (kInvalidArgument, fb') \<and> flags fb' = flags fb
    \<and> vectors fb' = map Some (take k (limit_vectors l) @ drop k vs)"
proof -
  obtain a b c d e f where vs: "vs = [a, b, c, d, e, f]"
    using assms(1) by (auto simp: vectors_def Cons_eq_map_conv)
  have fb: "fb_min_position fb = Some a" "fb_max_position fb = Some b" "fb_max_velocity fb = Some c"
    "fb_max_acceleration fb = Some d" "fb_max_jerk fb = Some e" "fb_max_effort fb = Some f"
    using assms(1) vs by (simp_all add: vectors_def)
  have h: "0 < k \<Longrightarrow> length a = length (min_position l)" "1 < k \<Longrightarrow> length b = length (max_position l)"
    "2 < k \<Longrightarrow> length c = length (max_velocity l)" "3 < k \<Longrightarrow> length d = length (max_acceleration l)"
    "4 < k \<Longrightarrow> length e = length (max_jerk l)"
    using first[of 0] first[of 1] first[of 2] first[of 3] first[of 4] by (simp_all add: vs limit_vectors_def)
  note d = CopyTo_fbs_JointLimits_def ToFlatbuffer_Some vectors_def limit_vectors_def flags_def
  from assms(2) consider "k = 0" | "k = 1" | "k = 2" | "k = 3" | "k = 4" | "k = 5" by linarith
  then show ?thesis
  proof cases
    case 1 with assms(3) fb vs show ?thesis by (simp add: d)
  next
    case 2 with assms(3) fb vs h show ?thesis by (simp add: d)
  next
    case 3 with assms(3) fb vs h show ?thesis by (simp add: d)
  next
    case 4 with assms(3) fb vs h show ?thesis by (simp add: d)
  next
    case 5 with assms(3) fb vs h show ?thesis by (simp add: d)
  next
    case 6 with assms(3) fb vs h show ?thesis by (simp add: d)
  qed
qed

text \<open>Copying limits into a message succeeds exactly if all six vectors have the sizes of the message; then
  the message has all values and every flag it contains is set.  Otherwise the error is \<open>kInvalidArgument\<close>, the
  flags are unchanged, and the vectors before the first one of another size are already overwritten.\<close>
theorem copy_to_message_behaviour:
  assumes "vectors fb = map Some vs"
  shows "\<exists>st fb'. CopyTo_fbs_JointLimits l fb = Some (st, fb')
    \<and> (st = kOk \<longleftrightarrow> map length vs = map length (limit_vectors l))
    \<and> (st = kOk \<longrightarrow> vectors fb' = map Some (limit_vectors l) \<and> flags fb' = map (mutate_flag True) (flags fb))
    \<and> (st \<noteq> kOk \<longrightarrow> st = kInvalidArgument \<and> flags fb' = flags fb
         \<and> (\<exists>k < 6. length (vs ! k) \<noteq> length (limit_vectors l ! k)
              \<and> vectors fb' = map Some (take k (limit_vectors l) @ drop k vs)))"
proof -
  let ?P = "\<lambda>k. k < 6 \<and> length (vs ! k) \<noteq> length (limit_vectors l ! k)"
  have n: "length vs = 6" "length (limit_vectors l) = 6"
    using arg_cong[OF assms, of length] by (simp_all add: vectors_def limit_vectors_def)
  have eq: "map length vs = map length (limit_vectors l) \<longleftrightarrow> (\<nexists>k. ?P k)"
    unfolding list_eq_iff_nth_eq using n by auto
  show ?thesis
  proof (cases "\<exists>k. ?P k")
    case False
    then have *: "map length vs = map length (limit_vectors l)" using eq by blast
    from copy_to_message[OF assms *] * show ?thesis
      by (simp add: vectors_def limit_vectors_def flags_def)
  next
    case True
    then obtain k where k: "?P k" "\<forall>i < k. \<not> ?P i" using exists_least_iff[of ?P] by blast
    then have "length (vs ! i) = length (limit_vectors l ! i)" if "i < k" for i using that by auto
    from copy_to_message_fails[OF assms _ _ this] k True eq show ?thesis by fastforce
  qed
qed

subsection \<open>Limits from a message\<close>

lemma take_upt_nth: "n \<le> length xs \<Longrightarrow> map ((!) xs) [0..<n] = take n xs"
  by (intro nth_equalityI) simp_all

lemma copy_joints_ok:
  assumes "fb_min_position fb = Some a" "fb_max_position fb = Some b" "fb_max_velocity fb = Some c"
    "fb_max_acceleration fb = Some d" "fb_max_jerk fb = Some e" "fb_max_effort fb = Some f"
    and flags': "flags fb = replicate 4 (Some True)"
    and len: "\<forall>i\<in>set is. i < length a \<and> i < length b \<and> i < length c \<and> i < length d \<and> i < length e \<and> i < length f"
  shows "copy_joints fb is l = Some \<lparr>min_position = fold (\<lambda>i w. w[i := a ! i]) is (min_position l),
    max_position = fold (\<lambda>i w. w[i := b ! i]) is (max_position l), max_velocity = fold (\<lambda>i w. w[i := c ! i]) is (max_velocity l),
    max_acceleration = fold (\<lambda>i w. w[i := d ! i]) is (max_acceleration l), max_jerk = fold (\<lambda>i w. w[i := e ! i]) is (max_jerk l),
    max_torque = fold (\<lambda>i w. w[i := f ! i]) is (max_torque l)\<rparr>"
  using len
proof (induction "is" arbitrary: l)
  case (Cons i "is")
  then show ?case using assms(1-6) flags'
    by (simp add: copy_joint_def fbs_Get_def optional_Get_def flags_def numeral_eq_Suc)
qed simp

text \<open>A vector that is shorter than the one of the minimal positions is read out of bounds.\<close>

lemma copy_joints_short:
  assumes "copy_joints fb is l \<noteq> None" "flags fb = replicate 4 (Some True)" "i \<in> set is" "v \<in> set (vectors fb)"
  shows "fbs_Get v i \<noteq> None"
  using assms
proof (induction "is" arbitrary: l)
  case (Cons j "is")
  then obtain l' where l': "copy_joint fb j l = Some l'" "copy_joints fb is l' \<noteq> None" by (auto simp: bind_eq_None_conv)
  show ?case
  proof (cases "i = j")
    case True
    then show ?thesis using l'(1) Cons.prems(2,4)
      by (auto simp: copy_joint_def bind_eq_Some_conv optional_Get_def flags_def vectors_def numeral_eq_Suc)
  next
    case False
    then show ?thesis using Cons.IH[OF l'(2)] Cons.prems by simp
  qed
qed simp

lemma message_to_limits:
  assumes vs: "vectors fb = map Some vs" and flags': "flags fb = replicate 4 (Some True)"
  shows "CopyTo_JointLimits fb l =
    (if length (vs ! 0) > 25 then Some (kInvalidArgument, l)
     else if \<forall>v\<in>set vs. length (vs ! 0) \<le> length v
     then Some (kOk, \<lparr>min_position = vs ! 0, max_position = take (length (vs ! 0)) (vs ! 1),
       max_velocity = take (length (vs ! 0)) (vs ! 2), max_acceleration = take (length (vs ! 0)) (vs ! 3),
       max_jerk = take (length (vs ! 0)) (vs ! 4), max_torque = take (length (vs ! 0)) (vs ! 5)\<rparr>)
     else None)"
proof -
  obtain a b c d e f where abc: "vs = [a, b, c, d, e, f]"
    using assms(1) by (auto simp: vectors_def Cons_eq_map_conv)
  have fb: "fb_min_position fb = Some a" "fb_max_position fb = Some b" "fb_max_velocity fb = Some c"
    "fb_max_acceleration fb = Some d" "fb_max_jerk fb = Some e" "fb_max_effort fb = Some f"
    using assms(1) abc by (simp_all add: vectors_def)
  let ?n = "length a" and ?z = "replicate (length a) zero_double"
  let ?l = "\<lparr>min_position = ?z, max_position = ?z, max_velocity = ?z, max_acceleration = ?z, max_jerk = ?z, max_torque = ?z\<rparr>"
  have take': "fold (\<lambda>i w. w[i := xs ! i]) [0..<?n] ?z = take ?n xs" if "?n \<le> length xs" for xs
    using fold_update_upt[of ?n ?z "\<lambda>i. xs ! i"] that by (simp add: take_upt_nth)
  have c: "CopyTo_JointLimits fb l =
      (if ?n > 25 then Some (kInvalidArgument, l) else map_option (\<lambda>l. (kOk, l)) (copy_joints fb [0..<?n] ?l))"
    using fb by (simp add: CopyTo_JointLimits_def SetSize_def JointLimits_kMaxSize_def MAX_EIGEN_VECTOR_SIZE_def Let_def)
  show ?thesis
  proof (cases "\<forall>v\<in>set vs. ?n \<le> length v")
    case True
    then have "copy_joints fb [0..<?n] ?l = Some \<lparr>min_position = a, max_position = take ?n b, max_velocity = take ?n c,
        max_acceleration = take ?n d, max_jerk = take ?n e, max_torque = take ?n f\<rparr>"
      using take' abc by (subst copy_joints_ok[OF fb flags']) auto
    with True c abc show ?thesis by simp
  next
    case False
    then obtain v where v: "v \<in> set vs" "length v < ?n" by auto
    have "copy_joints fb [0..<?n] ?l = None"
    proof (rule ccontr)
      assume "copy_joints fb [0..<?n] ?l \<noteq> None"
      from copy_joints_short[OF this flags', of "length v" "Some v"] v vs show False by (simp add: fbs_Get_def)
    qed
    with False c abc show ?thesis by auto
  qed
qed



subsection \<open>Round trip\<close>

text \<open>C32: Consistent limits of at most 25 joints that are copied into a new message for as many joints and read
  back are the same limits, infinities and NaN included.\<close>
theorem joint_limits_roundtrip:
  assumes l: "IsSizeConsistent l" "JointLimits_size l \<le> 25" and n: "num_dof = JointLimits_size l"
  shows "\<exists>fb. CopyTo_fbs_JointLimits l (new_JointLimits num_dof) = Some (kOk, fb)
    \<and> CopyTo_JointLimits fb l' = Some (kOk, l) \<and> JointLimits_eq l l"
proof -
  let ?fb = "new_JointLimits num_dof"
  have len: "length (min_position l) = num_dof" "length (max_position l) = num_dof" "length (max_velocity l) = num_dof"
    "length (max_acceleration l) = num_dof" "length (max_jerk l) = num_dof" "length (max_torque l) = num_dof"
    using l(1) n by (auto simp: IsSizeConsistent_def Let_def)
  have v: "vectors ?fb = map Some (replicate 6 (replicate num_dof zero_double))"
    by (simp add: vectors_def new_JointLimits_def Let_def numeral_eq_Suc)
  have w: "map length (replicate 6 (replicate num_dof zero_double)) = map length (limit_vectors l)"
    using len by (simp add: limit_vectors_def numeral_eq_Suc)
  have c: "CopyTo_fbs_JointLimits l ?fb = Some (kOk,
    \<lparr>fb_min_position = Some (min_position l), fb_max_position = Some (max_position l),
     fb_has_velocity_limits = Some True, fb_max_velocity = Some (max_velocity l),
     fb_has_acceleration_limits = Some True, fb_max_acceleration = Some (max_acceleration l),
     fb_has_jerk_limits = Some True, fb_max_jerk = Some (max_jerk l),
     fb_has_effort_limits = Some True, fb_max_effort = Some (max_torque l)\<rparr>)" (is "_ = Some (kOk, ?g)")
    by (simp add: copy_to_message[OF v w]) (simp add: new_JointLimits_def mutate_flag_def Let_def)
  have g: "vectors ?g = map Some (limit_vectors l)" "flags ?g = replicate 4 (Some True)"
    by (simp_all add: vectors_def limit_vectors_def flags_def numeral_eq_Suc)
  have "CopyTo_JointLimits ?g l' = Some (kOk, l)"
    using message_to_limits[OF g, of l'] l(2) n len by (simp add: limit_vectors_def)
  with c show ?thesis by (auto simp: JointLimits_eq_iff)
qed

text \<open>The limits the constructors give are valid.\<close>

lemma double_minus_uminus_le:
  assumes "double_le zero_double p"
  shows "double_le (double_uminus p) p"
  using assms by (cases p) simp_all

text \<open>For 0 to 25 joints, \<open>Unlimited\<close> and, for limits that are not negative, \<open>CreateSimpleJointLimits\<close> return
  valid limits for that many joints.\<close>
theorem constructed_limits_valid:
  assumes rnd: "keeps_sign rnd" and least: "finds_least minCoeff" and n: "0 \<le> n" "n \<le> 25"
    and pos: "double_le zero_double p" "double_le zero_double v" "double_le zero_double a" "double_le zero_double j"
  shows "(\<exists>l. Unlimited (word_of_int n) = Some (Inr l) \<and> JointLimits_IsValid rnd minCoeff l \<and> JointLimits_size l = nat n)
    \<and> (\<exists>l. CreateSimpleJointLimits n p v a j = Some l \<and> JointLimits_IsValid rnd minCoeff l \<and> JointLimits_size l = nat n)"
proof -
  have k: "n \<le> JointLimits_kMaxSize" using n by (simp add: JointLimits_kMaxSize_def MAX_EIGEN_VECTOR_SIZE_def)
  have s: "sint (word_of_int n :: u64) = n" using n by (subst signed_of_int) (simp add: signed_take_bit_int_eq_self)
  let ?r = "replicate (nat n)"
  let ?u = "\<lparr>min_position = ?r NegInf, max_position = ?r PosInf, max_velocity = ?r PosInf, max_acceleration = ?r PosInf,
    max_jerk = ?r PosInf, max_torque = ?r PosInf\<rparr>"
  let ?c = "\<lparr>min_position = ?r (double_uminus p), max_position = ?r p, max_velocity = ?r v, max_acceleration = ?r a,
    max_jerk = ?r j, max_torque = ?r PosInf\<rparr>"
  have "Unlimited (word_of_int n) = Some (Inr ?u)"
    by (simp add: Unlimited_def s SetSize_ok[OF n(1) k] SetUnlimited_def setConstant_def Let_def)
  moreover have "JointLimits_IsValid rnd minCoeff ?u"
    by (subst valid_iff[OF rnd least]) (simp_all add: JointLimits_size_def IsSizeConsistent_def)
  moreover have "CreateSimpleJointLimits n p v a j = Some ?c" by (rule simple_limits[OF n(1) k])
  moreover have "\<not> isnan (double_minus rnd p (double_uminus p))"
    using pos(1) rnd by (cases p) (simp_all add: keeps_sign_def)
  then have "JointLimits_IsValid rnd minCoeff ?c"
    using pos double_minus_uminus_le[OF pos(1)]
    by (subst valid_iff[OF rnd least]) (simp_all add: JointLimits_size_def IsSizeConsistent_def)
  ultimately show ?thesis by (auto simp: JointLimits_size_def)
qed

text \<open>Exact arithmetic and the least element of a list meet the hypotheses.\<close>

definition min_double :: "double \<Rightarrow> double \<Rightarrow> double"
  where "min_double x y = (if double_le x y then x else y)"

definition least_coeff :: "double list \<Rightarrow> double"
  where "least_coeff xs = foldr min_double (tl xs) (hd xs)"

lemma exact_keeps_sign: "keeps_sign Finite"
  by (simp add: keeps_sign_def)

lemma double_le_total: "\<not> isnan x \<Longrightarrow> \<not> isnan y \<Longrightarrow> double_le x y \<or> double_le y x"
  by (cases x; cases y) auto

lemma least_coeff_least: "finds_least least_coeff"
proof -
  have "foldr min_double ys x \<in> set (x # ys) \<and> (\<forall>z\<in>set (x # ys). double_le (foldr min_double ys x) z)"
    if "\<forall>z\<in>set (x # ys). \<not> isnan z" for x ys
    using that
  proof (induction ys)
    case Nil
    then show ?case using double_le_total[of x x] by simp
  next
    case (Cons y ys)
    let ?m = "foldr min_double ys x"
    have ih: "?m \<in> set (x # ys)" "\<forall>z\<in>set (x # ys). double_le ?m z" using Cons by auto
    then have nan: "\<not> isnan ?m" "\<not> isnan y" using Cons.prems by auto
    show ?case
    proof (cases "double_le y ?m")
      case True
      then have "foldr min_double (y # ys) x = y" by (simp add: min_double_def)
      then show ?thesis using ih double_le_trans[OF True] double_le_total[OF nan(2) nan(2)] by auto
    next
      case False
      then have "foldr min_double (y # ys) x = ?m" by (simp add: min_double_def)
      then show ?thesis using ih double_le_total[OF nan] False by auto
    qed
  qed
  then show ?thesis
    unfolding finds_least_def least_coeff_def by (metis list.collapse)
qed

definition demo_limits :: JointLimits
  where "demo_limits = \<lparr>min_position = [Finite (- 1), NegInf], max_position = [Finite 2, PosInf], max_velocity = [PosInf, Finite 1],
    max_acceleration = [Finite 3, Finite 4], max_jerk = [Finite 5, Finite 6], max_torque = [Finite 7, PosInf]\<rparr>"


theorem copy_to_message_behaviour_witness:
  "\<exists>fb'. CopyTo_fbs_JointLimits demo_limits ((new_JointLimits 2)\<lparr>fb_max_velocity := Some [Finite 0]\<rparr>) = Some (kInvalidArgument, fb')"
  using copy_to_message_behaviour[of "(new_JointLimits 2)\<lparr>fb_max_velocity := Some [Finite 0]\<rparr>"
      "(replicate 6 [Finite 0, Finite 0])[2 := [Finite 0]]" demo_limits]
  by (auto simp: vectors_def new_JointLimits_def limit_vectors_def demo_limits_def Let_def numeral_eq_Suc)


theorem joint_limits_roundtrip_witness:
  "\<exists>fb. CopyTo_fbs_JointLimits demo_limits (new_JointLimits 2) = Some (kOk, fb)
    \<and> CopyTo_JointLimits fb JointLimits_default = Some (kOk, demo_limits)"
  using joint_limits_roundtrip[of demo_limits 2 JointLimits_default]
  by (auto simp: demo_limits_def IsSizeConsistent_def JointLimits_size_def)

theorem constructed_limits_valid_witness:
  "\<exists>l. CreateSimpleJointLimits 6 (Finite 3) (Finite 2) PosInf (Finite 1) = Some l \<and> JointLimits_IsValid Finite least_coeff l
    \<and> JointLimits_size l = 6"
  using constructed_limits_valid[OF exact_keeps_sign least_coeff_least, of 6 "Finite 3" "Finite 2" PosInf "Finite 1"] by auto

end
