(* ===== verification/Rt_Queue_Spsc.thy ===== *)
theory Rt_Queue_Spsc
  imports Rt_Queue
begin

text \<open>
  One writer thread and one reader thread on the same \<open>RtQueueBuffer\<close>.

  A step is one access to the state the two threads share: the load of \<open>size_\<close> in \<open>Front\<close> and
  \<open>PrepareInsert\<close>, the update of \<open>size_\<close> in \<open>DropFront\<close> and \<open>FinishInsert\<close>, a store through the
  pointer of \<open>PrepareInsert\<close>, and the updates of \<open>head_\<close> and \<open>tail_\<close> that the other thread cannot
  order with the update of \<open>size_\<close>.  Loads and read-modify-writes of \<open>size_\<close> are sequentially
  consistent.  \<open>sp_sent\<close> and \<open>sp_recv\<close> record the values made available by the writer and
  dropped by the reader; the program does not have them.
\<close>

datatype writer_pc = WIdle | WPrepared nat | WPublishing nat
datatype reader_pc = RIdle | RHolding nat | RDropping

record 'a spsc =
  sp_buf :: "'a RtQueueBuffer"
  sp_wpc :: writer_pc
  sp_rpc :: reader_pc
  sp_sent :: "'a list"
  sp_recv :: "'a list"

text \<open>The two halves of \<open>FinishInsert\<close> and of \<open>DropFront\<close>, split at the access to \<open>size_\<close>.\<close>

definition finish_insert_head :: "'a RtQueueBuffer \<Rightarrow> 'a RtQueueBuffer"
  where "finish_insert_head q =
    q\<lparr>rq_insert_in_progress := False,
      rq_head := size_t_add (rq_head q) 1 mod RtQueueBuffer_Capacity q\<rparr>"

definition drop_front_size :: "'a RtQueueBuffer \<Rightarrow> 'a RtQueueBuffer"
  where "drop_front_size q = DecreaseSize (q\<lparr>rq_front_accessed := False\<rparr>)"

definition drop_front_tail :: "'a RtQueueBuffer \<Rightarrow> 'a RtQueueBuffer"
  where "drop_front_tail q = q\<lparr>rq_tail := size_t_add (rq_tail q) 1 mod RtQueueBuffer_Capacity q\<rparr>"

definition spsc_init :: "'a \<Rightarrow> nat \<Rightarrow> 'a spsc \<Rightarrow> bool"
  where "spsc_init dflt capacity s \<longleftrightarrow> s =
    \<lparr>sp_buf = RtQueueBuffer_new dflt capacity, sp_wpc = WIdle, sp_rpc = RIdle,
     sp_sent = [], sp_recv = []\<rparr>"

inductive spsc_step :: "'a spsc \<Rightarrow> 'a spsc \<Rightarrow> bool"
  where
    prepare: "sp_wpc s = WIdle \<Longrightarrow> RtQueueBuffer_PrepareInsert (sp_buf s) = Some (Some p, b) \<Longrightarrow>
      spsc_step s (s\<lparr>sp_buf := b, sp_wpc := WPrepared p\<rparr>)"
  | prepare_full: "sp_wpc s = WIdle \<Longrightarrow> RtQueueBuffer_PrepareInsert (sp_buf s) = Some (None, b) \<Longrightarrow>
      spsc_step s (s\<lparr>sp_buf := b\<rparr>)"
  | write_cell: "sp_wpc s = WPrepared p \<Longrightarrow>
      spsc_step s (s\<lparr>sp_buf := rq_store p v (sp_buf s)\<rparr>)"
  | finish_head: "sp_wpc s = WPrepared p \<Longrightarrow> rq_insert_in_progress (sp_buf s) \<Longrightarrow>
      spsc_step s (s\<lparr>sp_buf := finish_insert_head (sp_buf s), sp_wpc := WPublishing p\<rparr>)"
  | finish_size: "sp_wpc s = WPublishing p \<Longrightarrow>
      spsc_step s (s\<lparr>sp_buf := IncreaseSize (sp_buf s), sp_wpc := WIdle,
        sp_sent := sp_sent s @ [rq_load p (sp_buf s)]\<rparr>)"
  | front: "sp_rpc s = RIdle \<Longrightarrow> RtQueueBuffer_Front (sp_buf s) = Some (Some p, b) \<Longrightarrow>
      spsc_step s (s\<lparr>sp_buf := b, sp_rpc := RHolding p\<rparr>)"
  | front_empty: "sp_rpc s = RIdle \<Longrightarrow> RtQueueBuffer_Front (sp_buf s) = Some (None, b) \<Longrightarrow>
      spsc_step s (s\<lparr>sp_buf := b\<rparr>)"
  | keep: "sp_rpc s = RHolding p \<Longrightarrow> RtQueueBuffer_KeepFront (sp_buf s) = Some b \<Longrightarrow>
      spsc_step s (s\<lparr>sp_buf := b, sp_rpc := RIdle\<rparr>)"
  | drop_size: "sp_rpc s = RHolding p \<Longrightarrow> rq_front_accessed (sp_buf s) \<Longrightarrow>
      spsc_step s (s\<lparr>sp_buf := drop_front_size (sp_buf s), sp_rpc := RDropping,
        sp_recv := sp_recv s @ [rq_load p (sp_buf s)]\<rparr>)"
  | drop_tail: "sp_rpc s = RDropping \<Longrightarrow>
      spsc_step s (s\<lparr>sp_buf := drop_front_tail (sp_buf s), sp_rpc := RIdle\<rparr>)"

text \<open>
  The sequential queue an interleaved state stands for: the reader's pending update of \<open>tail_\<close> is
  done, the writer's update of \<open>head_\<close> is undone until it has published the element.
\<close>

definition spsc_view :: "'a spsc \<Rightarrow> 'a RtQueueBuffer"
  where "spsc_view s = (sp_buf s)\<lparr>
      rq_tail := (if sp_rpc s = RDropping
                  then size_t_add (rq_tail (sp_buf s)) 1 mod rq_capacity (sp_buf s)
                  else rq_tail (sp_buf s)),
      rq_head := (case sp_wpc s of WPublishing p \<Rightarrow> p | _ \<Rightarrow> rq_head (sp_buf s)),
      rq_insert_in_progress := (sp_wpc s \<noteq> WIdle)\<rparr>"

definition spsc_pcs_ok :: "'a spsc \<Rightarrow> bool"
  where "spsc_pcs_ok s \<longleftrightarrow>
    (case sp_wpc s of
       WIdle \<Rightarrow> \<not> rq_insert_in_progress (sp_buf s)
     | WPrepared p \<Rightarrow> rq_insert_in_progress (sp_buf s) \<and> p = rq_head (sp_buf s)
     | WPublishing p \<Rightarrow> \<not> rq_insert_in_progress (sp_buf s)
         \<and> rq_head (sp_buf s) = size_t_add p 1 mod rq_capacity (sp_buf s))
    \<and> (case sp_rpc s of
       RIdle \<Rightarrow> \<not> rq_front_accessed (sp_buf s)
     | RHolding p \<Rightarrow> rq_front_accessed (sp_buf s) \<and> p = rq_tail (sp_buf s)
     | RDropping \<Rightarrow> \<not> rq_front_accessed (sp_buf s))"

definition spsc_inv :: "nat \<Rightarrow> 'a spsc \<Rightarrow> bool"
  where "spsc_inv capacity s \<longleftrightarrow> spsc_pcs_ok s \<and> rq_wf (spsc_view s)
    \<and> sp_sent s = sp_recv s @ rq_list (spsc_view s) \<and> rq_capacity (sp_buf s) = capacity"

lemmas spsc_defs = spsc_view_def spsc_pcs_ok_def finish_insert_head_def drop_front_size_def
  drop_front_tail_def

subsection \<open>The steps compose to the operations\<close>

lemma finish_insert_split:
  "RtQueueBuffer_FinishInsert q =
    (if rq_insert_in_progress q then Some (IncreaseSize (finish_insert_head q)) else None)"
  by (simp add: RtQueueBuffer_FinishInsert_def finish_insert_head_def RtQueueBuffer_Capacity_def Let_def)

lemma drop_front_split:
  "RtQueueBuffer_DropFront q =
    (if rq_front_accessed q then Some (drop_front_tail (drop_front_size q)) else None)"
  by (simp add: RtQueueBuffer_DropFront_def drop_front_size_def drop_front_tail_def Let_def)

subsection \<open>Every step keeps the invariant\<close>

lemma spsc_view_writer_steps:
  assumes "spsc_pcs_ok s"
  shows "sp_wpc s = WIdle \<Longrightarrow> RtQueueBuffer_PrepareInsert (sp_buf s) = Some (Some p, b) \<Longrightarrow>
      spsc_view (s\<lparr>sp_buf := b, sp_wpc := WPrepared p\<rparr>) = (spsc_view s)\<lparr>rq_insert_in_progress := True\<rparr>
      \<and> rq_size (spsc_view s) \<noteq> rq_capacity (spsc_view s)"
    and "sp_wpc s = WPrepared p \<Longrightarrow>
      spsc_view (s\<lparr>sp_buf := rq_store p v (sp_buf s)\<rparr>) = rq_store (rq_head (spsc_view s)) v (spsc_view s)"
    and "sp_wpc s = WPrepared p \<Longrightarrow>
      spsc_view (s\<lparr>sp_buf := finish_insert_head (sp_buf s), sp_wpc := WPublishing p\<rparr>) = spsc_view s"
    and "sp_wpc s = WPublishing p \<Longrightarrow>
      RtQueueBuffer_FinishInsert (spsc_view s)
      = Some (spsc_view (s\<lparr>sp_buf := IncreaseSize (sp_buf s), sp_wpc := WIdle, sp_sent := xs\<rparr>))
      \<and> rq_head (spsc_view s) = p"
  using assms
  by (auto simp: spsc_defs rq_op_defs Let_def split: if_splits)

lemma spsc_view_reader_steps:
  assumes "spsc_pcs_ok s"
  shows "sp_rpc s = RIdle \<Longrightarrow> RtQueueBuffer_Front (sp_buf s) = Some (Some p, b) \<Longrightarrow>
      spsc_view (s\<lparr>sp_buf := b, sp_rpc := RHolding p\<rparr>) = (spsc_view s)\<lparr>rq_front_accessed := True\<rparr>
      \<and> rq_size (spsc_view s) \<noteq> 0"
    and "sp_rpc s = RHolding p \<Longrightarrow> RtQueueBuffer_KeepFront (sp_buf s) = Some b \<Longrightarrow>
      spsc_view (s\<lparr>sp_buf := b, sp_rpc := RIdle\<rparr>) = (spsc_view s)\<lparr>rq_front_accessed := False\<rparr>"
    and "sp_rpc s = RHolding p \<Longrightarrow>
      RtQueueBuffer_DropFront (spsc_view s)
      = Some (spsc_view (s\<lparr>sp_buf := drop_front_size (sp_buf s), sp_rpc := RDropping, sp_recv := xs\<rparr>))
      \<and> rq_tail (spsc_view s) = p"
    and "sp_rpc s = RDropping \<Longrightarrow>
      spsc_view (s\<lparr>sp_buf := drop_front_tail (sp_buf s), sp_rpc := RIdle\<rparr>) = spsc_view s"
  using assms
  by (auto simp: spsc_defs rq_op_defs Let_def split: if_splits writer_pc.splits)

lemma spsc_step_pcs_ok:
  assumes "spsc_pcs_ok s" "spsc_step s t"
  shows "spsc_pcs_ok t"
  using assms(2,1)
  by (cases rule: spsc_step.cases)
    (auto simp: spsc_defs rq_op_defs Let_def split: if_splits writer_pc.splits reader_pc.splits)

lemma rq_flags_wf:
  assumes "rq_wf q"
  shows "rq_size q \<noteq> rq_capacity q \<Longrightarrow> rq_wf (q\<lparr>rq_insert_in_progress := True\<rparr>)"
    and "rq_size q \<noteq> 0 \<Longrightarrow> rq_wf (q\<lparr>rq_front_accessed := True\<rparr>)"
    and "rq_wf (q\<lparr>rq_front_accessed := False\<rparr>)"
    and "rq_list (q\<lparr>rq_insert_in_progress := b\<rparr>) = rq_list q"
    and "rq_list (q\<lparr>rq_front_accessed := b\<rparr>) = rq_list q"
  using assms by (auto simp: rq_wf_def intro: rq_list_cong)

lemma rq_list_first:
  "rq_wf q \<Longrightarrow> rq_size q \<noteq> 0 \<Longrightarrow> rq_list q = rq_buffer q ! rq_tail q # tl (rq_list q)"
  using rq_front_some(3)[of "q\<lparr>rq_front_accessed := False\<rparr>"]
  by (simp add: rq_flags_wf)

lemma spsc_view_fields [simp]:
  "rq_buffer (spsc_view s) = rq_buffer (sp_buf s)" "rq_size (spsc_view s) = rq_size (sp_buf s)"
  "rq_capacity (spsc_view s) = rq_capacity (sp_buf s)"
  "rq_front_accessed (spsc_view s) = rq_front_accessed (sp_buf s)"
  "rq_insert_in_progress (spsc_view s) = (sp_wpc s \<noteq> WIdle)"
  by (simp_all add: spsc_view_def)

lemma spsc_inv_writer:
  assumes inv: "spsc_inv c s" and step: "spsc_step s t"
    and rpc: "sp_recv t = sp_recv s" "sp_rpc t = sp_rpc s"
  shows "spsc_inv c t"
proof -
  from inv have pcs: "spsc_pcs_ok s" and wf: "rq_wf (spsc_view s)"
    and sent: "sp_sent s = sp_recv s @ rq_list (spsc_view s)" and cap: "rq_capacity (sp_buf s) = c"
    by (auto simp: spsc_inv_def)
  have pcs': "spsc_pcs_ok t" using pcs step by (rule spsc_step_pcs_ok)
  show ?thesis
    using step
  proof (cases rule: spsc_step.cases)
    case (prepare p b)
    have "rq_capacity b = c" using prepare cap by (auto simp: rq_op_defs split: if_splits)
    with spsc_view_writer_steps(1)[OF pcs prepare(2,3)] prepare pcs' wf sent show ?thesis
      by (simp add: spsc_inv_def rq_flags_wf)
  next
    case (write_cell p v)
    have "rq_size (spsc_view s) < rq_capacity (spsc_view s)" using wf write_cell by (simp add: rq_wf_def)
    with spsc_view_writer_steps(2)[OF pcs write_cell(2)] write_cell pcs' wf sent cap show ?thesis
      by (simp add: spsc_inv_def rq_list_store_head)
  next
    case (finish_head p)
    have "rq_capacity (finish_insert_head (sp_buf s)) = c" using cap by (simp add: finish_insert_head_def)
    with spsc_view_writer_steps(3)[OF pcs finish_head(2)] finish_head pcs' wf sent cap show ?thesis
      by (simp add: spsc_inv_def)
  next
    case (finish_size p)
    have "rq_capacity (IncreaseSize (sp_buf s)) = c" using cap by (simp add: IncreaseSize_def)
    with rq_finish_insert[OF wf] spsc_view_writer_steps(4)[OF pcs finish_size(2)] finish_size pcs' sent
    show ?thesis by (auto simp: spsc_inv_def rq_load_def)
  qed (use inv rpc in \<open>auto simp: rq_op_defs split: if_splits\<close>)
qed

lemma spsc_inv_reader:
  assumes inv: "spsc_inv c s" and step: "spsc_step s t" and rpc: "sp_rpc t \<noteq> sp_rpc s"
  shows "spsc_inv c t"
proof -
  from inv have pcs: "spsc_pcs_ok s" and wf: "rq_wf (spsc_view s)"
    and sent: "sp_sent s = sp_recv s @ rq_list (spsc_view s)" and cap: "rq_capacity (sp_buf s) = c"
    by (auto simp: spsc_inv_def)
  have pcs': "spsc_pcs_ok t" using pcs step by (rule spsc_step_pcs_ok)
  show ?thesis
    using step
  proof (cases rule: spsc_step.cases)
    case (front p b)
    have "rq_capacity b = c" using front cap by (auto simp: rq_op_defs split: if_splits)
    with spsc_view_reader_steps(1)[OF pcs front(2,3)] front pcs' wf sent show ?thesis
      by (simp add: spsc_inv_def rq_flags_wf)
  next
    case (keep p b)
    have "rq_capacity b = c" using keep cap by (auto simp: rq_op_defs split: if_splits)
    with spsc_view_reader_steps(2)[OF pcs keep(2,3)] keep pcs' wf sent show ?thesis
      by (simp add: spsc_inv_def rq_flags_wf)
  next
    case (drop_size p)
    have acc: "rq_front_accessed (spsc_view s)" "rq_size (spsc_view s) \<noteq> 0"
      using drop_size(3) wf by (auto simp: rq_wf_def)
    have "rq_capacity (drop_front_size (sp_buf s)) = c"
      using cap by (simp add: drop_front_size_def DecreaseSize_def)
    moreover have "rq_list (spsc_view s) = rq_load p (sp_buf s) # tl (rq_list (spsc_view s))"
      using rq_list_first[OF wf acc(2)] spsc_view_reader_steps(3)[OF pcs drop_size(2)]
      by (simp add: rq_load_def)
    ultimately show ?thesis
      using rq_drop_front[OF wf acc(1)] spsc_view_reader_steps(3)[OF pcs drop_size(2)] drop_size
        pcs' sent
      by (auto simp: spsc_inv_def)
  next
    case drop_tail
    have "rq_capacity (drop_front_tail (sp_buf s)) = c" using cap by (simp add: drop_front_tail_def)
    with spsc_view_reader_steps(4)[OF pcs drop_tail(2)] drop_tail pcs' wf sent cap show ?thesis
      by (simp add: spsc_inv_def)
  qed (use rpc in auto)
qed

lemma spsc_step_recv: "spsc_step s t \<Longrightarrow> sp_rpc t = sp_rpc s \<Longrightarrow> sp_recv t = sp_recv s"
  by (cases rule: spsc_step.cases) auto

lemma spsc_inv_init: "c < 2 ^ 64 \<Longrightarrow> spsc_init d c s \<Longrightarrow> spsc_inv c s"
  by (auto simp: spsc_init_def spsc_inv_def spsc_defs RtQueueBuffer_new_def rq_wf_def rq_list_def)

lemma spsc_inv_step: "spsc_inv c s \<Longrightarrow> spsc_step s t \<Longrightarrow> spsc_inv c t"
  using spsc_inv_writer spsc_inv_reader spsc_step_recv by metis

text \<open>The capacity of a queue that \<open>make_unique\<close> can allocate is a \<open>size_t\<close>.\<close>

interpretation spsc: inductive_invariant
  "\<lambda>s. c < 2 ^ 64 \<and> spsc_init d c s" spsc_step "spsc_inv c" for d c
  by unfold_locales (elim conjE, erule spsc_inv_init, assumption, rule spsc_inv_step)

lemmas spsc_reach_inv = spsc.reach_inv[OF reach_conj_init]

lemma spsc_holding:
  assumes "spsc_inv c s" "sp_rpc s = RHolding p"
  shows "length (sp_recv s) < length (sp_sent s)"
    and "rq_load p (sp_buf s) = sp_sent s ! length (sp_recv s)"
    and "sp_wpc s = WPrepared p' \<Longrightarrow> p \<noteq> p'"
proof -
  from assms(1) have inv: "spsc_pcs_ok s" "rq_wf (spsc_view s)"
    "sp_sent s = sp_recv s @ rq_list (spsc_view s)"
    by (auto simp: spsc_inv_def)
  from assms(2) have acc: "rq_size (spsc_view s) \<noteq> 0" and tail: "rq_tail (spsc_view s) = p"
    using inv(1,2) by (auto simp: spsc_defs rq_wf_def)
  from rq_list_first[OF inv(2) acc] tail
  have list: "rq_list (spsc_view s) = rq_load p (sp_buf s) # tl (rq_list (spsc_view s))"
    by (simp add: rq_load_def)
  show "length (sp_recv s) < length (sp_sent s)" using inv(3) acc by simp
  show "rq_load p (sp_buf s) = sp_sent s ! length (sp_recv s)"
    using inv(3) list by (metis nth_append_length)
  assume prep: "sp_wpc s = WPrepared p'"
  then have "rq_size (spsc_view s) < rq_capacity (spsc_view s)" and head: "rq_head (spsc_view s) = p'"
    using inv(1,2) by (auto simp: spsc_defs rq_wf_def)
  then show "p \<noteq> p'"
    using rq_head_free[OF inv(2), of 0] acc tail head rq_tail_less[OF inv(2)] by auto
qed

text \<open>C7: For one writer and one reader thread, in every interleaving of their accesses: the
  values the reader has removed are a prefix of the values the writer has made available, in the same
  order, and what is left between them is what the buffer holds, never more than its capacity.  While
  the reader holds a pointer from \<open>Front\<close>, it points to the oldest value not yet removed, and the
  writer's pointer from \<open>PrepareInsert\<close> is a different cell, so neither thread sees a half-written
  element.\<close>
theorem spsc_fifo_and_race_freedom:
  assumes "reach (spsc_init d c) spsc_step s" "c < 2 ^ 64"
  shows "sp_sent s = sp_recv s @ rq_list (spsc_view s)
    \<and> length (rq_list (spsc_view s)) = RtQueueBuffer_Size (sp_buf s)
    \<and> RtQueueBuffer_Size (sp_buf s) \<le> c
    \<and> (\<forall>p. sp_rpc s = RHolding p \<longrightarrow>
          length (sp_recv s) < length (sp_sent s)
          \<and> rq_load p (sp_buf s) = sp_sent s ! length (sp_recv s) \<and> sp_wpc s \<noteq> WPrepared p)"
proof -
  note inv = spsc_reach_inv[OF assms]
  then have "sp_sent s = sp_recv s @ rq_list (spsc_view s)"
    "length (rq_list (spsc_view s)) = RtQueueBuffer_Size (sp_buf s)"
    "RtQueueBuffer_Size (sp_buf s) \<le> c"
    by (auto simp: spsc_inv_def RtQueueBuffer_Size_def rq_wf_def)
  moreover have "length (sp_recv s) < length (sp_sent s)
      \<and> rq_load p (sp_buf s) = sp_sent s ! length (sp_recv s) \<and> sp_wpc s \<noteq> WPrepared p"
    if "sp_rpc s = RHolding p" for p
    using spsc_holding[OF inv that] by metis
  ultimately show ?thesis by simp
qed

lemma spsc_example_run:
  "\<exists>s. reach (spsc_init (0::nat) 1) spsc_step s \<and> sp_sent s = [7] \<and> sp_rpc s = RHolding 0
     \<and> sp_recv s = []"
proof -
  let ?s0 = "\<lparr>sp_buf = RtQueueBuffer_new (0::nat) 1, sp_wpc = WIdle, sp_rpc = RIdle,
    sp_sent = [], sp_recv = []\<rparr>"
  let ?R = "reach (spsc_init (0::nat) 1) spsc_step"
  have "?R ?s0" by (rule reach_init) (simp add: spsc_init_def)
  note reach_step[OF this prepare]
  note this[of 0 "(sp_buf ?s0)\<lparr>rq_insert_in_progress := True\<rparr>"]
  then have "?R (?s0\<lparr>sp_buf := (sp_buf ?s0)\<lparr>rq_insert_in_progress := True\<rparr>, sp_wpc := WPrepared 0\<rparr>)"
    by (simp add: rq_op_defs RtQueueBuffer_new_def)
  note reach_step[OF this write_cell[of _ 0 7]]
  note reach_step[OF this finish_head[of _ 0]]
  note reach_step[OF this finish_size[of _ 0]]
  note s4 = this
  let ?b = "\<lparr>rq_insert_in_progress = False, rq_head = 0, rq_front_accessed = True, rq_tail = 0,
     rq_size = 1, rq_capacity = 1, rq_buffer = [7::nat]\<rparr>"
  have "?R \<lparr>sp_buf = ?b\<lparr>rq_front_accessed := False\<rparr>, sp_wpc = WIdle, sp_rpc = RIdle, sp_sent = [7],
      sp_recv = []\<rparr>"
    using s4 by (simp add: rq_op_defs finish_insert_head_def RtQueueBuffer_new_def)
  from reach_step[OF this front[of _ 0 ?b]]
  have "?R \<lparr>sp_buf = ?b, sp_wpc = WIdle, sp_rpc = RHolding 0, sp_sent = [7], sp_recv = []\<rparr>"
    by (simp add: rq_op_defs)
  then show ?thesis by fastforce
qed

theorem spsc_fifo_and_race_freedom_witness:
  "\<exists>s. reach (spsc_init (0::nat) 1) spsc_step s \<and> rq_list (spsc_view s) = [7] \<and> rq_load 0 (sp_buf s) = 7"
proof -
  from spsc_example_run obtain s where
    s: "reach (spsc_init (0::nat) 1) spsc_step s" "sp_sent s = [7]" "sp_rpc s = RHolding 0" "sp_recv s = []"
    by blast
  from spsc_fifo_and_race_freedom[OF s(1)] s show ?thesis by auto
qed

end
