(* ===== verification/Spec2Isabelle.thy ===== *)
theory Spec2Isabelle
  imports Module_Service Realtime_Clock_Props Joint_Limits_Props Rt_Queue_Spsc
begin

text \<open>
  A verification development for the shared memory library of the ICON robot control framework (C++20, under \<open>src/\<close>).

  \<^bold>\<open>The program.\<close>  A hardware module is a process that drives a robot; ICON is the process that controls it.  The module
  puts typed messages (\<^emph>\<open>hardware interfaces\<close>) into shared memory segments, passes the descriptors of the segments to
  ICON over a domain socket, and is commanded through pairs of futexes in further segments (\<^emph>\<open>remote triggers\<close>).  The
  triggers run the callbacks of a handler that owns the state machine of the module.  Realtime and other threads of a
  process talk through a lock-free queue, a triple buffer, and promises and futures; a clock in shared memory can hand the
  control cycle from the module to ICON.

  \<^bold>\<open>How the code is modelled.\<close>  A class is a record and its methods are functions on it; a method that changes its object
  returns the changed object.  A result \<open>None\<close> of a type \<open>checked\<close> is a failed check, an access through a pointer that is
  not valid, or a wait that never ends; so a theorem with a result \<open>Some\<close> excludes all of them.  Functions that return
  \<open>Status\<close> return its code unless the text matters.  Objects that are shared by pointers live in explicit stores: the
  contexts of promises (\<open>ctx_heap\<close>) and the files, descriptors and mappings of the operating system (\<open>os\<close>).  Where threads
  interleave, a step relation has one step per atomic access, and \<open>reach\<close> with the locale \<open>inductive_invariant\<close> of
  \<open>Prelude\<close> is the proof rule.  Loops that may not end are \<open>partial_function (option)\<close>; no definition has fuel, and that a
  loop ends is a theorem wherever it is used.  Integers have their width where they can wrap: the words of the futexes, the
  update counters, and \<open>size_t\<close> indices of the queue; times are unbounded integers of nanoseconds.

  \<^bold>\<open>Theories\<close>, from the bottom to the top.
  \<^item> \<open>Prelude\<close>, \<open>Status\<close>, \<open>Fixed_String\<close>: shared vocabulary; status values with their fixed message arrays
    (\<open>icon/utils/status.h\<close>, \<open>status_helpers.h\<close>); strings in flatbuffer arrays and the message of the module state
    (\<open>icon/flatbuffers\<close>, \<open>hardware_module_state_utils.cc\<close>).
  \<^item> \<open>Async_Buffer\<close> (\<open>icon/utils/async_buffer.h\<close>): the triple buffer.  In every interleaving of producer and consumer the
    three slots stay distinct and the consumer gets the latest committed value.
  \<^item> \<open>Rt_Queue\<close>, \<open>Rt_Queue_Spsc\<close> (\<open>platform/common/buffers\<close>): the ring buffer is a bounded list (locale \<open>bounded_fifo\<close>),
    also between one reader and one writer thread, without data races.
  \<^item> \<open>Binary_Futex\<close> (\<open>icon/interprocess/binary_futex.{h,cc}\<close>, \<open>lockable_binary_futex.h\<close>): what waits return on every value
    and answer of the system call, exact deadlines, tokens, mutual exclusion of the lock.
  \<^item> \<open>Lockstep\<close> (\<open>util/thread/lockstep.{h,cc}\<close>): two operations alternate and exclude each other for any number of threads;
    the one that is due can start; a cancellation can be lost.
  \<^item> \<open>Rt_Promise\<close>, \<open>Async_Request\<close> (\<open>rt_promise.h\<close>, \<open>icon/utils/async_request.h\<close>): a promise and a future refine a cell
    with a cancel flag; replies reach their requests.
  \<^item> \<open>Transition_Guard\<close>, \<open>Callback_Handler\<close>, \<open>Handler_Wf\<close>, \<open>Handler_Props\<close> (\<open>icon/hal/hardware_module_util.{h,cc}\<close>,
    \<open>CallbackHandler\<close> in \<open>hardware_module_runtime.cc\<close>): for every user module and every history of calls, no call aborts or
    hangs, the state only changes as the guard allows, the hooks and commands of the module are called as documented, and
    every pending request is answered.
  \<^item> \<open>Segment_Header\<close>, \<open>Posix\<close>, \<open>Shared_Memory\<close>, \<open>Shared_Memory_Props\<close> (\<open>icon/interprocess/shared_memory_manager\<close>): the
    operating system as a state with calls that may fail at any time; the manager that creates segments and the handles
    that open them.  Adding and opening on every path; reference counts are the numbers of handles.
  \<^item> \<open>Domain_Socket\<close>, \<open>Domain_Socket_Server\<close>, \<open>Domain_Server_Props\<close>, \<open>Domain_Socket_Props\<close> (\<open>domain_socket_*.{h,cc}\<close>): one
    server per socket, clean failures, termination; the messages arrive in whatever pieces they are delivered.
  \<^item> \<open>Hardware_Interface\<close>, \<open>Hardware_Interface_Props\<close> (\<open>icon/hal/hardware_interface_*.h\<close>, \<open>get_hardware_interface.h\<close>):
    interfaces open only with their type, and strict handles refuse stale values (locale \<open>segment_provider\<close>).
  \<^item> \<open>Joint_Limits\<close>, \<open>Joint_Limits_Props\<close> (\<open>kinematics/types\<close>, \<open>joint_*_utils.cc\<close>): validity, constructors, and the copies
    to and from messages with their size checks.
  \<^item> \<open>Shared_Object\<close>: objects in segments (locale \<open>shm_object\<close> with an interpretation for each of the three classes).
  \<^item> \<open>Realtime_Clock\<close>, \<open>Realtime_Clock_Props\<close> (\<open>icon/hal/realtime_clock.{h,cc}\<close>, \<open>shared_memory_lockstep\<close>): a control cycle
    sees the timestamp of its tick in every interleaving; ticks, errors and the recovery by \<open>Reset\<close>.
  \<^item> \<open>Remote_Trigger\<close>, \<open>Remote_Trigger_Props\<close> (\<open>icon/interprocess/remote_trigger\<close>): a request runs its callback once and is
    answered after it; the server thread ends when it is stopped.
  \<^item> \<open>Hardware_Module_Runtime\<close>, \<open>Runtime_Props\<close> (\<open>icon/hal/hardware_module_runtime.{h,cc}\<close>, \<open>thread_options.h\<close>,
    \<open>icon/utils/cleanup.h\<close>): connecting, running, stopping and destroying the runtime, thread preludes, restart requests.
  \<^item> \<open>Module_Service\<close> and this theory: properties that span the parts, namely an interface used by a client in another
    process, and the thread that serves requests for state changes.

  \<^bold>\<open>Parameters.\<close>  Code outside of \<open>src/\<close> is an argument: the user module (\<open>module_env\<close>, \<open>re_Init\<close>, \<open>re_Shutdown\<close>), the
  flatbuffers library (\<open>interface_type\<close> and the \<open>finish\<close> arguments), the pthread calls, the rounding of doubles and Eigen's
  \<open>minCoeff\<close>, the iteration order of hash maps, the futex system call and the clocks (\<open>wait_env\<close>), and which system calls
  fail (\<open>sys_env\<close>).  Each property with a hypothesis on them has a witness that instantiates them.

  \<^bold>\<open>Bounds.\<close>  \<open>sizeof\<close> of the header (256 bytes) and of the shared classes are those of a 64 bit Linux; 300 segments, names
  below 255 characters, 200 descriptors per message, 10 pending requests and 25 joints are the constants of the code.

  \<^bold>\<open>Not modelled.\<close>  Log output, formatting of texts (\<open>format.h\<close>, \<open>strerror.h\<close>, \<open>time.cc\<close>,
  \<open>FormatControlPeriodMismatchError\<close>): output only.  Macros and attributes (\<open>check.h\<close>, \<open>attributes.h\<close>, the macros for early
  returns), which are expanded where they are used; \<open>mutex.h\<close>, whose critical sections are atomic operations of the model.
  Memory orders weaker than sequential consistency.  Test utilities (\<open>status_matchers.h\<close>, \<open>mock_log_sink.h\<close>).  Type aliases
  for Eigen and message schemas without code (\<open>eigenmath/types.h\<close>, \<open>transform_types.fbs\<close>).
\<close>

definition demo_servers :: "server_id \<Rightarrow> server_id RemoteTriggerServer option"
  where "demo_servers i = Some (RemoteTriggerServer_new (server_name i) (rts_request_futex (trigger_demo False))
    (rts_response_futex (trigger_demo False)) i)"

text \<open>C1: An interface works across processes.  A module advertises an interface in its manager and serves the
  descriptors of its segments; a client in another process connects, gets all messages in whatever pieces the socket
  delivers them, and opens the interface by its name for writing.  It reads the message the module advertised, and what
  it writes is what the manager of the module reads through its own mapping.  The hypotheses on code outside of the
  sources are that system calls do not fail, that hash maps are iterated in some order, that the flatbuffers verifier
  accepts the buffer its builder made, and that a mutator keeps the length of the buffer.\<close>
theorem interface_across_processes:
  assumes wf: "os_wf s" "smm_wf m s" and inv: "handle_inv (smm_fd_map m) [] s" and env: "never_fails env"
    and ok: "rejects name (it_type_string T) m = kOk" and new: "kModuleInfoName \<notin> insert name (fst ` set (smm_segments m))"
    and names: "\<forall>n \<in> insert name (fst ` set (smm_segments m)). no_nul n" and room: "Suc (length (smm_segments m)) < kMaxNumberOfSegments"
    and sz: "0 < it_sizeof T" "it_sizeof T \<le> length buffer" and fb: "it_is_table T \<longrightarrow> it_verify T buffer"
    and mutate: "length (it_mutate T x buffer) = length buffer"
    and order: "\<forall>xs. mset (order xs) = mset xs" "\<forall>fm. mset (fd_order fm) = mset fm"
    and d: "\<not> dss_request_handler d" "dss_protocol_version d = kDomainSocketProtocolVersion" and rlim: "length (smm_segments m) + 2 < rlim"
    and client: "sends_all sends" "AbsoluteSocketPath dir module_name = Inr path" "\<forall>i. re_chunk renv i \<noteq> None"
      "length (smm_segments m) + 3 \<le> re_limit renv"
  shows "\<exists>m1 s1 m2 d2 s2 fm c1 ms c2 c3.
      AdvertiseInterfaceT env name False buffer (it_type_string T) m s = Some (kOk, m1, s1)
    \<and> AddSegmentInfoServeShmDescriptors order fd_order env rlim True m1 d s1 = Some (kOk, m2, d2, s2)
    \<and> GetSegmentNameToFileDescriptorMap env renv (serve_client sends 0 (dss_messages d2) s2) dir module_name timeout (fresh_process s2)
        = Some (Inr fm, c1)
    \<and> GetMutableInterfaceHandle env T fm name c1 = Some (Inr ms, c2)
    \<and> handle_read T ms c2 = Some (it_root T buffer)
    \<and> handle_write T x ms c2 = Some c3
    \<and> GetSegmentValue (length buffer) name m2 (s2\<lparr>os_files := os_files c3\<rparr>) = Some (Some (it_mutate T x buffer))"
proof -
  let ?tid = "it_type_string T" and ?i = "length (os_files s)"
  have tid: "length ?tid \<le> kMaxSize" using ok by (auto simp: rejects_def split: if_splits)
  obtain m1 s1 where a: "AddSegment env name False buffer ?tid m s = Some (kOk, m1, s1)"
    "os_wf s1" "smm_wf m1 s1" "handle_inv (smm_fd_map m1) [] s1"
    "fst ` set (smm_segments m1) = insert name (fst ` set (smm_segments m))"
    "length (smm_segments m1) = Suc (length (smm_segments m))"
    "map f_payload (os_files s1) = map f_payload (os_files s) @ [buffer]"
    "map f_size (os_files s1) = map f_size (os_files s) @ [sizeof_SegmentHeader + length buffer]"
    "names_file m1 name s1 ?i" "f_header (os_files s1 ! ?i) = Some (SegmentHeader_new ?tid)"
    by (rule add_named[OF wf inv env ok, of False buffer]) blast
  have adv: "AdvertiseInterfaceT env name False buffer ?tid m s = Some (kOk, m1, s1)"
    using Advertise_cases[OF wf, of env name False buffer ?tid] a(1) by simp
  obtain m2 d2 s2 where b: "AddSegmentInfoServeShmDescriptors order fd_order env rlim True m1 d s1 = Some (kOk, m2, d2, s2)"
    "os_wf s2" "smm_wf m2 s2" "handle_inv (smm_fd_map m2) [] s2"
    "PrepareMessages (dss_protocol_version d) (fd_order (smm_fd_map m2)) = Inr (dss_messages d2)"
    "fst ` set (smm_segments m2) = insert kModuleInfoName (fst ` set (smm_segments m1))"
    "length (smm_segments m2) = Suc (length (smm_segments m1))" "names_file m2 name s2 ?i"
    "take (length (os_files s1)) (os_files s2) = os_files s1"
    by (rule serve_ok[OF a(2-4) env, of order fd_order d rlim]) (use order a(5,6,9) new room d rlim in auto)
  have l1: "length (os_files s1) = Suc ?i" using arg_cong[OF a(7), of length] by simp
  have i2: "os_files s2 ! ?i = os_files s1 ! ?i" "?i < length (os_files s2)"
    using arg_cong[OF b(9), of "\<lambda>xs. xs ! ?i"] arg_cong[OF b(9), of length] l1 by simp_all
  have g: "f_payload (os_files s2 ! ?i) = buffer" "f_size (os_files s2 ! ?i) = sizeof_SegmentHeader + length buffer"
    "header_id (os_files s2 ! ?i) = Some (ExpectedVersion, TypeInfo_new ?tid, 0)"
    using arg_cong[OF a(7), of "\<lambda>xs. xs ! ?i"] arg_cong[OF a(8), of "\<lambda>xs. xs ! ?i"] l1 i2 a(10)
    by (simp_all add: nth_append header_id_def SegmentHeader_new_def)
  have ne: "smm_segments m2 \<noteq> []" using b(7) by auto
  have nul: "\<forall>n \<in> fst ` set (smm_segments m2). no_nul n"
    unfolding b(6) a(5) using names by (simp add: kModuleInfoName_def)
  have lim: "Suc (length (smm_segments m2)) \<le> re_limit renv" using client(4) a(6) b(7) by simp
  obtain fm c1 where r: "GetSegmentNameToFileDescriptorMap env renv (serve_client sends 0 (dss_messages d2) s2) dir module_name timeout (fresh_process s2)
      = Some (Inr fm, c1)" "handle_inv fm [] c1" "os_files c1 = os_files s2"
    "\<And>n i. names_file m2 n s2 i \<Longrightarrow> \<exists>fd. map_of fm n = Some fd \<and> map_of (os_fds c1) fd = Some (Memfd i)"
    by (rule client_gets_segments[OF b(2-4) ne nul spec[OF order(2)] b(5)[unfolded d(2)] client(1) env client(2,3) lim, of timeout]) blast
  obtain fd where fd: "map_of fm name = Some fd" "map_of (os_fds c1) fd = Some (Memfd ?i)" using r(4)[OF b(8)] by blast
  have p: "sizeof_SegmentHeader + it_sizeof T \<le> f_size (os_files c1 ! ?i)"
    "header_id (os_files c1 ! ?i) = Some (ExpectedVersion, TypeInfo_new ?tid, 0)" "TypeID (TypeInfo_new ?tid) = it_type_string T"
    "it_is_table T \<longrightarrow> it_verify T (take (f_size (os_files c1 ! ?i) - sizeof_SegmentHeader) (f_payload (os_files c1 ! ?i)))"
    unfolding r(3) g using sz fb tid by (simp_all add: TypeID_new)
  obtain ms c2 where o: "Option.bind (TypedMemorySegment_Get kReadWrite env (it_sizeof T) fm name c1)
      (\<lambda>(segment, s1). case segment of Inl e \<Rightarrow> Some (Inl e, s1) | Inr ms \<Rightarrow> check_segment env T ms s1) = Some (Inr ms, c2)"
    "handle_inv fm [ms] c2" "map_of (os_maps c2) (ms_header ms) = Some ?i" "ms_value ms = ms_header ms + sizeof_SegmentHeader"
    "load_payload (ms_value ms) c2 = Some buffer" "map f_payload (os_files c2) = map f_payload (os_files s2)"
    by (rule open_advertised[OF r(2) _ env disjI2[OF refl] fd sz(1) p, unfolded r(3) g]) auto
  have len: "length (os_files c2) = length (os_files s2)" using o(6) by (rule map_eq_imp_length_eq)
  have pay: "f_payload (os_files c2 ! ?i) = buffer" using arg_cong[OF o(6), of "\<lambda>xs. xs ! ?i"] len i2 g(1) by simp
  let ?c3 = "c2\<lparr>os_files := (os_files c2)[?i := (os_files c2 ! ?i)\<lparr>f_payload := it_mutate T x buffer\<rparr>]\<rparr>"
  have w: "handle_write T x ms c2 = Some ?c3"
    using o(3-5) len i2 pay mutate
    by (simp add: handle_write_def store_payload_def mapped_file_def memcpy_prefix_def Let_def)
  have "GetSegmentValue (length buffer) name m2 (s2\<lparr>os_files := os_files ?c3\<rparr>) = Some (Some (it_mutate T x buffer))"
    using named_value[OF b(2,3,8), of "os_files ?c3"] len i2 mutate by simp
  moreover have "GetMutableInterfaceHandle env T fm name c1 = Some (Inr ms, c2)"
    using o(1) by (simp add: GetMutableInterfaceHandle_def ReadWriteMemorySegment_Get_def)
  moreover have "handle_read T ms c2 = Some (it_root T buffer)" using o(5) by (simp add: handle_read_def)
  ultimately show ?thesis using adv b(1) r(1) w by blast
qed

theorem interface_across_processes_witness:
  "\<exists>m1 s1 m2 d2 s2 fm c1 ms c2 c3.
      AdvertiseInterfaceT ok_env ''joints'' False [7] ''bytes'' empty_manager os_init = Some (kOk, m1, s1)
    \<and> AddSegmentInfoServeShmDescriptors id id ok_env 1024 True m1 demo_server s1 = Some (kOk, m2, d2, s2)
    \<and> GetSegmentNameToFileDescriptorMap ok_env demo_recv (serve_client (\<lambda>_. Sent kExpectedBytes) 0 (dss_messages d2) s2)
        ''/tmp'' ''arm'' 1 (fresh_process s2) = Some (Inr fm, c1)
    \<and> GetMutableInterfaceHandle ok_env byte_type fm ''joints'' c1 = Some (Inr ms, c2)
    \<and> handle_read byte_type ms c2 = Some 7 \<and> handle_write byte_type 9 ms c2 = Some c3
    \<and> GetSegmentValue 1 ''joints'' m2 (s2\<lparr>os_files := os_files c3\<rparr>) = Some (Some [9])"
proof -
  have t: "it_type_string byte_type = ''bytes''" "it_sizeof byte_type = 1" "\<not> it_is_table byte_type" "it_mutate byte_type 9 [7] = [9]"
    "it_root byte_type [7] = 7" by (simp_all add: byte_type_def)
  have pre: "rejects ''joints'' (it_type_string byte_type) empty_manager = kOk"
    "kModuleInfoName \<notin> insert ''joints'' (fst ` set (smm_segments empty_manager))"
    "\<forall>n \<in> insert ''joints'' (fst ` set (smm_segments empty_manager)). no_nul n"
    "Suc (length (smm_segments empty_manager)) < kMaxNumberOfSegments"
    "0 < it_sizeof byte_type" "it_sizeof byte_type \<le> length [7 :: u8]" "it_is_table byte_type \<longrightarrow> it_verify byte_type [7]"
    "length (it_mutate byte_type 9 [7]) = length [7 :: u8]"
    "\<not> dss_request_handler demo_server" "dss_protocol_version demo_server = kDomainSocketProtocolVersion"
    "length (smm_segments empty_manager) + 2 < 1024" "sends_all (\<lambda>_. Sent kExpectedBytes)" "\<forall>i. re_chunk demo_recv i \<noteq> None"
    "length (smm_segments empty_manager) + 3 \<le> re_limit demo_recv"
    using t by (simp_all add: rejects_def empty_manager_def kModuleInfoName_def kMaxNumberOfSegments_def kMaxSize_def VerifyName_def
        kMaxSegmentStringSize_def demo_server_def DomainSocketServer_new_def kDomainSocketProtocolVersion_def demo_recv_def sends_all_def)
  have order: "\<forall>xs. mset (id xs) = mset xs" "\<forall>fm. mset (id fm) = mset (fm :: fd_map)" by simp_all
  show ?thesis
    using interface_across_processes[where order = id and fd_order = id and timeout = 1, OF os_wf_init empty_manager_wf empty_inv ok_env_never_fails pre(1-8) order pre(9-12) arm_socket_path pre(13,14)]
    unfolding t by simp
qed

text \<open>C2: The thread of the runtime that queries the servers for state changes is safe and ends.  Whatever requests
  clients post, whatever calls other threads make on the callback handler between and within the actions, and however the
  waits on the futexes end, the thread returns after a request to stop, the log of the handler satisfies the monitor of
  its callbacks, the state in shared memory is the state of the handler, and the futexes of all servers are intact.\<close>
theorem state_change_thread_safe:
  assumes new: "hms_code shm = kDeactivated" "CallbackHandler_new env shm w = Some h0" "wait_expires (me_wait env 0)"
    and acts: "\<forall>i. list_all (Not \<circ> takes_lock) (acts i 0 @ acts i 1 @ acts i 2)" and ops: "\<forall>k i. list_all feasible (ops k i)"
    and mem: "\<forall>k i s. futexes_kept s (mem k i s)"
    and servers: "\<forall>i \<in> set query_order. \<exists>sv. servers i = Some sv \<and> rts_callback sv = Some i \<and> served sv (req i) (res i) s"
    and wait: "\<And>k i ts. \<exists>n. wait_stops (we_futex (wenv k i) ts n kReady)" and stop: "stop n"
  shows "\<exists>h s'. state_change_loop (on_handler env acts) stop (other_threads env ops mem) wenv time 0 servers (h0, s) = Some (h, s')
    \<and> monitor kDeactivated False (ch_log h) = Some (ch_state_code h, ch_state_code h = kMotionEnabled)
    \<and> hms_code (ch_shm_state h) = ch_state_code h \<and> futexes_kept s s'"
proof -
  let ?P = "\<lambda>h. sound {} False h \<and> balanced h"
  have P0: "?P (fst (h0, s))" using CallbackHandler_new_sound[OF new(1), of env w] new(2) by auto
  have call: "\<exists>u1. on_handler env acts i (u, s) = Some (u1, s) \<and> ?P u1" if "?P u" for i u s
    using server_callback_ok[OF conjunct1[OF that] conjunct2[OF that] new(3) acts[rule_format, of i], of i]
    by (auto simp: on_handler_def)
  have peer: "\<exists>u1 s1. other_threads env ops mem k i (u, s) = Some (u1, s1) \<and> ?P u1 \<and> futexes_kept s s1" if u: "?P u" for k i u s
  proof -
    from exec_all_sound[OF ops[rule_format, of k i] conjunct1[OF u] new(3)] obtain h where
      h: "exec_all env (ops k i) u = Some h" "sound {} False h" by (auto simp: returns_def)
    then show ?thesis using exec_all_balanced[OF conjunct2[OF u] h(1)] mem by (auto simp: other_threads_def)
  qed
  have at: "\<forall>i \<in> set query_order. \<exists>sv. servers i = Some sv \<and> rts_callback sv = Some i \<and> served sv (req i) (res i) (snd (h0, s))"
    using servers by simp
  from state_change_loop_kept[where P = ?P and call = "on_handler env acts" and peer = "other_threads env ops mem" and wenv = wenv
      and stop = stop and w = "(h0, s)" and k = 0 and time = time, OF at wait P0 call peer stop] show ?thesis
    by (fastforce simp: sound_def coherent_def traced_def)
qed

theorem state_change_thread_safe_witness:
  "\<exists>h0 h s'. CallbackHandler_new fine_module HardwareModuleState_default 0 = Some h0
    \<and> state_change_loop (on_handler fine_module (\<lambda>_ _. [OpReadStatus])) (\<lambda>k. 2 \<le> k)
        (other_threads fine_module (\<lambda>_ _. [OpActivate]) (\<lambda>_ _ s. s)) (\<lambda>_ _. expired_env) int 0 demo_servers
        (h0, trigger_demo_os kPosted) = Some (h, s')
    \<and> monitor kDeactivated False (ch_log h) = Some (ch_state_code h, ch_state_code h = kMotionEnabled)"
proof -
  obtain h0 where h0: "CallbackHandler_new fine_module HardwareModuleState_default 0 = Some h0" by (rule fine_module_new)
  have pre: "\<forall>i. list_all (Not \<circ> takes_lock) ([OpReadStatus] @ [OpReadStatus] @ [OpReadStatus])"
    "\<forall>k i. list_all feasible [OpActivate]" "\<forall>k i s. futexes_kept s s"
    "\<exists>n. wait_stops (we_futex expired_env ts n kReady)" for ts
    by (simp_all add: wait_stops_def expired_env_def)
  have at: "\<forall>i \<in> set query_order. \<exists>sv. demo_servers i = Some sv \<and> rts_callback sv = Some i \<and> served sv 0 1 (trigger_demo_os kPosted)"
    using trigger_demo_at[of False kPosted] unfolding demo_servers_def served_def server_at_def RemoteTriggerServer_new_def by auto
  from state_change_thread_safe[OF fine_module_shm h0 fine_module_waits, of "\<lambda>_ _. [OpReadStatus]" "\<lambda>_ _. [OpActivate]" "\<lambda>_ _ s. s",
      OF pre(1-3) at pre(4), of "\<lambda>k. 2 \<le> k" 2 int]
  show ?thesis using h0 by auto
qed

end
